(* ===== verification/Prelude.thy ===== *)
theory Prelude
  imports Main "HOL-Library.AList" "HOL-Library.Sublist"
begin

text \<open>
  Shared vocabulary of the development.

  \<^item> Go maps. A \<open>map[K]V\<close> of the program is an association list with distinct keys
    (\<open>('k \<times> 'v) list\<close>), a \<open>map[K]struct{}\<close> is a list of distinct keys. The order of the
    list stands for the order in which \<open>range\<close> visits the map; Go leaves it unspecified, and the
    theorems hold for every such list. A nil map and an empty one are read alike in Go, and both
    are the empty list here.
  \<^item> \<open>sort.Search\<close> of the standard library, which the version lists use.
  \<^item> Formatting and string functions of the standard library (\<open>strconv.Itoa\<close>,
    \<open>%x\<close>, \<open>strings.Join\<close>, \<open>strings.Split\<close>, \<open>strings.TrimPrefix\<close>,
    \<open>strings.TrimSpace\<close>, \<open>strings.Contains\<close>), on strings of bytes.
  \<^item> The collections of facts the component theories share.
\<close>

named_theorems go_map \<open>laws of the association lists that model Go maps and sets\<close>
named_theorems go_str \<open>laws of the string functions of the Go standard library\<close>

section \<open>Go maps and sets\<close>

text \<open>\<open>m[k] = struct{}{}\<close> on a \<open>map[K]struct{}\<close>.\<close>

definition go_insert :: "'k \<Rightarrow> 'k list \<Rightarrow> 'k list" where
  "go_insert k s = (if k \<in> set s then s else s @ [k])"

text \<open>\<open>delete(m, k)\<close> on a \<open>map[K]struct{}\<close>.\<close>

definition go_delete :: "'k \<Rightarrow> 'k list \<Rightarrow> 'k list" where
  "go_delete k s = filter (\<lambda>x. x \<noteq> k) s"

text \<open>\<open>m[k]\<close> of a map whose value type has the zero value \<open>z\<close>.\<close>

definition go_index :: "'v \<Rightarrow> ('k \<times> 'v) list \<Rightarrow> 'k \<Rightarrow> 'v" where
  "go_index z m k = (case map_of m k of None \<Rightarrow> z | Some v \<Rightarrow> v)"

lemma set_go_insert [simp, go_map]: "set (go_insert k s) = insert k (set s)"
  by (auto simp: go_insert_def)

lemma distinct_go_insert [simp, go_map]: "distinct (go_insert k s) = distinct s"
  by (auto simp: go_insert_def)

lemma set_go_delete [simp, go_map]: "set (go_delete k s) = set s - {k}"
  by (auto simp: go_delete_def)

lemma distinct_go_delete [simp, go_map]: "distinct s \<Longrightarrow> distinct (go_delete k s)"
  by (simp add: go_delete_def)

lemma map_of_update [simp, go_map]: "map_of (AList.update k v m) = (map_of m)(k \<mapsto> v)"
  by (rule update_conv')

lemma fst_set_update [simp, go_map]: "fst ` set (AList.update k v m) = insert k (fst ` set m)"
  by (simp add: dom_update)

lemma go_index_update [simp, go_map]:
  "go_index z (AList.update k v m) j = (if j = k then v else go_index z m j)"
  by (simp add: go_index_def)

lemma go_index_Nil [simp, go_map]: "go_index z [] j = z"
  by (simp add: go_index_def)

lemma go_index_Cons [simp, go_map]:
  "go_index z ((k, v) # m) j = (if j = k then v else go_index z m j)"
  by (simp add: go_index_def)

lemma go_index_not_key: "j \<notin> fst ` set m \<Longrightarrow> go_index z m j = z"
  by (simp add: go_index_def map_of_eq_None_iff [THEN iffD2])

lemma go_index_Some: "map_of m j = Some v \<Longrightarrow> go_index z m j = v"
  by (simp add: go_index_def)

section \<open>sort.Search\<close>

text \<open>The loop of \<open>sort.Search\<close>: a binary search for the first index at which \<open>f\<close> holds.\<close>

function search_loop :: "(nat \<Rightarrow> bool) \<Rightarrow> nat \<Rightarrow> nat \<Rightarrow> nat" where
  "search_loop f i j =
     (if i < j
      then let h = (i + j) div 2
           in if \<not> f h then search_loop f (h + 1) j else search_loop f i h
      else i)"
  by pat_completeness auto
termination
  by (relation "measure (\<lambda>(f, i, j). j - i)") (auto simp: Let_def)

declare search_loop.simps [simp del]

definition sort_Search :: "nat \<Rightarrow> (nat \<Rightarrow> bool) \<Rightarrow> nat" where
  "sort_Search n f = search_loop f 0 n"

lemma search_loop_unfold:
  "i < j \<Longrightarrow> search_loop f i j =
     (if f ((i + j) div 2) then search_loop f i ((i + j) div 2)
      else search_loop f ((i + j) div 2 + 1) j)"
  by (subst search_loop.simps) (simp add: Let_def)

lemma search_loop_done: "\<not> i < j \<Longrightarrow> search_loop f i j = i"
  by (subst search_loop.simps) simp

text \<open>The result is never past the length, whatever the predicate.\<close>

lemma search_loop_le: "i \<le> j \<Longrightarrow> search_loop f i j \<le> j"
proof (induction f i j rule: search_loop.induct)
  case (1 f i j)
  have "i < j \<Longrightarrow> i \<le> (i + j) div 2 \<and> (i + j) div 2 < j" by auto
  with 1 show ?case
    by (cases "i < j") (force simp: search_loop_unfold search_loop_done Let_def)+
qed

lemma sort_Search_le: "sort_Search n f \<le> n"
  by (simp add: sort_Search_def search_loop_le)

text \<open>
  The contract of \<open>sort.Search\<close>: on a predicate that stays true once it is true, the result is
  the first index that satisfies it, or the length when there is none.
\<close>

lemma search_loop_spec:
  assumes "\<And>a b. a \<le> b \<Longrightarrow> b < n \<Longrightarrow> f a \<Longrightarrow> f b"
    and "i \<le> j" and "j \<le> n" and "\<And>k. k < i \<Longrightarrow> \<not> f k" and "j < n \<Longrightarrow> f j"
  shows "search_loop f i j \<le> n \<and> (\<forall>k < search_loop f i j. \<not> f k) \<and>
    (search_loop f i j < n \<longrightarrow> f (search_loop f i j))"
  using assms
proof (induction f i j rule: search_loop.induct)
  case (1 f i j)
  show ?case
  proof (cases "i < j")
    case True
    define h where "h = (i + j) div 2"
    have h: "i \<le> h" "h < j" using True by (auto simp: h_def)
    show ?thesis
    proof (cases "f h")
      case fh: True
      with True have "search_loop f i j = search_loop f i h"
        by (simp add: search_loop_unfold h_def)
      with "1.IH"(2)[OF True h_def] fh h "1.prems" show ?thesis by auto
    next
      case fh: False
      with True have eq: "search_loop f i j = search_loop f (h + 1) j"
        by (simp add: search_loop_unfold h_def)
      have "\<not> f k" if "k < h + 1" for k
        using that fh h "1.prems"(1)[of k h] "1.prems"(3) by auto
      with "1.IH"(1)[OF True h_def] fh h "1.prems" eq show ?thesis by auto
    qed
  next
    case False
    then show ?thesis using "1.prems" by (auto simp: search_loop_done)
  qed
qed

lemma sort_Search_spec:
  assumes "\<And>a b. a \<le> b \<Longrightarrow> b < n \<Longrightarrow> f a \<Longrightarrow> f b"
  shows "sort_Search n f \<le> n" and "k < sort_Search n f \<Longrightarrow> \<not> f k"
    and "sort_Search n f < n \<Longrightarrow> f (sort_Search n f)"
  using search_loop_spec [of n f 0 n] assms by (auto simp: sort_Search_def)

text \<open>The row a search returns.\<close>

lemma find_sat: "find P xs = Some x \<Longrightarrow> x \<in> set xs \<and> P x"
  by (auto simp: find_Some_iff)

end
