(* ===== verification/Go_Strings.thy ===== *)
theory Go_Strings
  imports Prelude "HOL-Library.Char_ord" "HOL-Library.List_Lexorder"
begin

text \<open>
  The formatting and string functions of Go's standard library that the program calls, on byte
  strings: \<open>strconv.Itoa\<close> and \<open>%d\<close>, \<open>%x\<close> on a signed integer, \<open>strings.Join\<close>,
  \<open>strings.Split\<close> with a one-byte separator, \<open>strings.TrimPrefix\<close>, \<open>strings.HasPrefix\<close>,
  \<open>strings.TrimSpace\<close> (on ASCII white space), \<open>strings.Contains\<close> and \<open>sort.Strings\<close>.
  The lemmas are the round trips the components rely on: a number is read back from its digits, so
  \<open>itoa\<close> and \<open>hex\<close> are injective, and splitting a joined list gives the list back.
\<close>

section \<open>Numbers\<close>

definition digit_char :: "nat \<Rightarrow> char" where
  "digit_char d = (if d < 10 then char_of (48 + d) else char_of (87 + d))"

definition char_digit :: "char \<Rightarrow> nat" where
  "char_digit c = (if of_char c < (58::nat) then of_char c - 48 else of_char c - 87)"

fun show_base :: "nat \<Rightarrow> nat \<Rightarrow> string" where
  "show_base b n =
     (if n < b \<or> b < 2 then [digit_char n]
      else show_base b (n div b) @ [digit_char (n mod b)])"

declare show_base.simps [simp del]

definition read_base :: "nat \<Rightarrow> string \<Rightarrow> nat" where
  "read_base b s = foldl (\<lambda>n c. n * b + char_digit c) 0 s"

definition minus_char :: char where
  "minus_char = CHR 0x2D"

definition show_int :: "nat \<Rightarrow> int \<Rightarrow> string" where
  "show_int b i = (if i < 0 then minus_char # show_base b (nat (- i)) else show_base b (nat i))"

definition itoa :: "int \<Rightarrow> string" where
  "itoa i = show_int 10 i"

definition hex :: "int \<Rightarrow> string" where
  "hex i = show_int 16 i"

definition read_int :: "nat \<Rightarrow> string \<Rightarrow> int" where
  "read_int b s =
     (case s of
        [] \<Rightarrow> 0
      | c # cs \<Rightarrow> if c = minus_char then - int (read_base b cs) else int (read_base b s))"

text \<open>\<open>strconv.Atoi\<close>: an optional sign and decimal digits, in the range of a 64-bit integer.\<close>

definition is_digits :: "string \<Rightarrow> bool" where
  "is_digits s \<longleftrightarrow> s \<noteq> [] \<and> list_all (\<lambda>c. of_char c \<in> {48..57 :: nat}) s"

definition strconv_Atoi :: "string \<Rightarrow> int option" where
  "strconv_Atoi s =
     (let ds = (case s of c # cs \<Rightarrow> if c = minus_char \<or> c = CHR 0x2B then cs else s | [] \<Rightarrow> []);
          i = (if s \<noteq> [] \<and> hd s = minus_char then - int (read_base 10 ds) else int (read_base 10 ds))
      in if is_digits ds \<and> - (2 ^ 63) \<le> i \<and> i < 2 ^ 63 then Some i else None)"

lemma char_digit_digit_char: "d < 16 \<Longrightarrow> char_digit (digit_char d) = d"
  by (auto simp: char_digit_def digit_char_def)

lemma digit_char_not_minus: "d < 16 \<Longrightarrow> digit_char d \<noteq> minus_char"
proof
  assume d: "d < 16" and eq: "digit_char d = minus_char"
  from eq have "of_char (digit_char d) = (45 :: nat)" by (simp add: minus_char_def)
  with d show False by (auto simp: digit_char_def split: if_splits)
qed

lemma read_show_base: "2 \<le> b \<Longrightarrow> b \<le> 16 \<Longrightarrow> read_base b (show_base b n) = n"
proof (induction b n rule: show_base.induct)
  case (1 b n)
  show ?case
  proof (cases "n < b")
    case True
    with 1 show ?thesis
      by (simp add: show_base.simps [of b n] read_base_def char_digit_digit_char)
  next
    case False
    with 1 have IH: "read_base b (show_base b (n div b)) = n div b" by simp
    have "n mod b < b" using "1.prems" by simp
    with "1.prems"(2) have "n mod b < 16" by (rule less_le_trans [rotated])
    with False "1.prems" IH show ?thesis
      by (simp add: show_base.simps [of b n] read_base_def char_digit_digit_char)
  qed
qed

lemma show_base_hd: "2 \<le> b \<Longrightarrow> b \<le> 16 \<Longrightarrow> \<exists>d cs. d < 16 \<and> show_base b n = digit_char d # cs"
proof (induction b n rule: show_base.induct)
  case (1 b n)
  show ?case
  proof (cases "n < b")
    case True
    with "1.prems" have "n < 16" "show_base b n = digit_char n # []"
      by (simp_all add: show_base.simps [of b n])
    then show ?thesis by blast
  next
    case False
    with 1 show ?thesis by (auto simp: show_base.simps [of b n])
  qed
qed

lemma read_show_int:
  assumes "2 \<le> b" and "b \<le> 16"
  shows "read_int b (show_int b i) = i"
proof (cases "i < 0")
  case True
  with assms show ?thesis by (simp add: read_int_def show_int_def read_show_base)
next
  case False
  from show_base_hd [OF assms] obtain d cs
    where d: "d < 16" and s: "show_base b (nat i) = digit_char d # cs" by blast
  have "read_int b (show_int b i) = int (read_base b (show_base b (nat i)))"
    using False d by (simp add: read_int_def show_int_def s digit_char_not_minus)
  with assms False show ?thesis by (simp add: read_show_base)
qed

lemma show_int_inject: "2 \<le> b \<Longrightarrow> b \<le> 16 \<Longrightarrow> show_int b i = show_int b j \<longleftrightarrow> i = j"
  by (metis read_show_int)

lemma itoa_inject [simp, go_str]: "itoa i = itoa j \<longleftrightarrow> i = j"
  by (simp add: itoa_def show_int_inject)

lemma hex_inject [simp, go_str]: "hex i = hex j \<longleftrightarrow> i = j"
  by (simp add: hex_def show_int_inject)

lemma itoa_not_Nil [simp, go_str]: "itoa i \<noteq> []"
  using show_base_hd [of 10 "nat i"] by (auto simp: itoa_def show_int_def)

lemma show_base_chars: "2 \<le> b \<Longrightarrow> c \<in> set (show_base b n) \<Longrightarrow> c \<in> digit_char ` {..<b}"
proof (induction b n rule: show_base.induct)
  case (1 b n)
  have "n mod b < b" using 1 by simp
  then show ?case using 1 by (cases "n < b") (auto simp: show_base.simps [of b n])
qed

text \<open>A decimal number has only digits and a sign in it.\<close>

lemma itoa_chars: "c \<in> set (itoa i) \<Longrightarrow> c = minus_char \<or> of_char c \<in> {48..57 :: nat}"
  using show_base_chars [of 10 c] by (fastforce simp: itoa_def show_int_def digit_char_def split: if_splits)

lemma is_digits_show_base: "is_digits (show_base 10 n)"
proof -
  have "of_char c \<in> {48..57 :: nat}" if "c \<in> set (show_base 10 n)" for c
    using show_base_chars [OF _ that] by (auto simp: digit_char_def)
  moreover have "show_base 10 n \<noteq> []" using show_base_hd [of 10 n] by auto
  ultimately show ?thesis by (simp add: is_digits_def list_all_iff)
qed

text \<open>A number is read back from its text.\<close>

lemma Atoi_itoa [go_str]:
  assumes "- (2 ^ 63) \<le> i" and "i < 2 ^ 63"
  shows "strconv_Atoi (itoa i) = Some i"
proof (cases "i < 0")
  case True
  with assms show ?thesis
    by (simp add: strconv_Atoi_def itoa_def show_int_def is_digits_show_base read_show_base)
next
  case False
  from show_base_hd [of 10 "nat i"] obtain d cs where d: "d < 16" and s: "show_base 10 (nat i) = digit_char d # cs" by auto
  have "of_char (digit_char d) \<in> {48..57 :: nat}" using is_digits_show_base [of "nat i"] by (simp add: is_digits_def s)
  then have "digit_char d \<noteq> minus_char" "digit_char d \<noteq> CHR 0x2B" by (auto simp: minus_char_def)
  with False assms is_digits_show_base [of "nat i"] read_show_base [of 10 "nat i"] show ?thesis
    by (simp add: strconv_Atoi_def itoa_def show_int_def s)
qed

section \<open>Strings\<close>

abbreviation newline :: string where
  "newline \<equiv> [CHR 0x0A]"

abbreviation tab :: string where
  "tab \<equiv> [CHR 0x09]"

text \<open>\<open>'%s'\<close> of a format string: the argument between single quotes.\<close>

definition quoted :: "string \<Rightarrow> string" where
  "quoted s = [CHR 0x27] @ s @ [CHR 0x27]"

fun strings_Join :: "string list \<Rightarrow> string \<Rightarrow> string" where
  "strings_Join [] sep = []"
| "strings_Join [x] sep = x"
| "strings_Join (x # y # xs) sep = x @ sep @ strings_Join (y # xs) sep"

fun strings_Split :: "string \<Rightarrow> char \<Rightarrow> string list" where
  "strings_Split [] sep = [[]]"
| "strings_Split (c # cs) sep =
     (if c = sep then [] # strings_Split cs sep
      else (case strings_Split cs sep of
              [] \<Rightarrow> [[c]]
            | w # ws \<Rightarrow> (c # w) # ws))"

definition strings_HasPrefix :: "string \<Rightarrow> string \<Rightarrow> bool" where
  "strings_HasPrefix s p \<longleftrightarrow> take (length p) s = p"

definition strings_TrimPrefix :: "string \<Rightarrow> string \<Rightarrow> string" where
  "strings_TrimPrefix s p = (if strings_HasPrefix s p then drop (length p) s else s)"

definition is_space :: "char \<Rightarrow> bool" where
  "is_space c \<longleftrightarrow> c \<in> {CHR 0x09, CHR 0x0A, CHR 0x0B, CHR 0x0C, CHR 0x0D, CHR 0x20}"

definition strings_TrimSpace :: "string \<Rightarrow> string" where
  "strings_TrimSpace s = rev (dropWhile is_space (rev (dropWhile is_space s)))"

fun strings_Contains :: "string \<Rightarrow> string \<Rightarrow> bool" where
  "strings_Contains [] sub = strings_HasPrefix [] sub"
| "strings_Contains (c # cs) sub = (strings_HasPrefix (c # cs) sub \<or> strings_Contains cs sub)"

definition sort_Strings :: "string list \<Rightarrow> string list" where
  "sort_Strings xs = sort xs"

lemma strings_Split_not_Nil [simp, go_str]: "strings_Split s sep \<noteq> []"
  by (cases s) (auto split: list.split)

lemma strings_Split_no_sep: "w \<in> set (strings_Split s sep) \<Longrightarrow> sep \<notin> set w"
  by (induction s arbitrary: w) (auto split: list.splits if_splits)

lemma strings_Join_Cons: "xs \<noteq> [] \<Longrightarrow> strings_Join (x # xs) sep = x @ sep @ strings_Join xs sep"
  by (cases xs) auto

lemma strings_Join_Split [go_str]: "strings_Join (strings_Split s sep) [sep] = s"
proof (induction s)
  case (Cons c cs)
  obtain w ws where w: "strings_Split cs sep = w # ws" by (meson list.exhaust strings_Split_not_Nil)
  with Cons show ?case by (cases ws) (auto simp: strings_Join_Cons)
qed simp

lemma strings_Split_word: "sep \<notin> set w \<Longrightarrow> strings_Split w sep = [w]"
  by (induction w) auto

lemma strings_Split_append_sep:
  "sep \<notin> set w \<Longrightarrow> strings_Split (w @ sep # s) sep = w # strings_Split s sep"
  by (induction w) auto

lemma strings_Split_Join [go_str]:
  "ws \<noteq> [] \<Longrightarrow> \<forall>w \<in> set ws. sep \<notin> set w \<Longrightarrow> strings_Split (strings_Join ws [sep]) sep = ws"
  by (induction ws "[sep]" rule: strings_Join.induct)
    (auto simp: strings_Split_word strings_Split_append_sep)

lemma strings_HasPrefix_iff [go_str]: "strings_HasPrefix s p \<longleftrightarrow> (\<exists>t. s = p @ t)"
  unfolding strings_HasPrefix_def by (metis append_eq_conv_conj append_take_drop_id)

lemma strings_Contains_iff [go_str]: "strings_Contains s sub \<longleftrightarrow> (\<exists>a b. s = a @ sub @ b)"
proof (induction s)
  case (Cons c cs)
  have "(\<exists>a b. c # cs = a @ sub @ b) \<longleftrightarrow>
    (\<exists>b. c # cs = sub @ b) \<or> (\<exists>a b. cs = a @ sub @ b)" (is "?l \<longleftrightarrow> ?r")
  proof
    assume ?l
    then obtain a b where ab: "c # cs = a @ sub @ b" by blast
    then show ?r by (cases a) auto
  next
    assume ?r
    then show ?l by (metis append.left_neutral append_Cons)
  qed
  with Cons show ?case by (simp add: strings_HasPrefix_iff)
qed (simp add: strings_HasPrefix_iff)

lemma set_sort_Strings [simp, go_str]: "set (sort_Strings xs) = set xs"
  by (simp add: sort_Strings_def)

end
