(* ===== verification/Int_Sets.thy ===== *)
theory Int_Sets
  imports Go_Strings
begin

text \<open>
  \<open>db/algorithm/build_set.go\<close> and \<open>db/algorithm/job_set.go\<close>: the sets of build ids and of job
  ids of the scheduling algorithm, \<open>map[int]struct{}\<close> in the program and lists of distinct ids
  here, with one recursion per \<open>range\<close> loop.

  The locale \<open>id_set\<close> is the contract both types offer to the rest of the algorithm: every
  operation computes the set operation it is named after, and keeps the keys distinct. Both types
  are interpreted in it; the laws proved once in the locale (commutativity of \<open>Union\<close>,
  \<open>Equal\<close> as equality of sets) hold for both.
\<close>

type_synonym BuildSet = "int list"
type_synonym JobSet = "int list"

section \<open>The loops\<close>

text \<open>\<open>for id := range set { newSet[id] = struct{}{} }\<close>\<close>

fun range_insert :: "int list \<Rightarrow> int list \<Rightarrow> int list" where
  "range_insert [] newSet = newSet"
| "range_insert (x # xs) newSet = range_insert xs (go_insert x newSet)"

text \<open>\<open>for key, val := range set { if _, found := otherSet[key]; found { result[key] = val } }\<close>\<close>

fun range_intersect :: "int list \<Rightarrow> int list \<Rightarrow> int list \<Rightarrow> int list" where
  "range_intersect [] otherSet result = result"
| "range_intersect (x # xs) otherSet result =
     range_intersect xs otherSet (if x \<in> set otherSet then go_insert x result else result)"

lemma set_range_insert [simp, go_map]: "set (range_insert xs s) = set xs \<union> set s"
  by (induction xs arbitrary: s) auto

lemma distinct_range_insert [simp, go_map]: "distinct (range_insert xs s) = distinct s"
  by (induction xs arbitrary: s) auto

lemma set_range_intersect: "set (range_intersect xs ys r) = set xs \<inter> set ys \<union> set r"
  by (induction xs arbitrary: r) auto

lemma distinct_range_intersect: "distinct r \<Longrightarrow> distinct (range_intersect xs ys r)"
  by (induction xs arbitrary: r) auto

section \<open>BuildSet\<close>

definition BuildSet_Contains :: "BuildSet \<Rightarrow> int \<Rightarrow> bool" where
  "BuildSet_Contains s buildID \<longleftrightarrow> buildID \<in> set s"

definition BuildSet_Union :: "BuildSet \<Rightarrow> BuildSet \<Rightarrow> BuildSet" where
  "BuildSet_Union s otherSet = range_insert otherSet (range_insert s [])"

definition BuildSet_Intersect :: "BuildSet \<Rightarrow> BuildSet \<Rightarrow> BuildSet" where
  "BuildSet_Intersect s otherSet = range_intersect s otherSet []"

fun range_overlaps :: "BuildSet \<Rightarrow> BuildSet \<Rightarrow> bool" where
  "range_overlaps [] against = False"
| "range_overlaps (key # check) against =
     (if key \<in> set against then True else range_overlaps check against)"

definition BuildSet_Overlaps :: "BuildSet \<Rightarrow> BuildSet \<Rightarrow> bool" where
  "BuildSet_Overlaps s otherSet =
     (if length s > length otherSet then range_overlaps otherSet s
      else range_overlaps s otherSet)"

fun range_contained :: "int list \<Rightarrow> (int \<Rightarrow> bool) \<Rightarrow> bool" where
  "range_contained [] contains = True"
| "range_contained (x # xs) contains = (if \<not> contains x then False else range_contained xs contains)"

definition BuildSet_Equal :: "BuildSet \<Rightarrow> BuildSet \<Rightarrow> bool" where
  "BuildSet_Equal s otherSet =
     (if length s \<noteq> length otherSet then False
      else range_contained s (BuildSet_Contains otherSet))"

definition BuildSet_String :: "BuildSet \<Rightarrow> string" where
  "BuildSet_String s = ''{'' @ strings_Join (sort_Strings (map itoa s)) '' '' @ ''}''"

section \<open>JobSet\<close>

definition JobSet_Contains :: "JobSet \<Rightarrow> int \<Rightarrow> bool" where
  "JobSet_Contains s jobID \<longleftrightarrow> jobID \<in> set s"

definition JobSet_Union :: "JobSet \<Rightarrow> JobSet \<Rightarrow> JobSet" where
  "JobSet_Union s otherSet = range_insert otherSet (range_insert s [])"

definition JobSet_Intersect :: "JobSet \<Rightarrow> JobSet \<Rightarrow> JobSet" where
  "JobSet_Intersect s otherSet = range_intersect s otherSet []"

definition JobSet_Equal :: "JobSet \<Rightarrow> JobSet \<Rightarrow> bool" where
  "JobSet_Equal s otherSet =
     (if length s \<noteq> length otherSet then False
      else range_contained s (JobSet_Contains otherSet))"

definition JobSet_String :: "JobSet \<Rightarrow> string" where
  "JobSet_String s = ''{'' @ strings_Join (sort_Strings (map itoa s)) '' '' @ ''}''"

section \<open>The contract\<close>

locale id_set =
  fixes Contains :: "'s \<Rightarrow> int \<Rightarrow> bool"
    and Union :: "'s \<Rightarrow> 's \<Rightarrow> 's"
    and Intersect :: "'s \<Rightarrow> 's \<Rightarrow> 's"
    and Equal :: "'s \<Rightarrow> 's \<Rightarrow> bool"
    and elems :: "'s \<Rightarrow> int set"
    and invar :: "'s \<Rightarrow> bool"
  assumes Contains_elems: "Contains s x \<longleftrightarrow> x \<in> elems s"
    and Union_elems: "elems (Union s t) = elems s \<union> elems t"
    and Intersect_elems: "elems (Intersect s t) = elems s \<inter> elems t"
    and Equal_elems: "invar s \<Longrightarrow> invar t \<Longrightarrow> Equal s t \<longleftrightarrow> elems s = elems t"
    and Union_invar: "invar (Union s t)"
    and Intersect_invar: "invar (Intersect s t)"
begin

lemma Union_commutes: "Equal (Union s t) (Union t s)"
  by (auto simp: Equal_elems Union_invar Union_elems)

lemma Intersect_commutes: "Equal (Intersect s t) (Intersect t s)"
  by (auto simp: Equal_elems Intersect_invar Intersect_elems)

lemma Contains_Union: "Contains (Union s t) x \<longleftrightarrow> Contains s x \<or> Contains t x"
  by (simp add: Contains_elems Union_elems)

lemma Contains_Intersect: "Contains (Intersect s t) x \<longleftrightarrow> Contains s x \<and> Contains t x"
  by (simp add: Contains_elems Intersect_elems)

lemma Equal_Union_absorb: "invar s \<Longrightarrow> Equal (Union s (Intersect s t)) s"
  by (auto simp: Equal_elems Union_invar Union_elems Intersect_elems)

end

lemma range_contained_iff: "range_contained xs P \<longleftrightarrow> (\<forall>x \<in> set xs. P x)"
  by (induction xs) auto

lemma distinct_subset_eq:
  "distinct s \<Longrightarrow> distinct t \<Longrightarrow> length s = length t \<Longrightarrow> set s \<subseteq> set t \<Longrightarrow> set s = set t"
  by (simp add: card_subset_eq distinct_card)

lemma sized_contained_iff:
  assumes "distinct s" and "distinct t"
  shows "length s = length t \<and> range_contained s (\<lambda>x. x \<in> set t) \<longleftrightarrow> set s = set t"
  using assms distinct_subset_eq [of s t] distinct_card [of s] distinct_card [of t]
  by (auto simp: range_contained_iff)

interpretation build_set: id_set BuildSet_Contains BuildSet_Union BuildSet_Intersect
  BuildSet_Equal set distinct
  by unfold_locales
    (use sized_contained_iff in \<open>auto simp: BuildSet_Contains_def [abs_def] BuildSet_Union_def
      BuildSet_Intersect_def BuildSet_Equal_def set_range_intersect distinct_range_intersect\<close>)

interpretation job_set: id_set JobSet_Contains JobSet_Union JobSet_Intersect
  JobSet_Equal set distinct
  by unfold_locales
    (use sized_contained_iff in \<open>auto simp: JobSet_Contains_def [abs_def] JobSet_Union_def
      JobSet_Intersect_def JobSet_Equal_def set_range_intersect distinct_range_intersect\<close>)

lemmas BuildSet_elems [simp] =
  build_set.Contains_elems build_set.Union_elems build_set.Intersect_elems
lemmas JobSet_elems [simp] =
  job_set.Contains_elems job_set.Union_elems job_set.Intersect_elems

lemma range_overlaps_iff: "range_overlaps s t \<longleftrightarrow> set s \<inter> set t \<noteq> {}"
  by (induction s) auto

text \<open>Whichever side \<open>Overlaps\<close> iterates over, it decides whether the sets meet.\<close>

lemma BuildSet_Overlaps_iff [simp]: "BuildSet_Overlaps s t \<longleftrightarrow> set s \<inter> set t \<noteq> {}"
  by (auto simp: BuildSet_Overlaps_def range_overlaps_iff)

end
