(* ===== verification/Versions.thy ===== *)
theory Versions
  imports Int_Sets
begin

text \<open>
  \<open>db/algorithm/version.go\<close>, \<open>db/algorithm/constraint.go\<close> and
  \<open>db/algorithm/version_candidates.go\<close>: the versions an input may take, newest first, each with
  the builds of every job it passed; the constraints that prune them; the iterator over the ones
  that are left.

  The invariant \<open>cands_wf\<close> says what the algorithm keeps of a candidate set: versions strictly
  descending by check order, ids distinct, and \<open>buildIDs\<close> the union of the versions' builds.
\<close>

section \<open>Definitions\<close>

record Version =
  v_id :: int
  v_order :: int
  v_passed :: "(int \<times> BuildSet) list"

record VersionCandidate =
  vc_VersionID :: int
  vc_BuildID :: int
  vc_JobID :: int
  vc_CheckOrder :: int

definition VersionCandidate_String :: "VersionCandidate \<Rightarrow> string" where
  "VersionCandidate_String c =
     ''{v'' @ itoa (vc_VersionID c) @ '', j'' @ itoa (vc_JobID c) @ ''b'' @ itoa (vc_BuildID c) @ ''}''"

definition NewVersion :: "VersionCandidate \<Rightarrow> Version" where
  "NewVersion c =
     \<lparr>v_id = vc_VersionID c, v_order = vc_CheckOrder c,
      v_passed = (if vc_JobID c \<noteq> 0 then [(vc_JobID c, [vc_BuildID c])] else [])\<rparr>"

definition PassedAny :: "Version \<Rightarrow> int \<Rightarrow> BuildSet \<Rightarrow> bool" where
  "PassedAny v jobID builds =
     (case map_of (v_passed v) jobID of
        None \<Rightarrow> True
      | Some bs \<Rightarrow> BuildSet_Overlaps bs builds)"

type_synonym Versions = "Version list"

text \<open>\<open>vs = append(vs, Version{}); copy(vs[i+1:], vs[i:]); vs[i] = v\<close>\<close>

definition insert_at :: "nat \<Rightarrow> 'a \<Rightarrow> 'a list \<Rightarrow> 'a list" where
  "insert_at i v vs = take i vs @ v # drop i vs"

definition Versions_With :: "Versions \<Rightarrow> VersionCandidate \<Rightarrow> Versions" where
  "Versions_With vs c =
     (let i = sort_Search (length vs) (\<lambda>i. v_order (vs ! i) \<le> vc_CheckOrder c)
      in if i = length vs then vs @ [NewVersion c]
         else if v_id (vs ! i) \<noteq> vc_VersionID c then insert_at i (NewVersion c) vs
         else if vc_JobID c \<noteq> 0
         then vs[i := (vs ! i)\<lparr>v_passed :=
                AList.update (vc_JobID c)
                  (go_insert (vc_BuildID c) (go_index [] (v_passed (vs ! i)) (vc_JobID c)))
                  (v_passed (vs ! i))\<rparr>]
         else vs)"

text \<open>The loop of \<open>Merge\<close> over \<open>v.passed\<close>, on the passed builds of the version found.\<close>

fun merge_passed :: "(int \<times> BuildSet) list \<Rightarrow> (int \<times> BuildSet) list \<Rightarrow> (int \<times> BuildSet) list" where
  "merge_passed [] passed = passed"
| "merge_passed ((jobID, vbuilds) # rest) passed =
     merge_passed rest
       (case map_of passed jobID of
          None \<Rightarrow> AList.update jobID vbuilds passed
        | Some builds \<Rightarrow> AList.update jobID (range_insert vbuilds builds) passed)"

definition Versions_Merge :: "Versions \<Rightarrow> Version \<Rightarrow> Versions" where
  "Versions_Merge vs v =
     (let i = sort_Search (length vs) (\<lambda>i. v_order (vs ! i) \<le> v_order v)
      in if i = length vs then vs @ [v]
         else if v_id (vs ! i) \<noteq> v_id v then insert_at i v vs
         else vs[i := (vs ! i)\<lparr>v_passed := merge_passed (v_passed v) (v_passed (vs ! i))\<rparr>])"

type_synonym Constraint = "Version \<Rightarrow> bool"
type_synonym Constraints = "Constraint list"

fun Constraints_Check :: "Constraints \<Rightarrow> Version \<Rightarrow> bool" where
  "Constraints_Check [] v = True"
| "Constraints_Check (c # cs) v = (if \<not> c v then False else Constraints_Check cs v)"

definition Constraints_And :: "Constraints \<Rightarrow> Constraint \<Rightarrow> Constraints" where
  "Constraints_And cs constraint = cs @ [constraint]"

record VersionCandidates =
  vcs_versions :: Versions
  vcs_constraints :: Constraints
  vcs_buildIDs :: "(int \<times> BuildSet) list"

definition empty_candidates :: VersionCandidates where
  "empty_candidates = \<lparr>vcs_versions = [], vcs_constraints = [], vcs_buildIDs = []\<rparr>"

definition VersionCandidates_Add :: "VersionCandidates \<Rightarrow> VersionCandidate \<Rightarrow> VersionCandidates" where
  "VersionCandidates_Add cands c =
     (let cands' = cands\<lparr>vcs_versions := Versions_With (vcs_versions cands) c\<rparr>
      in if vc_JobID c \<noteq> 0
         then cands'\<lparr>vcs_buildIDs :=
                AList.update (vc_JobID c)
                  (go_insert (vc_BuildID c) (go_index [] (vcs_buildIDs cands') (vc_JobID c)))
                  (vcs_buildIDs cands')\<rparr>
         else cands')"

text \<open>The loop of \<open>Merge\<close> over \<open>version.passed\<close> that fills \<open>buildIDs\<close>.\<close>

fun merge_buildIDs :: "(int \<times> BuildSet) list \<Rightarrow> (int \<times> BuildSet) list \<Rightarrow> (int \<times> BuildSet) list" where
  "merge_buildIDs [] buildIDs = buildIDs"
| "merge_buildIDs ((jobID, otherBuilds) # rest) buildIDs =
     merge_buildIDs rest
       (AList.update jobID (range_insert otherBuilds (go_index [] buildIDs jobID)) buildIDs)"

definition VersionCandidates_Merge :: "VersionCandidates \<Rightarrow> Version \<Rightarrow> VersionCandidates" where
  "VersionCandidates_Merge cands version =
     cands\<lparr>vcs_buildIDs := merge_buildIDs (v_passed version) (vcs_buildIDs cands),
           vcs_versions := Versions_Merge (vcs_versions cands) version\<rparr>"

definition VersionCandidates_IsEmpty :: "VersionCandidates \<Rightarrow> bool" where
  "VersionCandidates_IsEmpty cands \<longleftrightarrow> length (vcs_versions cands) = 0"

definition VersionCandidates_Len :: "VersionCandidates \<Rightarrow> nat" where
  "VersionCandidates_Len cands = length (vcs_versions cands)"

text \<open>The inner loop of \<open>IntersectByVersion\<close>: the first of the other versions with this id.\<close>

fun find_version :: "Versions \<Rightarrow> int \<Rightarrow> Version option" where
  "find_version [] vid = None"
| "find_version (v # vs) vid = (if v_id v = vid then Some v else find_version vs vid)"

fun intersect_loop :: "Versions \<Rightarrow> Versions \<Rightarrow> VersionCandidates \<Rightarrow> VersionCandidates" where
  "intersect_loop [] others intersected = intersected"
| "intersect_loop (version # rest) others intersected =
     intersect_loop rest others
       (case find_version others (v_id version) of
          None \<Rightarrow> intersected
        | Some otherVersion \<Rightarrow>
            VersionCandidates_Merge (VersionCandidates_Merge intersected otherVersion) version)"

definition IntersectByVersion :: "VersionCandidates \<Rightarrow> VersionCandidates \<Rightarrow> VersionCandidates" where
  "IntersectByVersion cands other =
     intersect_loop (vcs_versions cands) (vcs_versions other) empty_candidates"

definition VersionCandidates_BuildIDs :: "VersionCandidates \<Rightarrow> int \<Rightarrow> BuildSet" where
  "VersionCandidates_BuildIDs cands jobID = go_index [] (vcs_buildIDs cands) jobID"

definition PruneVersionsOfOtherBuildIDs ::
    "VersionCandidates \<Rightarrow> int \<Rightarrow> BuildSet \<Rightarrow> VersionCandidates" where
  "PruneVersionsOfOtherBuildIDs cands jobID buildIDs =
     cands\<lparr>vcs_constraints :=
       Constraints_And (vcs_constraints cands) (\<lambda>v. PassedAny v jobID buildIDs)\<rparr>"

record VersionsIter =
  it_offset :: nat
  it_versions :: Versions
  it_constraints :: Constraints

text \<open>The loops of \<open>Next\<close> and \<open>Peek\<close>, with the loop variable beside the iterator's offset.\<close>

function Next_loop :: "nat \<Rightarrow> VersionsIter \<Rightarrow> int option \<times> VersionsIter" where
  "Next_loop i iter =
     (if i < length (it_versions iter)
      then let v = it_versions iter ! i;
               iter' = iter\<lparr>it_offset := it_offset iter + 1\<rparr>
           in if \<not> Constraints_Check (it_constraints iter) v then Next_loop (i + 1) iter'
              else (Some (v_id v), iter')
      else (None, iter))"
  by pat_completeness auto
termination
  by (relation "measure (\<lambda>(i, iter). length (it_versions iter) - i)") auto

function Peek_loop :: "nat \<Rightarrow> VersionsIter \<Rightarrow> int option \<times> VersionsIter" where
  "Peek_loop i iter =
     (if i < length (it_versions iter)
      then let v = it_versions iter ! i
           in if \<not> Constraints_Check (it_constraints iter) v
              then Peek_loop (i + 1) (iter\<lparr>it_offset := it_offset iter + 1\<rparr>)
              else (Some (v_id v), iter)
      else (None, iter))"
  by pat_completeness auto
termination
  by (relation "measure (\<lambda>(i, iter). length (it_versions iter) - i)") auto

declare Next_loop.simps [simp del] Peek_loop.simps [simp del]

definition VersionsIter_Next :: "VersionsIter \<Rightarrow> int option \<times> VersionsIter" where
  "VersionsIter_Next iter = Next_loop (it_offset iter) iter"

definition VersionsIter_Peek :: "VersionsIter \<Rightarrow> int option \<times> VersionsIter" where
  "VersionsIter_Peek iter = Peek_loop (it_offset iter) iter"

definition VersionCandidates_VersionIDs :: "VersionCandidates \<Rightarrow> VersionsIter" where
  "VersionCandidates_VersionIDs cands =
     \<lparr>it_offset = 0, it_versions = vcs_versions cands, it_constraints = vcs_constraints cands\<rparr>"

definition ForVersion :: "VersionCandidates \<Rightarrow> int \<Rightarrow> VersionCandidates" where
  "ForVersion cands versionID =
     (case find_version (vcs_versions cands) versionID of
        None \<Rightarrow> empty_candidates
      | Some version \<Rightarrow> VersionCandidates_Merge empty_candidates version)"

section \<open>Inserting at a position found by binary search\<close>

text \<open>
  \<open>With\<close> and \<open>Merge\<close> share one skeleton: find the place of a check order, insert a new version
  there, or change the version that has the id.
\<close>

definition upsert :: "Versions \<Rightarrow> int \<Rightarrow> int \<Rightarrow> Version \<Rightarrow> (Version \<Rightarrow> Version) \<Rightarrow> Versions" where
  "upsert vs ord vid new f =
     (let i = sort_Search (length vs) (\<lambda>i. v_order (vs ! i) \<le> ord)
      in if i = length vs then vs @ [new]
         else if v_id (vs ! i) \<noteq> vid then insert_at i new vs
         else vs[i := f (vs ! i)])"

definition with_build :: "VersionCandidate \<Rightarrow> Version \<Rightarrow> Version" where
  "with_build c v =
     (if vc_JobID c \<noteq> 0
      then v\<lparr>v_passed := AList.update (vc_JobID c)
               (go_insert (vc_BuildID c) (go_index [] (v_passed v) (vc_JobID c))) (v_passed v)\<rparr>
      else v)"

lemma Versions_With_upsert:
  "Versions_With vs c = upsert vs (vc_CheckOrder c) (vc_VersionID c) (NewVersion c) (with_build c)"
  by (simp add: Versions_With_def upsert_def with_build_def Let_def)

lemma Versions_Merge_upsert:
  "Versions_Merge vs v = upsert vs (v_order v) (v_id v) v
     (\<lambda>w. w\<lparr>v_passed := merge_passed (v_passed v) (v_passed w)\<rparr>)"
  by (simp add: Versions_Merge_def upsert_def)

definition desc :: "Versions \<Rightarrow> bool" where
  "desc vs \<longleftrightarrow> sorted_wrt (\<lambda>a b. v_order a > v_order b) vs"

text \<open>
  The keys (version id, check order) of the versions of one resource: a check order belongs to one
  version and a version has one check order.
\<close>

definition coherent :: "(int \<times> int) set \<Rightarrow> bool" where
  "coherent K \<longleftrightarrow> (\<forall>(i, o1) \<in> K. \<forall>(j, o2) \<in> K. i = j \<longleftrightarrow> o1 = o2)"

definition key :: "Version \<Rightarrow> int \<times> int" where
  "key v = (v_id v, v_order v)"

definition versions_wf :: "(int \<times> int) set \<Rightarrow> Versions \<Rightarrow> bool" where
  "versions_wf K vs \<longleftrightarrow> desc vs \<and> distinct (map v_id vs) \<and> key ` set vs \<subseteq> K"

lemma desc_nth: "desc vs \<Longrightarrow> i < k \<Longrightarrow> k < length vs \<Longrightarrow> v_order (vs ! k) < v_order (vs ! i)"
  by (simp add: desc_def sorted_wrt_iff_nth_less)

lemma search_desc:
  assumes "desc vs" and i: "i = sort_Search (length vs) (\<lambda>i. v_order (vs ! i) \<le> ord)"
  shows "i \<le> length vs" and "k < i \<Longrightarrow> ord < v_order (vs ! k)"
    and "i \<le> k \<Longrightarrow> k < length vs \<Longrightarrow> v_order (vs ! k) \<le> ord"
proof -
  have mono: "v_order (vs ! b) \<le> ord"
    if "a \<le> b" "b < length vs" "v_order (vs ! a) \<le> ord" for a b
    using that desc_nth [OF assms(1), of a b] by (cases "a = b") auto
  let ?f = "\<lambda>i. v_order (vs ! i) \<le> ord"
  have le: "i \<le> length vs" unfolding i by (rule sort_Search_le)
  have before: "\<not> ?f k" if "k < i" for k
    using sort_Search_spec(2) [where f = ?f and n = "length vs" and k = k] mono that
    unfolding i by simp
  have at: "?f i" if "i < length vs"
    using sort_Search_spec(3) [where f = ?f and n = "length vs"] mono that
    unfolding i by simp
  show "i \<le> length vs" by (rule le)
  show "ord < v_order (vs ! k)" if "k < i" using before [OF that] by simp
  show "v_order (vs ! k) \<le> ord" if "i \<le> k" "k < length vs"
    using at mono [of i k] that by simp
qed

lemma search_desc_take_drop:
  assumes "desc vs" and "i = sort_Search (length vs) (\<lambda>i. v_order (vs ! i) \<le> ord)"
  shows "v \<in> set (take i vs) \<Longrightarrow> ord < v_order v" and "v \<in> set (drop i vs) \<Longrightarrow> v_order v \<le> ord"
  using search_desc [OF assms]
  by (auto simp: in_set_conv_nth)

lemma desc_insert_at:
  assumes "desc vs" and "i = sort_Search (length vs) (\<lambda>i. v_order (vs ! i) \<le> v_order new)"
    and "\<forall>v \<in> set vs. v_order v \<noteq> v_order new"
  shows "desc (insert_at i new vs)"
proof -
  have "desc (take i vs @ drop i vs)" using assms(1) by simp
  moreover have "v_order v < v_order new" if "v \<in> set (drop i vs)" for v
    using search_desc_take_drop(2) [OF assms(1,2) that] assms(3) in_set_dropD [OF that]
    by fastforce
  ultimately show ?thesis
    using search_desc_take_drop(1) [OF assms(1,2)]
    by (auto simp: desc_def insert_at_def sorted_wrt_append simp del: append_take_drop_id)
qed

lemma find_version_map_of: "find_version vs = map_of (map (\<lambda>v. (v_id v, v)) vs)"
  by (induction vs) (auto simp: fun_eq_iff)

lemma find_version_Some_id: "find_version vs vid = Some v \<Longrightarrow> v_id v = vid \<and> v \<in> set vs"
  by (induction vs) (auto split: if_splits)

lemma find_version_None: "find_version vs vid = None \<longleftrightarrow> vid \<notin> v_id ` set vs"
  by (induction vs) auto

lemma find_version_in: "distinct (map v_id vs) \<Longrightarrow> v \<in> set vs \<Longrightarrow> find_version vs (v_id v) = Some v"
  by (induction vs) auto

lemma find_version_iff:
  "distinct (map v_id vs) \<Longrightarrow> find_version vs vid = Some v \<longleftrightarrow> v \<in> set vs \<and> v_id v = vid"
  using find_version_Some_id find_version_in by blast

lemma find_version_append:
  "find_version (xs @ ys) vid =
     (case find_version xs vid of None \<Rightarrow> find_version ys vid | Some v \<Rightarrow> Some v)"
  by (induction xs) auto

lemma find_version_insert_at:
  assumes "v_id new \<notin> v_id ` set vs"
  shows "find_version (insert_at i new vs) = (find_version vs)(v_id new \<mapsto> new)"
proof
  fix x
  have "find_version vs x =
    (case find_version (take i vs) x of None \<Rightarrow> find_version (drop i vs) x | Some v \<Rightarrow> Some v)"
    by (simp flip: find_version_append)
  moreover have "find_version (take i vs) (v_id new) = None"
    using assms by (auto simp: find_version_None dest: in_set_takeD)
  ultimately show "find_version (insert_at i new vs) x = ((find_version vs)(v_id new \<mapsto> new)) x"
    by (auto simp: insert_at_def find_version_append split: option.split)
qed

lemma find_version_list_update:
  assumes "distinct (map v_id vs)" and "i < length vs" and "v_id w = v_id (vs ! i)"
  shows "find_version (vs[i := w]) = (find_version vs)(v_id w \<mapsto> w)"
  using assms
proof (induction vs arbitrary: i)
  case (Cons v vs)
  then show ?case by (cases i) (auto simp: fun_eq_iff)
qed simp

lemma map_v_id_list_update: "v_id w = v_id (vs ! i) \<Longrightarrow> map v_id (vs[i := w]) = map v_id vs"
  by (metis list_update_id map_update)

lemma desc_list_update: "desc vs \<Longrightarrow> v_order w = v_order (vs ! i) \<Longrightarrow> desc (vs[i := w])"
  by (cases "i < length vs") (auto simp: desc_def sorted_wrt_iff_nth_less nth_list_update)

text \<open>
  On the well-formed version lists, \<open>upsert\<close> is an update of the finite map from version ids to
  versions, and the list stays well-formed: the binary search finds the version when it is there.
\<close>

lemma upsert_cases:
  assumes "versions_wf K vs" and "coherent K" and "(vid, ord) \<in> K"
  obtains i where "vid \<notin> v_id ` set vs" and "upsert vs ord vid new f = insert_at i new vs"
      and "v_order new = ord \<Longrightarrow> desc (insert_at i new vs)"
  | i where "i < length vs" and "v_id (vs ! i) = vid" and "upsert vs ord vid new f = vs[i := f (vs ! i)]"
proof -
  from assms(1) have d: "desc vs" and K: "key ` set vs \<subseteq> K" by (auto simp: versions_wf_def)
  define i where "i = sort_Search (length vs) (\<lambda>i. v_order (vs ! i) \<le> ord)"
  note s = search_desc [OF d i_def]
  have coh: "v_id v = vid \<longleftrightarrow> v_order v = ord" if "v \<in> set vs" for v
    using that K assms(2,3) by (force simp: coherent_def key_def)
  show thesis
  proof (cases "vid \<in> v_id ` set vs")
    case True
    then obtain k where k: "k < length vs" "v_id (vs ! k) = vid" by (auto simp: in_set_conv_nth)
    then have "v_order (vs ! k) = ord" using coh [of "vs ! k"] by simp
    with s(2) [of k] have "i \<le> k" by force
    with k s(3) [of i] have "v_order (vs ! i) \<le> ord" "i < length vs" by auto
    moreover have "\<not> i < k"
      using desc_nth [OF d _ k(1), of i] \<open>v_order (vs ! k) = ord\<close> calculation by auto
    ultimately have "k = i" using \<open>i \<le> k\<close> by simp
    with k show thesis by (intro that(2)) (auto simp: upsert_def Let_def simp flip: i_def)
  next
    case False
    then have ne: "\<forall>v \<in> set vs. v_order v \<noteq> ord" using coh by auto
    have "upsert vs ord vid new f = insert_at i new vs"
    proof (cases "i = length vs")
      case True
      then show ?thesis by (simp add: upsert_def Let_def insert_at_def flip: i_def)
    next
      case ne: False
      with s(1) False have "v_id (vs ! i) \<noteq> vid" by auto
      with ne show ?thesis by (simp add: upsert_def Let_def flip: i_def)
    qed
    moreover have "v_order new = ord \<Longrightarrow> desc (insert_at i new vs)"
      using ne by (intro desc_insert_at [OF d]) (auto simp: i_def)
    ultimately show thesis by (rule that(1) [OF False])
  qed
qed

lemma upsert_wf:
  assumes wf: "versions_wf K vs" and "coherent K" and "key new = (vid, ord)" and K: "(vid, ord) \<in> K"
    and f: "\<And>v. key (f v) = key v"
  shows "versions_wf K (upsert vs ord vid new f)"
    and "find_version (upsert vs ord vid new f) =
      (find_version vs)(vid \<mapsto> (case find_version vs vid of None \<Rightarrow> new | Some v \<Rightarrow> f v))"
proof -
  have new: "v_id new = vid" "v_order new = ord" using assms(3) by (auto simp: key_def)
  have f': "v_id (f v) = v_id v" "v_order (f v) = v_order v" for v using f [of v] by (auto simp: key_def)
  from wf have d: "distinct (map v_id vs)" by (simp add: versions_wf_def)
  from wf assms(2) K have "versions_wf K (upsert vs ord vid new f) \<and>
    find_version (upsert vs ord vid new f) =
      (find_version vs)(vid \<mapsto> (case find_version vs vid of None \<Rightarrow> new | Some v \<Rightarrow> f v))"
  proof (cases rule: upsert_cases [where new = new and f = f])
    case (1 i)
    have "distinct (map v_id (insert_at i new vs))"
      using d 1(1) new by (auto simp: insert_at_def distinct_append set_take_disj_set_drop_if_distinct
          dest: in_set_takeD in_set_dropD simp flip: take_map drop_map)
    moreover have "set (insert_at i new vs) = insert new (set vs)"
      unfolding insert_at_def by (metis append_take_drop_id list.simps(15) set_append Un_insert_right)
    moreover have "find_version vs vid = None" using 1(1) by (simp add: find_version_None)
    ultimately show ?thesis
      using 1 new wf K assms(3) by (auto simp: versions_wf_def find_version_insert_at)
  next
    case (2 i)
    then have "find_version vs vid = Some (vs ! i)" using d by (simp add: find_version_iff)
    moreover have "key ` set (vs[i := f (vs ! i)]) \<subseteq> K"
      using wf 2(1) f set_update_subset_insert [of vs i "f (vs ! i)"]
      by (fastforce simp: versions_wf_def)
    ultimately show ?thesis
      using 2 wf f' d
      by (simp add: versions_wf_def desc_list_update map_v_id_list_update find_version_list_update)
  qed
  then show "versions_wf K (upsert vs ord vid new f)"
    and "find_version (upsert vs ord vid new f) =
      (find_version vs)(vid \<mapsto> (case find_version vs vid of None \<Rightarrow> new | Some v \<Rightarrow> f v))" by auto
qed

section \<open>The builds of versions\<close>

definition builds_in :: "(int \<times> BuildSet) list \<Rightarrow> int \<Rightarrow> int set" where
  "builds_in m j = set (go_index [] m j)"

definition passed_wf :: "(int \<times> BuildSet) list \<Rightarrow> bool" where
  "passed_wf m \<longleftrightarrow> distinct (map fst m) \<and> (\<forall>(j, bs) \<in> set m. bs \<noteq> [])"

definition all_builds :: "Versions \<Rightarrow> int \<Rightarrow> int set" where
  "all_builds vs j = (\<Union>v \<in> set vs. builds_in (v_passed v) j)"

lemma builds_in_update [simp]:
  "builds_in (AList.update k s m) j = (if j = k then set s else builds_in m j)"
  by (simp add: builds_in_def)

lemma builds_in_Nil [simp]: "builds_in [] j = {}"
  by (simp add: builds_in_def)

lemma builds_in_Cons [simp]: "builds_in ((k, s) # m) j = (if j = k then set s else builds_in m j)"
  by (simp add: builds_in_def)

lemma builds_in_not_key: "j \<notin> fst ` set m \<Longrightarrow> builds_in m j = {}"
  by (simp add: builds_in_def go_index_not_key)

lemma passed_wf_key: "passed_wf m \<Longrightarrow> builds_in m j \<noteq> {} \<longleftrightarrow> j \<in> fst ` set m"
proof
  assume wf: "passed_wf m" and "j \<in> fst ` set m"
  then obtain bs where bs: "(j, bs) \<in> set m" by auto
  with wf have "map_of m j = Some bs" by (simp add: passed_wf_def)
  with wf bs show "builds_in m j \<noteq> {}"
    by (auto simp: passed_wf_def builds_in_def go_index_def)
qed (use builds_in_not_key in blast)

lemma PassedAny_iff:
  "passed_wf (v_passed v) \<Longrightarrow> PassedAny v j bs \<longleftrightarrow>
     j \<in> fst ` set (v_passed v) \<longrightarrow> builds_in (v_passed v) j \<inter> set bs \<noteq> {}"
  by (auto simp: PassedAny_def builds_in_def go_index_def map_of_eq_None_iff dest: map_of_SomeD
      split: option.split) (metis imageI fst_conv map_of_SomeD)

lemma builds_in_merge_passed:
  "distinct (map fst p) \<Longrightarrow> builds_in (merge_passed p q) j = builds_in p j \<union> builds_in q j"
proof (induction p q rule: merge_passed.induct)
  case (2 k vb rest q)
  then have "builds_in rest k = {}" by (auto intro!: builds_in_not_key)
  moreover have "map_of q k = None \<Longrightarrow> builds_in q k = {}"
    by (simp add: builds_in_def go_index_def)
  moreover have "map_of q k = Some b \<Longrightarrow> builds_in q k = set b" for b
    by (simp add: builds_in_def go_index_def)
  ultimately show ?case using 2 by (auto split: option.split)
qed simp

lemma keys_merge_passed: "fst ` set (merge_passed p q) = fst ` set p \<union> fst ` set q"
  by (induction p q rule: merge_passed.induct) (auto split: option.splits)

lemma passed_wf_update: "passed_wf m \<Longrightarrow> s \<noteq> [] \<Longrightarrow> passed_wf (AList.update k s m)"
proof -
  assume wf: "passed_wf m" and s: "s \<noteq> []"
  have "distinct (map fst (AList.update k s m))" using wf by (simp add: passed_wf_def distinct_update)
  moreover have "bs \<noteq> []" if "(j, bs) \<in> set (AList.update k s m)" for j bs
    using that s wf by (induction m) (auto simp: passed_wf_def split: if_splits)
  ultimately show ?thesis by (auto simp: passed_wf_def)
qed

lemma range_insert_not_Nil: "s \<noteq> [] \<Longrightarrow> range_insert xs s \<noteq> []"
  by (metis Un_empty set_empty set_range_insert)

lemma go_insert_not_Nil [simp]: "go_insert x s \<noteq> []"
  by (auto simp: go_insert_def)

lemma passed_wf_merge: "passed_wf p \<Longrightarrow> passed_wf q \<Longrightarrow> passed_wf (merge_passed p q)"
proof (induction p q rule: merge_passed.induct)
  case (2 k vb rest q)
  have "b \<noteq> []" if "map_of q k = Some b" for b
    using map_of_SomeD [OF that] "2.prems"(2) by (auto simp: passed_wf_def)
  with 2 show ?case
    by (auto simp: passed_wf_def [of "(_, _) # _"] passed_wf_def [of rest]
        passed_wf_update range_insert_not_Nil split: option.split)
qed simp

lemma builds_in_merge_buildIDs:
  "distinct (map fst p) \<Longrightarrow> builds_in (merge_buildIDs p q) j = builds_in p j \<union> builds_in q j"
proof (induction p q rule: merge_buildIDs.induct)
  case (2 k ob rest q)
  then have "builds_in rest k = {}" by (auto intro!: builds_in_not_key)
  with 2 show ?case by (auto simp: builds_in_def)
qed simp

lemma all_builds_insert_at: "all_builds (insert_at i new vs) j = builds_in (v_passed new) j \<union> all_builds vs j"
proof -
  have "all_builds vs j = all_builds (take i vs @ drop i vs) j" by simp
  then show ?thesis by (auto simp: all_builds_def insert_at_def simp del: append_take_drop_id)
qed

lemma all_builds_list_update:
  assumes "i < length vs" and "builds_in (v_passed w) j = builds_in (v_passed (vs ! i)) j \<union> B"
  shows "all_builds (vs[i := w]) j = all_builds vs j \<union> B"
proof -
  from assms(1) have vs: "vs = take i vs @ vs ! i # drop (Suc i) vs" by (rule id_take_nth_drop)
  have "all_builds vs j = all_builds (take i vs @ vs ! i # drop (Suc i) vs) j" using vs by simp
  with assms show ?thesis by (auto simp: all_builds_def upd_conv_take_nth_drop)
qed

lemma all_builds_upsert:
  assumes "builds_in (v_passed new) j = B"
    and "\<And>w. w \<in> set vs \<Longrightarrow> builds_in (v_passed (f w)) j = builds_in (v_passed w) j \<union> B"
  shows "all_builds (upsert vs ord vid new f) j = all_builds vs j \<union> B"
proof -
  define i where "i = sort_Search (length vs) (\<lambda>i. v_order (vs ! i) \<le> ord)"
  have "i \<le> length vs" by (simp add: i_def sort_Search_le)
  then consider "i = length vs" | "i < length vs" "v_id (vs ! i) \<noteq> vid" | "i < length vs" "v_id (vs ! i) = vid"
    by fastforce
  then show ?thesis
  proof cases
    case 1
    with assms(1) show ?thesis by (auto simp: upsert_def all_builds_def simp flip: i_def)
  next
    case 2
    with assms(1) show ?thesis
      by (auto simp: upsert_def all_builds_insert_at simp flip: i_def)
  next
    case 3
    with assms show ?thesis
      by (auto simp: upsert_def all_builds_list_update simp flip: i_def)
  qed
qed

section \<open>Candidate sets\<close>

definition cands_inv :: "(int \<times> int) set \<Rightarrow> VersionCandidates \<Rightarrow> bool" where
  "cands_inv K c \<longleftrightarrow>
     versions_wf K (vcs_versions c) \<and>
     (\<forall>v \<in> set (vcs_versions c). passed_wf (v_passed v)) \<and>
     (\<forall>j. builds_in (vcs_buildIDs c) j = all_builds (vcs_versions c) j)"

definition cand_key :: "VersionCandidate \<Rightarrow> int \<times> int" where
  "cand_key c = (vc_VersionID c, vc_CheckOrder c)"

abbreviation version_of :: "VersionCandidates \<Rightarrow> int \<Rightarrow> Version option" where
  "version_of c \<equiv> find_version (vcs_versions c)"

lemma versions_wf_distinct: "versions_wf K vs \<Longrightarrow> distinct (map v_id vs)"
  by (simp add: versions_wf_def)

lemma key_with_build [simp]: "key (with_build c v) = key v"
  by (simp add: with_build_def key_def)

lemma key_update_passed [simp]: "key (v\<lparr>v_passed := p\<rparr>) = key v"
  by (simp add: key_def)

lemma key_NewVersion [simp]: "key (NewVersion c) = cand_key c"
  by (simp add: NewVersion_def key_def cand_key_def)

lemma builds_in_NewVersion [simp]:
  "builds_in (v_passed (NewVersion c)) j =
     (if vc_JobID c \<noteq> 0 \<and> j = vc_JobID c then {vc_BuildID c} else {})"
  by (simp add: NewVersion_def)

lemma builds_in_with_build [simp]:
  "builds_in (v_passed (with_build c v)) j = builds_in (v_passed v) j \<union>
     (if vc_JobID c \<noteq> 0 \<and> j = vc_JobID c then {vc_BuildID c} else {})"
  by (auto simp: with_build_def builds_in_def)

lemma passed_wf_with_build [simp]: "passed_wf (v_passed v) \<Longrightarrow> passed_wf (v_passed (with_build c v))"
  by (simp add: with_build_def passed_wf_update)

lemma passed_wf_NewVersion [simp]: "passed_wf (v_passed (NewVersion c))"
  by (simp add: NewVersion_def passed_wf_def)

lemma keys_with_build:
  "fst ` set (v_passed (with_build c v)) =
     (if vc_JobID c \<noteq> 0 then insert (vc_JobID c) (fst ` set (v_passed v)) else fst ` set (v_passed v))"
  by (simp add: with_build_def)

lemma keys_NewVersion:
  "fst ` set (v_passed (NewVersion c)) = (if vc_JobID c \<noteq> 0 then {vc_JobID c} else {})"
  by (simp add: NewVersion_def)

lemma passed_wf_all:
  assumes "distinct (map v_id vs)"
    and "find_version vs = m(x \<mapsto> w)" and "passed_wf (v_passed w)"
    and "\<And>y u. m y = Some u \<Longrightarrow> passed_wf (v_passed u)"
  shows "\<forall>v \<in> set vs. passed_wf (v_passed v)"
proof
  fix v assume "v \<in> set vs"
  then have "(m(x \<mapsto> w)) (v_id v) = Some v" using find_version_in [OF assms(1)] assms(2) by metis
  then show "passed_wf (v_passed v)" using assms(3,4) by (auto split: if_splits)
qed

lemma versions_Add:
  "vcs_versions (VersionCandidates_Add cands c) = Versions_With (vcs_versions cands) c"
  by (simp add: VersionCandidates_Add_def Let_def)

lemma builds_in_Add:
  "builds_in (vcs_buildIDs (VersionCandidates_Add cands c)) j = builds_in (vcs_buildIDs cands) j \<union>
     (if vc_JobID c \<noteq> 0 \<and> j = vc_JobID c then {vc_BuildID c} else {})"
  by (auto simp: VersionCandidates_Add_def Let_def builds_in_def)

text \<open>\<open>Add\<close> keeps the invariant and records the candidate under its version id.\<close>

lemma Add_inv:
  assumes "cands_inv K cands" and "coherent K" and "cand_key c \<in> K"
  shows "cands_inv K (VersionCandidates_Add cands c)"
    and "version_of (VersionCandidates_Add cands c) = (version_of cands)(vc_VersionID c \<mapsto>
      (case version_of cands (vc_VersionID c) of None \<Rightarrow> NewVersion c | Some v \<Rightarrow> with_build c v))"
proof -
  let ?vs = "vcs_versions cands"
  from assms have wf: "versions_wf K ?vs" and pw: "\<forall>v \<in> set ?vs. passed_wf (v_passed v)"
    and b: "\<And>j. builds_in (vcs_buildIDs cands) j = all_builds ?vs j"
    by (auto simp: cands_inv_def)
  note u = upsert_wf [where f = "with_build c", OF wf assms(2) key_NewVersion [unfolded cand_key_def]
      assms(3) [unfolded cand_key_def] key_with_build]
  show find: "version_of (VersionCandidates_Add cands c) = (version_of cands)(vc_VersionID c \<mapsto>
      (case version_of cands (vc_VersionID c) of None \<Rightarrow> NewVersion c | Some v \<Rightarrow> with_build c v))"
    using u(2) by (simp add: versions_Add Versions_With_upsert)
  have wf': "versions_wf K (vcs_versions (VersionCandidates_Add cands c))"
    using u(1) by (simp add: versions_Add Versions_With_upsert)
  moreover have "\<forall>v \<in> set (vcs_versions (VersionCandidates_Add cands c)). passed_wf (v_passed v)"
    using pw by (intro passed_wf_all [OF versions_wf_distinct [OF wf'] find])
      (auto dest: find_version_Some_id split: option.split)
  moreover have "builds_in (vcs_buildIDs (VersionCandidates_Add cands c)) j =
      all_builds (vcs_versions (VersionCandidates_Add cands c)) j" for j
    unfolding versions_Add Versions_With_upsert
    by (subst all_builds_upsert [OF refl]) (auto simp: builds_in_Add b)
  ultimately show "cands_inv K (VersionCandidates_Add cands c)" by (simp add: cands_inv_def)
qed

text \<open>\<open>Merge\<close> keeps the invariant and adds the version's builds under its id.\<close>

lemma Merge_inv:
  assumes "cands_inv K cands" and "coherent K" and "key v \<in> K" and "passed_wf (v_passed v)"
  shows "cands_inv K (VersionCandidates_Merge cands v)"
    and "version_of (VersionCandidates_Merge cands v) = (version_of cands)(v_id v \<mapsto>
      (case version_of cands (v_id v) of None \<Rightarrow> v
       | Some w \<Rightarrow> w\<lparr>v_passed := merge_passed (v_passed v) (v_passed w)\<rparr>))"
proof -
  let ?vs = "vcs_versions cands" and ?f = "\<lambda>w. w\<lparr>v_passed := merge_passed (v_passed v) (v_passed w)\<rparr>"
  from assms have wf: "versions_wf K ?vs" and pw: "\<forall>v \<in> set ?vs. passed_wf (v_passed v)"
    and b: "\<And>j. builds_in (vcs_buildIDs cands) j = all_builds ?vs j"
    by (auto simp: cands_inv_def)
  from assms(4) have d: "distinct (map fst (v_passed v))" by (simp add: passed_wf_def)
  have vs: "vcs_versions (VersionCandidates_Merge cands v) = upsert ?vs (v_order v) (v_id v) v ?f"
    by (simp add: VersionCandidates_Merge_def Versions_Merge_upsert)
  note u = upsert_wf [where f = ?f, OF wf assms(2) key_def [of v] assms(3) [unfolded key_def]
      key_update_passed, folded vs]
  show find: "version_of (VersionCandidates_Merge cands v) = (version_of cands)(v_id v \<mapsto>
      (case version_of cands (v_id v) of None \<Rightarrow> v | Some w \<Rightarrow> ?f w))"
    by (rule u(2))
  have "\<forall>w \<in> set (vcs_versions (VersionCandidates_Merge cands v)). passed_wf (v_passed w)"
    using pw assms(4) by (intro passed_wf_all [OF versions_wf_distinct [OF u(1)] find])
      (auto simp: passed_wf_merge dest: find_version_Some_id split: option.split)
  moreover have "builds_in (vcs_buildIDs (VersionCandidates_Merge cands v)) j =
      all_builds (vcs_versions (VersionCandidates_Merge cands v)) j" for j
    unfolding vs by (subst all_builds_upsert [OF refl])
      (auto simp: builds_in_merge_passed [OF d] builds_in_merge_buildIDs [OF d]
        VersionCandidates_Merge_def b)
  ultimately show "cands_inv K (VersionCandidates_Merge cands v)" using u(1) by (simp add: cands_inv_def)
qed

lemma cands_inv_empty [simp]: "cands_inv K empty_candidates"
  by (simp add: cands_inv_def empty_candidates_def versions_wf_def desc_def all_builds_def)

lemma version_of_empty [simp]: "version_of empty_candidates x = None"
  by (simp add: empty_candidates_def)

lemma cands_inv_version:
  assumes "cands_inv K c" and "version_of c x = Some v"
  shows "v_id v = x" and "key v \<in> K" and "passed_wf (v_passed v)" and "v \<in> set (vcs_versions c)"
  using assms find_version_Some_id [OF assms(2)] by (auto simp: cands_inv_def versions_wf_def)

lemma constraints_Add [simp]: "vcs_constraints (VersionCandidates_Add c x) = vcs_constraints c"
  by (simp add: VersionCandidates_Add_def Let_def)

lemma constraints_Merge [simp]: "vcs_constraints (VersionCandidates_Merge c v) = vcs_constraints c"
  by (simp add: VersionCandidates_Merge_def)

text \<open>
  \<open>IntersectByVersion\<close> keeps the versions both sides have, each with the builds of both sides.
\<close>

definition merged_version :: "Version \<Rightarrow> Version \<Rightarrow> Version" where
  "merged_version v w = w\<lparr>v_passed := merge_passed (v_passed v) (v_passed w)\<rparr>"

lemma intersect_loop_inv:
  assumes "coherent K" and "\<And>x w. find_version others x = Some w \<Longrightarrow> key w \<in> K \<and> passed_wf (v_passed w)"
  shows "cands_inv K acc \<Longrightarrow> distinct (map v_id vs) \<Longrightarrow> key ` set vs \<subseteq> K \<Longrightarrow>
    \<forall>v \<in> set vs. passed_wf (v_passed v) \<and> version_of acc (v_id v) = None \<Longrightarrow>
    cands_inv K (intersect_loop vs others acc) \<and>
    version_of (intersect_loop vs others acc) =
      (\<lambda>x. case (find_version vs x, find_version others x) of
             (Some v, Some w) \<Rightarrow> Some (merged_version v w)
           | _ \<Rightarrow> version_of acc x)"
proof (induction vs arbitrary: acc)
  case (Cons v vs)
  have v: "key v \<in> K" "passed_wf (v_passed v)" "version_of acc (v_id v) = None"
    and vs: "v_id v \<notin> v_id ` set vs" "find_version vs (v_id v) = None"
    using Cons.prems by (auto simp: find_version_None)
  show ?case
  proof (cases "find_version others (v_id v)")
    case None
    have "intersect_loop (v # vs) others acc = intersect_loop vs others acc" using None by simp
    with Cons.IH [of acc] Cons.prems None vs show ?thesis by (auto simp: fun_eq_iff)
  next
    case (Some w)
    then have w: "key w \<in> K" "passed_wf (v_passed w)" "v_id w = v_id v"
      using assms(2) find_version_Some_id [OF Some] by auto
    define acc1 where "acc1 = VersionCandidates_Merge acc w"
    define acc2 where "acc2 = VersionCandidates_Merge acc1 v"
    note m1 = Merge_inv [OF Cons.prems(1) assms(1) w(1,2), folded acc1_def]
    note m2 = Merge_inv [OF m1(1) assms(1) v(1,2), folded acc2_def]
    have find2: "version_of acc2 = (version_of acc)(v_id v \<mapsto> merged_version v w)"
      using m1(2) m2(2) v w by (simp add: merged_version_def)
    have loop: "intersect_loop (v # vs) others acc = intersect_loop vs others acc2"
      using Some by (simp add: acc1_def acc2_def)
    have "\<forall>u \<in> set vs. passed_wf (v_passed u) \<and> version_of acc2 (v_id u) = None"
      using Cons.prems(4) find2 vs(1) by (auto simp: image_iff)
    with Cons.IH [of acc2] m2(1) Cons.prems(2,3) have IH: "cands_inv K (intersect_loop vs others acc2)"
      "version_of (intersect_loop vs others acc2) =
        (\<lambda>x. case (find_version vs x, find_version others x) of
             (Some v, Some w) \<Rightarrow> Some (merged_version v w)
           | _ \<Rightarrow> version_of acc2 x)" by auto
    show ?thesis unfolding loop IH(2) using IH(1) find2 vs(2) Some
      by (auto simp: fun_eq_iff split: option.split)
  qed
qed simp

lemma IntersectByVersion_inv:
  assumes "coherent K" and "cands_inv K c" and "cands_inv K d"
  shows "cands_inv K (IntersectByVersion c d)"
    and "version_of (IntersectByVersion c d) x =
      (case (version_of c x, version_of d x) of
         (Some v, Some w) \<Rightarrow> Some (merged_version v w)
       | _ \<Rightarrow> None)"
    and "vcs_constraints (IntersectByVersion c d) = []"
proof -
  have "cands_inv K (IntersectByVersion c d) \<and> version_of (IntersectByVersion c d) =
      (\<lambda>x. case (version_of c x, version_of d x) of
             (Some v, Some w) \<Rightarrow> Some (merged_version v w)
           | _ \<Rightarrow> version_of empty_candidates x)"
    unfolding IntersectByVersion_def
  proof (rule intersect_loop_inv [OF assms(1)])
    show "key w \<in> K \<and> passed_wf (v_passed w)" if "version_of d x = Some w" for x w
      using cands_inv_version [OF assms(3) that] by simp
  qed (use assms(2) in \<open>simp_all add: cands_inv_def [of K c] versions_wf_def\<close>)
  then show "cands_inv K (IntersectByVersion c d)" and "version_of (IntersectByVersion c d) x =
      (case (version_of c x, version_of d x) of
         (Some v, Some w) \<Rightarrow> Some (merged_version v w)
       | _ \<Rightarrow> None)"
    by (auto split: option.split)
  have "vcs_constraints (intersect_loop vs os acc) = vcs_constraints acc" for vs os acc
    by (induction vs arbitrary: acc) (auto split: option.split)
  then show "vcs_constraints (IntersectByVersion c d) = []"
    by (simp add: IntersectByVersion_def empty_candidates_def)
qed

lemma merged_version_simps [simp]:
  "v_id (merged_version v w) = v_id w" "v_order (merged_version v w) = v_order w"
  "fst ` set (v_passed (merged_version v w)) = fst ` set (v_passed v) \<union> fst ` set (v_passed w)"
  by (simp_all add: merged_version_def keys_merge_passed)

lemma builds_in_merged_version:
  "passed_wf (v_passed v) \<Longrightarrow> builds_in (v_passed (merged_version v w)) j =
     builds_in (v_passed v) j \<union> builds_in (v_passed w) j"
  by (simp add: merged_version_def builds_in_merge_passed passed_wf_def)

text \<open>\<open>ForVersion\<close> narrows a candidate set to one version and drops the constraints.\<close>

lemma ForVersion_Some:
  assumes "version_of c x = Some v"
  shows "vcs_versions (ForVersion c x) = [v]" and "vcs_constraints (ForVersion c x) = []"
    and "distinct (map fst (v_passed v)) \<Longrightarrow>
      builds_in (vcs_buildIDs (ForVersion c x)) j = builds_in (v_passed v) j"
  using assms
  by (simp_all add: ForVersion_def VersionCandidates_Merge_def empty_candidates_def
      Versions_Merge_def sort_Search_def search_loop_done builds_in_merge_buildIDs)

section \<open>The iterator\<close>

definition iter_list :: "VersionsIter \<Rightarrow> Versions" where
  "iter_list it = filter (Constraints_Check (it_constraints it)) (drop (it_offset it) (it_versions it))"

lemma Constraints_Check_iff: "Constraints_Check cs v \<longleftrightarrow> (\<forall>c \<in> set cs. c v)"
  by (induction cs) auto

text \<open>\<open>Next\<close> takes the first version left that satisfies the constraints, \<open>Peek\<close> only looks at it.\<close>

lemma Next_loop_spec:
  "i = it_offset it \<Longrightarrow>
     (case iter_list it of
        [] \<Rightarrow> fst (Next_loop i it) = None
      | v # vs \<Rightarrow> fst (Next_loop i it) = Some (v_id v) \<and> iter_list (snd (Next_loop i it)) = vs)"
proof (induction i it rule: Next_loop.induct)
  case (1 i it)
  show ?case
  proof (cases "i < length (it_versions it)")
    case True
    let ?v = "it_versions it ! i" and ?it = "it\<lparr>it_offset := it_offset it + 1\<rparr>"
    have d: "drop i (it_versions it) = ?v # drop (Suc i) (it_versions it)"
      using True by (simp add: Cons_nth_drop_Suc)
    show ?thesis
    proof (cases "Constraints_Check (it_constraints it) ?v")
      case c: True
      with True 1 d show ?thesis by (simp add: Next_loop.simps [of "it_offset it" it] iter_list_def)
    next
      case c: False
      then have l: "iter_list it = iter_list ?it" using d 1 by (simp add: iter_list_def)
      have e: "Next_loop i it = Next_loop (i + 1) ?it"
        using True c by (simp add: Next_loop.simps [of i it])
      have "i + 1 = it_offset ?it" using "1.prems" by simp
      from "1.IH" [OF True refl refl c this] show ?thesis unfolding e l .
    qed
  next
    case False
    with 1 show ?thesis by (simp add: Next_loop.simps [of "it_offset it" it] iter_list_def)
  qed
qed

lemma Peek_loop_spec:
  "i = it_offset it \<Longrightarrow>
     fst (Peek_loop i it) = (case iter_list it of [] \<Rightarrow> None | v # vs \<Rightarrow> Some (v_id v)) \<and>
     iter_list (snd (Peek_loop i it)) = iter_list it"
proof (induction i it rule: Peek_loop.induct)
  case (1 i it)
  show ?case
  proof (cases "i < length (it_versions it)")
    case True
    let ?v = "it_versions it ! i" and ?it = "it\<lparr>it_offset := it_offset it + 1\<rparr>"
    have d: "drop i (it_versions it) = ?v # drop (Suc i) (it_versions it)"
      using True by (simp add: Cons_nth_drop_Suc)
    show ?thesis
    proof (cases "Constraints_Check (it_constraints it) ?v")
      case c: True
      with True 1 d show ?thesis by (simp add: Peek_loop.simps [of "it_offset it" it] iter_list_def)
    next
      case c: False
      then have l: "iter_list it = iter_list ?it" using d 1 by (simp add: iter_list_def)
      have e: "Peek_loop i it = Peek_loop (i + 1) ?it"
        using True c by (simp add: Peek_loop.simps [of i it])
      have "i + 1 = it_offset ?it" using "1.prems" by simp
      from "1.IH" [OF True refl c this] show ?thesis unfolding e l .
    qed
  next
    case False
    with 1 show ?thesis by (simp add: Peek_loop.simps [of "it_offset it" it] iter_list_def)
  qed
qed

lemma VersionsIter_Next_Nil: "iter_list it = [] \<Longrightarrow> fst (VersionsIter_Next it) = None"
  using Next_loop_spec [OF refl, of it] by (simp add: VersionsIter_Next_def)

lemma VersionsIter_Next_Cons:
  "iter_list it = v # vs \<Longrightarrow> fst (VersionsIter_Next it) = Some (v_id v) \<and>
     iter_list (snd (VersionsIter_Next it)) = vs"
  using Next_loop_spec [OF refl, of it] by (simp add: VersionsIter_Next_def)

lemma VersionsIter_Peek:
  "fst (VersionsIter_Peek it) = (case iter_list it of [] \<Rightarrow> None | v # vs \<Rightarrow> Some (v_id v))"
  "iter_list (snd (VersionsIter_Peek it)) = iter_list it"
  using Peek_loop_spec [OF refl, of it] by (simp_all add: VersionsIter_Peek_def)

lemma iter_list_VersionIDs:
  "iter_list (VersionCandidates_VersionIDs c) =
     filter (Constraints_Check (vcs_constraints c)) (vcs_versions c)"
  by (simp add: iter_list_def VersionCandidates_VersionIDs_def)

end
