(* ===== verification/Versions_DB.thy ===== *)
theory Versions_DB
  imports Versions
begin

text \<open>
  \<open>db/algorithm/db.go\<close> and \<open>db/algorithm/existing_build_resolver.go\<close>: the snapshot of resource
  versions, build inputs and build outputs a scheduling round works on, and the queries over it.

  The embedded struct \<open>ResourceVersion\<close> of \<open>BuildOutput\<close> and \<open>BuildInput\<close> is a record
  extension. A query that returns \<open>(VersionCandidate, bool)\<close> returns the pair, the zero candidate
  included.
\<close>

section \<open>Definitions\<close>

record ResourceVersion =
  rv_VersionID :: int
  rv_ResourceID :: int
  rv_CheckOrder :: int

record BuildOutput = ResourceVersion +
  bo_BuildID :: int
  bo_JobID :: int

record BuildInput = ResourceVersion +
  bi_BuildID :: int
  bi_JobID :: int
  bi_InputName :: string

record VersionsDB =
  db_ResourceVersions :: "ResourceVersion list"
  db_BuildOutputs :: "BuildOutput list"
  db_BuildInputs :: "BuildInput list"
  db_JobIDs :: "(string \<times> int) list"
  db_ResourceIDs :: "(string \<times> int) list"

definition zero_candidate :: VersionCandidate where
  "zero_candidate = \<lparr>vc_VersionID = 0, vc_BuildID = 0, vc_JobID = 0, vc_CheckOrder = 0\<rparr>"

fun first_occurrence_loop :: "BuildInput list \<Rightarrow> int \<Rightarrow> int \<Rightarrow> string \<Rightarrow> bool" where
  "first_occurrence_loop [] versionID jobID inputName = True"
| "first_occurrence_loop (bi # bis) versionID jobID inputName =
     (if rv_VersionID bi = versionID \<and> bi_JobID bi = jobID \<and> bi_InputName bi = inputName
      then False
      else first_occurrence_loop bis versionID jobID inputName)"

definition IsVersionFirstOccurrence :: "VersionsDB \<Rightarrow> int \<Rightarrow> int \<Rightarrow> string \<Rightarrow> bool" where
  "IsVersionFirstOccurrence db versionID jobID inputName =
     first_occurrence_loop (db_BuildInputs db) versionID jobID inputName"

fun all_versions_loop :: "ResourceVersion list \<Rightarrow> int \<Rightarrow> VersionCandidates \<Rightarrow> VersionCandidates" where
  "all_versions_loop [] resourceID candidates = candidates"
| "all_versions_loop (out # outs) resourceID candidates =
     all_versions_loop outs resourceID
       (if rv_ResourceID out = resourceID
        then VersionCandidates_Add candidates
               (zero_candidate\<lparr>vc_VersionID := rv_VersionID out, vc_CheckOrder := rv_CheckOrder out\<rparr>)
        else candidates)"

definition AllVersionsOfResource :: "VersionsDB \<Rightarrow> int \<Rightarrow> VersionCandidates" where
  "AllVersionsOfResource db resourceID =
     all_versions_loop (db_ResourceVersions db) resourceID empty_candidates"

fun latest_loop ::
    "ResourceVersion list \<Rightarrow> int \<Rightarrow> VersionCandidate \<Rightarrow> bool \<Rightarrow> VersionCandidate \<times> bool" where
  "latest_loop [] resourceID candidate found = (candidate, found)"
| "latest_loop (v # vs) resourceID candidate found =
     (if rv_ResourceID v = resourceID \<and> rv_CheckOrder v > vc_CheckOrder candidate
      then latest_loop vs resourceID
             (zero_candidate\<lparr>vc_VersionID := rv_VersionID v, vc_CheckOrder := rv_CheckOrder v\<rparr>) True
      else latest_loop vs resourceID candidate found)"

definition LatestVersionOfResource :: "VersionsDB \<Rightarrow> int \<Rightarrow> VersionCandidate \<times> bool" where
  "LatestVersionOfResource db resourceID =
     latest_loop (db_ResourceVersions db) resourceID zero_candidate False"

fun find_loop ::
    "ResourceVersion list \<Rightarrow> int \<Rightarrow> int \<Rightarrow> VersionCandidate \<Rightarrow> bool \<Rightarrow> VersionCandidate \<times> bool" where
  "find_loop [] resourceID versionID candidate found = (candidate, found)"
| "find_loop (v # vs) resourceID versionID candidate found =
     (if rv_ResourceID v = resourceID \<and> rv_VersionID v = versionID
      then find_loop vs resourceID versionID
             (zero_candidate\<lparr>vc_VersionID := rv_VersionID v, vc_CheckOrder := rv_CheckOrder v\<rparr>) True
      else find_loop vs resourceID versionID candidate found)"

definition FindVersionOfResource :: "VersionsDB \<Rightarrow> int \<Rightarrow> int \<Rightarrow> VersionCandidate \<times> bool" where
  "FindVersionOfResource db resourceID versionID =
     find_loop (db_ResourceVersions db) resourceID versionID zero_candidate False"

text \<open>The inner loop of \<open>VersionsOfResourcePassedJobs\<close>, over the outputs of one job.\<close>

definition output_candidate :: "BuildOutput \<Rightarrow> VersionCandidate" where
  "output_candidate out =
     \<lparr>vc_VersionID = rv_VersionID out, vc_BuildID = bo_BuildID out, vc_JobID = bo_JobID out,
      vc_CheckOrder = rv_CheckOrder out\<rparr>"

fun job_outputs_loop :: "BuildOutput list \<Rightarrow> int \<Rightarrow> int \<Rightarrow> VersionCandidates \<Rightarrow> VersionCandidates" where
  "job_outputs_loop [] resourceID jobID versions = versions"
| "job_outputs_loop (out # outs) resourceID jobID versions =
     job_outputs_loop outs resourceID jobID
       (if rv_ResourceID out = resourceID \<and> bo_JobID out = jobID
        then VersionCandidates_Add versions (output_candidate out)
        else versions)"

fun passed_jobs_loop ::
    "BuildOutput list \<Rightarrow> int \<Rightarrow> JobSet \<Rightarrow> bool \<Rightarrow> VersionCandidates \<Rightarrow> VersionCandidates" where
  "passed_jobs_loop outs resourceID [] firstTick candidates = candidates"
| "passed_jobs_loop outs resourceID (jobID # jobs) firstTick candidates =
     (let versions = job_outputs_loop outs resourceID jobID empty_candidates
      in if firstTick then passed_jobs_loop outs resourceID jobs False versions
         else passed_jobs_loop outs resourceID jobs False (IntersectByVersion candidates versions))"

definition VersionsOfResourcePassedJobs :: "VersionsDB \<Rightarrow> int \<Rightarrow> JobSet \<Rightarrow> VersionCandidates" where
  "VersionsOfResourcePassedJobs db resourceID passed =
     passed_jobs_loop (db_BuildOutputs db) resourceID passed True empty_candidates"

record ExistingBuildResolver =
  ebr_BuildInputs :: "BuildInput list"
  ebr_JobID :: int
  ebr_ResourceID :: int

fun exists_loop :: "BuildInput list \<Rightarrow> int \<Rightarrow> int \<Rightarrow> bool" where
  "exists_loop [] jobID resourceID = False"
| "exists_loop (bi # bis) jobID resourceID =
     (if bi_JobID bi = jobID \<and> rv_ResourceID bi = resourceID then True
      else exists_loop bis jobID resourceID)"

definition ExistingBuildResolver_Exists :: "ExistingBuildResolver \<Rightarrow> bool" where
  "ExistingBuildResolver_Exists r = exists_loop (ebr_BuildInputs r) (ebr_JobID r) (ebr_ResourceID r)"

fun exists_for_version_loop :: "BuildInput list \<Rightarrow> int \<Rightarrow> int \<Rightarrow> int \<Rightarrow> bool" where
  "exists_for_version_loop [] jobID resourceID versionID = False"
| "exists_for_version_loop (bi # bis) jobID resourceID versionID =
     (if bi_JobID bi = jobID \<and> rv_ResourceID bi = resourceID \<and> rv_VersionID bi = versionID then True
      else exists_for_version_loop bis jobID resourceID versionID)"

definition ExistsForVersion :: "ExistingBuildResolver \<Rightarrow> int \<Rightarrow> bool" where
  "ExistsForVersion r versionID =
     exists_for_version_loop (ebr_BuildInputs r) (ebr_JobID r) (ebr_ResourceID r) versionID"

section \<open>The queries\<close>

definition resource_keys :: "VersionsDB \<Rightarrow> int \<Rightarrow> (int \<times> int) set" where
  "resource_keys db r =
     {(rv_VersionID v, rv_CheckOrder v) | v. v \<in> set (db_ResourceVersions db) \<and> rv_ResourceID v = r} \<union>
     {(rv_VersionID out, rv_CheckOrder out) | out. out \<in> set (db_BuildOutputs db) \<and> rv_ResourceID out = r}"

text \<open>
  What the snapshot guarantees: per resource, a check order identifies a version, and the outputs
  come from builds of jobs (whose ids are not 0).
\<close>

definition db_wf :: "VersionsDB \<Rightarrow> bool" where
  "db_wf db \<longleftrightarrow> (\<forall>r. coherent (resource_keys db r)) \<and>
     (\<forall>out \<in> set (db_BuildOutputs db). bo_JobID out \<noteq> 0)"

text \<open>The builds of job \<open>j\<close> that produced version \<open>x\<close> of resource \<open>r\<close>.\<close>

definition passed_builds :: "BuildOutput list \<Rightarrow> int \<Rightarrow> int \<Rightarrow> int \<Rightarrow> int set" where
  "passed_builds outs r x j =
     {bo_BuildID out | out. out \<in> set outs \<and> rv_ResourceID out = r \<and> bo_JobID out = j \<and>
        rv_VersionID out = x}"

lemma passed_builds_Cons:
  "passed_builds (out # outs) r x j =
     (if rv_ResourceID out = r \<and> bo_JobID out = j \<and> rv_VersionID out = x then {bo_BuildID out} else {}) \<union>
     passed_builds outs r x j"
  by (auto simp: passed_builds_def)

lemma IsVersionFirstOccurrence_iff:
  "IsVersionFirstOccurrence db x j name \<longleftrightarrow>
     \<not> (\<exists>bi \<in> set (db_BuildInputs db). rv_VersionID bi = x \<and> bi_JobID bi = j \<and> bi_InputName bi = name)"
proof -
  have "first_occurrence_loop bis x j name \<longleftrightarrow>
     \<not> (\<exists>bi \<in> set bis. rv_VersionID bi = x \<and> bi_JobID bi = j \<and> bi_InputName bi = name)" for bis
    by (induction bis) auto
  then show ?thesis by (simp add: IsVersionFirstOccurrence_def)
qed

lemma ExistsForVersion_iff:
  "ExistsForVersion r x \<longleftrightarrow> (\<exists>bi \<in> set (ebr_BuildInputs r).
     bi_JobID bi = ebr_JobID r \<and> rv_ResourceID bi = ebr_ResourceID r \<and> rv_VersionID bi = x)"
proof -
  have "exists_for_version_loop bis j rs x \<longleftrightarrow>
     (\<exists>bi \<in> set bis. bi_JobID bi = j \<and> rv_ResourceID bi = rs \<and> rv_VersionID bi = x)" for bis j rs
    by (induction bis) auto
  then show ?thesis by (simp add: ExistsForVersion_def)
qed

lemma Exists_iff:
  "ExistingBuildResolver_Exists r \<longleftrightarrow> (\<exists>x. ExistsForVersion r x)"
proof -
  have "exists_loop bis j rs \<longleftrightarrow> (\<exists>x. exists_for_version_loop bis j rs x)" for bis j rs
    by (induction bis) auto
  then show ?thesis by (simp add: ExistingBuildResolver_Exists_def ExistsForVersion_def)
qed

text \<open>The latest version is the one with the greatest check order, which has to be positive.\<close>

lemma latest_loop_spec:
  "latest_loop vs r c f = (c', f') \<Longrightarrow>
     (f' \<longleftrightarrow> f \<or> (\<exists>v \<in> set vs. rv_ResourceID v = r \<and> rv_CheckOrder v > vc_CheckOrder c)) \<and>
     vc_CheckOrder c \<le> vc_CheckOrder c' \<and>
     (\<forall>v \<in> set vs. rv_ResourceID v = r \<longrightarrow> rv_CheckOrder v \<le> vc_CheckOrder c') \<and>
     (c' = c \<or> (\<exists>v \<in> set vs. rv_ResourceID v = r \<and>
        c' = zero_candidate\<lparr>vc_VersionID := rv_VersionID v, vc_CheckOrder := rv_CheckOrder v\<rparr>)) \<and>
     (c' = c \<longrightarrow> f' = f)"
proof (induction vs arbitrary: c f)
  case (Cons v vs)
  show ?case
  proof (cases "rv_ResourceID v = r \<and> rv_CheckOrder v > vc_CheckOrder c")
    case True
    with Cons.prems Cons.IH [of "zero_candidate\<lparr>vc_VersionID := rv_VersionID v,
      vc_CheckOrder := rv_CheckOrder v\<rparr>" True] show ?thesis by fastforce
  next
    case False
    with Cons.prems Cons.IH [of c f] show ?thesis by fastforce
  qed
qed simp

lemma LatestVersionOfResource_found:
  assumes "LatestVersionOfResource db r = (c, True)"
  obtains v where "v \<in> set (db_ResourceVersions db)" and "rv_ResourceID v = r"
    and "c = zero_candidate\<lparr>vc_VersionID := rv_VersionID v, vc_CheckOrder := rv_CheckOrder v\<rparr>"
    and "\<forall>w \<in> set (db_ResourceVersions db). rv_ResourceID w = r \<longrightarrow> rv_CheckOrder w \<le> rv_CheckOrder v"
  using latest_loop_spec [OF assms [unfolded LatestVersionOfResource_def]] by force

lemma find_loop_spec:
  "find_loop vs r x c f = (c', f') \<Longrightarrow>
     (f' \<longleftrightarrow> f \<or> (\<exists>v \<in> set vs. rv_ResourceID v = r \<and> rv_VersionID v = x)) \<and>
     (c' = c \<and> f' = f \<or> (\<exists>v \<in> set vs. rv_ResourceID v = r \<and> rv_VersionID v = x \<and>
        c' = zero_candidate\<lparr>vc_VersionID := rv_VersionID v, vc_CheckOrder := rv_CheckOrder v\<rparr>))"
proof (induction vs arbitrary: c f)
  case (Cons v vs)
  show ?case
  proof (cases "rv_ResourceID v = r \<and> rv_VersionID v = x")
    case True
    with Cons.prems Cons.IH [of "zero_candidate\<lparr>vc_VersionID := rv_VersionID v,
      vc_CheckOrder := rv_CheckOrder v\<rparr>" True] show ?thesis by fastforce
  next
    case False
    with Cons.prems Cons.IH [of c f] show ?thesis by fastforce
  qed
qed simp

lemma FindVersionOfResource_found:
  assumes "FindVersionOfResource db r x = (c, True)"
  obtains v where "v \<in> set (db_ResourceVersions db)" and "rv_ResourceID v = r" and "rv_VersionID v = x"
    and "c = zero_candidate\<lparr>vc_VersionID := rv_VersionID v, vc_CheckOrder := rv_CheckOrder v\<rparr>"
  using find_loop_spec [OF assms [unfolded FindVersionOfResource_def]] by auto

section \<open>Versions that passed jobs\<close>

definition vbuilds :: "VersionCandidates \<Rightarrow> int \<Rightarrow> int \<Rightarrow> int set" where
  "vbuilds c x j = (case version_of c x of None \<Rightarrow> {} | Some v \<Rightarrow> builds_in (v_passed v) j)"

lemma vbuilds_Some [simp]: "version_of c x = Some v \<Longrightarrow> vbuilds c x j = builds_in (v_passed v) j"
  by (simp add: vbuilds_def)

lemma vbuilds_empty [simp]: "vbuilds empty_candidates x j = {}" "vcs_constraints empty_candidates = []"
  by (simp_all add: vbuilds_def empty_candidates_def)

lemma vbuilds_keys:
  "cands_inv K c \<Longrightarrow> version_of c x = Some v \<Longrightarrow> fst ` set (v_passed v) = {j. vbuilds c x j \<noteq> {}}"
  using cands_inv_version(3) [of K c x v] by (auto simp: passed_wf_key)

lemma Add_vbuilds:
  assumes "cands_inv K c" and "coherent K" and "cand_key a \<in> K" and "vc_JobID a \<noteq> 0"
  shows "vbuilds (VersionCandidates_Add c a) x j = vbuilds c x j \<union>
      (if x = vc_VersionID a \<and> j = vc_JobID a then {vc_BuildID a} else {})"
    and "version_of (VersionCandidates_Add c a) x = None \<longleftrightarrow>
      version_of c x = None \<and> x \<noteq> vc_VersionID a"
  using assms(4) by (auto simp: vbuilds_def Add_inv(2) [OF assms(1-3)] split: option.split)

lemma job_outputs_loop_inv:
  assumes "coherent K" and "j \<noteq> 0"
  shows "cands_inv K c \<Longrightarrow>
    \<forall>out \<in> set outs. rv_ResourceID out = r \<longrightarrow> (rv_VersionID out, rv_CheckOrder out) \<in> K \<Longrightarrow>
    cands_inv K (job_outputs_loop outs r j c) \<and>
    vcs_constraints (job_outputs_loop outs r j c) = vcs_constraints c \<and>
    (\<forall>x k. vbuilds (job_outputs_loop outs r j c) x k =
       vbuilds c x k \<union> (if k = j then passed_builds outs r x j else {})) \<and>
    (\<forall>x. version_of (job_outputs_loop outs r j c) x = None \<longleftrightarrow>
       version_of c x = None \<and> passed_builds outs r x j = {})"
proof (induction outs arbitrary: c)
  case (Cons out outs)
  show ?case
  proof (cases "rv_ResourceID out = r \<and> bo_JobID out = j")
    case True
    let ?a = "output_candidate out"
    have a: "cand_key ?a \<in> K" "vc_JobID ?a \<noteq> 0"
      using True Cons.prems(2) assms(2) by (auto simp: output_candidate_def cand_key_def)
    define c' where "c' = VersionCandidates_Add c ?a"
    note add = Add_inv(1) [OF Cons.prems(1) assms(1) a(1)] Add_vbuilds [OF Cons.prems(1) assms(1) a]
    have loop: "job_outputs_loop (out # outs) r j c = job_outputs_loop outs r j c'"
      using True by (simp add: c'_def)
    have vb: "vbuilds c' x k = vbuilds c x k \<union>
        (if x = rv_VersionID out \<and> k = j then {bo_BuildID out} else {})"
      and none: "version_of c' x = None \<longleftrightarrow> version_of c x = None \<and> x \<noteq> rv_VersionID out" for x k
      using add True by (simp_all add: c'_def output_candidate_def)
    have "vcs_constraints c' = vcs_constraints c" by (simp add: c'_def)
    then show ?thesis unfolding loop using Cons.IH [of c'] add(1) Cons.prems(2) True
      by (auto simp: c'_def [symmetric] vb none passed_builds_Cons)
  next
    case False
    then have "job_outputs_loop (out # outs) r j c = job_outputs_loop outs r j c" by auto
    with Cons.IH [of c] Cons.prems False show ?thesis by (auto simp: passed_builds_Cons)
  qed
qed (simp add: passed_builds_def)

text \<open>
  The candidates for the jobs \<open>D\<close>: exactly the versions that every job of \<open>D\<close> has an output
  for, each with all the builds of those jobs that produced it.
\<close>

definition passed_all :: "BuildOutput list \<Rightarrow> int \<Rightarrow> int set \<Rightarrow> int \<Rightarrow> bool" where
  "passed_all outs r D x \<longleftrightarrow> (\<forall>d \<in> D. passed_builds outs r x d \<noteq> {})"

definition passed_cands ::
    "(int \<times> int) set \<Rightarrow> BuildOutput list \<Rightarrow> int \<Rightarrow> int set \<Rightarrow> VersionCandidates \<Rightarrow> bool" where
  "passed_cands K outs r D c \<longleftrightarrow> cands_inv K c \<and> vcs_constraints c = [] \<and>
     (\<forall>x. version_of c x = None \<longleftrightarrow> \<not> passed_all outs r D x) \<and>
     (\<forall>x j. vbuilds c x j =
        (if j \<in> D \<and> passed_all outs r D x then passed_builds outs r x j else {}))"

lemma IntersectByVersion_vbuilds:
  assumes "coherent K" and "cands_inv K c" and "cands_inv K d"
  shows "vbuilds (IntersectByVersion c d) x j =
    (if version_of c x \<noteq> None \<and> version_of d x \<noteq> None then vbuilds c x j \<union> vbuilds d x j else {})"
  using cands_inv_version(3) [OF assms(2)]
  by (auto simp: vbuilds_def IntersectByVersion_inv(2) [OF assms] builds_in_merged_version
      split: option.splits)

lemma IntersectByVersion_passed_cands:
  assumes "coherent K" and "passed_cands K outs r D c" and "passed_cands K outs r E d"
  shows "passed_cands K outs r (D \<union> E) (IntersectByVersion c d)"
proof -
  have inv: "cands_inv K c" "cands_inv K d" using assms by (auto simp: passed_cands_def)
  have all: "passed_all outs r (D \<union> E) x \<longleftrightarrow> passed_all outs r D x \<and> passed_all outs r E x" for x
    by (auto simp: passed_all_def)
  have none: "version_of (IntersectByVersion c d) x = None \<longleftrightarrow>
      version_of c x = None \<or> version_of d x = None" for x
    by (auto simp: IntersectByVersion_inv(2) [OF assms(1) inv] split: option.split)
  show ?thesis
    unfolding passed_cands_def
    using assms(2,3) IntersectByVersion_inv(1,3) [OF assms(1) inv]
    by (auto simp: passed_cands_def none all IntersectByVersion_vbuilds [OF assms(1) inv])
qed

lemma job_outputs_passed_cands:
  assumes "coherent K" and "j \<noteq> 0"
    and "\<forall>out \<in> set outs. rv_ResourceID out = r \<longrightarrow> (rv_VersionID out, rv_CheckOrder out) \<in> K"
  shows "passed_cands K outs r {j} (job_outputs_loop outs r j empty_candidates)"
  using job_outputs_loop_inv [OF assms(1,2) cands_inv_empty assms(3)]
  by (auto simp: passed_cands_def passed_all_def vbuilds_empty)

lemma passed_jobs_loop_cands:
  assumes "coherent K"
    and "\<forall>out \<in> set outs. rv_ResourceID out = r \<longrightarrow> (rv_VersionID out, rv_CheckOrder out) \<in> K"
  shows "0 \<notin> set jobs \<Longrightarrow> passed_cands K outs r D c \<Longrightarrow>
    passed_cands K outs r (D \<union> set jobs) (passed_jobs_loop outs r jobs False c)"
proof (induction jobs arbitrary: D c)
  case (Cons j jobs)
  have "passed_cands K outs r {j} (job_outputs_loop outs r j empty_candidates)"
    using Cons.prems(1) by (intro job_outputs_passed_cands assms) auto
  from IntersectByVersion_passed_cands [OF assms(1) Cons.prems(2) this]
  have "passed_cands K outs r (D \<union> {j} \<union> set jobs) (passed_jobs_loop outs r (j # jobs) False c)"
    using Cons.IH Cons.prems(1) by (simp add: Let_def del: Un_insert_left Un_insert_right)
  then show ?case by simp
qed simp

lemma VersionsOfResourcePassedJobs_cands:
  assumes "db_wf db" and "passed \<noteq> []" and "0 \<notin> set passed"
  shows "passed_cands (resource_keys db r) (db_BuildOutputs db) r (set passed)
    (VersionsOfResourcePassedJobs db r passed)"
proof -
  let ?K = "resource_keys db r" and ?outs = "db_BuildOutputs db"
  have K: "coherent ?K" using assms(1) by (simp add: db_wf_def)
  have outs: "\<forall>out \<in> set ?outs. rv_ResourceID out = r \<longrightarrow> (rv_VersionID out, rv_CheckOrder out) \<in> ?K"
    by (auto simp: resource_keys_def)
  from assms(2) obtain j js where js: "passed = j # js" by (cases passed) auto
  have "passed_cands ?K ?outs r ({j} \<union> set js) (passed_jobs_loop ?outs r js False
      (job_outputs_loop ?outs r j empty_candidates))"
    using assms(3) js by (intro passed_jobs_loop_cands job_outputs_passed_cands K outs) auto
  then show ?thesis by (simp add: VersionsOfResourcePassedJobs_def js Let_def)
qed

end
