(* ===== verification/Resolver.thy ===== *)
theory Resolver
  imports Versions_DB
begin

text \<open>
  \<open>db/algorithm/input_candidates.go\<close>, \<open>db/algorithm/input_configs.go\<close> and
  \<open>db/algorithm/input_mapping.go\<close>: the search for one version per input such that the versions of
  all inputs passed their jobs together.

  \<open>Reduce\<close> is recursive in the program. The recursion narrows one more input to a single version
  each time, so its depth is bounded by the number of inputs; the model carries that bound as fuel and
  has the result \<open>OutOfFuel\<close> for running out of it. \<open>Resolve\<close> starts with one unit more than the
  number of inputs, and \<open>Reduce_total\<close> shows that this is always enough.
\<close>

section \<open>Definitions\<close>

datatype 'a outcome = OutOfFuel | Unresolved | Resolved 'a

record InputVersionCandidates =
  ivc_Input :: string
  ivc_Passed :: JobSet
  ivc_UseEveryVersion :: bool
  ivc_PinnedVersionID :: int
  ivc_ExistingBuildResolver :: ExistingBuildResolver
  ivc_usingEveryVersion :: "bool option"
  ivc_VersionCandidates :: VersionCandidates

type_synonym InputCandidates = "InputVersionCandidates list"
type_synonym ResolvedInputs = "(string \<times> int) list"

text \<open>The receiver is a copy, so the memo the method writes is lost with it.\<close>

definition UsingEveryVersion :: "InputVersionCandidates \<Rightarrow> bool" where
  "UsingEveryVersion ivc =
     (case ivc_usingEveryVersion ivc of
        None \<Rightarrow> ivc_UseEveryVersion ivc \<and> ExistingBuildResolver_Exists (ivc_ExistingBuildResolver ivc)
      | Some b \<Rightarrow> b)"

definition IsNext :: "InputVersionCandidates \<Rightarrow> int \<Rightarrow> VersionsIter \<Rightarrow> bool \<times> VersionsIter" where
  "IsNext ivc version versionIDs =
     (if \<not> UsingEveryVersion ivc then (True, versionIDs)
      else if ExistsForVersion (ivc_ExistingBuildResolver ivc) version then (True, versionIDs)
      else (case VersionsIter_Peek versionIDs of
              (next, versionIDs') \<Rightarrow>
                ((case next of
                    None \<Rightarrow> True
                  | Some n \<Rightarrow> ExistsForVersion (ivc_ExistingBuildResolver ivc) n),
                 versionIDs')))"

definition InputCandidates_String :: "InputCandidates \<Rightarrow> string" where
  "InputCandidates_String candidates =
     ''['' @ strings_Join
       (map (\<lambda>vcs. ivc_Input vcs @ '' ('' @
          itoa (int (VersionCandidates_Len (ivc_VersionCandidates vcs))) @ '' versions)'') candidates)
       ''; '' @ '']''"

definition Pin :: "InputCandidates \<Rightarrow> nat \<Rightarrow> int \<Rightarrow> InputCandidates" where
  "Pin candidates input version =
     candidates[input := (candidates ! input)\<lparr>ivc_VersionCandidates :=
       ForVersion (ivc_VersionCandidates (candidates ! input)) version\<rparr>]"

definition Unpin :: "InputCandidates \<Rightarrow> nat \<Rightarrow> InputVersionCandidates \<Rightarrow> InputCandidates" where
  "Unpin candidates input inputCandidates = candidates[input := inputCandidates]"

text \<open>The loop of \<open>commonBuildIDs\<close>; the deletion loop keeps the ids the next set has too.\<close>

fun common_loop :: "InputCandidates \<Rightarrow> int \<Rightarrow> bool \<Rightarrow> BuildSet \<Rightarrow> BuildSet" where
  "common_loop [] jobID firstTick commonBuildIDs = commonBuildIDs"
| "common_loop (s # ss) jobID firstTick commonBuildIDs =
     (let setBuildIDs = VersionCandidates_BuildIDs (ivc_VersionCandidates s) jobID
      in if length setBuildIDs = 0 then common_loop ss jobID firstTick commonBuildIDs
         else if firstTick
         then common_loop ss jobID False (range_insert setBuildIDs commonBuildIDs)
         else common_loop ss jobID False (filter (\<lambda>x. x \<in> set setBuildIDs) commonBuildIDs))"

definition commonBuildIDs :: "InputCandidates \<Rightarrow> int \<Rightarrow> BuildSet" where
  "commonBuildIDs candidates jobID = common_loop candidates jobID True []"

fun prune_loop :: "JobSet \<Rightarrow> InputCandidates \<Rightarrow> InputCandidates" where
  "prune_loop [] newCandidates = newCandidates"
| "prune_loop (jobID # jobs) newCandidates =
     (let common = commonBuildIDs newCandidates jobID
      in prune_loop jobs
           (map (\<lambda>ivc. ivc\<lparr>ivc_VersionCandidates :=
              PruneVersionsOfOtherBuildIDs (ivc_VersionCandidates ivc) jobID common\<rparr>) newCandidates))"

definition pruneToCommonBuilds :: "InputCandidates \<Rightarrow> JobSet \<Rightarrow> InputCandidates" where
  "pruneToCommonBuilds candidates jobs = prune_loop jobs candidates"

text \<open>The final loop of \<open>Reduce\<close>: take the version left for each input.\<close>

fun resolve_loop :: "InputCandidates \<Rightarrow> ResolvedInputs \<Rightarrow> ResolvedInputs outcome" where
  "resolve_loop [] resolved = Resolved resolved"
| "resolve_loop (ivc # ivcs) resolved =
     (case fst (VersionsIter_Next (VersionCandidates_VersionIDs (ivc_VersionCandidates ivc))) of
        None \<Rightarrow> Unresolved
      | Some vid \<Rightarrow> resolve_loop ivcs (AList.update (ivc_Input ivc) vid resolved))"

abbreviation input_len :: "InputVersionCandidates \<Rightarrow> nat" where
  "input_len ivc \<equiv> VersionCandidates_Len (ivc_VersionCandidates ivc)"

lemma length_Pin [simp]: "length (Pin cs i x) = length cs"
  by (simp add: Pin_def)

lemma Next_loop_progress:
  "it_versions (snd (Next_loop i it)) = it_versions it \<and>
   it_constraints (snd (Next_loop i it)) = it_constraints it \<and>
   it_offset it \<le> it_offset (snd (Next_loop i it)) \<and>
   (fst (Next_loop i it) \<noteq> None \<longrightarrow>
      i < length (it_versions it) \<and> it_offset it < it_offset (snd (Next_loop i it)))"
proof (induction i it rule: Next_loop.induct)
  case (1 i it)
  show ?case
  proof (cases "i < length (it_versions it) \<and> \<not> Constraints_Check (it_constraints it) (it_versions it ! i)")
    case True
    then have e: "Next_loop i it = Next_loop (i + 1) (it\<lparr>it_offset := it_offset it + 1\<rparr>)"
      by (simp add: Next_loop.simps [of i it])
    from "1.IH" [OF _ refl refl] True show ?thesis unfolding e by force
  next
    case False
    then show ?thesis by (auto simp: Next_loop.simps [of i it] Let_def)
  qed
qed

lemma Peek_loop_progress:
  "it_versions (snd (Peek_loop i it)) = it_versions it \<and>
   it_constraints (snd (Peek_loop i it)) = it_constraints it \<and>
   it_offset it \<le> it_offset (snd (Peek_loop i it))"
proof (induction i it rule: Peek_loop.induct)
  case (1 i it)
  show ?case
  proof (cases "i < length (it_versions it) \<and> \<not> Constraints_Check (it_constraints it) (it_versions it ! i)")
    case True
    then have e: "Peek_loop i it = Peek_loop (i + 1) (it\<lparr>it_offset := it_offset it + 1\<rparr>)"
      by (simp add: Peek_loop.simps [of i it])
    from "1.IH" [OF _ refl] True show ?thesis unfolding e by force
  next
    case False
    then show ?thesis by (auto simp: Peek_loop.simps [of i it] Let_def)
  qed
qed

definition iter_rest :: "VersionsIter \<Rightarrow> nat" where
  "iter_rest it = length (it_versions it) - it_offset it"

lemma Next_rest: "VersionsIter_Next it = (Some x, it') \<Longrightarrow> iter_rest it' < iter_rest it"
  using Next_loop_progress [of "it_offset it" it] by (auto simp: iter_rest_def VersionsIter_Next_def)

lemma Next_rest_sym: "(Some x, it') = VersionsIter_Next it \<Longrightarrow> iter_rest it' < iter_rest it"
  by (drule sym) (rule Next_rest)

lemma IsNext_rest: "iter_rest (snd (IsNext ivc x it)) \<le> iter_rest it"
  using Peek_loop_progress [of "it_offset it" it]
  by (auto simp: iter_rest_def IsNext_def VersionsIter_Peek_def split: prod.split)

text \<open>
  \<open>reduce_from\<close> is the loop over the inputs from index \<open>i\<close> on, \<open>try_versions\<close> the endless inner loop over
  the versions of one input.
\<close>

function Reduce :: "nat \<Rightarrow> int \<Rightarrow> InputCandidates \<Rightarrow> JobSet \<Rightarrow> ResolvedInputs outcome"
  and reduce_from :: "nat \<Rightarrow> int \<Rightarrow> nat \<Rightarrow> InputCandidates \<Rightarrow> JobSet \<Rightarrow> ResolvedInputs outcome"
  and try_versions :: "nat \<Rightarrow> int \<Rightarrow> nat \<Rightarrow> InputCandidates \<Rightarrow> InputVersionCandidates \<Rightarrow> VersionsIter \<Rightarrow>
    JobSet \<Rightarrow> ResolvedInputs outcome" where
  "Reduce 0 depth candidates jobs = OutOfFuel"
| "Reduce (Suc fuel) depth candidates jobs =
     reduce_from fuel depth 0 (pruneToCommonBuilds candidates jobs) jobs"
| "reduce_from fuel depth i candidates jobs =
     (if i < length candidates
      then let ivc = candidates ! i
           in if input_len ivc = 1 then reduce_from fuel depth (i + 1) candidates jobs
              else if ivc_PinnedVersionID ivc \<noteq> 0
              then reduce_from fuel depth (i + 1) (Pin candidates i (ivc_PinnedVersionID ivc)) jobs
              else try_versions fuel depth i candidates ivc
                     (VersionCandidates_VersionIDs (ivc_VersionCandidates ivc)) jobs
      else resolve_loop candidates [])"
| "try_versions fuel depth i candidates ivc versionIDs jobs =
     (case VersionsIter_Next versionIDs of
        (None, versionIDs') \<Rightarrow> Unresolved
      | (Some vid, versionIDs') \<Rightarrow>
          let pinned = Pin candidates i vid
          in (case Reduce fuel (depth + 1) pinned jobs of
                OutOfFuel \<Rightarrow> OutOfFuel
              | Unresolved \<Rightarrow> try_versions fuel depth i (Unpin pinned i ivc) ivc versionIDs' jobs
              | Resolved mapping \<Rightarrow>
                  if fst (IsNext ivc vid versionIDs') then Resolved mapping
                  else try_versions fuel depth i (Unpin pinned i ivc) ivc
                         (snd (IsNext ivc vid versionIDs')) jobs))"
  by pat_completeness auto
termination
  by (relation "measures [
        \<lambda>x. case x of Inl (f, _) \<Rightarrow> f | Inr (Inl (f, _)) \<Rightarrow> f | Inr (Inr (f, _)) \<Rightarrow> f,
        \<lambda>x. case x of Inl _ \<Rightarrow> 0 | Inr (Inl _) \<Rightarrow> 2 | Inr (Inr _) \<Rightarrow> 1,
        \<lambda>x. case x of Inl _ \<Rightarrow> 0 | Inr (Inl (_, _, i, cs, _)) \<Rightarrow> length cs - i
              | Inr (Inr (_, _, _, _, _, it, _)) \<Rightarrow> iter_rest it]")
    (auto dest: Next_rest_sym intro: le_less_trans [OF IsNext_rest])

declare reduce_from.simps [simp del] try_versions.simps [simp del]

record InputConfig =
  ic_Name :: string
  ic_JobName :: string
  ic_Passed :: JobSet
  ic_UseEveryVersion :: bool
  ic_PinnedVersionID :: int
  ic_ResourceID :: int
  ic_JobID :: int

type_synonym InputConfigs = "InputConfig list"

record InputVersion =
  iv_VersionID :: int
  iv_FirstOccurrence :: bool

type_synonym InputMapping = "(string \<times> InputVersion) list"

text \<open>The candidates of one input config, the body of the first loop of \<open>Resolve\<close>.\<close>

definition config_candidates :: "VersionsDB \<Rightarrow> InputConfig \<Rightarrow> VersionCandidates" where
  "config_candidates db ic =
     (if length (ic_Passed ic) = 0
      then if ic_UseEveryVersion ic then AllVersionsOfResource db (ic_ResourceID ic)
           else (case (if ic_PinnedVersionID ic \<noteq> 0
                       then FindVersionOfResource db (ic_ResourceID ic) (ic_PinnedVersionID ic)
                       else LatestVersionOfResource db (ic_ResourceID ic)) of
                   (versionCandidate, found) \<Rightarrow>
                     if found then VersionCandidates_Add empty_candidates versionCandidate
                     else empty_candidates)
      else VersionsOfResourcePassedJobs db (ic_ResourceID ic) (ic_Passed ic))"

definition input_candidates :: "VersionsDB \<Rightarrow> InputConfig \<Rightarrow> InputVersionCandidates" where
  "input_candidates db ic =
     \<lparr>ivc_Input = ic_Name ic, ivc_Passed = ic_Passed ic, ivc_UseEveryVersion = ic_UseEveryVersion ic,
      ivc_PinnedVersionID = ic_PinnedVersionID ic,
      ivc_ExistingBuildResolver =
        \<lparr>ebr_BuildInputs = db_BuildInputs db, ebr_JobID = ic_JobID ic, ebr_ResourceID = ic_ResourceID ic\<rparr>,
      ivc_usingEveryVersion = None, ivc_VersionCandidates = config_candidates db ic\<rparr>"

fun candidates_loop ::
    "VersionsDB \<Rightarrow> InputConfigs \<Rightarrow> JobSet \<Rightarrow> InputCandidates \<Rightarrow> (JobSet \<times> InputCandidates) option" where
  "candidates_loop db [] jobs inputCandidates = Some (jobs, inputCandidates)"
| "candidates_loop db (ic # ics) jobs inputCandidates =
     (if VersionCandidates_IsEmpty (config_candidates db ic) then None
      else candidates_loop db ics
             (if length (ic_Passed ic) = 0 then jobs else JobSet_Union jobs (ic_Passed ic))
             (inputCandidates @ [input_candidates db ic]))"

fun mapping_loop :: "VersionsDB \<Rightarrow> InputConfigs \<Rightarrow> ResolvedInputs \<Rightarrow> InputMapping \<Rightarrow> InputMapping" where
  "mapping_loop db [] basicMapping mapping = mapping"
| "mapping_loop db (ic # ics) basicMapping mapping =
     (let inputVersionID = go_index 0 basicMapping (ic_Name ic)
      in mapping_loop db ics basicMapping
           (AList.update (ic_Name ic)
              \<lparr>iv_VersionID = inputVersionID,
               iv_FirstOccurrence = IsVersionFirstOccurrence db inputVersionID (ic_JobID ic) (ic_Name ic)\<rparr>
              mapping))"

definition InputConfigs_Resolve :: "InputConfigs \<Rightarrow> VersionsDB \<Rightarrow> InputMapping outcome" where
  "InputConfigs_Resolve configs db =
     (case candidates_loop db configs [] [] of
        None \<Rightarrow> Unresolved
      | Some (jobs, inputCandidates) \<Rightarrow>
          (case Reduce (length inputCandidates + 1) 0 inputCandidates jobs of
             OutOfFuel \<Rightarrow> OutOfFuel
           | Unresolved \<Rightarrow> Unresolved
           | Resolved basicMapping \<Rightarrow> Resolved (mapping_loop db configs basicMapping [])))"

section \<open>Totality\<close>

definition unfixed :: "InputCandidates \<Rightarrow> nat" where
  "unfixed cs = length (filter (\<lambda>ivc. input_len ivc \<noteq> 1) cs)"

lemma unfixed_le: "unfixed cs \<le> length cs"
  by (simp add: unfixed_def)

lemma unfixed_update:
  assumes "i < length cs" and "input_len (cs ! i) \<noteq> 1"
  shows "unfixed (cs[i := c]) = (if input_len c = 1 then unfixed cs - 1 else unfixed cs)"
    and "unfixed cs \<noteq> 0"
proof -
  have cs: "cs = take i cs @ cs ! i # drop (Suc i) cs" using assms(1) by (rule id_take_nth_drop)
  have "unfixed cs = unfixed (take i cs) + 1 + unfixed (drop (Suc i) cs)"
    using assms(2) by (subst cs) (simp add: unfixed_def)
  moreover have "unfixed (cs[i := c]) = unfixed (take i cs) + (if input_len c = 1 then 0 else 1) +
      unfixed (drop (Suc i) cs)"
    using assms(1) by (simp add: upd_conv_take_nth_drop unfixed_def)
  ultimately show "unfixed (cs[i := c]) = (if input_len c = 1 then unfixed cs - 1 else unfixed cs)"
    and "unfixed cs \<noteq> 0" by auto
qed

lemma unfixed_Pin:
  "i < length cs \<Longrightarrow> input_len (cs ! i) \<noteq> 1 \<Longrightarrow> unfixed (Pin cs i x) \<le> unfixed cs"
  by (simp add: Pin_def unfixed_update)

lemma unfixed_map: "(\<And>c. input_len (f c) = input_len c) \<Longrightarrow> unfixed (map f cs) = unfixed cs"
  by (simp add: unfixed_def filter_map comp_def)

lemma unfixed_prune: "unfixed (pruneToCommonBuilds cs jobs) = unfixed cs"
proof -
  have "unfixed (prune_loop jobs cs) = unfixed cs"
    by (induction jobs arbitrary: cs)
      (simp_all add: Let_def unfixed_map PruneVersionsOfOtherBuildIDs_def VersionCandidates_Len_def)
  then show ?thesis by (simp add: pruneToCommonBuilds_def)
qed

lemma ForVersion_Len: "x \<in> v_id ` set (vcs_versions c) \<Longrightarrow> VersionCandidates_Len (ForVersion c x) = 1"
  using find_version_None [of "vcs_versions c" x] ForVersion_Some(1) [of c x]
  by (cases "version_of c x") (auto simp: VersionCandidates_Len_def)

lemma ForVersion_Len_le: "VersionCandidates_Len (ForVersion c x) \<le> 1"
  using ForVersion_Some(1) [of c x]
  by (cases "version_of c x") (auto simp: VersionCandidates_Len_def ForVersion_def empty_candidates_def)

lemma Next_in_versions: "VersionsIter_Next it = (Some x, it') \<Longrightarrow> x \<in> v_id ` set (it_versions it)"
proof -
  assume n: "VersionsIter_Next it = (Some x, it')"
  have sub: "set (iter_list it) \<subseteq> set (it_versions it)" by (auto simp: iter_list_def dest: in_set_dropD)
  show ?thesis
    using n sub VersionsIter_Next_Nil [of it] VersionsIter_Next_Cons [of it]
    by (cases "iter_list it") auto
qed

lemma Next_versions: "VersionsIter_Next it = (r, it') \<Longrightarrow> it_versions it' = it_versions it"
  using Next_loop_progress [of "it_offset it" it] by (auto simp: VersionsIter_Next_def)

lemma IsNext_versions: "it_versions (snd (IsNext ivc x it)) = it_versions it"
  using Peek_loop_progress [of "it_offset it" it]
  by (auto simp: IsNext_def VersionsIter_Peek_def split: prod.split)

lemma resolve_loop_fuel: "resolve_loop cs r \<noteq> OutOfFuel"
  by (induction cs arbitrary: r) (auto split: option.split)

text \<open>The recursion of \<open>Reduce\<close> is no deeper than the number of inputs with several candidates.\<close>

lemma Reduce_total:
  "unfixed cs < fuel \<Longrightarrow> Reduce fuel depth cs jobs \<noteq> OutOfFuel"
  "unfixed cs \<le> fuel \<Longrightarrow> reduce_from fuel depth i cs jobs \<noteq> OutOfFuel"
  "unfixed cs \<le> fuel \<Longrightarrow> i < length cs \<Longrightarrow> cs ! i = ivc \<Longrightarrow> input_len ivc \<noteq> 1 \<Longrightarrow>
     it_versions it = vcs_versions (ivc_VersionCandidates ivc) \<Longrightarrow>
     try_versions fuel depth i cs ivc it jobs \<noteq> OutOfFuel"
proof (induction fuel depth cs jobs and fuel depth i cs jobs and fuel depth i cs ivc it jobs
    rule: Reduce_reduce_from_try_versions.induct)
  case (3 fuel depth i cs jobs)
  have "i < length cs \<Longrightarrow> input_len (cs ! i) \<noteq> 1 \<Longrightarrow> unfixed (Pin cs i x) \<le> fuel" for x
    using unfixed_Pin [of i cs x] "3.prems" by simp
  with 3 show ?case
    by (subst reduce_from.simps)
      (auto simp: Let_def resolve_loop_fuel VersionCandidates_VersionIDs_def)
next
  case (4 fuel depth i cs ivc it jobs)
  show ?case
  proof (cases "VersionsIter_Next it")
    case (Pair r it')
    show ?thesis
    proof (cases r)
      case None
      then show ?thesis using Pair by (simp add: try_versions.simps [of fuel])
    next
      case (Some x)
      define pinned where "pinned = Pin cs i x"
      have "input_len ((cs ! i)\<lparr>ivc_VersionCandidates := ForVersion (ivc_VersionCandidates (cs ! i)) x\<rparr>) = 1"
        using Next_in_versions [of it x it'] Pair Some "4.prems" by (simp add: ForVersion_Len)
      then have "unfixed pinned < fuel"
        using unfixed_update [of i cs] "4.prems" unfolding pinned_def Pin_def by fastforce
      moreover have "Unpin pinned i ivc = cs"
        using "4.prems" by (auto simp: Unpin_def pinned_def Pin_def)
      ultimately show ?thesis
        using "4.IH" [OF Pair [symmetric] Some pinned_def] "4.prems" Pair Some
          Next_versions [OF Pair] IsNext_versions [of ivc x it']
        by (simp add: try_versions.simps [of fuel] pinned_def [symmetric] split: outcome.split)
    qed
  qed
qed (auto simp: unfixed_prune)

end
