(* ===== verification/Resolver_Correct.thy ===== *)
theory Resolver_Correct
  imports Resolver
begin

text \<open>
  Correctness of the search of \<open>db/algorithm\<close>. The specification is a plain enumeration: try the
  tuples of candidate versions in lexicographic order (first input first, newest version first) and
  take the first tuple whose versions passed their jobs together. The refinement lemma
  \<open>Reduce_refines\<close> says that \<open>Reduce\<close>, with its pruning, pinning and backtracking, computes exactly
  that for inputs that are neither pinned nor restricted to "every" version.
\<close>

section \<open>Specification\<close>

abbreviation versions_of :: "InputVersionCandidates \<Rightarrow> Versions" where
  "versions_of c \<equiv> vcs_versions (ivc_VersionCandidates c)"

abbreviation jobs_of :: "Version \<Rightarrow> int set" where
  "jobs_of v \<equiv> fst ` set (v_passed v)"

text \<open>Some build of each job produced every version of the tuple that is to have passed that job.\<close>

definition consistent :: "JobSet \<Rightarrow> Versions \<Rightarrow> bool" where
  "consistent jobs vs \<longleftrightarrow>
     (\<forall>j \<in> set jobs. \<exists>b. \<forall>v \<in> set vs. j \<in> jobs_of v \<longrightarrow> b \<in> builds_in (v_passed v) j)"

definition assign :: "ResolvedInputs \<Rightarrow> string list \<Rightarrow> Versions \<Rightarrow> ResolvedInputs" where
  "assign r names vs = foldl (\<lambda>r (name, v). AList.update name (v_id v) r) r (zip names vs)"

definition first_consistent :: "JobSet \<Rightarrow> string list \<Rightarrow> Versions list \<Rightarrow> ResolvedInputs outcome" where
  "first_consistent jobs names tuples =
     (case find (consistent jobs) tuples of
        None \<Rightarrow> Unresolved
      | Some vs \<Rightarrow> Resolved (assign [] names vs))"

definition search_spec :: "JobSet \<Rightarrow> InputCandidates \<Rightarrow> ResolvedInputs outcome" where
  "search_spec jobs cs =
     first_consistent jobs (map ivc_Input cs) (product_lists (map versions_of cs))"

section \<open>Enumerations\<close>

lemma product_lists_at:
  "i < length xss \<Longrightarrow> \<forall>k < i. length (xss ! k) = 1 \<Longrightarrow>
     product_lists xss = concat (map (\<lambda>v. product_lists (xss[i := [v]])) (xss ! i))"
proof (induction xss arbitrary: i)
  case (Cons xs xss)
  show ?case
  proof (cases i)
    case 0
    then show ?thesis by simp
  next
    case (Suc k)
    with Cons.prems obtain a where a: "xs = [a]" by (cases xs) auto
    have "product_lists xss = concat (map (\<lambda>v. product_lists (xss[k := [v]])) (xss ! k))"
      using Cons.prems Suc by (intro Cons.IH) auto
    then show ?thesis by (simp add: Suc a map_concat comp_def)
  qed
qed simp

lemma product_lists_singletons: "product_lists (map (\<lambda>v. [v]) vs) = [vs]"
  by (induction vs) auto

lemma find_append: "find P (xs @ ys) = (case find P xs of None \<Rightarrow> find P ys | Some x \<Rightarrow> Some x)"
  by (induction xs) auto

lemma find_concat_filter:
  "(\<And>x t. x \<in> set xs \<Longrightarrow> \<not> Q x \<Longrightarrow> t \<in> set (g x) \<Longrightarrow> \<not> P t) \<Longrightarrow>
     find P (concat (map g xs)) = find P (concat (map g (filter Q xs)))"
proof (induction xs)
  case (Cons x xs)
  then have "\<not> Q x \<Longrightarrow> find P (g x) = None" by (auto simp: find_None_iff)
  moreover have "find P (concat (map g xs)) = find P (concat (map g (filter Q xs)))"
    using Cons by auto
  ultimately show ?case by (auto simp: find_append split: option.split)
qed simp

lemma in_product_lists: "ts \<in> set (product_lists xss) \<longleftrightarrow> list_all2 (\<lambda>x ys. x \<in> set ys) ts xss"
  by (simp add: product_lists_set)

lemma in_product_versions:
  "ts \<in> set (product_lists (map versions_of cs)) \<longleftrightarrow>
     list_all2 (\<lambda>v c. v \<in> set (versions_of c)) ts cs"
  by (simp add: in_product_lists list_all2_map2)

lemma first_consistent_append:
  "first_consistent jobs names (xs @ ys) =
     (case first_consistent jobs names xs of
        Resolved r \<Rightarrow> Resolved r
      | _ \<Rightarrow> first_consistent jobs names ys)"
  by (auto simp: first_consistent_def find_append split: option.split)

lemma list_all2_right: "list_all2 P xs ys \<Longrightarrow> y \<in> set ys \<Longrightarrow> \<exists>x \<in> set xs. P x y"
  by (induction rule: list_all2_induct) auto

lemma list_all2_left: "list_all2 P xs ys \<Longrightarrow> x \<in> set xs \<Longrightarrow> \<exists>y \<in> set ys. P x y"
  by (induction rule: list_all2_induct) auto

lemma list_all2_conj_left:
  "list_all2 (\<lambda>x y. P x y \<and> Q x) xs ys \<longleftrightarrow> list_all2 P xs ys \<and> (\<forall>x \<in> set xs. Q x)"
  by (induction xs arbitrary: ys) (auto simp: list_all2_Cons1)

lemma Constraints_Check_append:
  "Constraints_Check (cs @ ds) v \<longleftrightarrow> Constraints_Check cs v \<and> Constraints_Check ds v"
  by (auto simp: Constraints_Check_iff)

section \<open>Pruning\<close>

lemma common_loop_set:
  "set (common_loop cs j False C) =
     {b \<in> set C. \<forall>c \<in> set cs. builds_in (vcs_buildIDs (ivc_VersionCandidates c)) j \<noteq> {} \<longrightarrow>
        b \<in> builds_in (vcs_buildIDs (ivc_VersionCandidates c)) j}"
  by (induction cs arbitrary: C) (auto simp: Let_def VersionCandidates_BuildIDs_def builds_in_def)

lemma commonBuildIDs_iff:
  "b \<in> set (commonBuildIDs cs j) \<longleftrightarrow>
     (\<exists>c \<in> set cs. builds_in (vcs_buildIDs (ivc_VersionCandidates c)) j \<noteq> {}) \<and>
     (\<forall>c \<in> set cs. builds_in (vcs_buildIDs (ivc_VersionCandidates c)) j \<noteq> {} \<longrightarrow>
        b \<in> builds_in (vcs_buildIDs (ivc_VersionCandidates c)) j)"
proof -
  have "b \<in> set (common_loop cs j True []) \<longleftrightarrow>
     (\<exists>c \<in> set cs. builds_in (vcs_buildIDs (ivc_VersionCandidates c)) j \<noteq> {}) \<and>
     (\<forall>c \<in> set cs. builds_in (vcs_buildIDs (ivc_VersionCandidates c)) j \<noteq> {} \<longrightarrow>
        b \<in> builds_in (vcs_buildIDs (ivc_VersionCandidates c)) j)"
    by (induction cs)
      (auto simp: Let_def VersionCandidates_BuildIDs_def builds_in_def common_loop_set)
  then show ?thesis by (simp add: commonBuildIDs_def)
qed

definition add_constraints :: "Constraints \<Rightarrow> InputVersionCandidates \<Rightarrow> InputVersionCandidates" where
  "add_constraints cons c = c\<lparr>ivc_VersionCandidates :=
     (ivc_VersionCandidates c)\<lparr>vcs_constraints := vcs_constraints (ivc_VersionCandidates c) @ cons\<rparr>\<rparr>"

lemma add_constraints_simps [simp]:
  "ivc_Input (add_constraints cons c) = ivc_Input c"
  "versions_of (add_constraints cons c) = versions_of c"
  "vcs_buildIDs (ivc_VersionCandidates (add_constraints cons c)) = vcs_buildIDs (ivc_VersionCandidates c)"
  "vcs_constraints (ivc_VersionCandidates (add_constraints cons c)) =
     vcs_constraints (ivc_VersionCandidates c) @ cons"
  "ivc_PinnedVersionID (add_constraints cons c) = ivc_PinnedVersionID c"
  "UsingEveryVersion (add_constraints cons c) = UsingEveryVersion c"
  "add_constraints [] c = c"
  "add_constraints ds (add_constraints cons c) = add_constraints (cons @ ds) c"
  by (simp_all add: add_constraints_def UsingEveryVersion_def split: option.split)

lemma common_loop_map:
  "(\<And>c. vcs_buildIDs (ivc_VersionCandidates (f c)) = vcs_buildIDs (ivc_VersionCandidates c)) \<Longrightarrow>
     common_loop (map f cs) j t C = common_loop cs j t C"
  by (induction cs arbitrary: t C) (auto simp: Let_def VersionCandidates_BuildIDs_def)

definition passed_constraints :: "InputCandidates \<Rightarrow> JobSet \<Rightarrow> Constraints" where
  "passed_constraints cs jobs = map (\<lambda>j v. PassedAny v j (commonBuildIDs cs j)) jobs"

text \<open>Pruning only adds, to every input, the constraint of each job with its common builds.\<close>

lemma prune_eq: "pruneToCommonBuilds cs jobs = map (add_constraints (passed_constraints cs jobs)) cs"
proof -
  have "prune_loop jobs cs = map (add_constraints (passed_constraints cs jobs)) cs"
  proof (induction jobs arbitrary: cs)
    case (Cons j jobs)
    let ?con = "\<lambda>v. PassedAny v j (commonBuildIDs cs j)"
    have "commonBuildIDs (map (add_constraints [?con]) cs) k = commonBuildIDs cs k" for k
      by (simp add: commonBuildIDs_def common_loop_map)
    then have "passed_constraints (map (add_constraints [?con]) cs) jobs = passed_constraints cs jobs"
      by (simp add: passed_constraints_def)
    moreover have "prune_loop (j # jobs) cs = prune_loop jobs (map (add_constraints [?con]) cs)"
      by (simp add: Let_def add_constraints_def [abs_def] PruneVersionsOfOtherBuildIDs_def
          Constraints_And_def)
    ultimately have "prune_loop (j # jobs) cs =
        map (add_constraints (passed_constraints cs jobs)) (map (add_constraints [?con]) cs)"
      using Cons by simp
    then show ?case by (simp add: passed_constraints_def comp_def del: prune_loop.simps)
  qed (simp add: passed_constraints_def map_idI)
  then show ?thesis by (simp add: pruneToCommonBuilds_def)
qed

definition ivc_wf :: "InputVersionCandidates \<Rightarrow> bool" where
  "ivc_wf c \<longleftrightarrow>
     distinct (map v_id (versions_of c)) \<and>
     (\<forall>v \<in> set (versions_of c). passed_wf (v_passed v)) \<and>
     (\<forall>v \<in> set (versions_of c). \<forall>w \<in> set (versions_of c). jobs_of v = jobs_of w) \<and>
     (\<forall>j. builds_in (vcs_buildIDs (ivc_VersionCandidates c)) j = all_builds (versions_of c) j) \<and>
     ivc_PinnedVersionID c = 0 \<and> \<not> UsingEveryVersion c"

definition satisfies :: "Versions \<Rightarrow> InputCandidates \<Rightarrow> bool" where
  "satisfies ts cs \<longleftrightarrow>
     list_all2 (\<lambda>v c. Constraints_Check (vcs_constraints (ivc_VersionCandidates c)) v) ts cs"

definition sound :: "JobSet \<Rightarrow> InputCandidates \<Rightarrow> bool" where
  "sound jobs cs \<longleftrightarrow>
     (\<forall>ts \<in> set (product_lists (map versions_of cs)). consistent jobs ts \<longrightarrow> satisfies ts cs)"

lemma ivc_wf_key:
  "ivc_wf c \<Longrightarrow> v \<in> set (versions_of c) \<Longrightarrow>
     builds_in (vcs_buildIDs (ivc_VersionCandidates c)) j \<noteq> {} \<longleftrightarrow> j \<in> jobs_of v"
proof -
  assume wf: "ivc_wf c" and v: "v \<in> set (versions_of c)"
  have "builds_in (v_passed w) j \<noteq> {} \<longleftrightarrow> j \<in> jobs_of v" if "w \<in> set (versions_of c)" for w
    using wf v that passed_wf_key [of "v_passed w" j] unfolding ivc_wf_def by blast
  moreover have "builds_in (vcs_buildIDs (ivc_VersionCandidates c)) j = all_builds (versions_of c) j"
    using wf by (simp add: ivc_wf_def)
  ultimately show ?thesis using v by (auto simp: all_builds_def)
qed

lemma ivc_wf_builds:
  "ivc_wf c \<Longrightarrow> v \<in> set (versions_of c) \<Longrightarrow>
     builds_in (v_passed v) j \<subseteq> builds_in (vcs_buildIDs (ivc_VersionCandidates c)) j"
  by (auto simp: ivc_wf_def all_builds_def)

text \<open>No consistent tuple is pruned away.\<close>

lemma consistent_passes:
  assumes wf: "\<forall>c \<in> set cs. ivc_wf c"
    and ts: "list_all2 (\<lambda>v c. v \<in> set (versions_of c)) ts cs"
    and "consistent jobs ts" and j: "j \<in> set jobs" and v: "v \<in> set ts"
  shows "PassedAny v j (commonBuildIDs cs j)"
proof -
  from assms(3) j obtain b
    where b: "\<And>v. v \<in> set ts \<Longrightarrow> j \<in> jobs_of v \<Longrightarrow> b \<in> builds_in (v_passed v) j"
    unfolding consistent_def by blast
  have tuple: "\<exists>v \<in> set ts. v \<in> set (versions_of c)" if "c \<in> set cs" for c
    using list_all2_right [OF ts that] .
  have "\<exists>c \<in> set cs. v \<in> set (versions_of c)"
    using list_all2_left [OF ts v] .
  then obtain c where c: "c \<in> set cs" "v \<in> set (versions_of c)" by blast
  have pw: "passed_wf (v_passed v)" using wf c by (auto simp: ivc_wf_def)
  have "b \<in> set (commonBuildIDs cs j)" if "j \<in> jobs_of v"
    unfolding commonBuildIDs_iff
  proof (intro conjI ballI impI)
    show "\<exists>c \<in> set cs. builds_in (vcs_buildIDs (ivc_VersionCandidates c)) j \<noteq> {}"
      using ivc_wf_key [of c v j] wf c that by auto
  next
    fix d assume d: "d \<in> set cs" and ne: "builds_in (vcs_buildIDs (ivc_VersionCandidates d)) j \<noteq> {}"
    from tuple [OF d] obtain w where w: "w \<in> set ts" "w \<in> set (versions_of d)" by blast
    with ne ivc_wf_key [of d w j] wf d have "j \<in> jobs_of w" by auto
    with b [OF w(1)] ivc_wf_builds [of d w j] wf d w
    show "b \<in> builds_in (vcs_buildIDs (ivc_VersionCandidates d)) j" by auto
  qed
  with b [OF v] show ?thesis by (auto simp: PassedAny_iff [OF pw])
qed

lemma satisfies_prune:
  "satisfies ts (pruneToCommonBuilds cs jobs) \<longleftrightarrow>
     satisfies ts cs \<and> (\<forall>v \<in> set ts. Constraints_Check (passed_constraints cs jobs) v)"
proof -
  have "satisfies ts (map (add_constraints con) cs) \<longleftrightarrow>
      satisfies ts cs \<and> (\<forall>v \<in> set ts. Constraints_Check con v)" for con
    unfolding satisfies_def
    by (simp add: list_all2_map2 Constraints_Check_append flip: list_all2_conj_left)
  then show ?thesis by (simp add: prune_eq)
qed

lemma prune_sound:
  assumes "\<forall>c \<in> set cs. ivc_wf c" and "sound jobs cs"
  shows "sound jobs (pruneToCommonBuilds cs jobs)"
  unfolding sound_def
proof (intro ballI impI)
  fix ts assume "ts \<in> set (product_lists (map versions_of (pruneToCommonBuilds cs jobs)))"
    and con: "consistent jobs ts"
  then have ts: "list_all2 (\<lambda>v c. v \<in> set (versions_of c)) ts cs"
    by (simp add: prune_eq in_product_lists list_all2_map2 comp_def)
  then have "satisfies ts cs" using assms(2) con by (simp add: sound_def in_product_versions)
  moreover have "Constraints_Check (passed_constraints cs jobs) v" if "v \<in> set ts" for v
    using consistent_passes [OF assms(1) ts con _ that]
    by (auto simp: Constraints_Check_iff passed_constraints_def)
  ultimately show "satisfies ts (pruneToCommonBuilds cs jobs)"
    by (simp add: satisfies_prune)
qed

text \<open>When one version is left per input, the constraints of the pruning decide consistency.\<close>

lemma prune_tight:
  assumes wf: "\<forall>c \<in> set cs. ivc_wf c" and vs: "map versions_of cs = map (\<lambda>v. [v]) ts"
    and sat: "satisfies ts (pruneToCommonBuilds cs jobs)"
  shows "consistent jobs ts"
  unfolding consistent_def
proof
  fix j assume j: "j \<in> set jobs"
  have len: "length ts = length cs" using vs by (metis length_map)
  have nth: "versions_of (cs ! k) = [ts ! k]" if "k < length cs" for k
    using vs that len by (metis (no_types, lifting) nth_map)
  have single: "\<exists>c \<in> set cs. versions_of c = [v]" if "v \<in> set ts" for v
    using that nth len by (metis in_set_conv_nth)
  have pass: "PassedAny v j (commonBuildIDs cs j)" if "v \<in> set ts" for v
    using sat that j by (auto simp: satisfies_prune Constraints_Check_iff passed_constraints_def)
  show "\<exists>b. \<forall>v \<in> set ts. j \<in> jobs_of v \<longrightarrow> b \<in> builds_in (v_passed v) j"
  proof (cases "\<exists>v \<in> set ts. j \<in> jobs_of v")
    case True
    then obtain v where v: "v \<in> set ts" "j \<in> jobs_of v" by blast
    with single obtain c where c: "c \<in> set cs" "versions_of c = [v]" by blast
    then have "passed_wf (v_passed v)" using wf by (auto simp: ivc_wf_def)
    with pass [OF v(1)] v(2) obtain b where b: "b \<in> set (commonBuildIDs cs j)"
      by (auto simp: PassedAny_iff)
    have "b \<in> builds_in (v_passed w) j" if w: "w \<in> set ts" "j \<in> jobs_of w" for w
    proof -
      from single [OF w(1)] obtain d where d: "d \<in> set cs" "versions_of d = [w]" by blast
      then have "builds_in (vcs_buildIDs (ivc_VersionCandidates d)) j = builds_in (v_passed w) j"
        using wf by (auto simp: ivc_wf_def all_builds_def)
      with b d ivc_wf_key [of d w j] wf w show ?thesis by (auto simp: commonBuildIDs_iff)
    qed
    then show ?thesis by blast
  qed blast
qed

lemma ivc_wf_add: "ivc_wf (add_constraints con c) \<longleftrightarrow> ivc_wf c"
  by (simp only: ivc_wf_def add_constraints_simps)

lemma ivc_wf_prune: "\<forall>c \<in> set cs. ivc_wf c \<Longrightarrow> \<forall>c \<in> set (pruneToCommonBuilds cs jobs). ivc_wf c"
  by (simp add: prune_eq ivc_wf_add)

section \<open>Pinning\<close>

lemma Pin_versions:
  assumes "i < length cs" and "ivc_wf (cs ! i)" and "v \<in> set (versions_of (cs ! i))"
  shows "map versions_of (Pin cs i (v_id v)) = (map versions_of cs)[i := [v]]"
    and "map ivc_Input (Pin cs i (v_id v)) = map ivc_Input cs"
    and "ivc_wf (Pin cs i (v_id v) ! i)"
    and "vcs_constraints (ivc_VersionCandidates (Pin cs i (v_id v) ! i)) = []"
proof -
  let ?c = "cs ! i"
  have v: "version_of (ivc_VersionCandidates ?c) (v_id v) = Some v"
    using assms(2,3) by (auto simp: ivc_wf_def intro: find_version_in)
  note fv = ForVersion_Some [OF v]
  show "map versions_of (Pin cs i (v_id v)) = (map versions_of cs)[i := [v]]"
    by (simp add: Pin_def map_update fv)
  have "map ivc_Input cs = map ivc_Input (cs[i := ?c])" by simp
  then show "map ivc_Input (Pin cs i (v_id v)) = map ivc_Input cs"
    by (simp add: Pin_def map_update del: list_update_id)
  have "passed_wf (v_passed v)" using assms(2,3) by (auto simp: ivc_wf_def)
  moreover have "ivc_PinnedVersionID ?c = 0" and "\<not> UsingEveryVersion ?c"
    using assms(2) unfolding ivc_wf_def by blast+
  moreover have "distinct (map fst (v_passed v))" using calculation(1) by (simp add: passed_wf_def)
  ultimately show "ivc_wf (Pin cs i (v_id v) ! i)"
    using assms(1)
    by (simp add: Pin_def ivc_wf_def fv all_builds_def UsingEveryVersion_def split: option.splits)
  show "vcs_constraints (ivc_VersionCandidates (Pin cs i (v_id v) ! i)) = []"
    using assms(1) by (simp add: Pin_def fv)
qed

lemma Pin_nth_other: "k \<noteq> i \<Longrightarrow> Pin cs i x ! k = cs ! k"
  by (simp add: Pin_def)

lemma Pin_wf:
  assumes "i < length cs" and wf: "\<forall>c \<in> set cs. ivc_wf c" and "v \<in> set (versions_of (cs ! i))"
  shows "\<forall>c \<in> set (Pin cs i (v_id v)). ivc_wf c"
proof
  fix c assume "c \<in> set (Pin cs i (v_id v))"
  then obtain k where k: "k < length cs" "c = Pin cs i (v_id v) ! k" by (auto simp: in_set_conv_nth)
  show "ivc_wf c"
    using Pin_versions(3) [OF assms(1) _ assms(3)] wf k assms(1)
    by (cases "k = i") (auto simp: Pin_nth_other)
qed

lemma pinned_tuple:
  assumes "i < length cs" and "v \<in> set (versions_of (cs ! i))"
    and t: "list_all2 (\<lambda>x ys. x \<in> set ys) t ((map versions_of cs)[i := [v]])"
  shows "list_all2 (\<lambda>v c. v \<in> set (versions_of c)) t cs \<and> t ! i = v"
proof -
  from t have len: "length t = length cs" by (simp add: list_all2_conv_all_nth)
  from t have nth: "t ! k \<in> set ((map versions_of cs)[i := [v]] ! k)" if "k < length cs" for k
    using that by (auto simp: list_all2_conv_all_nth)
  have "t ! i = v" using nth [OF assms(1)] assms(1) by simp
  moreover have "t ! k \<in> set (versions_of (cs ! k))" if "k < length cs" for k
    using nth [OF that] that assms by (cases "k = i") auto
  ultimately show ?thesis using len by (simp add: list_all2_conv_all_nth)
qed

lemma Pin_sound:
  assumes i: "i < length cs" and wf: "\<forall>c \<in> set cs. ivc_wf c" and v: "v \<in> set (versions_of (cs ! i))"
    and "sound jobs cs"
  shows "sound jobs (Pin cs i (v_id v))"
  unfolding sound_def
proof (intro ballI impI)
  have wfi: "ivc_wf (cs ! i)" using wf i by simp
  note pin = Pin_versions [OF i wfi v]
  fix ts assume "ts \<in> set (product_lists (map versions_of (Pin cs i (v_id v))))" and con: "consistent jobs ts"
  then have "list_all2 (\<lambda>x ys. x \<in> set ys) ts ((map versions_of cs)[i := [v]])"
    by (simp add: pin in_product_lists)
  from pinned_tuple [OF i v this] have ts: "list_all2 (\<lambda>v c. v \<in> set (versions_of c)) ts cs" ..
  with con assms(4) have "satisfies ts cs" by (simp add: sound_def in_product_versions)
  then show "satisfies ts (Pin cs i (v_id v))"
    unfolding satisfies_def list_all2_conv_all_nth
    using pin(4) by (metis Constraints_Check.simps(1) Pin_nth_other length_Pin)
qed

lemma Pin_unfixed:
  assumes "i < length cs" and "ivc_wf (cs ! i)" and "v \<in> set (versions_of (cs ! i))"
    and "input_len (cs ! i) \<noteq> 1"
  shows "unfixed (Pin cs i (v_id v)) < unfixed cs"
  using unfixed_update [OF assms(1,4)] assms(3)
  by (simp add: Pin_def ForVersion_Len)

section \<open>The search\<close>

text \<open>The inner loop, given that the recursive calls meet the specification.\<close>

lemma try_versions_refines:
  assumes i: "i < length cs" and wf: "\<forall>c \<in> set cs. ivc_wf c" and sound: "sound jobs cs"
    and ivc: "ivc = cs ! i" and len: "input_len ivc \<noteq> 1" and fuel: "unfixed cs \<le> fuel"
    and IH: "\<And>ds d. unfixed ds < fuel \<Longrightarrow> \<forall>c \<in> set ds. ivc_wf c \<Longrightarrow> sound jobs ds \<Longrightarrow>
      Reduce fuel d ds jobs = search_spec jobs ds"
  shows "iter_list it = vs \<Longrightarrow> set vs \<subseteq> set (versions_of ivc) \<Longrightarrow>
    try_versions fuel depth i cs ivc it jobs =
      first_consistent jobs (map ivc_Input cs)
        (concat (map (\<lambda>v. product_lists ((map versions_of cs)[i := [v]])) vs))"
proof (induction vs arbitrary: it)
  case Nil
  then have "fst (VersionsIter_Next it) = None" by (simp add: VersionsIter_Next_Nil)
  then show ?case by (cases "VersionsIter_Next it")
      (simp add: try_versions.simps [of fuel] first_consistent_def)
next
  case (Cons v vs)
  obtain it' where nxt: "VersionsIter_Next it = (Some (v_id v), it')" and it': "iter_list it' = vs"
    using VersionsIter_Next_Cons [OF Cons.prems(1)] by (cases "VersionsIter_Next it") auto
  have v: "v \<in> set (versions_of (cs ! i))" using Cons.prems(2) ivc by simp
  have wfi: "ivc_wf (cs ! i)" using wf i by simp
  note pin = Pin_versions [OF i wfi v]
  have red: "Reduce fuel (depth + 1) (Pin cs i (v_id v)) jobs =
      first_consistent jobs (map ivc_Input cs) (product_lists ((map versions_of cs)[i := [v]]))"
    using IH [OF _ Pin_wf [OF i wf v] Pin_sound [OF i wf v sound]] Pin_unfixed [OF i wfi v] len ivc fuel
    by (simp add: search_spec_def pin)
  have next_ok: "fst (IsNext ivc (v_id v) it')" using wfi ivc by (simp add: IsNext_def ivc_wf_def)
  have unpin: "Unpin (Pin cs i (v_id v)) i ivc = cs" using ivc by (simp add: Unpin_def Pin_def)
  have rest: "try_versions fuel depth i cs ivc it' jobs = first_consistent jobs (map ivc_Input cs)
      (concat (map (\<lambda>v. product_lists ((map versions_of cs)[i := [v]])) vs))"
    using Cons.IH [OF it'] Cons.prems(2) by simp
  have ne: "first_consistent jobs names xs \<noteq> OutOfFuel" for names xs
    by (auto simp: first_consistent_def split: option.split)
  show ?case
    by (subst try_versions.simps) (use ne in \<open>auto simp: nxt Let_def red next_ok unpin rest
        first_consistent_append split: outcome.split\<close>)
qed

lemma resolve_loop_spec:
  "map versions_of cs = map (\<lambda>v. [v]) ts \<Longrightarrow>
     resolve_loop cs r =
       (if satisfies ts cs then Resolved (assign r (map ivc_Input cs) ts) else Unresolved)"
proof (induction cs arbitrary: ts r)
  case (Cons c cs)
  then obtain v ts' where ts: "ts = v # ts'" "versions_of c = [v]" "map versions_of cs = map (\<lambda>v. [v]) ts'"
    by (cases ts) auto
  let ?it = "VersionCandidates_VersionIDs (ivc_VersionCandidates c)"
  show ?case
  proof (cases "Constraints_Check (vcs_constraints (ivc_VersionCandidates c)) v")
    case True
    then have "iter_list ?it = [v]" by (simp add: iter_list_VersionIDs ts)
    then have "fst (VersionsIter_Next ?it) = Some (v_id v)" by (simp add: VersionsIter_Next_Cons)
    with Cons.IH [OF ts(3)] True show ?thesis by (simp add: ts(1) satisfies_def assign_def)
  next
    case False
    then have "iter_list ?it = []" by (simp add: iter_list_VersionIDs ts)
    then have "fst (VersionsIter_Next ?it) = None" by (rule VersionsIter_Next_Nil)
    with False show ?thesis by (simp add: ts(1) satisfies_def)
  qed
qed (simp add: satisfies_def assign_def)

lemma all_singletons: "\<forall>c \<in> set cs. input_len c = 1 \<Longrightarrow> \<exists>ts. map versions_of cs = map (\<lambda>v. [v]) ts"
proof (induction cs)
  case (Cons c cs)
  then obtain ts v where "map versions_of cs = map (\<lambda>v. [v]) ts" "versions_of c = [v]"
    by (auto simp: VersionCandidates_Len_def length_Suc_conv)
  then have "map versions_of (c # cs) = map (\<lambda>v. [v]) (v # ts)" by simp
  then show ?case by blast
qed simp

lemma reduce_from_refines:
  assumes wf: "\<forall>c \<in> set cs. ivc_wf c" and sound: "sound jobs cs" and fuel: "unfixed cs \<le> fuel"
    and tight: "\<And>ts. map versions_of cs = map (\<lambda>v. [v]) ts \<Longrightarrow> satisfies ts cs \<Longrightarrow> consistent jobs ts"
    and IH: "\<And>ds d. unfixed ds < fuel \<Longrightarrow> \<forall>c \<in> set ds. ivc_wf c \<Longrightarrow> sound jobs ds \<Longrightarrow>
      Reduce fuel d ds jobs = search_spec jobs ds"
  shows "i \<le> length cs \<Longrightarrow> \<forall>k < i. input_len (cs ! k) = 1 \<Longrightarrow>
    reduce_from fuel depth i cs jobs = search_spec jobs cs"
proof (induction "length cs - i" arbitrary: i)
  case 0
  then have "\<forall>c \<in> set cs. input_len c = 1" by (auto simp: in_set_conv_nth)
  then obtain ts where ts: "map versions_of cs = map (\<lambda>v. [v]) ts" using all_singletons by blast
  then have "search_spec jobs cs =
      (if consistent jobs ts then Resolved (assign [] (map ivc_Input cs) ts) else Unresolved)"
    by (simp add: search_spec_def first_consistent_def product_lists_singletons)
  moreover have "consistent jobs ts \<longleftrightarrow> satisfies ts cs"
    using tight [OF ts] sound by (auto simp: sound_def ts product_lists_singletons)
  moreover have "reduce_from fuel depth i cs jobs = resolve_loop cs []"
    using 0 by (simp add: reduce_from.simps [of fuel])
  ultimately show ?case by (simp add: resolve_loop_spec [OF ts])
next
  case (Suc n)
  then have i: "i < length cs" by simp
  then have wfi: "ivc_wf (cs ! i)" using wf by simp
  show ?case
  proof (cases "input_len (cs ! i) = 1")
    case True
    have "reduce_from fuel depth (i + 1) cs jobs = search_spec jobs cs"
      using Suc.hyps(2) Suc.prems True i by (intro Suc.hyps(1)) (auto simp: less_Suc_eq)
    then show ?thesis using True i by (simp add: reduce_from.simps [of fuel depth i])
  next
    case False
    let ?it = "VersionCandidates_VersionIDs (ivc_VersionCandidates (cs ! i))"
    let ?ok = "Constraints_Check (vcs_constraints (ivc_VersionCandidates (cs ! i)))"
    let ?g = "\<lambda>v. product_lists ((map versions_of cs)[i := [v]])"
    have "reduce_from fuel depth i cs jobs = try_versions fuel depth i cs (cs ! i) ?it jobs"
      using False i wfi [unfolded ivc_wf_def]
      by (simp only: reduce_from.simps [of fuel depth i] Let_def if_True if_False simp_thms)
    also have "\<dots> = first_consistent jobs (map ivc_Input cs)
        (concat (map ?g (filter ?ok (versions_of (cs ! i)))))"
      using iter_list_VersionIDs
      by (intro try_versions_refines [OF i wf sound refl False fuel IH]) auto
    also have "\<dots> = first_consistent jobs (map ivc_Input cs) (concat (map ?g (versions_of (cs ! i))))"
    proof -
      have "\<not> consistent jobs t" if "v \<in> set (versions_of (cs ! i))" "\<not> ?ok v" "t \<in> set (?g v)" for v t
      proof
        assume con: "consistent jobs t"
        from that(3) have t: "list_all2 (\<lambda>x ys. x \<in> set ys) t ((map versions_of cs)[i := [v]])"
          by (simp add: in_product_lists)
        from pinned_tuple [OF i that(1) t] have "satisfies t cs" and "t ! i = v" using sound con by (auto simp: sound_def in_product_versions)
        then show False using that(2) i by (auto simp: satisfies_def list_all2_conv_all_nth)
      qed
      then show ?thesis using find_concat_filter [of "versions_of (cs ! i)" ?ok ?g "consistent jobs"]
        by (simp add: first_consistent_def)
    qed
    also have "\<dots> = search_spec jobs cs"
      using product_lists_at [of i "map versions_of cs"] i Suc.prems
      by (simp add: search_spec_def VersionCandidates_Len_def)
    finally show ?thesis .
  qed
qed

text \<open>\<open>Reduce\<close> refines the enumeration: first consistent tuple in lexicographic order, if any.\<close>

lemma Reduce_refines:
  "unfixed cs < fuel \<Longrightarrow> \<forall>c \<in> set cs. ivc_wf c \<Longrightarrow> sound jobs cs \<Longrightarrow>
     Reduce fuel depth cs jobs = search_spec jobs cs"
proof (induction fuel arbitrary: depth cs)
  case (Suc fuel)
  let ?ps = "pruneToCommonBuilds cs jobs"
  have "reduce_from fuel depth 0 ?ps jobs = search_spec jobs ?ps"
  proof (rule reduce_from_refines)
    show "consistent jobs ts" if "map versions_of ?ps = map (\<lambda>v. [v]) ts" "satisfies ts ?ps" for ts
      using prune_tight [OF Suc.prems(2) _ that(2)] that(1) by (simp add: prune_eq comp_def)
  qed (use Suc in \<open>auto simp: ivc_wf_prune prune_sound unfixed_prune\<close>)
  also have "search_spec jobs ?ps = search_spec jobs cs"
    by (simp add: search_spec_def prune_eq comp_def)
  finally show ?case by simp
qed simp

end
