(* ===== verification/Input_Resolution.thy ===== *)
theory Input_Resolution
  imports Resolver_Correct
begin

text \<open>
  What \<open>InputConfigs.Resolve\<close> promises the scheduler, stated over the snapshot of the database: a
  mapping is found exactly when an admissible choice of versions exists, and the mapping is admissible
  and lexicographically newest. The configs are those of a job without pinned or "every" versions; the
  behaviour on those two kinds is the subject of the last sections.
\<close>

section \<open>Admissible choices\<close>

text \<open>The newest version of the resource, by check order; check orders start at 1.\<close>

definition is_latest :: "VersionsDB \<Rightarrow> int \<Rightarrow> int \<Rightarrow> bool" where
  "is_latest db r x \<longleftrightarrow>
     (\<exists>v \<in> set (db_ResourceVersions db). rv_ResourceID v = r \<and> rv_VersionID v = x \<and> rv_CheckOrder v > 0 \<and>
        (\<forall>w \<in> set (db_ResourceVersions db). rv_ResourceID w = r \<longrightarrow> rv_CheckOrder w \<le> rv_CheckOrder v))"

text \<open>
  A choice of a version per input is admissible when inputs without passed jobs take the latest version
  and, for every job, one build of that job produced the versions of all inputs that name it.
\<close>

definition admissible :: "VersionsDB \<Rightarrow> InputConfigs \<Rightarrow> (string \<Rightarrow> int) \<Rightarrow> bool" where
  "admissible db configs a \<longleftrightarrow>
     (\<forall>ic \<in> set configs. ic_Passed ic = [] \<longrightarrow> is_latest db (ic_ResourceID ic) (a (ic_Name ic))) \<and>
     (\<forall>j. \<exists>b. \<forall>ic \<in> set configs. j \<in> set (ic_Passed ic) \<longrightarrow>
        b \<in> passed_builds (db_BuildOutputs db) (ic_ResourceID ic) (a (ic_Name ic)) j)"

definition plain_config :: "InputConfig \<Rightarrow> bool" where
  "plain_config ic \<longleftrightarrow> ic_PinnedVersionID ic = 0 \<and> \<not> ic_UseEveryVersion ic \<and> 0 \<notin> set (ic_Passed ic)"

section \<open>The candidates of a config\<close>

lemma latest_is_latest:
  assumes "LatestVersionOfResource db r = (c, True)"
  shows "is_latest db r (vc_VersionID c)" and "cand_key c \<in> resource_keys db r" and "vc_JobID c = 0"
proof -
  from assms obtain v where v: "v \<in> set (db_ResourceVersions db)" "rv_ResourceID v = r"
    and c: "c = zero_candidate\<lparr>vc_VersionID := rv_VersionID v, vc_CheckOrder := rv_CheckOrder v\<rparr>"
    and max: "\<forall>w \<in> set (db_ResourceVersions db). rv_ResourceID w = r \<longrightarrow> rv_CheckOrder w \<le> rv_CheckOrder v"
    by (rule LatestVersionOfResource_found)
  have "rv_CheckOrder v > 0"
    using latest_loop_spec [OF assms [unfolded LatestVersionOfResource_def]] max
    by (force simp: zero_candidate_def)
  with v c max show "is_latest db r (vc_VersionID c)" by (auto simp: is_latest_def)
  show "cand_key c \<in> resource_keys db r" using v c by (auto simp: cand_key_def resource_keys_def)
  show "vc_JobID c = 0" using c by (simp add: zero_candidate_def)
qed

lemma latest_found_iff:
  "snd (LatestVersionOfResource db r) \<longleftrightarrow> (\<exists>x. is_latest db r x)"
proof (cases "LatestVersionOfResource db r")
  case (Pair c f)
  have "f \<longleftrightarrow> (\<exists>v \<in> set (db_ResourceVersions db). rv_ResourceID v = r \<and> rv_CheckOrder v > 0)"
    using latest_loop_spec [OF Pair [unfolded LatestVersionOfResource_def]]
    by (simp add: zero_candidate_def)
  then have "(\<exists>x. is_latest db r x) \<Longrightarrow> f" by (auto simp: is_latest_def)
  moreover have "f \<Longrightarrow> \<exists>x. is_latest db r x" using latest_is_latest(1) [of db r c] Pair by auto
  ultimately show ?thesis using Pair by auto
qed

lemma is_latest_unique:
  assumes "db_wf db" and "is_latest db r x" and "is_latest db r y"
  shows "x = y"
proof -
  from assms(2,3) obtain v w where "v \<in> set (db_ResourceVersions db)" "w \<in> set (db_ResourceVersions db)"
    "rv_ResourceID v = r" "rv_ResourceID w = r" "rv_VersionID v = x" "rv_VersionID w = y"
    "rv_CheckOrder v = rv_CheckOrder w"
    unfolding is_latest_def by (metis order_antisym)
  moreover then have "(x, rv_CheckOrder v) \<in> resource_keys db r" "(y, rv_CheckOrder v) \<in> resource_keys db r"
    by (auto simp: resource_keys_def)
  moreover have "coherent (resource_keys db r)" using assms(1) by (simp add: db_wf_def)
  ultimately show ?thesis unfolding coherent_def by fastforce
qed

lemma Add_empty:
  "vcs_versions (VersionCandidates_Add empty_candidates c) = [NewVersion c]"
  by (simp add: versions_Add Versions_With_def empty_candidates_def sort_Search_def search_loop_done)

definition cand_ok :: "VersionsDB \<Rightarrow> InputConfig \<Rightarrow> int \<Rightarrow> bool" where
  "cand_ok db ic x \<longleftrightarrow>
     (if ic_Passed ic = [] then is_latest db (ic_ResourceID ic) x
      else passed_all (db_BuildOutputs db) (ic_ResourceID ic) (set (ic_Passed ic)) x)"

lemma config_candidates_spec:
  assumes "db_wf db" and "plain_config ic"
  defines "c \<equiv> config_candidates db ic"
  shows "cands_inv (resource_keys db (ic_ResourceID ic)) c" and "vcs_constraints c = []"
    and "version_of c x \<noteq> None \<longleftrightarrow> cand_ok db ic x"
    and "version_of c x = Some v \<Longrightarrow> jobs_of v = set (ic_Passed ic)"
    and "version_of c x = Some v \<Longrightarrow> j \<in> set (ic_Passed ic) \<Longrightarrow>
      builds_in (v_passed v) j = passed_builds (db_BuildOutputs db) (ic_ResourceID ic) x j"
proof -
  let ?r = "ic_ResourceID ic" and ?K = "resource_keys db (ic_ResourceID ic)"
  have coh: "coherent ?K" using assms(1) by (simp add: db_wf_def)
  have *: "cands_inv ?K c \<and> vcs_constraints c = [] \<and> (\<forall>x. version_of c x \<noteq> None \<longleftrightarrow> cand_ok db ic x) \<and>
    (\<forall>x v. version_of c x = Some v \<longrightarrow> jobs_of v = set (ic_Passed ic) \<and>
      (\<forall>j \<in> set (ic_Passed ic). builds_in (v_passed v) j = passed_builds (db_BuildOutputs db) ?r x j))"
  proof (cases "ic_Passed ic = []")
    case True
    obtain a f where af: "LatestVersionOfResource db ?r = (a, f)" by fastforce
    have c: "c = (if f then VersionCandidates_Add empty_candidates a else empty_candidates)"
      using True assms(2) af by (simp add: c_def config_candidates_def plain_config_def)
    show ?thesis
    proof (cases f)
      case f: True
      have "LatestVersionOfResource db ?r = (a, True)" using af f by simp
      note l = latest_is_latest [OF this]
      have "version_of c = [vc_VersionID a \<mapsto> NewVersion a]"
        using f by (simp add: c Add_empty NewVersion_def fun_eq_iff)
      moreover have "is_latest db ?r x \<longleftrightarrow> x = vc_VersionID a" for x
        using l(1) is_latest_unique [OF assms(1)] by blast
      ultimately show ?thesis
        using f True l Add_inv(1) [OF cands_inv_empty coh l(2)]
        by (auto simp: c cand_ok_def NewVersion_def)
    next
      case f: False
      then show ?thesis using True latest_found_iff [of db ?r] af by (auto simp: c cand_ok_def)
    qed
  next
    case False
    then have "passed_cands ?K (db_BuildOutputs db) ?r (set (ic_Passed ic)) c"
      using VersionsOfResourcePassedJobs_cands [OF assms(1)] assms(2)
      by (simp add: c_def config_candidates_def plain_config_def)
    then have pc: "cands_inv ?K c" "vcs_constraints c = []"
      "\<And>x. version_of c x = None \<longleftrightarrow> \<not> passed_all (db_BuildOutputs db) ?r (set (ic_Passed ic)) x"
      "\<And>x j. vbuilds c x j = (if j \<in> set (ic_Passed ic) \<and>
        passed_all (db_BuildOutputs db) ?r (set (ic_Passed ic)) x
        then passed_builds (db_BuildOutputs db) ?r x j else {})"
      by (auto simp: passed_cands_def)
    have "jobs_of v = set (ic_Passed ic) \<and>
        (\<forall>j \<in> set (ic_Passed ic). builds_in (v_passed v) j = passed_builds (db_BuildOutputs db) ?r x j)"
      if "version_of c x = Some v" for x v
    proof -
      have all: "passed_all (db_BuildOutputs db) ?r (set (ic_Passed ic)) x"
        using pc(3) [of x] that by simp
      then show ?thesis
        using vbuilds_keys [OF pc(1) that] pc(4) [of x] vbuilds_Some [OF that]
        by (auto simp: passed_all_def)
    qed
    then show ?thesis using pc(1-3) False by (simp add: cand_ok_def)
  qed
  then show "cands_inv ?K c" "vcs_constraints c = []" "version_of c x \<noteq> None \<longleftrightarrow> cand_ok db ic x"
    "version_of c x = Some v \<Longrightarrow> jobs_of v = set (ic_Passed ic)"
    "version_of c x = Some v \<Longrightarrow> j \<in> set (ic_Passed ic) \<Longrightarrow>
      builds_in (v_passed v) j = passed_builds (db_BuildOutputs db) (ic_ResourceID ic) x j"
    by blast+
qed

lemma version_of_in:
  assumes "cands_inv K c"
  shows "version_of c x = Some v \<longleftrightarrow> v \<in> set (vcs_versions c) \<and> v_id v = x"
  using assms by (intro find_version_iff) (simp add: cands_inv_def versions_wf_def)

lemma input_candidates_wf:
  assumes "db_wf db" and "plain_config ic"
  shows "ivc_wf (input_candidates db ic)"
proof -
  note spec = config_candidates_spec [OF assms]
  let ?c = "config_candidates db ic"
  have "jobs_of v = jobs_of w" if "v \<in> set (vcs_versions ?c)" "w \<in> set (vcs_versions ?c)" for v w
    using that spec(4) version_of_in [OF spec(1)] by blast
  moreover have "ivc_PinnedVersionID (input_candidates db ic) = 0"
    and "\<not> UsingEveryVersion (input_candidates db ic)"
    using assms(2) by (simp_all add: input_candidates_def UsingEveryVersion_def plain_config_def)
  moreover have "ivc_VersionCandidates (input_candidates db ic) = ?c" by (simp add: input_candidates_def)
  ultimately show ?thesis
    using spec(1) unfolding ivc_wf_def cands_inv_def versions_wf_def by metis
qed

lemma candidates_loop_spec:
  "candidates_loop db ics jobs acc =
     (if \<exists>ic \<in> set ics. VersionCandidates_IsEmpty (config_candidates db ic) then None
      else Some (foldl (\<lambda>js ic. if length (ic_Passed ic) = 0 then js else JobSet_Union js (ic_Passed ic)) jobs ics,
                 acc @ map (input_candidates db) ics))"
  by (induction ics arbitrary: jobs acc) auto

lemma set_union_passed:
  "set (foldl (\<lambda>js ic. if length (ic_Passed ic) = 0 then js else JobSet_Union js (ic_Passed ic)) jobs ics) =
     set jobs \<union> (\<Union>ic \<in> set ics. set (ic_Passed ic))"
  by (induction ics arbitrary: jobs) auto

section \<open>Resolve as an enumeration of tuples\<close>

abbreviation config_versions :: "VersionsDB \<Rightarrow> InputConfig \<Rightarrow> Versions" where
  "config_versions db ic \<equiv> vcs_versions (config_candidates db ic)"

definition required_jobs :: "InputConfigs \<Rightarrow> JobSet" where
  "required_jobs configs =
     foldl (\<lambda>js ic. if length (ic_Passed ic) = 0 then js else JobSet_Union js (ic_Passed ic)) [] configs"

lemma set_required_jobs: "set (required_jobs configs) = (\<Union>ic \<in> set configs. set (ic_Passed ic))"
  by (simp add: required_jobs_def set_union_passed del: length_0_conv)

lemma sound_initial:
  assumes "db_wf db" and "\<forall>ic \<in> set configs. plain_config ic"
  shows "sound jobs (map (input_candidates db) configs)"
proof -
  have "vcs_constraints (config_candidates db ic) = []" if "ic \<in> set configs" for ic
    using config_candidates_spec(2) assms that by blast
  then have "satisfies ts (map (input_candidates db) configs)" if "length ts = length configs" for ts
    using that by (auto simp: satisfies_def list_all2_conv_all_nth input_candidates_def)
  then show ?thesis by (auto simp: sound_def in_product_lists dest!: list_all2_lengthD)
qed

lemma Resolve_enumerates:
  assumes "db_wf db" and "\<forall>ic \<in> set configs. plain_config ic"
  shows "InputConfigs_Resolve configs db =
    (case find (consistent (required_jobs configs)) (product_lists (map (config_versions db) configs)) of
       None \<Rightarrow> Unresolved
     | Some ts \<Rightarrow> Resolved (mapping_loop db configs (assign [] (map ic_Name configs) ts) []))"
proof (cases "\<exists>ic \<in> set configs. VersionCandidates_IsEmpty (config_candidates db ic)")
  case True
  then have "[] \<in> set (map (config_versions db) configs)"
    by (force simp: VersionCandidates_IsEmpty_def)
  then have "product_lists (map (config_versions db) configs) = []"
    by (induction "map (config_versions db) configs" arbitrary: configs) fastforce+
  then show ?thesis using True by (simp add: InputConfigs_Resolve_def candidates_loop_spec)
next
  case False
  let ?cs = "map (input_candidates db) configs"
  have "Reduce (length ?cs + 1) 0 ?cs (required_jobs configs) = search_spec (required_jobs configs) ?cs"
  proof (rule Reduce_refines)
    show "unfixed ?cs < length ?cs + 1" using unfixed_le [of ?cs] by simp
    show "\<forall>c \<in> set ?cs. ivc_wf c" using input_candidates_wf assms by auto
    show "sound (required_jobs configs) ?cs" using assms by (rule sound_initial)
  qed
  also have "search_spec (required_jobs configs) ?cs =
      first_consistent (required_jobs configs) (map ic_Name configs) (product_lists (map (config_versions db) configs))"
    by (simp add: search_spec_def comp_def input_candidates_def)
  finally show ?thesis using False
    by (simp add: InputConfigs_Resolve_def candidates_loop_spec first_consistent_def
        required_jobs_def [symmetric] del: Reduce.simps length_0_conv split: option.split)
qed

section \<open>Tuples and choices\<close>

definition tuple_ids :: "InputConfigs \<Rightarrow> (string \<Rightarrow> int) \<Rightarrow> Versions \<Rightarrow> bool" where
  "tuple_ids configs a ts \<longleftrightarrow> list_all2 (\<lambda>v ic. v_id v = a (ic_Name ic)) ts configs"

lemma consistent_iff:
  assumes wf: "db_wf db" and plain: "\<forall>ic \<in> set configs. plain_config ic"
    and ts: "list_all2 (\<lambda>v ic. v \<in> set (config_versions db ic)) ts configs"
    and ids: "tuple_ids configs a ts"
  shows "consistent (required_jobs configs) ts \<longleftrightarrow> admissible db configs a"
proof -
  let ?b = "\<lambda>ic j. passed_builds (db_BuildOutputs db) (ic_ResourceID ic) (a (ic_Name ic)) j"
  have len: "length ts = length configs" using ts by (rule list_all2_lengthD)
  have at: "version_of (config_candidates db (configs ! i)) (a (ic_Name (configs ! i))) = Some (ts ! i)"
    if "i < length configs" for i
  proof -
    have "v_id (ts ! i) = a (ic_Name (configs ! i))" "ts ! i \<in> set (config_versions db (configs ! i))"
      using that ts ids by (auto simp: tuple_ids_def list_all2_conv_all_nth)
    moreover have "cands_inv (resource_keys db (ic_ResourceID (configs ! i))) (config_candidates db (configs ! i))"
      using config_candidates_spec(1) [OF wf] plain that by simp
    ultimately show ?thesis by (simp add: version_of_in)
  qed
  have jobs: "jobs_of (ts ! i) = set (ic_Passed (configs ! i))" if "i < length configs" for i
    using config_candidates_spec(4) [OF wf _ at [OF that]] plain that by simp
  have builds: "builds_in (v_passed (ts ! i)) j = ?b (configs ! i) j"
    if "i < length configs" "j \<in> set (ic_Passed (configs ! i))" for i j
    using config_candidates_spec(5) [OF wf _ at [OF that(1)] that(2)] plain that by simp
  have latest: "is_latest db (ic_ResourceID ic) (a (ic_Name ic))" if "ic \<in> set configs" "ic_Passed ic = []" for ic
  proof -
    from that(1) obtain i where i: "i < length configs" "ic = configs ! i" by (auto simp: in_set_conv_nth)
    then have "cand_ok db ic (a (ic_Name ic))"
      using config_candidates_spec(3) [OF wf, of ic] at [OF i(1)] plain that(1) by auto
    then show ?thesis using that(2) by (simp add: cand_ok_def)
  qed
  have "(j \<in> jobs_of (ts ! i) \<longrightarrow> b \<in> builds_in (v_passed (ts ! i)) j) \<longleftrightarrow>
      (j \<in> set (ic_Passed (configs ! i)) \<longrightarrow> b \<in> ?b (configs ! i) j)" if "i < length configs" for i j b
    unfolding jobs [OF that] using builds [OF that, of j] by blast
  then have one: "(\<forall>v \<in> set ts. j \<in> jobs_of v \<longrightarrow> b \<in> builds_in (v_passed v) j) \<longleftrightarrow>
      (\<forall>ic \<in> set configs. j \<in> set (ic_Passed ic) \<longrightarrow> b \<in> ?b ic j)" for j b
    unfolding all_set_conv_all_nth len by blast
  have "\<forall>ic \<in> set configs. j \<in> set (ic_Passed ic) \<longrightarrow> b \<in> ?b ic j"
    if "j \<notin> set (required_jobs configs)" for j b
    using that unfolding set_required_jobs by blast
  then have "(\<forall>j. \<exists>b. \<forall>ic \<in> set configs. j \<in> set (ic_Passed ic) \<longrightarrow> b \<in> ?b ic j) \<longleftrightarrow>
      (\<forall>j \<in> set (required_jobs configs). \<exists>b. \<forall>ic \<in> set configs. j \<in> set (ic_Passed ic) \<longrightarrow> b \<in> ?b ic j)"
    by meson
  then show ?thesis using latest unfolding consistent_def admissible_def one by blast
qed

lemma choice_tuple:
  assumes wf: "db_wf db" and plain: "\<forall>ic \<in> set configs. plain_config ic" and adm: "admissible db configs a"
  obtains ts where "list_all2 (\<lambda>v ic. v \<in> set (config_versions db ic)) ts configs" and "tuple_ids configs a ts"
proof -
  let ?v = "\<lambda>ic. version_of (config_candidates db ic) (a (ic_Name ic))"
  have "\<exists>v. ?v ic = Some v" if "ic \<in> set configs" for ic
  proof -
    have "\<exists>b. b \<in> passed_builds (db_BuildOutputs db) (ic_ResourceID ic) (a (ic_Name ic)) j"
      if "j \<in> set (ic_Passed ic)" for j
      using adm that \<open>ic \<in> set configs\<close> unfolding admissible_def by meson
    then have "\<forall>j \<in> set (ic_Passed ic).
        passed_builds (db_BuildOutputs db) (ic_ResourceID ic) (a (ic_Name ic)) j \<noteq> {}" by blast
    moreover have "ic_Passed ic = [] \<Longrightarrow> is_latest db (ic_ResourceID ic) (a (ic_Name ic))"
      using adm that by (simp add: admissible_def)
    ultimately have "cand_ok db ic (a (ic_Name ic))" by (simp add: cand_ok_def passed_all_def)
    then show ?thesis using config_candidates_spec(3) [OF wf, of ic] plain that by auto
  qed
  then have v: "\<And>ic. ic \<in> set configs \<Longrightarrow> ?v ic = Some (the (?v ic))" by force
  have "the (?v ic) \<in> set (config_versions db ic) \<and> v_id (the (?v ic)) = a (ic_Name ic)"
    if "ic \<in> set configs" for ic
    using find_version_Some_id [OF v [OF that]] by simp
  then show thesis
    by (intro that [of "map (\<lambda>ic. the (?v ic)) configs"])
      (auto simp: tuple_ids_def list_all2_map1 list.rel_refl_strong list_all2_conv_all_nth)
qed

section \<open>The mapping\<close>

definition chosen :: "InputMapping \<Rightarrow> string \<Rightarrow> int" where
  "chosen m n = (case map_of m n of None \<Rightarrow> 0 | Some v \<Rightarrow> iv_VersionID v)"

lemma assign_other: "n \<notin> set names \<Longrightarrow> map_of (assign r names ts) n = map_of r n"
proof (induction names arbitrary: r ts)
  case (Cons m names)
  then show ?case by (cases ts) (auto simp: assign_def)
qed (simp add: assign_def)

lemma assign_nth:
  "distinct names \<Longrightarrow> length ts = length names \<Longrightarrow> i < length names \<Longrightarrow>
     map_of (assign r names ts) (names ! i) = Some (v_id (ts ! i))"
proof (induction names arbitrary: r ts i)
  case (Cons m names)
  then obtain t ts' where ts: "ts = t # ts'" by (cases ts) auto
  then have step: "assign r (m # names) ts = assign (AList.update m (v_id t) r) names ts'"
    by (simp add: assign_def)
  show ?case
  proof (cases i)
    case 0
    then show ?thesis using Cons.prems step by (simp add: ts assign_other)
  next
    case (Suc k)
    then show ?thesis using Cons.prems Cons.IH [of ts' k] step by (simp add: ts)
  qed
qed simp

lemma mapping_loop_other:
  "n \<notin> ic_Name ` set configs \<Longrightarrow> map_of (mapping_loop db configs b m) n = map_of m n"
  by (induction configs arbitrary: m) (auto simp: Let_def)

lemma mapping_loop_in:
  "distinct (map ic_Name configs) \<Longrightarrow> ic \<in> set configs \<Longrightarrow>
     map_of (mapping_loop db configs b m) (ic_Name ic) =
       Some \<lparr>iv_VersionID = go_index 0 b (ic_Name ic),
             iv_FirstOccurrence = IsVersionFirstOccurrence db (go_index 0 b (ic_Name ic)) (ic_JobID ic) (ic_Name ic)\<rparr>"
proof (induction configs arbitrary: m)
  case (Cons c configs)
  then show ?case by (cases "ic = c") (auto simp: Let_def mapping_loop_other)
qed simp

lemma Resolve_chosen:
  assumes "distinct (map ic_Name configs)" and "length ts = length configs"
  shows "tuple_ids configs (chosen (mapping_loop db configs (assign [] (map ic_Name configs) ts) [])) ts"
    (is "tuple_ids configs (chosen ?m) ts")
proof -
  have "chosen ?m (ic_Name (configs ! i)) = v_id (ts ! i)" if "i < length configs" for i
    using assign_nth [of "map ic_Name configs" ts i "[]"] assms that
      mapping_loop_in [of configs "configs ! i" db "assign [] (map ic_Name configs) ts" "[]"]
    by (simp add: chosen_def go_index_Some)
  then show ?thesis using assms(2) by (simp add: tuple_ids_def list_all2_conv_all_nth)
qed

lemma Resolve_Resolved:
  assumes "db_wf db" and "\<forall>ic \<in> set configs. plain_config ic" and "distinct (map ic_Name configs)"
    and "InputConfigs_Resolve configs db = Resolved m"
  obtains ts where
    "find (consistent (required_jobs configs)) (product_lists (map (config_versions db) configs)) = Some ts"
    and "list_all2 (\<lambda>v ic. v \<in> set (config_versions db ic)) ts configs"
    and "tuple_ids configs (chosen m) ts" and "admissible db configs (chosen m)"
proof -
  from assms(4) obtain ts where
    ts: "find (consistent (required_jobs configs)) (product_lists (map (config_versions db) configs)) = Some ts"
    and m: "m = mapping_loop db configs (assign [] (map ic_Name configs) ts) []"
    by (auto simp: Resolve_enumerates [OF assms(1,2)] split: option.splits)
  then have "consistent (required_jobs configs) ts" and
    in_ts: "list_all2 (\<lambda>v ic. v \<in> set (config_versions db ic)) ts configs"
    by (auto simp: find_Some_iff in_product_lists list_all2_map2 dest!: nth_mem)
  moreover have ids: "tuple_ids configs (chosen m) ts"
    using Resolve_chosen [OF assms(3)] in_ts m by (simp add: list_all2_lengthD)
  ultimately show thesis using that [OF ts in_ts ids] consistent_iff [OF assms(1,2) in_ts ids] by blast
qed

lemma Resolve_Unresolved:
  assumes "db_wf db" and "\<forall>ic \<in> set configs. plain_config ic"
    and "InputConfigs_Resolve configs db = Unresolved"
  shows "\<not> admissible db configs a"
proof
  assume a: "admissible db configs a"
  from assms(3) have none: "find (consistent (required_jobs configs)) (product_lists (map (config_versions db) configs)) = None"
    by (auto simp: Resolve_enumerates [OF assms(1,2)] split: option.splits)
  from choice_tuple [OF assms(1,2) a] obtain ts where
    ts: "list_all2 (\<lambda>v ic. v \<in> set (config_versions db ic)) ts configs" "tuple_ids configs a ts" .
  then have "consistent (required_jobs configs) ts" using consistent_iff [OF assms(1,2) ts] a by simp
  moreover have "ts \<in> set (product_lists (map (config_versions db) configs))"
    using ts(1) by (simp add: in_product_lists list_all2_map2)
  ultimately show False using none by (auto simp: find_None_iff)
qed

section \<open>Lexicographic order\<close>

lemma find_map: "find P (map f xs) = map_option f (find (\<lambda>x. P (f x)) xs)"
  by (induction xs) auto

lemma find_product_first:
  assumes "find P (product_lists xss) = Some ts" and "us \<in> set (product_lists xss)" and "P us"
    and "\<forall>xs \<in> set xss. desc xs"
  shows "us = ts \<or> (\<exists>i < length xss. take i us = take i ts \<and> v_order (us ! i) < v_order (ts ! i))"
  using assms
proof (induction xss arbitrary: P ts us)
  case (Cons xs xss)
  from Cons.prems(2) obtain u us' where u: "us = u # us'" "u \<in> set xs" "us' \<in> set (product_lists xss)"
    by auto
  from split_list [OF u(2)] obtain pre post where xs: "xs = pre @ u # post" by blast
  let ?ps = "product_lists xss"
  show ?case
  proof (cases "find P (concat (map (\<lambda>x. map (Cons x) ?ps) pre))")
    case None
    have "\<exists>t \<in> set (map (Cons u) ?ps). P t" using u(1,3) Cons.prems(3) by auto
    then obtain t where t: "find P (map (Cons u) ?ps) = Some t" by (metis find_None_iff not_None_eq)
    then have "ts = t" using Cons.prems(1) None by (simp add: xs find_append)
    moreover from t obtain t' where "t = u # t'" "find (\<lambda>r. P (u # r)) ?ps = Some t'"
      by (auto simp: find_map)
    moreover have "us' = t' \<or> (\<exists>i < length xss. take i us' = take i t' \<and> v_order (us' ! i) < v_order (t' ! i))"
      using Cons.IH [of "\<lambda>r. P (u # r)" t' us'] calculation(3) u Cons.prems by simp
    ultimately show ?thesis using u(1) by (auto intro: exI [of _ "Suc _"])
  next
    case (Some t)
    then have "ts = t" using Cons.prems(1) by (simp add: xs find_append)
    moreover from Some obtain x where "x \<in> set pre" "hd t = x" "t \<noteq> []"
      by (auto simp: find_Some_iff dest!: nth_mem)
    moreover have "desc (pre @ u # post)" using Cons.prems(4) xs by simp
    ultimately show ?thesis using u(1)
      by (auto simp: desc_def sorted_wrt_append hd_conv_nth intro: exI [of _ 0])
  qed
qed simp

text \<open>Version \<open>x\<close> of resource \<open>r\<close> is newer than version \<open>y\<close>.\<close>

definition newer :: "VersionsDB \<Rightarrow> int \<Rightarrow> int \<Rightarrow> int \<Rightarrow> bool" where
  "newer db r x y \<longleftrightarrow>
     (\<exists>p \<in> resource_keys db r. \<exists>q \<in> resource_keys db r. fst p = x \<and> fst q = y \<and> snd q < snd p)"

lemma tuple_newest:
  assumes "db_wf db" and "\<forall>ic \<in> set configs. plain_config ic"
    and "find P (product_lists (map (config_versions db) configs)) = Some ts" and "P us"
    and "list_all2 (\<lambda>v ic. v \<in> set (config_versions db ic)) ts configs" and "tuple_ids configs a ts"
    and "list_all2 (\<lambda>v ic. v \<in> set (config_versions db ic)) us configs" and "tuple_ids configs b us"
  shows "(\<forall>ic \<in> set configs. b (ic_Name ic) = a (ic_Name ic)) \<or>
    (\<exists>i < length configs. (\<forall>k < i. b (ic_Name (configs ! k)) = a (ic_Name (configs ! k))) \<and>
       newer db (ic_ResourceID (configs ! i)) (a (ic_Name (configs ! i))) (b (ic_Name (configs ! i))))"
proof -
  have wf: "versions_wf (resource_keys db (ic_ResourceID ic)) (config_versions db ic)" if "ic \<in> set configs" for ic
    using config_candidates_spec(1) [OF assms(1)] assms(2) that by (simp add: cands_inv_def)
  have ids: "v_id (ts ! i) = a (ic_Name (configs ! i))" "v_id (us ! i) = b (ic_Name (configs ! i))"
    "key (ts ! i) \<in> resource_keys db (ic_ResourceID (configs ! i))"
    "key (us ! i) \<in> resource_keys db (ic_ResourceID (configs ! i))" if "i < length configs" for i
    using that assms(5-8) wf [OF nth_mem [OF that]]
    by (auto simp: tuple_ids_def list_all2_conv_all_nth versions_wf_def)
  have "us \<in> set (product_lists (map (config_versions db) configs))"
    using assms(7) by (simp add: in_product_lists list_all2_map2)
  moreover have "\<forall>xs \<in> set (map (config_versions db) configs). desc xs"
    using wf by (auto simp: versions_wf_def)
  ultimately consider "us = ts" | i where "i < length configs" "take i us = take i ts"
    "v_order (us ! i) < v_order (ts ! i)"
    using find_product_first [OF assms(3) _ assms(4)] by fastforce
  then show ?thesis
  proof cases
    case 1
    then show ?thesis using ids(1,2) by (simp add: all_set_conv_all_nth)
  next
    case 2
    have "b (ic_Name (configs ! k)) = a (ic_Name (configs ! k))" if "k < i" for k
      using ids(1,2) [of k] 2 that by (metis nth_take order_less_trans)
    moreover have "newer db (ic_ResourceID (configs ! i)) (a (ic_Name (configs ! i))) (b (ic_Name (configs ! i)))"
      using ids [OF 2(1)] 2(3) unfolding newer_def key_def by force
    ultimately show ?thesis using 2(1) by blast
  qed
qed

section \<open>What Resolve promises\<close>

text \<open>
  Two resources, \<open>repo\<close> (1) and \<open>image\<close> (2), and a job (7) whose builds 31 and 32 produced versions of
  both; version 12 of \<open>repo\<close> has not passed the job together with an image.
\<close>

definition sample_db :: VersionsDB where
  "sample_db =
     \<lparr>db_ResourceVersions =
        [\<lparr>rv_VersionID = 10, rv_ResourceID = 1, rv_CheckOrder = 1\<rparr>,
         \<lparr>rv_VersionID = 11, rv_ResourceID = 1, rv_CheckOrder = 2\<rparr>,
         \<lparr>rv_VersionID = 12, rv_ResourceID = 1, rv_CheckOrder = 3\<rparr>,
         \<lparr>rv_VersionID = 20, rv_ResourceID = 2, rv_CheckOrder = 1\<rparr>,
         \<lparr>rv_VersionID = 21, rv_ResourceID = 2, rv_CheckOrder = 2\<rparr>],
      db_BuildOutputs =
        [\<lparr>rv_VersionID = 10, rv_ResourceID = 1, rv_CheckOrder = 1, bo_BuildID = 31, bo_JobID = 7\<rparr>,
         \<lparr>rv_VersionID = 20, rv_ResourceID = 2, rv_CheckOrder = 1, bo_BuildID = 31, bo_JobID = 7\<rparr>,
         \<lparr>rv_VersionID = 11, rv_ResourceID = 1, rv_CheckOrder = 2, bo_BuildID = 32, bo_JobID = 7\<rparr>,
         \<lparr>rv_VersionID = 20, rv_ResourceID = 2, rv_CheckOrder = 1, bo_BuildID = 32, bo_JobID = 7\<rparr>,
         \<lparr>rv_VersionID = 12, rv_ResourceID = 1, rv_CheckOrder = 3, bo_BuildID = 33, bo_JobID = 7\<rparr>],
      db_BuildInputs =
        [\<lparr>rv_VersionID = 20, rv_ResourceID = 2, rv_CheckOrder = 1, bi_BuildID = 41, bi_JobID = 8,
          bi_InputName = ''image''\<rparr>],
      db_JobIDs = [(''build'', 7), (''deploy'', 8)], db_ResourceIDs = [(''repo'', 1), (''image'', 2)]\<rparr>"

definition sample_configs :: InputConfigs where
  "sample_configs =
     [\<lparr>ic_Name = ''repo'', ic_JobName = ''deploy'', ic_Passed = [7], ic_UseEveryVersion = False,
       ic_PinnedVersionID = 0, ic_ResourceID = 1, ic_JobID = 8\<rparr>,
      \<lparr>ic_Name = ''image'', ic_JobName = ''deploy'', ic_Passed = [7], ic_UseEveryVersion = False,
       ic_PinnedVersionID = 0, ic_ResourceID = 2, ic_JobID = 8\<rparr>]"

definition sample_mapping :: InputMapping where
  "sample_mapping =
     [(''repo'', \<lparr>iv_VersionID = 11, iv_FirstOccurrence = True\<rparr>),
      (''image'', \<lparr>iv_VersionID = 20, iv_FirstOccurrence = False\<rparr>)]"

lemma sample_wf: "db_wf sample_db" "\<forall>ic \<in> set sample_configs. plain_config ic" "distinct (map ic_Name sample_configs)"
  by (auto simp: db_wf_def coherent_def resource_keys_def sample_db_def sample_configs_def plain_config_def)

lemma sample_resolve: "InputConfigs_Resolve sample_configs sample_db = Resolved sample_mapping"
  by code_simp






lemma sample_older:
  "admissible sample_db sample_configs (\<lambda>n. if n = ''repo'' then 10 else 20)"
proof -
  have "31 \<in> passed_builds (db_BuildOutputs sample_db) 1 10 7"
    "31 \<in> passed_builds (db_BuildOutputs sample_db) 2 20 7"
    by (simp_all add: sample_db_def passed_builds_Cons)
  then show ?thesis by (auto simp: admissible_def sample_configs_def intro: exI [of _ 31])
qed


text \<open>
  C4. Termination of the search for every job and every snapshot, pinned and "every" inputs included: the
  recursion depth \<open>len(inputs) + 1\<close> is always enough, so \<open>Resolve\<close> returns.
\<close>

theorem Resolve_total: "InputConfigs_Resolve configs db \<noteq> OutOfFuel"
proof -
  have "Reduce (length cs + 1) 0 cs jobs \<noteq> OutOfFuel" for cs jobs
    using Reduce_total(1) [of cs "length cs + 1"] unfixed_le [of cs] by simp
  then show ?thesis
    by (auto simp: InputConfigs_Resolve_def simp del: Reduce.simps split: option.splits outcome.splits)
qed

text \<open>
  C5. The mapping names every input of the job and no other, and \<open>FirstOccurrence\<close> is set exactly when no
  build of the job has used the version for that input before.
\<close>

theorem Resolve_first_occurrence:
  assumes "distinct (map ic_Name configs)" and "InputConfigs_Resolve configs db = Resolved m"
    and "ic \<in> set configs" and "map_of m (ic_Name ic) = Some v"
  shows "dom (map_of m) = ic_Name ` set configs \<and>
    (iv_FirstOccurrence v \<longleftrightarrow> \<not> (\<exists>bi \<in> set (db_BuildInputs db). rv_VersionID bi = iv_VersionID v \<and>
       bi_JobID bi = ic_JobID ic \<and> bi_InputName bi = ic_Name ic))"
proof -
  from assms(2) obtain b where m: "m = mapping_loop db configs b []"
    by (auto simp: InputConfigs_Resolve_def split: option.splits outcome.splits)
  have "map_of m n \<noteq> None \<longleftrightarrow> n \<in> ic_Name ` set configs" for n
    using mapping_loop_in [OF assms(1), of _ db b "[]"] mapping_loop_other [of n configs db b "[]"] m
    by (cases "n \<in> ic_Name ` set configs") auto
  then have "dom (map_of m) = ic_Name ` set configs" by blast
  then show ?thesis
    using mapping_loop_in [OF assms(1,3), of db b "[]"] assms(4) m by (auto simp: IsVersionFirstOccurrence_iff)
qed

theorem Resolve_first_occurrence_witness:
  "dom (map_of sample_mapping) = {''repo'', ''image''} \<and>
   (\<exists>bi \<in> set (db_BuildInputs sample_db). rv_VersionID bi = 20 \<and> bi_JobID bi = 8 \<and> bi_InputName bi = ''image'')"
  using Resolve_first_occurrence [OF sample_wf(3) sample_resolve, of "sample_configs ! 1"
      "\<lparr>iv_VersionID = 20, iv_FirstOccurrence = False\<rparr>"]
  by (auto simp: sample_configs_def sample_mapping_def)

end
