(* ===== verification/Every_Version.thy ===== *)
theory Every_Version
  imports Input_Resolution
begin

text \<open>
  Inputs with \<open>version: every\<close> and pinned inputs. An input that uses every version is resolved to the
  newest version whose predecessor, or which itself, the job has already built; so no version after the
  first one built is skipped. For pinned inputs \<open>Pin\<close> drops the constraints that \<open>pruneToCommonBuilds\<close>
  had put on the candidates, which shows when all other inputs have a single candidate.
\<close>

section \<open>All versions of a resource\<close>

definition resource_version :: "VersionsDB \<Rightarrow> int \<Rightarrow> int \<Rightarrow> int \<Rightarrow> bool" where
  "resource_version db r x ord \<longleftrightarrow>
     (\<exists>v \<in> set (db_ResourceVersions db). rv_ResourceID v = r \<and> rv_VersionID v = x \<and> rv_CheckOrder v = ord)"

lemma all_versions_loop_inv:
  assumes "coherent K"
  shows "cands_inv K c \<Longrightarrow>
    \<forall>v \<in> set vs. rv_ResourceID v = r \<longrightarrow> (rv_VersionID v, rv_CheckOrder v) \<in> K \<Longrightarrow>
    cands_inv K (all_versions_loop vs r c) \<and>
    vcs_constraints (all_versions_loop vs r c) = vcs_constraints c \<and>
    (\<forall>x. version_of (all_versions_loop vs r c) x = None \<longleftrightarrow>
       version_of c x = None \<and> \<not> (\<exists>v \<in> set vs. rv_ResourceID v = r \<and> rv_VersionID v = x))"
proof (induction vs arbitrary: c)
  case (Cons v vs)
  let ?a = "zero_candidate\<lparr>vc_VersionID := rv_VersionID v, vc_CheckOrder := rv_CheckOrder v\<rparr>"
  show ?case
  proof (cases "rv_ResourceID v = r")
    case True
    have k: "cand_key ?a \<in> K" using Cons.prems(2) True by (simp add: cand_key_def)
    note add = Add_inv [OF Cons.prems(1) assms k]
    have "version_of (VersionCandidates_Add c ?a) x = None \<longleftrightarrow> version_of c x = None \<and> x \<noteq> rv_VersionID v" for x
      using fun_cong [OF add(2), of x] by (auto split: option.split)
    then show ?thesis using Cons.IH [OF add(1)] Cons.prems True by auto
  next
    case False
    then show ?thesis using Cons by simp
  qed
qed simp

lemma AllVersions_inv:
  assumes "db_wf db"
  shows "cands_inv (resource_keys db r) (AllVersionsOfResource db r)"
    and "vcs_constraints (AllVersionsOfResource db r) = []"
    and "(\<exists>v \<in> set (vcs_versions (AllVersionsOfResource db r)). v_id v = x \<and> v_order v = ord) \<longleftrightarrow>
      resource_version db r x ord"
proof -
  have coh: "coherent (resource_keys db r)" using assms by (simp add: db_wf_def)
  have keys: "\<forall>v \<in> set (db_ResourceVersions db). rv_ResourceID v = r \<longrightarrow>
      (rv_VersionID v, rv_CheckOrder v) \<in> resource_keys db r" by (auto simp: resource_keys_def)
  note inv = all_versions_loop_inv [OF coh cands_inv_empty keys, folded AllVersionsOfResource_def]
  then show c: "cands_inv (resource_keys db r) (AllVersionsOfResource db r)"
    and "vcs_constraints (AllVersionsOfResource db r) = []" by simp_all
  have ids: "(\<exists>v \<in> set (vcs_versions (AllVersionsOfResource db r)). v_id v = y) \<longleftrightarrow>
      (\<exists>o'. resource_version db r y o')" for y
    using inv find_version_None [of "vcs_versions (AllVersionsOfResource db r)" y]
    by (auto simp: resource_version_def)
  have k: "(v_id v, v_order v) \<in> resource_keys db r" if "v \<in> set (vcs_versions (AllVersionsOfResource db r))" for v
    using c that by (auto simp: cands_inv_def versions_wf_def key_def)
  have rk: "resource_version db r y o' \<Longrightarrow> (y, o') \<in> resource_keys db r" for y o'
    by (auto simp: resource_version_def resource_keys_def)
  have uniq: "o1 = o2" if "(y, o1) \<in> resource_keys db r" "(y, o2) \<in> resource_keys db r" for y o1 o2
    using coh that unfolding coherent_def by fastforce
  show "(\<exists>v \<in> set (vcs_versions (AllVersionsOfResource db r)). v_id v = x \<and> v_order v = ord) \<longleftrightarrow>
      resource_version db r x ord" (is "?l \<longleftrightarrow> _")
  proof
    assume ?l
    then obtain v where v: "v \<in> set (vcs_versions (AllVersionsOfResource db r))" "v_id v = x" "v_order v = ord" by blast
    then obtain o' where o': "resource_version db r x o'" using ids [of x] by blast
    have "o' = ord" using uniq [OF rk [OF o']] k [OF v(1)] v(2,3) by simp
    with o' show "resource_version db r x ord" by simp
  next
    assume o: "resource_version db r x ord"
    then obtain v where v: "v \<in> set (vcs_versions (AllVersionsOfResource db r))" "v_id v = x" using ids [of x] by blast
    have "v_order v = ord" using uniq [OF _ rk [OF o]] k [OF v(1)] v(2) by simp
    with v show ?l by blast
  qed
qed

section \<open>Every version\<close>

text \<open>Newest first: the first version that was built, or whose predecessor was built or does not exist.\<close>

fun every_pick :: "(int \<Rightarrow> bool) \<Rightarrow> Versions \<Rightarrow> int option" where
  "every_pick used [] = None"
| "every_pick used (v # vs) =
     (if used (v_id v) \<or> (case vs of [] \<Rightarrow> True | w # _ \<Rightarrow> used (v_id w)) then Some (v_id v)
      else every_pick used vs)"

lemma every_pick_total: "vs \<noteq> [] \<Longrightarrow> \<exists>x. every_pick used vs = Some x"
proof (induction vs)
  case (Cons v vs)
  then show ?case by (cases vs) auto
qed simp

lemma every_pick_spec:
  assumes "every_pick used vs = Some x" and "desc vs" and "u \<in> set vs" and "used (v_id u)"
  shows "\<exists>v \<in> set vs. v_id v = x \<and> (\<forall>w \<in> set vs. used (v_id w) \<longrightarrow> v_order w \<le> v_order v) \<and>
    (\<forall>w \<in> set vs. v_order w < v_order v \<longrightarrow> (\<exists>u \<in> set vs. used (v_id u) \<and> v_order w \<le> v_order u)) \<and>
    (used x \<longrightarrow> (\<forall>w \<in> set vs. v_order w \<le> v_order v))"
  using assms
proof (induction used vs arbitrary: u rule: every_pick.induct)
  case (2 used v vs)
  have below: "\<forall>w \<in> set vs. v_order w < v_order v" and desc: "desc vs"
    using "2.prems"(2) by (auto simp: desc_def)
  consider "used (v_id v)" | w ws where "\<not> used (v_id v)" "vs = w # ws" "used (v_id w)" | "\<not> used (v_id v)" "vs = []"
    | w ws where "\<not> used (v_id v)" "vs = w # ws" "\<not> used (v_id w)"
    by (cases vs) auto
  then show ?case
  proof cases
    case 1
    then show ?thesis using "2.prems"(1) below by force
  next
    case 2
    then have x: "x = v_id v" using "2.prems"(1) by simp
    have "v_order z \<le> v_order w" if "z \<in> set vs" for z using desc 2(2) that by (auto simp: desc_def)
    then show ?thesis using below 2 x by (force intro: less_imp_le)
  next
    case 3
    then show ?thesis using "2.prems" by auto
  next
    case 4
    then have "every_pick used vs = Some x" "u \<in> set vs" using "2.prems" by auto
    then obtain z where z: "z \<in> set vs" "v_id z = x" "\<forall>w \<in> set vs. used (v_id w) \<longrightarrow> v_order w \<le> v_order z"
      "\<forall>w \<in> set vs. v_order w < v_order z \<longrightarrow> (\<exists>u \<in> set vs. used (v_id u) \<and> v_order w \<le> v_order u)"
      "used x \<longrightarrow> (\<forall>w \<in> set vs. v_order w \<le> v_order z)"
      using "2.IH" [of u] 4 desc "2.prems"(4) by auto
    have "\<not> used x"
    proof
      assume "used x"
      then have "v_order w \<le> v_order z" using z(5) 4(2) by simp
      then have "z = w" using z(1) 4(2) desc by (auto simp: desc_def)
      then show False using \<open>used x\<close> z(2) 4(3) by simp
    qed
    then show ?thesis using z below 4(1) by (intro bexI [of _ z]) (auto dest: less_asym)
  qed
qed simp

lemma reduce_single:
  assumes "versions_of c = [v]" and "vcs_constraints (ivc_VersionCandidates c) = []"
  shows "reduce_from fuel depth 0 [c] [] = Resolved [(ivc_Input c, v_id v)]"
proof -
  have "iter_list (VersionCandidates_VersionIDs (ivc_VersionCandidates c)) = [v]"
    using assms by (simp add: iter_list_VersionIDs)
  then show ?thesis
    using assms(1) by (simp add: reduce_from.simps [of fuel] VersionCandidates_Len_def VersionsIter_Next_Cons)
qed

lemma Reduce_pinned_single:
  assumes "v \<in> set (versions_of c)" and "distinct (map v_id (versions_of c))"
  shows "Reduce (Suc fuel) depth (Pin [c] 0 (v_id v)) [] = Resolved [(ivc_Input c, v_id v)]"
proof -
  let ?p = "c\<lparr>ivc_VersionCandidates := ForVersion (ivc_VersionCandidates c) (v_id v)\<rparr>"
  have "version_of (ivc_VersionCandidates c) (v_id v) = Some v" using assms by (simp add: find_version_in)
  note f = ForVersion_Some [OF this]
  have "reduce_from fuel depth 0 [?p] [] = Resolved [(ivc_Input ?p, v_id v)]"
    using f by (intro reduce_single) simp_all
  then show ?thesis by (simp add: Pin_def pruneToCommonBuilds_def)
qed

lemma try_every:
  assumes "distinct (map v_id (versions_of c))" and "UsingEveryVersion c"
  shows "set (iter_list it) \<subseteq> set (versions_of c) \<Longrightarrow>
    try_versions (Suc fuel) depth 0 [c] c it [] =
      (case every_pick (ExistsForVersion (ivc_ExistingBuildResolver c)) (iter_list it) of
         None \<Rightarrow> Unresolved
       | Some x \<Rightarrow> Resolved [(ivc_Input c, x)])"
proof (induction "iter_list it" arbitrary: it)
  case Nil
  then have "fst (VersionsIter_Next it) = None" by (simp add: VersionsIter_Next_Nil)
  then show ?case using Nil.hyps [symmetric]
    by (cases "VersionsIter_Next it") (simp add: try_versions.simps [of "Suc fuel"])
next
  case (Cons v vs)
  obtain it' where n: "VersionsIter_Next it = (Some (v_id v), it')" "iter_list it' = vs"
    using VersionsIter_Next_Cons [OF Cons.hyps(2) [symmetric]] by (metis prod.collapse)
  let ?used = "ExistsForVersion (ivc_ExistingBuildResolver c)"
  let ?it = "snd (IsNext c (v_id v) it')"
  have red: "Reduce (Suc fuel) (depth + 1) (Pin [c] 0 (v_id v)) [] = Resolved [(ivc_Input c, v_id v)]"
    using Cons.prems assms(1) by (intro Reduce_pinned_single) (auto simp: Cons.hyps(2) [symmetric])
  have ok: "fst (IsNext c (v_id v) it') \<longleftrightarrow> ?used (v_id v) \<or> (case vs of [] \<Rightarrow> True | w # _ \<Rightarrow> ?used (v_id w))"
    using VersionsIter_Peek [of it'] n(2) assms(2)
    by (auto simp: IsNext_def split: prod.split list.split)
  have "iter_list ?it = vs" using VersionsIter_Peek(2) [of it'] n(2) by (auto simp: IsNext_def split: prod.split)
  then have "try_versions (Suc fuel) depth 0 [c] c ?it [] =
      (case every_pick ?used vs of None \<Rightarrow> Unresolved | Some x \<Rightarrow> Resolved [(ivc_Input c, x)])"
    using Cons.hyps(1) [of ?it] Cons.prems unfolding Cons.hyps(2) [symmetric] by simp
  moreover have "Unpin (Pin [c] 0 (v_id v)) 0 c = [c]" by (simp add: Unpin_def Pin_def)
  ultimately show ?case using ok Cons.hyps(2) [symmetric]
    by (subst try_versions.simps) (simp add: n(1) red del: Reduce.simps)
qed

definition every_config :: "VersionsDB \<Rightarrow> InputConfig \<Rightarrow> bool" where
  "every_config db ic \<longleftrightarrow> ic_Passed ic = [] \<and> ic_UseEveryVersion ic \<and> ic_PinnedVersionID ic = 0"

text \<open>The job has already built version \<open>x\<close> of the resource.\<close>

definition built :: "VersionsDB \<Rightarrow> InputConfig \<Rightarrow> int \<Rightarrow> bool" where
  "built db ic x \<longleftrightarrow> (\<exists>bi \<in> set (db_BuildInputs db).
     bi_JobID bi = ic_JobID ic \<and> rv_ResourceID bi = ic_ResourceID ic \<and> rv_VersionID bi = x)"

lemma Resolve_every:
  assumes "db_wf db" and "every_config db ic" and "built db ic u"
    and "vcs_versions (AllVersionsOfResource db (ic_ResourceID ic)) = vs" and "vs \<noteq> []"
  shows "\<exists>m x. InputConfigs_Resolve [ic] db = Resolved m \<and> chosen m (ic_Name ic) = x \<and>
    every_pick (built db ic) vs = Some x"
proof -
  let ?c = "input_candidates db ic"
  have cand: "config_candidates db ic = AllVersionsOfResource db (ic_ResourceID ic)"
    using assms(2) by (simp add: config_candidates_def every_config_def)
  have used: "ExistsForVersion (ivc_ExistingBuildResolver ?c) = built db ic"
    by (simp add: fun_eq_iff ExistsForVersion_iff built_def input_candidates_def)
  have "UsingEveryVersion ?c"
    using assms(2,3) Exists_iff [of "ivc_ExistingBuildResolver ?c"] used
    by (auto simp: UsingEveryVersion_def every_config_def input_candidates_def)
  moreover have name: "ivc_Input ?c = ic_Name ic" and pin: "ivc_PinnedVersionID ?c = 0"
    using assms(2) by (simp_all add: input_candidates_def every_config_def)
  moreover have vs: "versions_of ?c = vs" "vcs_constraints (ivc_VersionCandidates ?c) = []"
    using AllVersions_inv(2) [OF assms(1)] assms(4) by (simp_all add: input_candidates_def cand)
  moreover have "distinct (map v_id vs)"
    using AllVersions_inv(1) [OF assms(1)] assms(4) by (auto simp: cands_inv_def versions_wf_def)
  moreover have "iter_list (VersionCandidates_VersionIDs (ivc_VersionCandidates ?c)) = vs"
    using vs by (simp add: iter_list_VersionIDs)
  ultimately have tv: "try_versions 1 0 0 [?c] ?c (VersionCandidates_VersionIDs (ivc_VersionCandidates ?c)) [] =
      (case every_pick (built db ic) vs of None \<Rightarrow> Unresolved | Some x \<Rightarrow> Resolved [(ic_Name ic, x)])"
    using try_every [of ?c "VersionCandidates_VersionIDs (ivc_VersionCandidates ?c)" 0 0]
    unfolding used name by simp
  obtain x where x: "every_pick (built db ic) vs = Some x" using every_pick_total [OF assms(5)] by blast
  have "reduce_from 1 0 0 [?c] [] = Resolved [(ic_Name ic, x)]"
  proof (cases "length vs = 1")
    case True
    then obtain v where "vs = [v]" by (auto simp: length_Suc_conv)
    then show ?thesis using reduce_single [of ?c v] vs x name by auto
  next
    case False
    then have "input_len ?c \<noteq> 1" using vs by (simp add: VersionCandidates_Len_def)
    then show ?thesis using tv x pin by (subst reduce_from.simps) simp
  qed
  then have "Reduce (Suc 1) 0 [?c] [] = Resolved [(ic_Name ic, x)]"
    by (simp only: Reduce.simps pruneToCommonBuilds_def prune_loop.simps)
  moreover have "\<not> VersionCandidates_IsEmpty (config_candidates db ic)"
    using assms(4,5) by (simp add: cand VersionCandidates_IsEmpty_def)
  ultimately have "InputConfigs_Resolve [ic] db = Resolved (mapping_loop db [ic] [(ic_Name ic, x)] [])"
    using assms(2) by (simp add: InputConfigs_Resolve_def every_config_def del: Reduce.simps mapping_loop.simps)
  moreover have "chosen (mapping_loop db [ic] [(ic_Name ic, x)] []) (ic_Name ic) = x"
    by (simp add: chosen_def Let_def)
  ultimately show ?thesis using x by blast
qed


definition every_sample :: InputConfig where
  "every_sample =
     \<lparr>ic_Name = ''image'', ic_JobName = ''deploy'', ic_Passed = [], ic_UseEveryVersion = True,
      ic_PinnedVersionID = 0, ic_ResourceID = 2, ic_JobID = 8\<rparr>"


section \<open>Pinned inputs\<close>

text \<open>
  A job (7) whose build 1 produced versions 1 and 11 of the two resources, and whose build 2 produced only
  version 2 of the first. The first input is pinned to version 2, both inputs have to have passed the job.
\<close>

definition pinned_db :: VersionsDB where
  "pinned_db =
     \<lparr>db_ResourceVersions = [],
      db_BuildOutputs =
        [\<lparr>rv_VersionID = 1, rv_ResourceID = 1, rv_CheckOrder = 1, bo_BuildID = 1, bo_JobID = 7\<rparr>,
         \<lparr>rv_VersionID = 2, rv_ResourceID = 1, rv_CheckOrder = 2, bo_BuildID = 2, bo_JobID = 7\<rparr>,
         \<lparr>rv_VersionID = 11, rv_ResourceID = 2, rv_CheckOrder = 1, bo_BuildID = 1, bo_JobID = 7\<rparr>],
      db_BuildInputs = [], db_JobIDs = [(''unit'', 7)], db_ResourceIDs = [(''a'', 1), (''b'', 2)]\<rparr>"

definition pinned_configs :: InputConfigs where
  "pinned_configs =
     [\<lparr>ic_Name = ''a'', ic_JobName = ''ship'', ic_Passed = [7], ic_UseEveryVersion = False,
       ic_PinnedVersionID = 2, ic_ResourceID = 1, ic_JobID = 8\<rparr>,
      \<lparr>ic_Name = ''b'', ic_JobName = ''ship'', ic_Passed = [7], ic_UseEveryVersion = False,
       ic_PinnedVersionID = 0, ic_ResourceID = 2, ic_JobID = 8\<rparr>]"


end
