(* ===== verification/Task_Config.thy ===== *)
theory Task_Config
  imports Go_Strings "HOL-Library.Sublist"
begin

text \<open>
  \<open>task.go\<close> and the opaque maps of \<open>resource_types.go\<close>: the configuration of a task, merging two
  configurations, and the validation of its inputs and outputs. \<open>interface{}\<close> is the datatype
  \<open>gvalue\<close>; an \<open>error\<close> is its message, and a nil error is \<open>None\<close>. The counters of \<open>pathCounter\<close> are
  association lists in the order in which paths were registered, which stands for the iteration order
  of the maps.
\<close>

section \<open>Definitions\<close>

datatype gvalue =
    VNil
  | VBool bool
  | VNumber string
  | VString string
  | VList "gvalue list"
  | VObject "(string \<times> gvalue) list"
  | VMap "(gvalue \<times> gvalue) list"

type_synonym Source = "(string \<times> gvalue) list"
type_synonym Params = "(string \<times> gvalue) list"

text \<open>A nil map of strings is \<open>None\<close>.\<close>

type_synonym AtcVersion = "(string \<times> string) list option"

record ImageResource =
  ir_Type :: string
  ir_Source :: Source
  ir_Params :: "Params option"
  ir_Version :: "AtcVersion option"

record TaskRunConfig =
  run_Path :: string
  run_Args :: "string list"
  run_Dir :: string
  run_User :: string

record TaskInputConfig =
  ti_Name :: string
  ti_Path :: string
  ti_Optional :: bool

record TaskOutputConfig =
  to_Name :: string
  to_Path :: string

record CacheConfig =
  cache_Path :: string

record TaskConfig =
  tc_Platform :: string
  tc_RootfsURI :: string
  tc_ImageResource :: "ImageResource option"
  tc_Params :: "(string \<times> string) list"
  tc_Run :: TaskRunConfig
  tc_Inputs :: "TaskInputConfig list"
  tc_Outputs :: "TaskOutputConfig list"
  tc_Caches :: "CacheConfig list"

text \<open>\<open>for k, v := range m { newParams[k] = v }\<close>\<close>

fun range_assign :: "('k \<times> 'v) list \<Rightarrow> ('k \<times> 'v) list \<Rightarrow> ('k \<times> 'v) list" where
  "range_assign [] newParams = newParams"
| "range_assign ((k, v) # m) newParams = range_assign m (AList.update k v newParams)"

definition TaskConfig_Merge :: "TaskConfig \<Rightarrow> TaskConfig \<Rightarrow> TaskConfig" where
  "TaskConfig_Merge config other =
     (let config = (if tc_Platform other \<noteq> [] then config\<lparr>tc_Platform := tc_Platform other\<rparr> else config);
          config = (if tc_RootfsURI other \<noteq> [] then config\<lparr>tc_RootfsURI := tc_RootfsURI other\<rparr> else config);
          config = (if length (tc_Params config) > 0
                    then config\<lparr>tc_Params := range_assign (tc_Params other) (range_assign (tc_Params config) [])\<rparr>
                    else config\<lparr>tc_Params := tc_Params other\<rparr>);
          config = (if length (tc_Inputs other) \<noteq> 0 then config\<lparr>tc_Inputs := tc_Inputs other\<rparr> else config);
          config = (if run_Path (tc_Run other) \<noteq> [] then config\<lparr>tc_Run := tc_Run other\<rparr> else config)
      in config)"

definition input_resolvePath :: "TaskInputConfig \<Rightarrow> string" where
  "input_resolvePath input = (if ti_Path input \<noteq> [] then ti_Path input else ti_Name input)"

definition output_resolvePath :: "TaskOutputConfig \<Rightarrow> string" where
  "output_resolvePath out = (if to_Path out \<noteq> [] then to_Path out else to_Name out)"

definition dot_slash :: string where
  "dot_slash = ''./''"

text \<open>The loops over inputs and outputs carry \<open>pathCount\<close> and \<open>dotPath\<close>.\<close>

fun dot_loop :: "string list \<Rightarrow> nat \<times> bool \<Rightarrow> nat \<times> bool" where
  "dot_loop [] acc = acc"
| "dot_loop (p # ps) (pathCount, dotPath) =
     (let path = strings_TrimPrefix p dot_slash
      in dot_loop ps (pathCount + 1, if path = ''.'' then True else dotPath))"

definition validateDotPath :: "TaskConfig \<Rightarrow> string list" where
  "validateDotPath config =
     (case dot_loop (map output_resolvePath (tc_Outputs config))
             (dot_loop (map input_resolvePath (tc_Inputs config)) (0, False)) of
        (pathCount, dotPath) \<Rightarrow>
          if pathCount > 1 \<and> dotPath
          then [''  you may not have more than one input or output when one of them has a path of '' @ quoted ''.'']
          else [])"

record pathCounter =
  pc_inputCount :: "(string \<times> nat) list"
  pc_outputCount :: "(string \<times> nat) list"

definition foundInBoth :: "pathCounter \<Rightarrow> string \<Rightarrow> bool" where
  "foundInBoth counter path \<longleftrightarrow>
     map_of (pc_inputCount counter) path \<noteq> None \<and> map_of (pc_outputCount counter) path \<noteq> None"

text \<open>The body shared by \<open>registerInput\<close> and \<open>registerOutput\<close>.\<close>

definition count_path :: "(string \<times> nat) list \<Rightarrow> string \<Rightarrow> (string \<times> nat) list" where
  "count_path m path =
     (case map_of m path of
        None \<Rightarrow> AList.update path 1 m
      | Some val \<Rightarrow> AList.update path (val + 1) m)"

definition registerInput :: "pathCounter \<Rightarrow> TaskInputConfig \<Rightarrow> pathCounter" where
  "registerInput counter input =
     counter\<lparr>pc_inputCount :=
       count_path (pc_inputCount counter) (strings_TrimPrefix (input_resolvePath input) dot_slash)\<rparr>"

definition registerOutput :: "pathCounter \<Rightarrow> TaskOutputConfig \<Rightarrow> pathCounter" where
  "registerOutput counter out =
     counter\<lparr>pc_outputCount :=
       count_path (pc_outputCount counter) (strings_TrimPrefix (output_resolvePath out) dot_slash)\<rparr>"

definition path_separator :: char where
  "path_separator = CHR 0x2F"

fun parts_loop :: "string list \<Rightarrow> string list \<Rightarrow> bool" where
  "parts_loop childParts [] = True"
| "parts_loop [] (part # parentParts) = False"
| "parts_loop (c # childParts) (part # parentParts) =
     (if c = part then parts_loop childParts parentParts else False)"

definition pathContains :: "string \<Rightarrow> string \<Rightarrow> bool" where
  "pathContains child parent =
     (if child = parent then False
      else let childParts = strings_Split child path_separator;
               parentParts = strings_Split parent path_separator
           in if length childParts < length parentParts then False
              else parts_loop childParts parentParts)"

definition duplicate_message :: "string \<Rightarrow> string \<Rightarrow> string" where
  "duplicate_message what path = ''  cannot have more than one '' @ what @ '' using the same path '' @ quoted path"

definition nested_messages :: "string \<Rightarrow> string \<Rightarrow> string \<Rightarrow> (string \<times> nat) list \<Rightarrow> string list" where
  "nested_messages start mid path candidates =
     map (\<lambda>(parent, _). start @ quoted path @ mid @ quoted parent)
       (filter (\<lambda>(parent, _). pathContains path parent) candidates)"

definition input_path_messages :: "pathCounter \<Rightarrow> string \<Rightarrow> nat \<Rightarrow> string list" where
  "input_path_messages counter path numOccurrences =
     (if numOccurrences > 1 then [duplicate_message ''input'' path] else []) @
     (if foundInBoth counter path then [''  cannot have an input and output using the same path '' @ quoted path] else []) @
     nested_messages ''  cannot nest inputs: '' '' is nested under input directory '' path (pc_inputCount counter) @
     nested_messages ''  cannot nest inputs within outputs: '' '' is nested under output directory '' path (pc_outputCount counter)"

definition output_path_messages :: "pathCounter \<Rightarrow> string \<Rightarrow> nat \<Rightarrow> string list" where
  "output_path_messages counter path numOccurrences =
     (if numOccurrences > 1 then [duplicate_message ''output'' path] else []) @
     nested_messages ''  cannot nest outputs: '' '' is nested under output directory '' path (pc_outputCount counter) @
     nested_messages ''  cannot nest outputs within inputs: '' '' is nested under input directory '' path (pc_inputCount counter)"

definition getErrorMessages :: "pathCounter \<Rightarrow> string list" where
  "getErrorMessages counter =
     concat (map (\<lambda>(path, n). input_path_messages counter path n) (pc_inputCount counter)) @
     concat (map (\<lambda>(path, n). output_path_messages counter path n) (pc_outputCount counter))"

definition countInputOutputPaths :: "TaskConfig \<Rightarrow> pathCounter" where
  "countInputOutputPaths config =
     foldl registerOutput
       (foldl registerInput \<lparr>pc_inputCount = [], pc_outputCount = []\<rparr> (tc_Inputs config)) (tc_Outputs config)"

definition validateOverlappingPaths :: "TaskConfig \<Rightarrow> string list" where
  "validateOverlappingPaths config = getErrorMessages (countInputOutputPaths config)"

fun missing_name_loop :: "string \<Rightarrow> nat \<Rightarrow> string list \<Rightarrow> string list" where
  "missing_name_loop what i [] = []"
| "missing_name_loop what i (name # names) =
     (if name = [] then [''  '' @ what @ '' in position '' @ itoa (int i) @ '' is missing a name''] else []) @
     missing_name_loop what (i + 1) names"

definition validateInputContainsNames :: "TaskConfig \<Rightarrow> string list" where
  "validateInputContainsNames config = missing_name_loop ''input'' 0 (map ti_Name (tc_Inputs config))"

definition validateOutputContainsNames :: "TaskConfig \<Rightarrow> string list" where
  "validateOutputContainsNames config = missing_name_loop ''output'' 0 (map to_Name (tc_Outputs config))"

definition validateInputsAndOutputs :: "TaskConfig \<Rightarrow> string list" where
  "validateInputsAndOutputs config =
     validateInputContainsNames config @ validateOutputContainsNames config @
     validateDotPath config @ validateOverlappingPaths config"

definition TaskConfig_Validate :: "TaskConfig \<Rightarrow> string option" where
  "TaskConfig_Validate config =
     (let messages =
        (if tc_Platform config = [] then [''  missing '' @ quoted ''platform''] else []) @
        (if run_Path (tc_Run config) = [] then [''  missing path to executable to run''] else []) @
        validateInputsAndOutputs config
      in if length messages > 0
         then Some (''invalid task configuration:'' @ newline @ strings_Join messages newline)
         else None)"

text \<open>
  \<open>NewTaskConfig\<close> over the YAML parser and the \<open>mapstructure\<close> decoder, which are third-party packages:
  \<open>unmarshal\<close> gives the untyped document, \<open>decode\<close> the typed configuration and the unused keys.
\<close>

definition NewTaskConfig ::
    "(string \<Rightarrow> string + 'doc) \<Rightarrow> ('doc \<Rightarrow> string + TaskConfig \<times> string list) \<Rightarrow> string \<Rightarrow> string + TaskConfig" where
  "NewTaskConfig unmarshal decode configBytes =
     (case unmarshal configBytes of
        Inl err \<Rightarrow> Inl err
      | Inr untypedInput \<Rightarrow>
          (case decode untypedInput of
             Inl err \<Rightarrow> Inl err
           | Inr (config, unused) \<Rightarrow>
               if length unused > 0
               then Inl (''extra keys in the task configuration: '' @ strings_Join unused '', '')
               else (case TaskConfig_Validate config of
                       Some err \<Rightarrow> Inl err
                     | None \<Rightarrow> Inr config)))"

section \<open>Merging\<close>

lemma map_of_range_assign [simp, go_map]: "map_of (range_assign m n) = map_of n ++ map_of (rev m)"
  by (induction m n rule: range_assign.induct) (auto simp: map_add_def fun_eq_iff split: option.split)

lemma map_of_rev: "distinct (map fst m) \<Longrightarrow> map_of (rev m) = map_of m"
  by (simp add: map_of_inject_set rev_map [symmetric])

text \<open>
  Merging a task step's overrides into a task file: non-empty platform, rootfs, inputs and run path of
  the override replace those of the file, each parameter of the override wins over the file's, and nothing
  else (outputs, caches, image resource) is taken from the override.
\<close>

theorem Merge_overrides:
  assumes "distinct (map fst (tc_Params config))" and "distinct (map fst (tc_Params other))"
  shows "map_of (tc_Params (TaskConfig_Merge config other)) = map_of (tc_Params config) ++ map_of (tc_Params other) \<and>
    TaskConfig_Merge config other = config\<lparr>
      tc_Platform := (if tc_Platform other = [] then tc_Platform config else tc_Platform other),
      tc_RootfsURI := (if tc_RootfsURI other = [] then tc_RootfsURI config else tc_RootfsURI other),
      tc_Params := tc_Params (TaskConfig_Merge config other),
      tc_Inputs := (if tc_Inputs other = [] then tc_Inputs config else tc_Inputs other),
      tc_Run := (if run_Path (tc_Run other) = [] then tc_Run config else tc_Run other)\<rparr>"
  using assms by (cases config) (simp add: TaskConfig_Merge_def Let_def map_of_rev)

definition sample_run :: TaskRunConfig where
  "sample_run = \<lparr>run_Path = ''make'', run_Args = [''test''], run_Dir = [], run_User = []\<rparr>"

definition sample_task :: TaskConfig where
  "sample_task =
     \<lparr>tc_Platform = ''linux'', tc_RootfsURI = [], tc_ImageResource = None,
      tc_Params = [(''GOOS'', ''linux''), (''DEBUG'', [])], tc_Run = sample_run,
      tc_Inputs = [\<lparr>ti_Name = ''src'', ti_Path = ''./go/src'', ti_Optional = False\<rparr>],
      tc_Outputs = [\<lparr>to_Name = ''bin'', to_Path = ''go/bin''\<rparr>], tc_Caches = []\<rparr>"

theorem Merge_overrides_witness:
  "map_of (tc_Params (TaskConfig_Merge sample_task (sample_task\<lparr>tc_Params := [(''DEBUG'', ''1'')]\<rparr>))) ''DEBUG'' = Some ''1''"
  using Merge_overrides [of sample_task "sample_task\<lparr>tc_Params := [(''DEBUG'', ''1'')]\<rparr>"]
  by (simp add: sample_task_def)

section \<open>Paths\<close>

lemma parts_loop_prefix: "parts_loop cs ps \<longleftrightarrow> prefix ps cs"
  by (induction cs ps rule: parts_loop.induct) auto

lemma split_inject: "strings_Split a sep = strings_Split b sep \<longleftrightarrow> a = b"
  by (metis strings_Join_Split)

text \<open>A path contains another when its components extend the components of the other.\<close>

lemma pathContains_iff:
  "pathContains child parent \<longleftrightarrow>
     strict_prefix (strings_Split parent path_separator) (strings_Split child path_separator)"
  by (auto simp: pathContains_def Let_def parts_loop_prefix strict_prefix_def split_inject
      dest: prefix_length_le)

definition task_paths :: "TaskConfig \<Rightarrow> string list" where
  "task_paths config =
     map (\<lambda>i. strings_TrimPrefix (input_resolvePath i) dot_slash) (tc_Inputs config) @
     map (\<lambda>x. strings_TrimPrefix (output_resolvePath x) dot_slash) (tc_Outputs config)"

text \<open>What a task configuration has to look like.\<close>

definition valid_task :: "TaskConfig \<Rightarrow> bool" where
  "valid_task config \<longleftrightarrow>
     tc_Platform config \<noteq> [] \<and> run_Path (tc_Run config) \<noteq> [] \<and>
     (\<forall>i \<in> set (tc_Inputs config). ti_Name i \<noteq> []) \<and> (\<forall>x \<in> set (tc_Outputs config). to_Name x \<noteq> []) \<and>
     (length (task_paths config) > 1 \<longrightarrow> ''.'' \<notin> set (task_paths config)) \<and>
     distinct (task_paths config) \<and>
     (\<forall>p \<in> set (task_paths config). \<forall>q \<in> set (task_paths config).
        \<not> strict_prefix (strings_Split p path_separator) (strings_Split q path_separator))"

lemma map_of_count_path:
  "map_of (count_path m p) = (map_of m)(p \<mapsto> (case map_of m p of None \<Rightarrow> 1 | Some n \<Rightarrow> n + 1))"
  by (auto simp: count_path_def split: option.split)

lemma distinct_count_path: "distinct (map fst m) \<Longrightarrow> distinct (map fst (count_path m p))"
  by (auto simp: count_path_def distinct_update split: option.split)

lemma count_fold:
  "distinct (map fst m) \<Longrightarrow> distinct (map fst (foldl count_path m ps)) \<and>
   map_of (foldl count_path m ps) p =
     (case map_of m p of
        None \<Rightarrow> if p \<in> set ps then Some (count_list ps p) else None
      | Some n \<Rightarrow> Some (n + count_list ps p))"
proof (induction ps arbitrary: m)
  case (Cons q ps)
  have "distinct (map fst (count_path m q))" using Cons.prems by (rule distinct_count_path)
  from Cons.IH [OF this] show ?case
    using count_notin [of p ps] by (auto simp: map_of_count_path split: option.splits)
qed (auto split: option.split)

lemma counter_paths:
  "countInputOutputPaths config =
     \<lparr>pc_inputCount = foldl count_path [] (map (\<lambda>i. strings_TrimPrefix (input_resolvePath i) dot_slash) (tc_Inputs config)),
      pc_outputCount = foldl count_path [] (map (\<lambda>x. strings_TrimPrefix (output_resolvePath x) dot_slash) (tc_Outputs config))\<rparr>"
proof -
  have "foldl registerInput c is = c\<lparr>pc_inputCount :=
      foldl count_path (pc_inputCount c) (map (\<lambda>i. strings_TrimPrefix (input_resolvePath i) dot_slash) is)\<rparr>" for c "is"
    by (induction "is" arbitrary: c) (auto simp: registerInput_def)
  moreover have "foldl registerOutput c os = c\<lparr>pc_outputCount :=
      foldl count_path (pc_outputCount c) (map (\<lambda>x. strings_TrimPrefix (output_resolvePath x) dot_slash) os)\<rparr>" for c os
    by (induction os arbitrary: c) (auto simp: registerOutput_def)
  ultimately show ?thesis by (simp add: countInputOutputPaths_def)
qed

lemma nested_Nil:
  "nested_messages start mid path cs = [] \<longleftrightarrow> (\<forall>parent \<in> fst ` set cs. \<not> pathContains path parent)"
  by (auto simp: nested_messages_def filter_empty_conv)

lemma missing_name_Nil: "missing_name_loop what i names = [] \<longleftrightarrow> (\<forall>name \<in> set names. name \<noteq> [])"
  by (induction what i names rule: missing_name_loop.induct) auto

lemma dot_loop_spec:
  "dot_loop ps (n, d) = (n + length ps, d \<or> ''.'' \<in> set (map (\<lambda>p. strings_TrimPrefix p dot_slash) ps))"
  by (induction ps "(n, d)" arbitrary: n d rule: dot_loop.induct) (auto simp: Let_def)

lemma set_counts: "set (foldl count_path [] ps) = (\<lambda>p. (p, count_list ps p)) ` set ps"
proof -
  have "distinct (map fst (foldl count_path [] ps))" using count_fold [of "[]" ps] by simp
  moreover have "map_of (foldl count_path [] ps) p = (if p \<in> set ps then Some (count_list ps p) else None)" for p
    using count_fold [of "[]" ps p] by simp
  ultimately have "(p, n) \<in> set (foldl count_path [] ps) \<longleftrightarrow> p \<in> set ps \<and> n = count_list ps p" for p n
    using map_of_eq_Some_iff [of "foldl count_path [] ps" p n] by (auto split: if_splits)
  then show ?thesis by auto
qed

lemma distinct_count_list: "distinct xs \<longleftrightarrow> (\<forall>x \<in> set xs. \<not> count_list xs x > 1)"
  by (induction xs) (auto simp: count_list_0_iff split: if_splits)

lemma overlapping_Nil:
  "validateOverlappingPaths config = [] \<longleftrightarrow>
     distinct (task_paths config) \<and>
     (\<forall>p \<in> set (task_paths config). \<forall>q \<in> set (task_paths config). \<not> pathContains p q)"
proof -
  define I where "I = map (\<lambda>i. strings_TrimPrefix (input_resolvePath i) dot_slash) (tc_Inputs config)"
  define X where "X = map (\<lambda>x. strings_TrimPrefix (output_resolvePath x) dot_slash) (tc_Outputs config)"
  let ?c = "\<lparr>pc_inputCount = foldl count_path [] I, pc_outputCount = foldl count_path [] X\<rparr>"
  have keys: "fst ` set (foldl count_path [] ps) = set ps" for ps by (simp add: set_counts image_image)
  have both: "foundInBoth ?c p \<longleftrightarrow> p \<in> set I \<and> p \<in> set X" for p
    using count_fold [of "[]" I p] count_fold [of "[]" X p] by (auto simp: foundInBoth_def split: if_splits)
  have "validateOverlappingPaths config = [] \<longleftrightarrow>
      (\<forall>p \<in> set I. input_path_messages ?c p (count_list I p) = []) \<and>
      (\<forall>p \<in> set X. output_path_messages ?c p (count_list X p) = [])"
    by (simp add: validateOverlappingPaths_def counter_paths I_def [symmetric] X_def [symmetric]
        getErrorMessages_def set_counts)
  moreover have "input_path_messages ?c p (count_list I p) = [] \<longleftrightarrow>
      \<not> count_list I p > 1 \<and> p \<notin> set X \<and> (\<forall>q \<in> set I \<union> set X. \<not> pathContains p q)" if "p \<in> set I" for p
    using that by (auto simp: input_path_messages_def both nested_Nil keys)
  moreover have "output_path_messages ?c p (count_list X p) = [] \<longleftrightarrow>
      \<not> count_list X p > 1 \<and> (\<forall>q \<in> set I \<union> set X. \<not> pathContains p q)" for p
    by (auto simp: output_path_messages_def nested_Nil keys)
  moreover have "task_paths config = I @ X" by (simp add: task_paths_def I_def X_def)
  ultimately show ?thesis by (simp add: distinct_count_list [of I] distinct_count_list [of X]) blast
qed

lemma dot_Nil: "validateDotPath config = [] \<longleftrightarrow> (length (task_paths config) > 1 \<longrightarrow> ''.'' \<notin> set (task_paths config))"
  by (auto simp: validateDotPath_def dot_loop_spec task_paths_def)

lemma Validate_None: "TaskConfig_Validate config = None \<longleftrightarrow> valid_task config"
proof -
  have "validateInputsAndOutputs config = [] \<longleftrightarrow>
      (\<forall>i \<in> set (tc_Inputs config). ti_Name i \<noteq> []) \<and> (\<forall>x \<in> set (tc_Outputs config). to_Name x \<noteq> []) \<and>
      validateDotPath config = [] \<and> validateOverlappingPaths config = []"
    by (simp add: validateInputsAndOutputs_def validateInputContainsNames_def validateOutputContainsNames_def
        missing_name_Nil)
  then show ?thesis
    by (auto simp: TaskConfig_Validate_def Let_def overlapping_Nil dot_Nil pathContains_iff valid_task_def)
qed

text \<open>
  C9. Task validation is exact: \<open>TaskConfig.Validate\<close> accepts a configuration exactly when platform and run
  path are given, all inputs and outputs are named, their paths (the name where none is given, a leading
  "./" dropped) are pairwise different and none is a directory above another, and a path "." is the only one.
\<close>

theorem Validate_task_iff: "TaskConfig_Validate config = None \<longleftrightarrow> valid_task config"
  by (rule Validate_None)

text \<open>A task configuration file that is accepted is valid, whatever the YAML parser and the decoder do.\<close>

lemma NewTaskConfig_valid:
  assumes "NewTaskConfig unmarshal decode configBytes = Inr config"
  shows "valid_task config" and "\<exists>doc. unmarshal configBytes = Inr doc \<and> decode doc = Inr (config, [])"
  using assms by (auto simp: NewTaskConfig_def Validate_None split: sum.splits option.splits if_splits)

end
