(* ===== verification/Config_Data.thy ===== *)
theory Config_Data
  imports Task_Config
begin

text \<open>
  \<open>config.go\<close> and \<open>job_config.go\<close>: the configuration of a pipeline. \<open>PlanConfig\<close> is a struct that
  points to further plan configs, so it is a datatype with one selector per field; a nil pointer is
  \<open>None\<close>. The other structs are records. The four \<open>Lookup\<close> methods share the contract \<open>named_lookup\<close>.
\<close>

section \<open>Data\<close>

type_synonym Tags = "string list"

record GroupConfig =
  group_Name :: string
  group_Jobs :: "string list"
  group_Resources :: "string list"

record ResourceConfig =
  resource_Name :: string
  resource_WebhookToken :: string
  resource_Type :: string
  resource_Source :: Source
  resource_CheckEvery :: string
  resource_Tags :: Tags

record ResourceType =
  rt_Name :: string
  rt_Type :: string
  rt_Source :: Source
  rt_Privileged :: bool
  rt_Tags :: Tags
  rt_Params :: Params

record VersionConfig =
  vcfg_Every :: bool
  vcfg_Latest :: bool
  vcfg_Pinned :: AtcVersion

datatype PlanConfig = PlanConfig
  (plan_RawName: string)
  (plan_Do: "PlanConfig list option")
  (plan_Aggregate: "PlanConfig list option")
  (plan_Get: string)
  (plan_Passed: "string list")
  (plan_Trigger: bool)
  (plan_Put: string)
  (plan_Resource: string)
  (plan_Task: string)
  (plan_Privileged: bool)
  (plan_TaskConfigPath: string)
  (plan_TaskConfig: "TaskConfig option")
  (plan_Params: Params)
  (plan_InputMapping: "(string \<times> string) list")
  (plan_OutputMapping: "(string \<times> string) list")
  (plan_ImageArtifactName: string)
  (plan_GetParams: Params)
  (plan_Tags: Tags)
  (plan_Abort: "PlanConfig option")
  (plan_Failure: "PlanConfig option")
  (plan_Ensure: "PlanConfig option")
  (plan_Success: "PlanConfig option")
  (plan_Try: "PlanConfig option")
  (plan_Timeout: string)
  (plan_DependentGet: string)
  (plan_Attempts: int)
  (plan_Version: "VersionConfig option")

type_synonym PlanSequence = "PlanConfig list"

record Hooks =
  hook_Abort :: "PlanConfig option"
  hook_Failure :: "PlanConfig option"
  hook_Ensure :: "PlanConfig option"
  hook_Success :: "PlanConfig option"

record JobConfig =
  job_Name :: string
  job_Public :: bool
  job_DisableManualTrigger :: bool
  job_Serial :: bool
  job_Interruptible :: bool
  job_SerialGroups :: "string list"
  job_RawMaxInFlight :: int
  job_BuildLogsToRetain :: int
  job_Plan :: PlanSequence
  job_Abort :: "PlanConfig option"
  job_Failure :: "PlanConfig option"
  job_Ensure :: "PlanConfig option"
  job_Success :: "PlanConfig option"

record JobInput =
  ji_Name :: string
  ji_Resource :: string
  ji_Passed :: "string list"
  ji_Trigger :: bool
  ji_Version :: "VersionConfig option"
  ji_Params :: Params
  ji_Tags :: Tags

record JobOutput =
  jo_Name :: string
  jo_Resource :: string

record Config =
  cfg_Groups :: "GroupConfig list"
  cfg_Resources :: "ResourceConfig list"
  cfg_ResourceTypes :: "ResourceType list"
  cfg_Jobs :: "JobConfig list"

lemma plan_size:
  "plan_Abort p = Some q \<Longrightarrow> size q < size p" "plan_Failure p = Some q \<Longrightarrow> size q < size p"
  "plan_Ensure p = Some q \<Longrightarrow> size q < size p" "plan_Success p = Some q \<Longrightarrow> size q < size p"
  "plan_Try p = Some q \<Longrightarrow> size q < size p"
  by (cases p; simp)+

lemma plan_size_list:
  assumes "q \<in> set qs"
  shows "plan_Do p = Some qs \<Longrightarrow> size q < size p" and "plan_Aggregate p = Some qs \<Longrightarrow> size q < size p"
proof -
  have "size q \<le> size_list size qs" using size_list_estimation' [OF assms order_refl] .
  then show "plan_Do p = Some qs \<Longrightarrow> size q < size p" "plan_Aggregate p = Some qs \<Longrightarrow> size q < size p"
    by (cases p; simp)+
qed

section \<open>Lookup by name\<close>

fun GroupConfigs_Lookup :: "GroupConfig list \<Rightarrow> string \<Rightarrow> GroupConfig option" where
  "GroupConfigs_Lookup [] name = None"
| "GroupConfigs_Lookup (g # groups) name =
     (if group_Name g = name then Some g else GroupConfigs_Lookup groups name)"

fun ResourceTypes_Lookup :: "ResourceType list \<Rightarrow> string \<Rightarrow> ResourceType option" where
  "ResourceTypes_Lookup [] name = None"
| "ResourceTypes_Lookup (t # types) name = (if rt_Name t = name then Some t else ResourceTypes_Lookup types name)"

fun ResourceTypes_Without :: "ResourceType list \<Rightarrow> string \<Rightarrow> ResourceType list" where
  "ResourceTypes_Without [] name = []"
| "ResourceTypes_Without (t # types) name =
     (if rt_Name t \<noteq> name then t # ResourceTypes_Without types name else ResourceTypes_Without types name)"

fun ResourceConfigs_Lookup :: "ResourceConfig list \<Rightarrow> string \<Rightarrow> ResourceConfig option" where
  "ResourceConfigs_Lookup [] name = None"
| "ResourceConfigs_Lookup (resource # resources) name =
     (if resource_Name resource = name then Some resource else ResourceConfigs_Lookup resources name)"

fun JobConfigs_Lookup :: "JobConfig list \<Rightarrow> string \<Rightarrow> JobConfig option" where
  "JobConfigs_Lookup [] name = None"
| "JobConfigs_Lookup (job # jobs) name = (if job_Name job = name then Some job else JobConfigs_Lookup jobs name)"

definition JobIsPublic :: "Config \<Rightarrow> string \<Rightarrow> string + bool" where
  "JobIsPublic config jobName =
     (case JobConfigs_Lookup (cfg_Jobs config) jobName of
        None \<Rightarrow> Inl (''cannot find job with job name '' @ quoted jobName)
      | Some job \<Rightarrow> Inr (job_Public job))"

text \<open>A \<open>Lookup\<close> finds the first element with the name.\<close>

locale named_lookup =
  fixes name_of :: "'a \<Rightarrow> string" and lookup :: "'a list \<Rightarrow> string \<Rightarrow> 'a option"
  assumes lookup_Nil: "lookup [] n = None"
    and lookup_Cons: "lookup (x # xs) n = (if name_of x = n then Some x else lookup xs n)"
begin

lemma lookup_eq_find: "lookup xs n = find (\<lambda>x. name_of x = n) xs"
  by (induction xs) (auto simp: lookup_Nil lookup_Cons)

lemma lookup_Some: "lookup xs n = Some x \<Longrightarrow> x \<in> set xs \<and> name_of x = n"
  by (auto simp: lookup_eq_find find_Some_iff)

lemma lookup_None: "lookup xs n = None \<longleftrightarrow> n \<notin> name_of ` set xs"
  by (auto simp: lookup_eq_find find_None_iff)

lemma lookup_distinct: "distinct (map name_of xs) \<Longrightarrow> lookup xs n = Some x \<longleftrightarrow> x \<in> set xs \<and> name_of x = n"
  by (induction xs) (auto simp: lookup_Nil lookup_Cons)

end

interpretation groups: named_lookup group_Name GroupConfigs_Lookup
  by unfold_locales simp_all

interpretation resources: named_lookup resource_Name ResourceConfigs_Lookup
  by unfold_locales simp_all

interpretation resource_types: named_lookup rt_Name ResourceTypes_Lookup
  by unfold_locales simp_all

interpretation jobs: named_lookup job_Name JobConfigs_Lookup
  by unfold_locales simp_all

lemma Without_Lookup:
  "ResourceTypes_Lookup (ResourceTypes_Without types name) n =
     (if n = name then None else ResourceTypes_Lookup types n)"
  by (induction types) auto

section \<open>Versions of a get step\<close>

definition VersionLatest :: string where "VersionLatest = ''latest''"
definition VersionEvery :: string where "VersionEvery = ''every''"

fun pinned_json_loop :: "(string \<times> gvalue) list \<Rightarrow> (string \<times> string) list \<Rightarrow> (string \<times> string) list" where
  "pinned_json_loop [] version = version"
| "pinned_json_loop ((k, v) # actual) version =
     pinned_json_loop actual
       (case v of VString s \<Rightarrow> AList.update k (strings_TrimSpace s) version | _ \<Rightarrow> version)"

text \<open>The argument is the outcome of \<open>json.Unmarshal\<close>: an error or the decoded value.\<close>

definition VersionConfig_UnmarshalJSON :: "string + gvalue \<Rightarrow> VersionConfig \<Rightarrow> string + VersionConfig" where
  "VersionConfig_UnmarshalJSON decoded c =
     (case decoded of
        Inl err \<Rightarrow> Inl err
      | Inr (VString actual) \<Rightarrow> Inr (c\<lparr>vcfg_Every := (actual = ''every''), vcfg_Latest := (actual = ''latest'')\<rparr>)
      | Inr (VObject actual) \<Rightarrow> Inr (c\<lparr>vcfg_Pinned := Some (pinned_json_loop actual [])\<rparr>)
      | Inr _ \<Rightarrow> Inl ''unknown type for version'')"

fun pinned_yaml_loop :: "(gvalue \<times> gvalue) list \<Rightarrow> (string \<times> string) list \<Rightarrow> (string \<times> string) list" where
  "pinned_yaml_loop [] version = version"
| "pinned_yaml_loop ((k, v) # actual) version =
     pinned_yaml_loop actual
       (case (k, v) of
          (VString ks, VString vs) \<Rightarrow> AList.update ks (strings_TrimSpace vs) version
        | _ \<Rightarrow> version)"

definition VersionConfig_UnmarshalYAML :: "string + gvalue \<Rightarrow> VersionConfig \<Rightarrow> string + VersionConfig" where
  "VersionConfig_UnmarshalYAML decoded c =
     (case decoded of
        Inl err \<Rightarrow> Inl err
      | Inr (VString actual) \<Rightarrow> Inr (c\<lparr>vcfg_Every := (actual = ''every''), vcfg_Latest := (actual = ''latest'')\<rparr>)
      | Inr (VMap actual) \<Rightarrow> Inr (c\<lparr>vcfg_Pinned := Some (pinned_yaml_loop actual [])\<rparr>)
      | Inr _ \<Rightarrow> Inl ''unknown type for version'')"

definition string_object :: "(string \<times> string) list \<Rightarrow> gvalue" where
  "string_object m = VObject (map (\<lambda>(k, v). (k, VString v)) m)"

text \<open>The values handed to the encoders.\<close>

definition VersionConfig_MarshalYAML :: "VersionConfig \<Rightarrow> gvalue" where
  "VersionConfig_MarshalYAML c =
     (if vcfg_Latest c then VString VersionLatest
      else if vcfg_Every c then VString VersionEvery
      else case vcfg_Pinned c of Some version \<Rightarrow> string_object version | None \<Rightarrow> VNil)"

definition VersionConfig_MarshalJSON :: "VersionConfig \<Rightarrow> gvalue" where
  "VersionConfig_MarshalJSON c =
     (if vcfg_Latest c then VString VersionLatest
      else if vcfg_Every c then VString VersionEvery
      else case vcfg_Pinned c of Some version \<Rightarrow> string_object version | None \<Rightarrow> VString [])"

definition zero_version_config :: VersionConfig where
  "zero_version_config = \<lparr>vcfg_Every = False, vcfg_Latest = False, vcfg_Pinned = None\<rparr>"

lemma dropWhile_idem: "dropWhile P (dropWhile P xs) = dropWhile P xs"
  by (induction xs) auto

lemma TrimSpace_idem [simp, go_str]: "strings_TrimSpace (strings_TrimSpace s) = strings_TrimSpace s"
proof -
  let ?t = "dropWhile is_space s"
  let ?u = "rev (dropWhile is_space (rev ?t))"
  have "dropWhile is_space ?u = ?u"
  proof (cases ?u)
    case (Cons c cs)
    have "?u \<noteq> []" using Cons by simp
    obtain ys where "?t = ?u @ ys" by (metis dropWhile_eq_drop rev_drop rev_rev_ident append_take_drop_id)
    then have "hd ?t = c" "?t \<noteq> []" using Cons by auto
    then have "\<not> is_space c" using hd_dropWhile by force
    then show ?thesis using Cons by simp
  next
    case Nil
    then show ?thesis by (simp only: dropWhile.simps)
  qed
  then show ?thesis by (simp add: strings_TrimSpace_def dropWhile_idem)
qed

definition trimmed :: "(string \<times> string) list \<Rightarrow> bool" where
  "trimmed m \<longleftrightarrow> distinct (map fst m) \<and> (\<forall>(k, v) \<in> set m. strings_TrimSpace v = v)"

lemma set_update_sub: "set (AList.update k v m) \<subseteq> insert (k, v) (set m)"
  by (induction m) auto

lemma trimmed_update: "trimmed m \<Longrightarrow> trimmed (AList.update k (strings_TrimSpace v) m)"
  using set_update_sub [of k "strings_TrimSpace v" m] by (auto simp: trimmed_def distinct_update)

lemma trimmed_json: "trimmed m \<Longrightarrow> trimmed (pinned_json_loop actual m)"
  by (induction actual m rule: pinned_json_loop.induct) (auto simp: trimmed_update split: gvalue.split)

lemma update_nonkey: "k \<notin> fst ` set m \<Longrightarrow> AList.update k v m = m @ [(k, v)]"
  by (induction m) auto

lemma pinned_again:
  "trimmed (n @ m) \<Longrightarrow> pinned_json_loop (map (\<lambda>(k, v). (k, VString v)) m) n = n @ m"
proof (induction m arbitrary: n)
  case (Cons p m)
  obtain k v where p: "p = (k, v)" by fastforce
  then have "strings_TrimSpace v = v" "AList.update k v n = n @ [(k, v)]"
    using Cons.prems by (auto simp: trimmed_def update_nonkey)
  then show ?case using Cons.IH [of "n @ [(k, v)]"] Cons.prems by (simp add: p)
qed simp

text \<open>
  C10. The version of a get step survives being stored: a \<open>VersionConfig\<close> read from JSON, written by
  \<open>MarshalJSON\<close> and read again is the same config.
\<close>

theorem VersionConfig_roundtrip:
  assumes "VersionConfig_UnmarshalJSON decoded zero_version_config = Inr c"
  shows "VersionConfig_UnmarshalJSON (Inr (VersionConfig_MarshalJSON c)) zero_version_config = Inr c"
proof -
  have "trimmed (pinned_json_loop actual [])" for actual
    by (rule trimmed_json) (simp add: trimmed_def)
  then have "pinned_json_loop (map (\<lambda>(k, v). (k, VString v)) (pinned_json_loop actual [])) [] =
      pinned_json_loop actual []" for actual
    using pinned_again [of "[]"] by simp
  then show ?thesis using assms
    by (auto simp: VersionConfig_UnmarshalJSON_def VersionConfig_MarshalJSON_def zero_version_config_def
        VersionLatest_def VersionEvery_def string_object_def split: sum.splits gvalue.splits)
qed

theorem VersionConfig_roundtrip_witness:
  "VersionConfig_UnmarshalJSON (Inr (VersionConfig_MarshalJSON
     (zero_version_config\<lparr>vcfg_Pinned := Some [(''ref'', ''abc'')]\<rparr>))) zero_version_config =
   Inr (zero_version_config\<lparr>vcfg_Pinned := Some [(''ref'', ''abc'')]\<rparr>)"
  by (rule VersionConfig_roundtrip [of "Inr (VObject [(''ref'', VString '' abc''), (''n'', VNumber ''1'')])"])
    code_simp

section \<open>Plans\<close>

definition PlanConfig_Name :: "PlanConfig \<Rightarrow> string" where
  "PlanConfig_Name config =
     (if plan_RawName config \<noteq> [] then plan_RawName config
      else if plan_Get config \<noteq> [] then plan_Get config
      else if plan_Put config \<noteq> [] then plan_Put config
      else if plan_Task config \<noteq> [] then plan_Task config
      else [])"

text \<open>\<open>None\<close> is the panic "no resource name!".\<close>

definition PlanConfig_ResourceName :: "PlanConfig \<Rightarrow> string option" where
  "PlanConfig_ResourceName config =
     (if plan_Resource config \<noteq> [] then Some (plan_Resource config)
      else if plan_Get config \<noteq> [] then Some (plan_Get config)
      else if plan_Put config \<noteq> [] then Some (plan_Put config)
      else None)"

definition PlanConfig_Hooks :: "PlanConfig \<Rightarrow> Hooks" where
  "PlanConfig_Hooks config =
     \<lparr>hook_Abort = plan_Abort config, hook_Failure = plan_Failure config, hook_Ensure = plan_Ensure config,
      hook_Success = plan_Success config\<rparr>"

definition JobConfig_Hooks :: "JobConfig \<Rightarrow> Hooks" where
  "JobConfig_Hooks config =
     \<lparr>hook_Abort = job_Abort config, hook_Failure = job_Failure config, hook_Ensure = job_Ensure config,
      hook_Success = job_Success config\<rparr>"

definition MaxInFlight :: "JobConfig \<Rightarrow> int" where
  "MaxInFlight config =
     (if job_Serial config \<or> length (job_SerialGroups config) > 0 then 1
      else if job_RawMaxInFlight config \<noteq> 0 then job_RawMaxInFlight config
      else 0)"

definition GetSerialGroups :: "JobConfig \<Rightarrow> string list" where
  "GetSerialGroups config =
     (if length (job_SerialGroups config) > 0 then job_SerialGroups config
      else if job_Serial config \<or> job_RawMaxInFlight config > 0 then [job_Name config]
      else [])"

text \<open>\<open>PlanConfig{Do: &plan, Abort: ..., Failure: ..., Ensure: ..., Success: ...}\<close>\<close>

definition do_config :: "PlanSequence \<Rightarrow> Hooks \<Rightarrow> PlanConfig" where
  "do_config ps hooks =
     PlanConfig [] (Some ps) None [] [] False [] [] [] False [] None [] [] [] [] [] []
       (hook_Abort hooks) (hook_Failure hooks) (hook_Ensure hooks) (hook_Success hooks) None [] [] 0 None"

lemma do_config_simps [simp]:
  "plan_Do (do_config ps h) = Some ps" "plan_Aggregate (do_config ps h) = None" "plan_Get (do_config ps h) = []"
  "plan_Put (do_config ps h) = []" "plan_Task (do_config ps h) = []" "plan_Try (do_config ps h) = None"
  "plan_Abort (do_config ps h) = hook_Abort h" "plan_Failure (do_config ps h) = hook_Failure h"
  "plan_Ensure (do_config ps h) = hook_Ensure h" "plan_Success (do_config ps h) = hook_Success h"
  "plan_Timeout (do_config ps h) = []" "plan_Attempts (do_config ps h) = 0"
  by (simp_all add: do_config_def)

function collectPlans :: "PlanConfig \<Rightarrow> PlanConfig list" where
  "collectPlans plan =
     (case plan_Abort plan of None \<Rightarrow> [] | Some p \<Rightarrow> collectPlans p) @
     (case plan_Success plan of None \<Rightarrow> [] | Some p \<Rightarrow> collectPlans p) @
     (case plan_Failure plan of None \<Rightarrow> [] | Some p \<Rightarrow> collectPlans p) @
     (case plan_Ensure plan of None \<Rightarrow> [] | Some p \<Rightarrow> collectPlans p) @
     (case plan_Try plan of None \<Rightarrow> [] | Some p \<Rightarrow> collectPlans p) @
     (case plan_Do plan of None \<Rightarrow> [] | Some ps \<Rightarrow> concat (map collectPlans ps)) @
     (case plan_Aggregate plan of None \<Rightarrow> [] | Some ps \<Rightarrow> concat (map collectPlans ps)) @
     [plan]"
  by pat_completeness auto
termination
  by (relation "measure size") (auto simp: plan_size plan_size_list)

declare collectPlans.simps [simp del]

definition JobConfig_Plans :: "JobConfig \<Rightarrow> PlanConfig list" where
  "JobConfig_Plans config = collectPlans (do_config (job_Plan config) (JobConfig_Hooks config))"

definition InputPlans :: "JobConfig \<Rightarrow> PlanConfig list" where
  "InputPlans config = filter (\<lambda>plan. plan_Get plan \<noteq> []) (JobConfig_Plans config)"

definition OutputPlans :: "JobConfig \<Rightarrow> PlanConfig list" where
  "OutputPlans config = filter (\<lambda>plan. plan_Put plan \<noteq> []) (JobConfig_Plans config)"

definition plan_input :: "PlanConfig \<Rightarrow> JobInput" where
  "plan_input plan =
     \<lparr>ji_Name = plan_Get plan, ji_Resource = (if plan_Resource plan \<noteq> [] then plan_Resource plan else plan_Get plan),
      ji_Passed = plan_Passed plan, ji_Trigger = plan_Trigger plan, ji_Version = plan_Version plan,
      ji_Params = plan_Params plan, ji_Tags = plan_Tags plan\<rparr>"

definition JobConfig_Inputs :: "JobConfig \<Rightarrow> JobInput list" where
  "JobConfig_Inputs config =
     concat (map (\<lambda>plan. if plan_Get plan \<noteq> [] then [plan_input plan] else []) (JobConfig_Plans config))"

definition JobConfig_Outputs :: "JobConfig \<Rightarrow> JobOutput list" where
  "JobConfig_Outputs config =
     concat (map (\<lambda>plan.
       if plan_Put plan \<noteq> []
       then [\<lparr>jo_Name = plan_Put plan,
              jo_Resource = (if plan_Resource plan \<noteq> [] then plan_Resource plan else plan_Put plan)\<rparr>]
       else []) (JobConfig_Plans config))"

section \<open>Sub-plans\<close>

text \<open>The plan configs a plan config points to.\<close>

definition plan_children :: "PlanConfig \<Rightarrow> PlanConfig list" where
  "plan_children plan =
     concat (map (case_option [] (\<lambda>p. [p]))
       [plan_Abort plan, plan_Success plan, plan_Failure plan, plan_Ensure plan, plan_Try plan]) @
     case_option [] id (plan_Do plan) @ case_option [] id (plan_Aggregate plan)"

lemma collectPlans_children: "collectPlans plan = concat (map collectPlans (plan_children plan)) @ [plan]"
  by (subst collectPlans.simps) (simp add: plan_children_def split: option.split)

lemma children_size: "q \<in> set (plan_children p) \<Longrightarrow> size q < size p"
  by (auto simp: plan_children_def plan_size plan_size_list split: option.splits)

text \<open>Induction over the nesting of plan configs.\<close>

lemma plan_config_induct:
  assumes "\<And>p. (\<And>q. q \<in> set (plan_children p) \<Longrightarrow> P q) \<Longrightarrow> P p"
  shows "P p"
  by (induction p rule: measure_induct_rule [where f = size]) (blast intro: assms children_size)

lemma collectPlans_self [simp]: "p \<in> set (collectPlans p)"
  by (subst collectPlans_children) simp

lemma collectPlans_trans: "q \<in> set (collectPlans p) \<Longrightarrow> set (collectPlans q) \<subseteq> set (collectPlans p)"
proof (induction p rule: plan_config_induct)
  case (1 p)
  show ?case
  proof (cases "q = p")
    case False
    then obtain c where "c \<in> set (plan_children p)" "q \<in> set (collectPlans c)"
      using "1.prems" by (subst (asm) collectPlans_children) auto
    with 1(1) show ?thesis by (subst (2) collectPlans_children) auto
  qed simp
qed

lemma concat_if: "concat (map (\<lambda>x. if P x then [f x] else []) xs) = map f (filter P xs)"
  by (induction xs) auto

lemma set_JobConfig_Inputs:
  "set (JobConfig_Inputs job) = plan_input ` {q \<in> set (JobConfig_Plans job). plan_Get q \<noteq> []}"
  by (simp add: JobConfig_Inputs_def concat_if)

lemma serial_groups_max_in_flight:
  "0 \<le> job_RawMaxInFlight config \<Longrightarrow> GetSerialGroups config \<noteq> [] \<longleftrightarrow> MaxInFlight config > 0"
  by (auto simp: GetSerialGroups_def MaxInFlight_def)

end
