(* ===== verification/Plan_Data.thy ===== *)
theory Plan_Data
  imports Config_Data "HOL-Library.Word" "HOL-Library.Multiset"
begin

text \<open>
  \<open>plan.go\<close>, \<open>plan_factory.go\<close> and \<open>public_plan.go\<close>: the plan of a build. A \<open>Plan\<close> struct has one
  pointer per kind of step and is a datatype with one selector per field. \<open>PlanFactory\<close> is a pointer to
  a 64-bit counter; its operations pass the counter along as a word, so that it wraps the way
  \<open>atomic.AddInt64\<close> does, and a panic is a fault value.
\<close>

section \<open>Plans\<close>

record VersionedResourceType = ResourceType +
  vrt_Version :: AtcVersion

fun VersionedResourceTypes_Lookup :: "VersionedResourceType list \<Rightarrow> string \<Rightarrow> VersionedResourceType option" where
  "VersionedResourceTypes_Lookup [] name = None"
| "VersionedResourceTypes_Lookup (t # types) name =
     (if rt_Name t = name then Some t else VersionedResourceTypes_Lookup types name)"

fun VersionedResourceTypes_Without :: "VersionedResourceType list \<Rightarrow> string \<Rightarrow> VersionedResourceType list" where
  "VersionedResourceTypes_Without [] name = []"
| "VersionedResourceTypes_Without (t # types) name =
     (if rt_Name t \<noteq> name then t # VersionedResourceTypes_Without types name
      else VersionedResourceTypes_Without types name)"

interpretation versioned_types: named_lookup rt_Name VersionedResourceTypes_Lookup
  by unfold_locales simp_all

type_synonym PlanID = string

record GetPlan =
  gp_Type :: string
  gp_Name :: string
  gp_Resource :: string
  gp_Source :: Source
  gp_Params :: Params
  gp_Version :: "AtcVersion option"
  gp_VersionFrom :: "PlanID option"
  gp_Tags :: Tags
  gp_VersionedResourceTypes :: "VersionedResourceType list"

record PutPlan =
  pp_Type :: string
  pp_Name :: string
  pp_Resource :: string
  pp_Source :: Source
  pp_Params :: Params
  pp_Tags :: Tags
  pp_VersionedResourceTypes :: "VersionedResourceType list"

record TaskPlan =
  tp_Name :: string
  tp_Privileged :: bool
  tp_Tags :: Tags
  tp_ConfigPath :: string
  tp_Config :: "TaskConfig option"
  tp_Params :: Params
  tp_InputMapping :: "(string \<times> string) list"
  tp_OutputMapping :: "(string \<times> string) list"
  tp_ImageArtifactName :: string
  tp_VersionedResourceTypes :: "VersionedResourceType list"

record DependentGetPlan =
  dgp_Type :: string
  dgp_Name :: string
  dgp_Resource :: string

datatype 'p OnAbortPlan = OnAbortPlan (onabort_Step: 'p) (onabort_Next: 'p)
datatype 'p OnFailurePlan = OnFailurePlan (onfailure_Step: 'p) (onfailure_Next: 'p)
datatype 'p EnsurePlan = EnsurePlan (ensure_Step: 'p) (ensure_Next: 'p)
datatype 'p OnSuccessPlan = OnSuccessPlan (onsuccess_Step: 'p) (onsuccess_Next: 'p)
datatype 'p TimeoutPlan = TimeoutPlan (timeout_Step: 'p) (timeout_Duration: string)
datatype 'p TryPlan = TryPlan (try_Step: 'p)

datatype Plan = Plan
  (p_ID: PlanID)
  (p_Attempts: "int list")
  (p_Aggregate: "Plan list option")
  (p_Do: "Plan list option")
  (p_Get: "GetPlan option")
  (p_Put: "PutPlan option")
  (p_Task: "TaskPlan option")
  (p_OnAbort: "Plan OnAbortPlan option")
  (p_Ensure: "Plan EnsurePlan option")
  (p_OnSuccess: "Plan OnSuccessPlan option")
  (p_OnFailure: "Plan OnFailurePlan option")
  (p_Try: "Plan TryPlan option")
  (p_Timeout: "Plan TimeoutPlan option")
  (p_Retry: "Plan list option")
  (p_DependentGet: "DependentGetPlan option")

definition zero_plan :: Plan where
  "zero_plan = Plan [] [] None None None None None None None None None None None None None"

text \<open>The status of a build.\<close>

datatype BuildStatus = StatusStarted | StatusPending | StatusSucceeded | StatusFailed | StatusErrored | StatusAborted

text \<open>A version of a resource, as the database stores it.\<close>

record VersionedResource =
  vr_Resource :: string
  vr_Type :: string
  vr_Version :: AtcVersion
  vr_Metadata :: "(string \<times> string) list"

section \<open>The plan factory\<close>

datatype fault = ErrResourceNotFound | GoPanic string

type_synonym 'a factory = "64 word \<Rightarrow> (fault + 'a) \<times> 64 word"

definition f_return :: "'a \<Rightarrow> 'a factory" where
  "f_return x = (\<lambda>s. (Inr x, s))"

definition f_fail :: "fault \<Rightarrow> 'a factory" where
  "f_fail e = (\<lambda>s. (Inl e, s))"

definition f_bind :: "'a factory \<Rightarrow> ('a \<Rightarrow> 'b factory) \<Rightarrow> 'b factory" where
  "f_bind m f = (\<lambda>s. case m s of (Inl e, s') \<Rightarrow> (Inl e, s') | (Inr x, s') \<Rightarrow> f x s')"

text \<open>A \<open>range\<close> loop that appends one result per element and returns on the first error.\<close>

fun f_each :: "('a \<Rightarrow> 'b factory) \<Rightarrow> 'a list \<Rightarrow> 'b list factory" where
  "f_each f [] = f_return []"
| "f_each f (x # xs) = f_bind (f x) (\<lambda>y. f_bind (f_each f xs) (\<lambda>ys. f_return (y # ys)))"

lemma f_each_cong [fundef_cong]:
  "xs = ys \<Longrightarrow> (\<And>x. x \<in> set ys \<Longrightarrow> f x = g x) \<Longrightarrow> f_each f xs = f_each g ys"
  by (induction ys arbitrary: xs) auto

datatype Step =
    StepAggregate "Plan list"
  | StepDo "Plan list"
  | StepGet GetPlan
  | StepPut PutPlan
  | StepTask TaskPlan
  | StepOnAbort "Plan OnAbortPlan"
  | StepEnsure "Plan EnsurePlan"
  | StepOnSuccess "Plan OnSuccessPlan"
  | StepOnFailure "Plan OnFailurePlan"
  | StepTry "Plan TryPlan"
  | StepTimeout "Plan TimeoutPlan"
  | StepRetry "Plan list"
  | StepDependentGet DependentGetPlan

text \<open>\<open>fmt.Sprintf("%x", num)\<close> of the signed counter.\<close>

definition plan_id :: "64 word \<Rightarrow> PlanID" where
  "plan_id num = hex (sint num)"

definition NewPlan :: "Step \<Rightarrow> Plan factory" where
  "NewPlan step = (\<lambda>currentNum.
     let num = currentNum + 1;
         plan = (\<lambda>agg do get put task abort ensure success failure try' timeout retry.
           (Inr (Plan (plan_id num) [] agg do get put task abort ensure success failure try' timeout retry None), num))
     in case step of
          StepAggregate t \<Rightarrow> plan (Some t) None None None None None None None None None None None
        | StepDo t \<Rightarrow> plan None (Some t) None None None None None None None None None None
        | StepGet t \<Rightarrow> plan None None (Some t) None None None None None None None None None
        | StepPut t \<Rightarrow> plan None None None (Some t) None None None None None None None None
        | StepTask t \<Rightarrow> plan None None None None (Some t) None None None None None None None
        | StepOnAbort t \<Rightarrow> plan None None None None None (Some t) None None None None None None
        | StepEnsure t \<Rightarrow> plan None None None None None None (Some t) None None None None None
        | StepOnSuccess t \<Rightarrow> plan None None None None None None None (Some t) None None None None
        | StepOnFailure t \<Rightarrow> plan None None None None None None None None (Some t) None None None
        | StepTry t \<Rightarrow> plan None None None None None None None None None (Some t) None None
        | StepTimeout t \<Rightarrow> plan None None None None None None None None None None (Some t) None
        | StepRetry t \<Rightarrow> plan None None None None None None None None None None None (Some t)
        | StepDependentGet t \<Rightarrow> (Inl (GoPanic (''don'' @ [CHR 0x27] @ ''t know how to construct plan from atc.DependentGetPlan'')), num))"

section \<open>Nested plans\<close>

definition plan_kids :: "Plan \<Rightarrow> Plan list" where
  "plan_kids p =
     case_option [] id (p_Aggregate p) @ case_option [] id (p_Do p) @
     case_option [] (\<lambda>x. [onabort_Step x, onabort_Next x]) (p_OnAbort p) @
     case_option [] (\<lambda>x. [ensure_Step x, ensure_Next x]) (p_Ensure p) @
     case_option [] (\<lambda>x. [onsuccess_Step x, onsuccess_Next x]) (p_OnSuccess p) @
     case_option [] (\<lambda>x. [onfailure_Step x, onfailure_Next x]) (p_OnFailure p) @
     case_option [] (\<lambda>x. [try_Step x]) (p_Try p) @ case_option [] (\<lambda>x. [timeout_Step x]) (p_Timeout p) @
     case_option [] id (p_Retry p)"

text \<open>The plans nested in a step.\<close>

fun step_kids :: "Step \<Rightarrow> Plan list" where
  "step_kids (StepAggregate ps) = ps"
| "step_kids (StepDo ps) = ps"
| "step_kids (StepRetry ps) = ps"
| "step_kids (StepOnAbort x) = [onabort_Step x, onabort_Next x]"
| "step_kids (StepEnsure x) = [ensure_Step x, ensure_Next x]"
| "step_kids (StepOnSuccess x) = [onsuccess_Step x, onsuccess_Next x]"
| "step_kids (StepOnFailure x) = [onfailure_Step x, onfailure_Next x]"
| "step_kids (StepTry x) = [try_Step x]"
| "step_kids (StepTimeout x) = [timeout_Step x]"
| "step_kids _ = []"

lemma pair_sizes:
  "size (onabort_Step a) < size_OnAbortPlan size a" "size (onabort_Next a) < size_OnAbortPlan size a"
  "size (ensure_Step e) < size_EnsurePlan size e" "size (ensure_Next e) < size_EnsurePlan size e"
  "size (onsuccess_Step s) < size_OnSuccessPlan size s" "size (onsuccess_Next s) < size_OnSuccessPlan size s"
  "size (onfailure_Step f) < size_OnFailurePlan size f" "size (onfailure_Next f) < size_OnFailurePlan size f"
  "size (timeout_Step t) < size_TimeoutPlan size t" "size (try_Step r) < size_TryPlan size r"
  by (cases a, cases e, cases s, cases f, cases t, cases r, simp)+

lemma sub_sizes:
  "p_OnAbort p = Some a \<Longrightarrow> size_OnAbortPlan size a < size p" "p_Ensure p = Some e \<Longrightarrow> size_EnsurePlan size e < size p"
  "p_OnSuccess p = Some s \<Longrightarrow> size_OnSuccessPlan size s < size p"
  "p_OnFailure p = Some f \<Longrightarrow> size_OnFailurePlan size f < size p"
  "p_Timeout p = Some t \<Longrightarrow> size_TimeoutPlan size t < size p" "p_Try p = Some r \<Longrightarrow> size_TryPlan size r < size p"
  "p_Do p = Some ps \<Longrightarrow> size_list size ps < size p" "p_Aggregate p = Some ps \<Longrightarrow> size_list size ps < size p"
  "p_Retry p = Some ps \<Longrightarrow> size_list size ps < size p"
  by (cases p; simp)+

lemma kids_size: "q \<in> set (plan_kids p) \<Longrightarrow> size q < size p"
proof -
  assume q: "q \<in> set (plan_kids p)"
  have l: "size q < size p" if "q \<in> set ps" "size_list size ps < size p" for ps
    using size_list_estimation' [OF that(1) order_refl, of size] that(2) by simp
  from q show ?thesis
    by (auto simp: plan_kids_def sub_sizes split: option.splits intro: less_trans [OF pair_sizes(1)]
        less_trans [OF pair_sizes(2)] less_trans [OF pair_sizes(3)] less_trans [OF pair_sizes(4)]
        less_trans [OF pair_sizes(5)] less_trans [OF pair_sizes(6)] less_trans [OF pair_sizes(7)]
        less_trans [OF pair_sizes(8)] less_trans [OF pair_sizes(9)] less_trans [OF pair_sizes(10)] l)
qed

lemma plan_induct:
  assumes "\<And>p. (\<And>q. q \<in> set (plan_kids p) \<Longrightarrow> P q) \<Longrightarrow> P p"
  shows "P p"
  by (induction p rule: measure_induct_rule [where f = size]) (blast intro: assms kids_size)

text \<open>The plan and all plans nested in it.\<close>

function plan_nodes :: "Plan \<Rightarrow> Plan list" where
  "plan_nodes p = p # concat (map plan_nodes (plan_kids p))"
  by pat_completeness auto
termination
  by (relation "measure size") (auto simp: kids_size)

declare plan_nodes.simps [simp del]

lemma plan_nodes_unfold: "plan_nodes p = p # concat (map plan_nodes (plan_kids p))"
  by (rule plan_nodes.simps)

section \<open>The public view\<close>

text \<open>
  The value handed to \<open>json.Marshal\<close>: an object with the fields in order, \<open>omitempty\<close> fields left out
  when they are empty. A nil map is the JSON \<open>null\<close>.
\<close>

definition opt_field :: "string \<Rightarrow> gvalue option \<Rightarrow> (string \<times> gvalue) list" where
  "opt_field name v = (case v of None \<Rightarrow> [] | Some x \<Rightarrow> [(name, x)])"

definition opt_string :: "string \<Rightarrow> string \<Rightarrow> (string \<times> gvalue) list" where
  "opt_string name s = (if s = [] then [] else [(name, VString s)])"

definition version_value :: "AtcVersion \<Rightarrow> gvalue" where
  "version_value v = (case v of None \<Rightarrow> VNil | Some m \<Rightarrow> string_object m)"

definition GetPlan_Public :: "GetPlan \<Rightarrow> gvalue" where
  "GetPlan_Public plan =
     VObject ([(''type'', VString (gp_Type plan))] @ opt_string ''name'' (gp_Name plan) @
       [(''resource'', VString (gp_Resource plan))] @
       opt_field ''version'' (map_option version_value (gp_Version plan)))"

definition PutPlan_Public :: "PutPlan \<Rightarrow> gvalue" where
  "PutPlan_Public plan =
     VObject ([(''type'', VString (pp_Type plan))] @ opt_string ''name'' (pp_Name plan) @
       [(''resource'', VString (pp_Resource plan))])"

definition TaskPlan_Public :: "TaskPlan \<Rightarrow> gvalue" where
  "TaskPlan_Public plan =
     VObject [(''name'', VString (tp_Name plan)), (''privileged'', VBool (tp_Privileged plan))]"

definition DependentGetPlan_Public :: "DependentGetPlan \<Rightarrow> gvalue" where
  "DependentGetPlan_Public plan =
     VObject ([(''type'', VString (dgp_Type plan))] @ opt_string ''name'' (dgp_Name plan) @
       [(''resource'', VString (dgp_Resource plan))])"

text \<open>The \<open>Public\<close> of a pair of plans, with the key of the second.\<close>

definition pair_public :: "string \<Rightarrow> gvalue \<Rightarrow> gvalue \<Rightarrow> gvalue" where
  "pair_public key step nxt = VObject [(''step'', step), (key, nxt)]"

lemma kids_in:
  "p_Aggregate p = Some ps \<Longrightarrow> q \<in> set ps \<Longrightarrow> q \<in> set (plan_kids p)"
  "p_Do p = Some ps \<Longrightarrow> q \<in> set ps \<Longrightarrow> q \<in> set (plan_kids p)"
  "p_Retry p = Some ps \<Longrightarrow> q \<in> set ps \<Longrightarrow> q \<in> set (plan_kids p)"
  "p_OnAbort p = Some a \<Longrightarrow> onabort_Step a \<in> set (plan_kids p) \<and> onabort_Next a \<in> set (plan_kids p)"
  "p_Ensure p = Some e \<Longrightarrow> ensure_Step e \<in> set (plan_kids p) \<and> ensure_Next e \<in> set (plan_kids p)"
  "p_OnSuccess p = Some s \<Longrightarrow> onsuccess_Step s \<in> set (plan_kids p) \<and> onsuccess_Next s \<in> set (plan_kids p)"
  "p_OnFailure p = Some f \<Longrightarrow> onfailure_Step f \<in> set (plan_kids p) \<and> onfailure_Next f \<in> set (plan_kids p)"
  "p_Try p = Some t \<Longrightarrow> try_Step t \<in> set (plan_kids p)"
  "p_Timeout p = Some m \<Longrightarrow> timeout_Step m \<in> set (plan_kids p)"
  by (simp_all add: plan_kids_def)

function Plan_Public :: "Plan \<Rightarrow> gvalue" where
  "Plan_Public plan =
     VObject ([(''id'', VString (p_ID plan))] @
       opt_field ''aggregate'' (case p_Aggregate plan of None \<Rightarrow> None | Some ps \<Rightarrow> Some (VList (map Plan_Public ps))) @
       opt_field ''do'' (case p_Do plan of None \<Rightarrow> None | Some ps \<Rightarrow> Some (VList (map Plan_Public ps))) @
       opt_field ''get'' (map_option GetPlan_Public (p_Get plan)) @
       opt_field ''put'' (map_option PutPlan_Public (p_Put plan)) @
       opt_field ''task'' (map_option TaskPlan_Public (p_Task plan)) @
       opt_field ''on_abort'' (case p_OnAbort plan of None \<Rightarrow> None
         | Some x \<Rightarrow> Some (pair_public ''on_abort'' (Plan_Public (onabort_Step x)) (Plan_Public (onabort_Next x)))) @
       opt_field ''ensure'' (case p_Ensure plan of None \<Rightarrow> None
         | Some x \<Rightarrow> Some (pair_public ''ensure'' (Plan_Public (ensure_Step x)) (Plan_Public (ensure_Next x)))) @
       opt_field ''on_success'' (case p_OnSuccess plan of None \<Rightarrow> None
         | Some x \<Rightarrow> Some (pair_public ''on_success'' (Plan_Public (onsuccess_Step x)) (Plan_Public (onsuccess_Next x)))) @
       opt_field ''on_failure'' (case p_OnFailure plan of None \<Rightarrow> None
         | Some x \<Rightarrow> Some (pair_public ''on_failure'' (Plan_Public (onfailure_Step x)) (Plan_Public (onfailure_Next x)))) @
       opt_field ''try'' (case p_Try plan of None \<Rightarrow> None
         | Some x \<Rightarrow> Some (VObject [(''step'', Plan_Public (try_Step x))])) @
       opt_field ''dependent_get'' (map_option DependentGetPlan_Public (p_DependentGet plan)) @
       opt_field ''timeout'' (case p_Timeout plan of None \<Rightarrow> None
         | Some x \<Rightarrow> Some (VObject [(''step'', Plan_Public (timeout_Step x)), (''duration'', VString (timeout_Duration x))])) @
       opt_field ''retry'' (case p_Retry plan of None \<Rightarrow> None | Some ps \<Rightarrow> Some (VList (map Plan_Public ps))))"
  by pat_completeness auto
termination
  by (relation "measure size") (auto intro!: kids_size simp: kids_in)

declare Plan_Public.simps [simp del]

text \<open>A plan without its sources, params, tags, task configs and resource types.\<close>

definition redact_get :: "GetPlan \<Rightarrow> GetPlan" where
  "redact_get g = g\<lparr>gp_Source := [], gp_Params := [], gp_VersionFrom := None, gp_Tags := [], gp_VersionedResourceTypes := []\<rparr>"

definition redact_put :: "PutPlan \<Rightarrow> PutPlan" where
  "redact_put g = g\<lparr>pp_Source := [], pp_Params := [], pp_Tags := [], pp_VersionedResourceTypes := []\<rparr>"

definition redact_task :: "TaskPlan \<Rightarrow> TaskPlan" where
  "redact_task t =
     \<lparr>tp_Name = tp_Name t, tp_Privileged = tp_Privileged t, tp_Tags = [], tp_ConfigPath = [], tp_Config = None,
      tp_Params = [], tp_InputMapping = [], tp_OutputMapping = [], tp_ImageArtifactName = [],
      tp_VersionedResourceTypes = []\<rparr>"

primrec redact :: "Plan \<Rightarrow> Plan" where
  "redact (Plan i att agg d g p t ab en su fa tr ti re dg) =
     Plan i [] (map_option (map redact) agg) (map_option (map redact) d) (map_option redact_get g)
       (map_option redact_put p) (map_option redact_task t) (map_option (map_OnAbortPlan redact) ab)
       (map_option (map_EnsurePlan redact) en) (map_option (map_OnSuccessPlan redact) su)
       (map_option (map_OnFailurePlan redact) fa) (map_option (map_TryPlan redact) tr)
       (map_option (map_TimeoutPlan redact) ti) (map_option (map redact) re) dg"

lemma redact_sel [simp]:
  "p_ID (redact p) = p_ID p" "p_Aggregate (redact p) = map_option (map redact) (p_Aggregate p)"
  "p_Do (redact p) = map_option (map redact) (p_Do p)" "p_Retry (redact p) = map_option (map redact) (p_Retry p)"
  "p_Get (redact p) = map_option redact_get (p_Get p)" "p_Put (redact p) = map_option redact_put (p_Put p)"
  "p_Task (redact p) = map_option redact_task (p_Task p)"
  "p_OnAbort (redact p) = map_option (map_OnAbortPlan redact) (p_OnAbort p)"
  "p_Ensure (redact p) = map_option (map_EnsurePlan redact) (p_Ensure p)"
  "p_OnSuccess (redact p) = map_option (map_OnSuccessPlan redact) (p_OnSuccess p)"
  "p_OnFailure (redact p) = map_option (map_OnFailurePlan redact) (p_OnFailure p)"
  "p_Try (redact p) = map_option (map_TryPlan redact) (p_Try p)"
  "p_Timeout (redact p) = map_option (map_TimeoutPlan redact) (p_Timeout p)"
  "p_DependentGet (redact p) = p_DependentGet p"
  by (cases p; simp)+

lemma redact_public_leaf:
  "GetPlan_Public (redact_get g) = GetPlan_Public g" "PutPlan_Public (redact_put q) = PutPlan_Public q"
  "TaskPlan_Public (redact_task t) = TaskPlan_Public t"
  by (simp_all add: GetPlan_Public_def redact_get_def PutPlan_Public_def redact_put_def TaskPlan_Public_def
      redact_task_def)

lemma case_map_option:
  "(\<And>x. v = Some x \<Longrightarrow> h (r x) = h' x) \<Longrightarrow>
     (case map_option r v of None \<Rightarrow> None | Some x \<Rightarrow> Some (h x)) = (case v of None \<Rightarrow> None | Some x \<Rightarrow> Some (h' x))"
  by (cases v) auto

text \<open>
  C12. The plan shown to a viewer of a build reveals no secrets: the public view of a plan is the public view
  of the plan without its sources, params, tags, task configurations and resource types, at every depth.
\<close>

theorem Public_redacted: "Plan_Public (redact p) = Plan_Public p"
proof (induction p rule: plan_induct)
  case (1 p)
  note [simp] = kids_in 1 pair_public_def
  have sub: "(case map_option (map redact) v of None \<Rightarrow> None | Some ps \<Rightarrow> Some (VList (map Plan_Public ps))) =
      (case v of None \<Rightarrow> None | Some ps \<Rightarrow> Some (VList (map Plan_Public ps)))"
    if "v = p_Aggregate p \<or> v = p_Do p \<or> v = p_Retry p" for v
    using that by (intro case_map_option) (auto intro!: 1 dest!: sym [of "Some _"] intro: kids_in(1-3))
  show ?case
    unfolding Plan_Public.simps [of "redact p"] Plan_Public.simps [of p]
    apply (simp only: redact_sel sub option.map_comp comp_def redact_public_leaf)
    apply (intro arg_cong [of _ _ VObject] arg_cong2 [of _ _ _ _ "(@)"] arg_cong2 [of _ _ _ _ opt_field] refl case_map_option)
    apply (auto simp: OnAbortPlan.map_sel EnsurePlan.map_sel OnSuccessPlan.map_sel OnFailurePlan.map_sel
        TryPlan.map_sel TimeoutPlan.map_sel)
    done
qed

end
