(* ===== verification/Go_Duration.thy ===== *)
theory Go_Duration
  imports Go_Strings
begin

text \<open>
  \<open>time.ParseDuration\<close> of Go's standard library, which the validation of timeouts and the timeout step
  call. Integers are checked against the 64-bit bound where the library checks them; the fraction of a
  unit, which the library computes in \<open>float64\<close>, is the exact quotient rounded down. An error is its message.
\<close>

definition max_int64 :: int where
  "max_int64 = 2 ^ 63 - 1"

definition is_digit :: "char \<Rightarrow> bool" where
  "is_digit c \<longleftrightarrow> 48 \<le> (of_char c :: nat) \<and> (of_char c :: nat) \<le> 57"

definition digit_value :: "char \<Rightarrow> int" where
  "digit_value c = int (of_char c) - 48"

fun leadingInt :: "int \<Rightarrow> string \<Rightarrow> (int \<times> string) option" where
  "leadingInt x [] = Some (x, [])"
| "leadingInt x (c # cs) =
     (if \<not> is_digit c then Some (x, c # cs)
      else if x > max_int64 div 10 then None
      else let y = x * 10 + digit_value c
           in if y > max_int64 then None else leadingInt y cs)"

fun leadingFraction :: "int \<Rightarrow> int \<Rightarrow> bool \<Rightarrow> string \<Rightarrow> int \<times> int \<times> string" where
  "leadingFraction x scale overflow [] = (x, scale, [])"
| "leadingFraction x scale overflow (c # cs) =
     (if \<not> is_digit c then (x, scale, c # cs)
      else if overflow then leadingFraction x scale True cs
      else if x > max_int64 div 10 then leadingFraction x scale True cs
      else let y = x * 10 + digit_value c
           in if y > max_int64 then leadingFraction x scale True cs
              else leadingFraction y (scale * 10) False cs)"

definition unitMap :: "(string \<times> int) list" where
  "unitMap =
     [(''ns'', 1), (''us'', 1000), ([CHR 0xC2, CHR 0xB5] @ ''s'', 1000), ([CHR 0xCE, CHR 0xBC] @ ''s'', 1000),
      (''ms'', 1000000), (''s'', 1000000000), (''m'', 60000000000), (''h'', 3600000000000)]"

definition is_unit_char :: "char \<Rightarrow> bool" where
  "is_unit_char c \<longleftrightarrow> \<not> (c = CHR 0x2E \<or> is_digit c)"

text \<open>
  One number with its unit: the integer part, the fraction, the unit, and what is left of the string. The
  error messages name the whole string \<open>orig\<close>.
\<close>

definition invalid_duration :: "string \<Rightarrow> string" where
  "invalid_duration orig = ''time: invalid duration '' @ orig"

definition parse_term :: "string \<Rightarrow> string \<Rightarrow> string + int \<times> string" where
  "parse_term orig s =
     (case s of
        [] \<Rightarrow> Inl (invalid_duration orig)
      | c # _ \<Rightarrow>
          if is_unit_char c then Inl (invalid_duration orig)
          else (case leadingInt 0 s of
                  None \<Rightarrow> Inl (invalid_duration orig)
                | Some (v, s1) \<Rightarrow>
                    let pre = length s \<noteq> length s1;
                        (f, scale, s2, post) =
                          (if s1 \<noteq> [] \<and> hd s1 = CHR 0x2E
                           then (case leadingFraction 0 1 False (tl s1) of
                                   (f, scale, s2) \<Rightarrow> (f, scale, s2, length (tl s1) \<noteq> length s2))
                           else (0, 1, s1, False));
                        u = takeWhile is_unit_char s2;
                        s3 = dropWhile is_unit_char s2
                    in if \<not> pre \<and> \<not> post then Inl (invalid_duration orig)
                       else if length u = 0 then Inl (''time: missing unit in duration '' @ orig)
                       else (case map_of unitMap u of
                               None \<Rightarrow> Inl (''time: unknown unit '' @ u @ '' in duration '' @ orig)
                             | Some unit \<Rightarrow>
                                 if v > max_int64 div unit then Inl (invalid_duration orig)
                                 else let v = v * unit; v = (if f > 0 then v + (f * unit) div scale else v)
                                      in if v > max_int64 then Inl (invalid_duration orig) else Inr (v, s3))))"

lemma leadingInt_length: "leadingInt x s = Some (v, r) \<Longrightarrow> length r \<le> length s"
  by (induction x s rule: leadingInt.induct) (auto simp: Let_def split: if_splits)

lemma leadingFraction_length: "leadingFraction x sc ov s = (f, scale, r) \<Longrightarrow> length r \<le> length s"
  by (induction x sc ov s rule: leadingFraction.induct) (auto simp: Let_def split: if_splits)

lemma takeWhile_dropWhile_less: "takeWhile P xs \<noteq> [] \<Longrightarrow> length (dropWhile P xs) < length xs"
  by (cases xs) (auto simp: length_dropWhile_le le_imp_less_Suc split: if_splits)

lemma parse_term_length: "parse_term orig s = Inr (v, r) \<Longrightarrow> length r < length s"
  by (fastforce simp: parse_term_def Let_def split: list.splits option.splits if_splits prod.splits sum.splits
      dest: leadingInt_length leadingFraction_length dest!: takeWhile_dropWhile_less)

function parse_terms :: "string \<Rightarrow> int \<Rightarrow> string \<Rightarrow> string + int" where
  "parse_terms orig d [] = Inr d"
| "parse_terms orig d (c # cs) =
     (case parse_term orig (c # cs) of
        Inl err \<Rightarrow> Inl err
      | Inr (v, rest) \<Rightarrow>
          if d + v > max_int64 then Inl (invalid_duration orig) else parse_terms orig (d + v) rest)"
  by pat_completeness auto
termination
  by (relation "measure (\<lambda>(orig, d, s). length s)") (auto dest!: parse_term_length)

definition ParseDuration :: "string \<Rightarrow> string + int" where
  "ParseDuration orig =
     (let neg = (orig \<noteq> [] \<and> hd orig = CHR 0x2D);
          s = (if orig \<noteq> [] \<and> (hd orig = CHR 0x2D \<or> hd orig = CHR 0x2B) then tl orig else orig)
      in if s = ''0'' then Inr 0
         else if s = [] then Inl (invalid_duration orig)
         else (case parse_terms orig 0 s of
                 Inl err \<Rightarrow> Inl err
               | Inr d \<Rightarrow> Inr (if neg then - d else d)))"

lemma parse_terms_bound: "d \<le> max_int64 \<Longrightarrow> parse_terms orig d s = Inr e \<Longrightarrow> e \<le> max_int64"
  by (induction orig d s rule: parse_terms.induct) (auto split: sum.splits prod.splits if_splits)

lemma ParseDuration_sample: "ParseDuration ''1h15m'' = Inr 4500000000000" "ParseDuration ''1.5s'' = Inr 1500000000"
  "ParseDuration ''10'' = Inl ''time: missing unit in duration 10''"
  "ParseDuration ''5x'' = Inl ''time: unknown unit x in duration 5x''"
  by code_simp+

end
