(* ===== verification/Exec_Steps.thy ===== *)
theory Exec_Steps
  imports Plan_Data Go_Duration
begin

text \<open>
  \<open>exec\<close>: the steps of a running build. A \<open>StepFactory\<close> is the description of a step, \<open>Using\<close> makes
  the step object, \<open>Run\<close> runs it and leaves it in the state that \<open>Succeeded\<close> reads. The outside world
  is an environment: what each action of a leaf step returns and its exit status, whether a timer fires before its step ends,
  and whether a running aggregate is signalled. Channels and logging are left out; the order in which
  parallel members write to the trace is the order of the members.

  A nil step dereferenced by \<open>Succeeded\<close> is the result \<open>None\<close>. The error type follows
  \<open>github.com/hashicorp/go-multierror\<close>.
\<close>

section \<open>Errors\<close>

datatype goerror =
    ErrInterrupted
  | ErrAborted
  | OtherError string
  | MultiError "goerror list"

definition ListFormatFunc :: "string list \<Rightarrow> string" where
  "ListFormatFunc es =
     (if length es = 1 then ''1 error occurred:'' @ newline @ newline @ ''* '' @ es ! 0
      else itoa (int (length es)) @ '' errors occurred:'' @ newline @ newline @
        strings_Join (map (\<lambda>e. ''* '' @ e) es) newline)"

primrec err_Error :: "goerror \<Rightarrow> string" where
  "err_Error ErrInterrupted = ''interrupted''"
| "err_Error ErrAborted = ''script aborted''"
| "err_Error (OtherError s) = s"
| "err_Error (MultiError es) = ListFormatFunc (map err_Error es)"

fun flatten_one :: "goerror \<Rightarrow> goerror list" where
  "flatten_one (MultiError es) = es"
| "flatten_one e = [e]"

definition multierror_Append :: "goerror option \<Rightarrow> goerror \<Rightarrow> goerror" where
  "multierror_Append err e =
     (case err of
        None \<Rightarrow> MultiError (flatten_one e)
      | Some e0 \<Rightarrow> MultiError (flatten_one e0 @ flatten_one e))"

section \<open>Steps\<close>

text \<open>
  The actions of the leaf steps, with the plan they are made from. The version source of a get looks up
  the put action it depends on when it is made: \<open>PutActionVersionSource None\<close> holds the nil pointer of a
  put that is not known then.
\<close>

datatype VersionSource =
    StaticVersionSource AtcVersion
  | PutActionVersionSource "PlanID option"
  | EmptyVersionSource

datatype exec_action =
    FetchConfigAction TaskPlan
  | TaskAction TaskPlan
  | GetAction GetPlan VersionSource
  | PutAction PutPlan

datatype ContainerType = ContainerTypeTask | ContainerTypeGet | ContainerTypePut

record leaf =
  leaf_ID :: PlanID
  leaf_Actions :: "exec_action list"
  leaf_Type :: ContainerType
  leaf_StepName :: string
  leaf_Attempt :: string

datatype StepFactory =
    Identity
  | Actions leaf
  | Aggregate PlanID "StepFactory list"
  | Ensure StepFactory StepFactory
  | OnAbort StepFactory StepFactory
  | OnFailure StepFactory StepFactory
  | OnSuccess StepFactory StepFactory
  | Try StepFactory
  | Retry "StepFactory list"
  | Timeout PlanID StepFactory string

text \<open>The step objects: the nested steps, the factories of the hooks, and the fields that \<open>Run\<close> writes.\<close>

datatype ExecStep =
    IdentityStep
  | ActionsStep leaf bool
  | AggregateStep PlanID "ExecStep list"
  | EnsureStep StepFactory ExecStep "ExecStep option"
  | OnAbortStep StepFactory ExecStep
  | OnFailureStep StepFactory ExecStep
  | OnSuccessStep StepFactory ExecStep "ExecStep option"
  | TryStep ExecStep
  | RetryStep "ExecStep list" "ExecStep option"
  | TimeoutStep PlanID string ExecStep bool

primrec Using :: "StepFactory \<Rightarrow> ExecStep" where
  "Using Identity = IdentityStep"
| "Using (Actions l) = ActionsStep l False"
| "Using (Aggregate i fs) = AggregateStep i (map Using fs)"
| "Using (Ensure f h) = EnsureStep h (Using f) None"
| "Using (OnAbort f h) = OnAbortStep h (Using f)"
| "Using (OnFailure f h) = OnFailureStep h (Using f)"
| "Using (OnSuccess f h) = OnSuccessStep h (Using f) None"
| "Using (Try f) = TryStep (Using f)"
| "Using (Retry fs) = RetryStep (map Using fs) None"
| "Using (Timeout i f d) = TimeoutStep i d (Using f) False"

text \<open>\<open>a && b\<close> where either may panic.\<close>

definition and_then :: "bool option \<Rightarrow> bool option \<Rightarrow> bool option" where
  "and_then a b = (case a of None \<Rightarrow> None | Some False \<Rightarrow> Some False | Some True \<Rightarrow> b)"

text \<open>All members are asked, none is skipped.\<close>

fun all_succeeded :: "bool option list \<Rightarrow> bool \<Rightarrow> bool option" where
  "all_succeeded [] succeeded = Some succeeded"
| "all_succeeded (r # rs) succeeded =
     (case r of None \<Rightarrow> None | Some b \<Rightarrow> all_succeeded rs (if \<not> b then False else succeeded))"

primrec Succeeded :: "ExecStep \<Rightarrow> bool option" where
  "Succeeded IdentityStep = Some True"
| "Succeeded (ActionsStep l b) = Some b"
| "Succeeded (AggregateStep i ss) = all_succeeded (map Succeeded ss) True"
| "Succeeded (EnsureStep h s e) = and_then (Succeeded s) (case map_option Succeeded e of None \<Rightarrow> None | Some r \<Rightarrow> r)"
| "Succeeded (OnAbortStep h s) = Succeeded s"
| "Succeeded (OnFailureStep h s) = Succeeded s"
| "Succeeded (OnSuccessStep h s e) = and_then (Succeeded s) (case map_option Succeeded e of None \<Rightarrow> None | Some r \<Rightarrow> r)"
| "Succeeded (TryStep s) = Some True"
| "Succeeded (RetryStep ss l) = (case map_option Succeeded l of None \<Rightarrow> None | Some r \<Rightarrow> r)"
| "Succeeded (TimeoutStep i d s timedOut) = (if timedOut then Some False else Succeeded s)"

section \<open>Running\<close>

text \<open>An event is written when an action is run, when the delegate is told of its end, or of its error.\<close>

datatype exec_event =
    ActionRun PlanID exec_action
  | ActionCompleted PlanID exec_action int
  | ActionFailed PlanID goerror

record env =
  env_action :: "PlanID \<Rightarrow> exec_action \<Rightarrow> goerror option \<times> int"
  env_timedOut :: "PlanID \<Rightarrow> bool"
  env_signalled :: "PlanID \<Rightarrow> bool"

record run_result =
  r_err :: "goerror option"
  r_step :: ExecStep
  r_trace :: "exec_event list"
  r_panic :: bool

fun ExitStatus :: "exec_action \<Rightarrow> int \<Rightarrow> int" where
  "ExitStatus (FetchConfigAction p) n = 0"
| "ExitStatus a n = n"

text \<open>Asking the version source of a get for its version dereferences the put action.\<close>

fun nil_version_source :: "exec_action \<Rightarrow> bool" where
  "nil_version_source (GetAction p (PutActionVersionSource None)) = True"
| "nil_version_source a = False"

record actions_result =
  a_err :: "goerror option"
  a_succeeded :: bool
  a_trace :: "exec_event list"
  a_panic :: bool

fun actions_loop :: "env \<Rightarrow> PlanID \<Rightarrow> exec_action list \<Rightarrow> bool \<Rightarrow> actions_result" where
  "actions_loop w i [] succeeded = \<lparr>a_err = None, a_succeeded = succeeded, a_trace = [], a_panic = False\<rparr>"
| "actions_loop w i (action # actions) succeeded =
     (if nil_version_source action
      then \<lparr>a_err = None, a_succeeded = succeeded, a_trace = [ActionRun i action], a_panic = True\<rparr>
      else case fst (env_action w i action) of
        Some e \<Rightarrow>
          let err = (if e = ErrAborted then ErrInterrupted else e)
          in \<lparr>a_err = Some err, a_succeeded = succeeded, a_trace = [ActionRun i action, ActionFailed i err], a_panic = False\<rparr>
      | None \<Rightarrow>
          let n = ExitStatus action (snd (env_action w i action));
              r = actions_loop w i actions (if n \<noteq> 0 then False else succeeded)
          in r\<lparr>a_trace := ActionRun i action # ActionCompleted i action n # a_trace r\<rparr>)"

definition agg_error :: "goerror option list \<Rightarrow> goerror option" where
  "agg_error errs =
     (let errorMessages = map err_Error (concat (map (case_option [] (\<lambda>e. [e])) errs))
      in if length errorMessages > 0
         then Some (OtherError (''sources failed:'' @ newline @ strings_Join errorMessages newline))
         else None)"

text \<open>The loop of \<open>RetryStep.Run\<close>: the steps left, the steps tried so far, the last attempt and its error.\<close>

fun retry_loop :: "(ExecStep \<Rightarrow> run_result) \<Rightarrow> ExecStep list \<Rightarrow> ExecStep list \<Rightarrow> ExecStep option \<Rightarrow> goerror option \<Rightarrow>
    exec_event list \<Rightarrow> run_result" where
  "retry_loop run [] tried lastAttempt attemptErr es =
     \<lparr>r_err = attemptErr, r_step = RetryStep tried lastAttempt, r_trace = es, r_panic = False\<rparr>"
| "retry_loop run (attempt # attempts) tried lastAttempt attemptErr es =
     (let r = run attempt;
          stop = \<lparr>r_err = r_err r, r_step = RetryStep (tried @ r_step r # attempts) (Some (r_step r)),
                  r_trace = es @ r_trace r, r_panic = r_panic r\<rparr>;
          continue = (\<lambda>u. retry_loop run attempts (tried @ [r_step r]) (Some (r_step r)) (r_err r) (es @ r_trace r))
      in if r_panic r then stop
         else if r_err r = Some ErrInterrupted then stop
         else if r_err r \<noteq> None then continue ()
         else (case Succeeded (r_step r) of
                 None \<Rightarrow> stop\<lparr>r_panic := True\<rparr>
               | Some True \<Rightarrow> stop
               | Some False \<Rightarrow> continue ()))"

lemma retry_loop_cong [fundef_cong]:
  "ss = ss' \<Longrightarrow> (\<And>s. s \<in> set ss' \<Longrightarrow> run s = run' s) \<Longrightarrow> tried = tried' \<Longrightarrow> lastAttempt = lastAttempt' \<Longrightarrow> e = e' \<Longrightarrow> es = es' \<Longrightarrow>
     retry_loop run ss tried lastAttempt e es = retry_loop run' ss' tried' lastAttempt' e' es'"
  by (induction ss' arbitrary: ss tried tried' lastAttempt lastAttempt' e e' es es') (auto simp: Let_def split: option.split bool.split)

primrec factory_weight :: "StepFactory \<Rightarrow> nat" where
  "factory_weight Identity = 1"
| "factory_weight (Actions l) = 1"
| "factory_weight (Aggregate i fs) = Suc (sum_list (map factory_weight fs))"
| "factory_weight (Ensure f h) = Suc (factory_weight f + factory_weight h)"
| "factory_weight (OnAbort f h) = Suc (factory_weight f + factory_weight h)"
| "factory_weight (OnFailure f h) = Suc (factory_weight f + factory_weight h)"
| "factory_weight (OnSuccess f h) = Suc (factory_weight f + factory_weight h)"
| "factory_weight (Try f) = Suc (factory_weight f)"
| "factory_weight (Retry fs) = Suc (sum_list (map factory_weight fs))"
| "factory_weight (Timeout i f d) = Suc (factory_weight f)"

primrec step_weight :: "ExecStep \<Rightarrow> nat" where
  "step_weight IdentityStep = 1"
| "step_weight (ActionsStep l b) = 1"
| "step_weight (AggregateStep i ss) = Suc (sum_list (map step_weight ss))"
| "step_weight (EnsureStep h s e) = Suc (step_weight s + factory_weight h)"
| "step_weight (OnAbortStep h s) = Suc (step_weight s + factory_weight h)"
| "step_weight (OnFailureStep h s) = Suc (step_weight s + factory_weight h)"
| "step_weight (OnSuccessStep h s e) = Suc (step_weight s + factory_weight h)"
| "step_weight (TryStep s) = Suc (step_weight s)"
| "step_weight (RetryStep ss l) = Suc (sum_list (map step_weight ss))"
| "step_weight (TimeoutStep i d s t) = Suc (step_weight s)"

lemma Using_weight [simp]: "step_weight (Using f) = factory_weight f"
  by (induction f) (simp_all add: comp_def cong: map_cong)

lemma sum_list_member: "x \<in> set xs \<Longrightarrow> f x \<le> sum_list (map f xs)" for f :: "'x \<Rightarrow> nat"
  by (induction xs) auto

definition append_err :: "goerror option \<Rightarrow> goerror option \<Rightarrow> goerror option" where
  "append_err errors err = (case err of None \<Rightarrow> errors | Some e \<Rightarrow> Some (multierror_Append errors e))"

text \<open>
  The \<open>Run\<close> methods. \<open>r\<close> is the result of the nested step and \<open>q\<close> what the hook's step gives where the method
  runs it.
\<close>

definition IdentityStep_Run :: run_result where [simp]:
  "IdentityStep_Run = \<lparr>r_err = None, r_step = IdentityStep, r_trace = [], r_panic = False\<rparr>"

definition ActionsStep_Run :: "env \<Rightarrow> leaf \<Rightarrow> bool \<Rightarrow> run_result" where [simp]:
  "ActionsStep_Run w l b =
     (let r = actions_loop w (leaf_ID l) (leaf_Actions l) True
      in \<lparr>r_err = a_err r, r_step = ActionsStep l (if a_err r = None then a_succeeded r else b),
          r_trace = a_trace r, r_panic = a_panic r\<rparr>)"

definition AggregateStep_Run :: "env \<Rightarrow> PlanID \<Rightarrow> run_result list \<Rightarrow> run_result" where [simp]:
  "AggregateStep_Run w i rs =
     \<lparr>r_err = (if env_signalled w i \<and> rs \<noteq> [] then Some ErrInterrupted else agg_error (map r_err rs)),
      r_step = AggregateStep i (map r_step rs), r_trace = concat (map r_trace rs), r_panic = list_ex r_panic rs\<rparr>"

definition EnsureStep_Run :: "StepFactory \<Rightarrow> run_result \<Rightarrow> run_result \<Rightarrow> run_result" where [simp]:
  "EnsureStep_Run h r q =
     (let errors = append_err None (r_err r)
      in if r_panic r then r
         else \<lparr>r_err = append_err errors (r_err q), r_step = EnsureStep h (r_step r) (Some (r_step q)),
               r_trace = r_trace r @ r_trace q, r_panic = r_panic q\<rparr>)"

definition OnAbortStep_Run :: "StepFactory \<Rightarrow> run_result \<Rightarrow> run_result \<Rightarrow> run_result" where [simp]:
  "OnAbortStep_Run h r q =
     (if r_panic r then r
      else case r_err r of
        None \<Rightarrow> \<lparr>r_err = None, r_step = OnAbortStep h (r_step r), r_trace = r_trace r, r_panic = False\<rparr>
      | Some e \<Rightarrow>
          let errors = append_err None (Some e)
          in if strings_Contains (err_Error e) (err_Error ErrInterrupted)
             then \<lparr>r_err = append_err errors (r_err q), r_step = OnAbortStep h (r_step r),
                   r_trace = r_trace r @ r_trace q, r_panic = r_panic q\<rparr>
             else \<lparr>r_err = errors, r_step = OnAbortStep h (r_step r), r_trace = r_trace r, r_panic = False\<rparr>)"

definition OnFailureStep_Run :: "StepFactory \<Rightarrow> run_result \<Rightarrow> run_result \<Rightarrow> run_result" where [simp]:
  "OnFailureStep_Run h r q =
     (let same = \<lparr>r_err = r_err r, r_step = OnFailureStep h (r_step r), r_trace = r_trace r, r_panic = r_panic r\<rparr>
      in if r_panic r then same
         else if r_err r \<noteq> None then same
         else (case Succeeded (r_step r) of
                 None \<Rightarrow> same\<lparr>r_panic := True\<rparr>
               | Some True \<Rightarrow> same
               | Some False \<Rightarrow> same\<lparr>r_err := r_err q, r_trace := r_trace r @ r_trace q, r_panic := r_panic q\<rparr>))"

definition OnSuccessStep_Run :: "StepFactory \<Rightarrow> ExecStep option \<Rightarrow> run_result \<Rightarrow> run_result \<Rightarrow> run_result" where [simp]:
  "OnSuccessStep_Run h e r q =
     (let same = \<lparr>r_err = r_err r, r_step = OnSuccessStep h (r_step r) e, r_trace = r_trace r, r_panic = r_panic r\<rparr>
      in if r_panic r then same
         else if r_err r \<noteq> None then same
         else (case Succeeded (r_step r) of
                 None \<Rightarrow> same\<lparr>r_panic := True\<rparr>
               | Some False \<Rightarrow> same
               | Some True \<Rightarrow> \<lparr>r_err = r_err q, r_step = OnSuccessStep h (r_step r) (Some (r_step q)),
                               r_trace = r_trace r @ r_trace q, r_panic = r_panic q\<rparr>))"

definition TryStep_Run :: "run_result \<Rightarrow> run_result" where [simp]:
  "TryStep_Run r =
     r\<lparr>r_err := (if r_err r = Some ErrInterrupted then r_err r else None), r_step := TryStep (r_step r)\<rparr>"

definition TimeoutStep_Run :: "env \<Rightarrow> PlanID \<Rightarrow> string \<Rightarrow> ExecStep \<Rightarrow> bool \<Rightarrow> run_result \<Rightarrow> run_result" where [simp]:
  "TimeoutStep_Run w i d s timedOut r =
     (case ParseDuration d of
        Inl err \<Rightarrow> \<lparr>r_err = Some (OtherError err), r_step = TimeoutStep i d s timedOut, r_trace = [], r_panic = False\<rparr>
      | Inr _ \<Rightarrow>
          let timedOut' = (env_timedOut w i \<or> timedOut)
          in r\<lparr>r_err := (if timedOut' then None else r_err r), r_step := TimeoutStep i d (r_step r) timedOut'\<rparr>)"

function Run :: "env \<Rightarrow> ExecStep \<Rightarrow> run_result" where
  "Run w IdentityStep = IdentityStep_Run"
| "Run w (ActionsStep l b) = ActionsStep_Run w l b"
| "Run w (AggregateStep i ss) = AggregateStep_Run w i (map (Run w) ss)"
| "Run w (EnsureStep h s e) = EnsureStep_Run h (Run w s) (Run w (Using h))"
| "Run w (OnAbortStep h s) = OnAbortStep_Run h (Run w s) (Run w (Using h))"
| "Run w (OnFailureStep h s) = OnFailureStep_Run h (Run w s) (Run w (Using h))"
| "Run w (OnSuccessStep h s e) = OnSuccessStep_Run h e (Run w s) (Run w (Using h))"
| "Run w (TryStep s) = TryStep_Run (Run w s)"
| "Run w (RetryStep ss l) = retry_loop (Run w) ss [] l None []"
| "Run w (TimeoutStep i d s timedOut) = TimeoutStep_Run w i d s timedOut (Run w s)"
  by pat_completeness auto
termination
  by (relation "measure (\<lambda>(w, s). step_weight s)") (auto dest!: sum_list_member [of _ _ step_weight])

end
