(* ===== verification/Exec_Correct.thy ===== *)
theory Exec_Correct
  imports Exec_Steps
begin

text \<open>
  Correctness of the steps of a build: no step panics, whatever the environment does; in an environment
  without interruptions a run refines the verdict a build should have, computed by recursion on the
  description of the step.
\<close>

section \<open>No panics\<close>

text \<open>Every retry has an attempt and every get knows the put it depends on.\<close>

primrec runnable :: "StepFactory \<Rightarrow> bool" where
  "runnable Identity = True"
| "runnable (Actions l) = (\<forall>a \<in> set (leaf_Actions l). \<not> nil_version_source a)"
| "runnable (Aggregate i fs) = list_all runnable fs"
| "runnable (Ensure f h) = (runnable f \<and> runnable h)"
| "runnable (OnAbort f h) = (runnable f \<and> runnable h)"
| "runnable (OnFailure f h) = (runnable f \<and> runnable h)"
| "runnable (OnSuccess f h) = (runnable f \<and> runnable h)"
| "runnable (Try f) = runnable f"
| "runnable (Retry fs) = (fs \<noteq> [] \<and> list_all runnable fs)"
| "runnable (Timeout i f d) = runnable f"

lemma agg_error_None: "agg_error errs = None \<longleftrightarrow> (\<forall>e \<in> set errs. e = None)"
proof -
  have "concat (map (case_option [] (\<lambda>e. [e])) errs) = [] \<longleftrightarrow> (\<forall>e \<in> set errs. e = None)"
    by (induction errs) (auto split: option.split)
  then show ?thesis by (simp add: agg_error_def Let_def)
qed

lemma all_succeeded_Some:
  "\<forall>r \<in> set rs. r \<noteq> None \<Longrightarrow> all_succeeded rs b = Some (b \<and> (\<forall>r \<in> set rs. r = Some True))"
  by (induction rs arbitrary: b) auto

lemma append_err_None [simp]: "append_err errors err = None \<longleftrightarrow> errors = None \<and> err = None"
  by (auto simp: append_err_def split: option.split)

text \<open>What a run promises: no panic, and a step that ends without error knows whether it succeeded.\<close>

definition safe :: "run_result \<Rightarrow> bool" where
  "safe r \<longleftrightarrow> \<not> r_panic r \<and> (r_err r = None \<longrightarrow> Succeeded (r_step r) \<noteq> None)"

lemma retry_loop_safe:
  "(\<And>s. s \<in> set ss \<Longrightarrow> safe (run s)) \<Longrightarrow>
     (ss = [] \<Longrightarrow> attemptErr = None \<longrightarrow> (\<exists>l. lastAttempt = Some l \<and> Succeeded l \<noteq> None)) \<Longrightarrow>
     safe (retry_loop run ss tried lastAttempt attemptErr es)"
proof (induction run ss tried lastAttempt attemptErr es rule: retry_loop.induct)
  case (2 run attempt attempts tried lastAttempt attemptErr es)
  have s: "safe (run attempt)" using "2.prems"(1) by simp
  show ?case
  proof (cases "r_err (run attempt) \<noteq> None \<and> r_err (run attempt) \<noteq> Some ErrInterrupted \<or>
      r_err (run attempt) = None \<and> Succeeded (r_step (run attempt)) = Some False")
    case True
    then have e: "retry_loop run (attempt # attempts) tried lastAttempt attemptErr es =
        retry_loop run attempts (tried @ [r_step (run attempt)]) (Some (r_step (run attempt))) (r_err (run attempt))
          (es @ r_trace (run attempt))"
      using s by (auto simp: Let_def safe_def)
    have "safe (retry_loop run attempts (tried @ [r_step (run attempt)]) (Some (r_step (run attempt)))
        (r_err (run attempt)) (es @ r_trace (run attempt)))"
      using 2 s True by (intro "2.IH"(1) [OF refl refl]) (auto simp: safe_def)
    then show ?thesis unfolding e .
  next
    case False
    then show ?thesis using s by (auto simp: Let_def safe_def split: option.splits bool.splits)
  qed
qed (auto simp: safe_def)

lemma actions_loop_safe: "\<forall>a \<in> set as. \<not> nil_version_source a \<Longrightarrow> \<not> a_panic (actions_loop w i as b)"
  by (induction as arbitrary: b) (auto simp: Let_def split: option.split)

lemma Run_safe: "runnable f \<Longrightarrow> safe (Run w (Using f))"
proof (induction f)
  case (Actions l)
  then show ?case by (simp add: safe_def Let_def actions_loop_safe)
next
  case (Aggregate i fs)
  have s: "safe (Run w (Using f))" if "f \<in> set fs" for f using Aggregate that by (auto simp: list_all_iff)
  have "\<not> list_ex r_panic (map (Run w) (map Using fs))" using s by (auto simp: list_ex_iff safe_def)
  moreover have "all_succeeded (map Succeeded (map r_step (map (Run w) (map Using fs)))) True \<noteq> None"
    if "\<forall>e \<in> set (map r_err (map (Run w) (map Using fs))). e = None"
  proof -
    have "Succeeded (r_step (Run w (Using f))) \<noteq> None" if "f \<in> set fs" for f
      using s [OF that] \<open>\<forall>e \<in> _. e = None\<close> that by (auto simp: safe_def)
    then show ?thesis by (subst all_succeeded_Some) auto
  qed
  ultimately show ?case by (auto simp: safe_def Let_def agg_error_None)
next
  case (Ensure f h)
  then show ?case by (auto simp: safe_def Let_def and_then_def split: option.split bool.split)
next
  case (OnAbort f h)
  then show ?case by (auto simp: safe_def Let_def split: option.split)
next
  case (OnFailure f h)
  then show ?case by (auto simp: safe_def Let_def split: option.split bool.split)
next
  case (OnSuccess f h)
  then show ?case by (auto simp: safe_def Let_def and_then_def split: option.split bool.split)
next
  case (Try f)
  then show ?case by (auto simp: safe_def Let_def)
next
  case (Retry fs)
  then show ?case by (auto simp: list_all_iff intro!: retry_loop_safe)
next
  case (Timeout i f d)
  then show ?case by (auto simp: safe_def Let_def split: sum.split)
qed (simp add: safe_def)

section \<open>The verdict of a step\<close>

text \<open>
  What the outcome of a step should be, by recursion on its description: an error beats a failure and a
  failure beats a success, hooks run when their step has the outcome they wait for, a try succeeds, a retry
  has the outcome of its first success or else of its last attempt, a timed out step has failed.
\<close>

datatype Verdict = VErrored | VFailed | VSucceeded

definition actions_verdict :: "env \<Rightarrow> PlanID \<Rightarrow> exec_action list \<Rightarrow> Verdict" where
  "actions_verdict w i as =
     (if \<exists>a \<in> set as. fst (env_action w i a) \<noteq> None then VErrored
      else if \<forall>a \<in> set as. ExitStatus a (snd (env_action w i a)) = 0 then VSucceeded else VFailed)"

definition all_verdict :: "Verdict list \<Rightarrow> Verdict" where
  "all_verdict vs = (if VErrored \<in> set vs then VErrored else if VFailed \<in> set vs then VFailed else VSucceeded)"

definition retry_verdict :: "Verdict list \<Rightarrow> Verdict" where
  "retry_verdict vs = (if VSucceeded \<in> set vs then VSucceeded else last vs)"

primrec verdict :: "env \<Rightarrow> StepFactory \<Rightarrow> Verdict" where
  "verdict w Identity = VSucceeded"
| "verdict w (Actions l) = actions_verdict w (leaf_ID l) (leaf_Actions l)"
| "verdict w (Aggregate i fs) = all_verdict (map (verdict w) fs)"
| "verdict w (Ensure f h) = all_verdict [verdict w f, verdict w h]"
| "verdict w (OnAbort f h) = verdict w f"
| "verdict w (OnFailure f h) =
     (if verdict w f = VFailed \<and> verdict w h = VErrored then VErrored else verdict w f)"
| "verdict w (OnSuccess f h) = (if verdict w f = VSucceeded then verdict w h else verdict w f)"
| "verdict w (Try f) = VSucceeded"
| "verdict w (Retry fs) = retry_verdict (map (verdict w) fs)"
| "verdict w (Timeout i f d) = (if env_timedOut w i then VFailed else verdict w f)"

text \<open>No interruption reaches the step, except below a timer that has fired.\<close>

primrec calm :: "env \<Rightarrow> StepFactory \<Rightarrow> bool" where
  "calm w Identity = True"
| "calm w (Actions l) =
     (\<forall>a \<in> set (leaf_Actions l). fst (env_action w (leaf_ID l) a) \<notin> {Some ErrInterrupted, Some ErrAborted})"
| "calm w (Aggregate i fs) = (\<not> env_signalled w i \<and> list_all (calm w) fs)"
| "calm w (Ensure f h) = (calm w f \<and> calm w h)"
| "calm w (OnAbort f h) = (calm w f \<and> calm w h)"
| "calm w (OnFailure f h) = (calm w f \<and> calm w h)"
| "calm w (OnSuccess f h) = (calm w f \<and> calm w h)"
| "calm w (Try f) = calm w f"
| "calm w (Retry fs) = list_all (calm w) fs"
| "calm w (Timeout i f d) = (env_timedOut w i \<or> calm w f)"

text \<open>Every timeout has a duration that can be read.\<close>

primrec durations_ok :: "StepFactory \<Rightarrow> bool" where
  "durations_ok Identity = True"
| "durations_ok (Actions l) = True"
| "durations_ok (Aggregate i fs) = list_all durations_ok fs"
| "durations_ok (Ensure f h) = (durations_ok f \<and> durations_ok h)"
| "durations_ok (OnAbort f h) = (durations_ok f \<and> durations_ok h)"
| "durations_ok (OnFailure f h) = (durations_ok f \<and> durations_ok h)"
| "durations_ok (OnSuccess f h) = (durations_ok f \<and> durations_ok h)"
| "durations_ok (Try f) = durations_ok f"
| "durations_ok (Retry fs) = list_all durations_ok fs"
| "durations_ok (Timeout i f d) = (\<not> isl (ParseDuration d) \<and> durations_ok f)"

definition agrees :: "run_result \<Rightarrow> Verdict \<Rightarrow> bool" where
  "agrees r v \<longleftrightarrow> \<not> r_panic r \<and> r_err r \<noteq> Some ErrInterrupted \<and> (r_err r \<noteq> None \<longleftrightarrow> v = VErrored) \<and>
     Succeeded (r_step r) = Some (v = VSucceeded)"

lemma agreesI:
  "\<not> r_panic r \<Longrightarrow> r_err r \<noteq> Some ErrInterrupted \<Longrightarrow> (r_err r \<noteq> None \<longleftrightarrow> v = VErrored) \<Longrightarrow>
     Succeeded (r_step r) = Some (v = VSucceeded) \<Longrightarrow> agrees r v"
  by (simp add: agrees_def)

lemma agreesD:
  assumes "agrees r v"
  shows "\<not> r_panic r" "r_err r \<noteq> Some ErrInterrupted" "r_err r = None \<longleftrightarrow> v \<noteq> VErrored"
    "Succeeded (r_step r) = Some (v = VSucceeded)"
  using assms by (auto simp: agrees_def)

lemma append_err_Some: "(\<exists>e. append_err a b = Some e) \<longleftrightarrow> a \<noteq> None \<or> b \<noteq> None"
  by (auto simp: append_err_def split: option.split)

lemma append_err_not_interrupted [simp]: "append_err None e \<noteq> Some ErrInterrupted"
  "append_err (append_err None e) e' \<noteq> Some ErrInterrupted"
  by (auto simp: append_err_def multierror_Append_def split: option.split)

lemma actions_loop_verdict:
  assumes "\<forall>a \<in> set as. \<not> nil_version_source a"
  shows "a_err (actions_loop w i as b) \<noteq> None \<longleftrightarrow> (\<exists>a \<in> set as. fst (env_action w i a) \<noteq> None)"
    and "a_err (actions_loop w i as b) = None \<Longrightarrow>
      a_succeeded (actions_loop w i as b) = (b \<and> (\<forall>a \<in> set as. ExitStatus a (snd (env_action w i a)) = 0))"
    and "\<forall>a \<in> set as. fst (env_action w i a) \<notin> {Some ErrInterrupted, Some ErrAborted} \<Longrightarrow>
      a_err (actions_loop w i as b) \<noteq> Some ErrInterrupted"
  using assms by (induction as arbitrary: b) (auto simp: Let_def split: option.split if_split_asm)

lemma retry_loop_agrees:
  "fs \<noteq> [] \<Longrightarrow> (\<And>f. f \<in> set fs \<Longrightarrow> agrees (run (g f)) (v f)) \<Longrightarrow>
     agrees (retry_loop run (map g fs) tried l e es) (retry_verdict (map v fs))"
proof (induction fs arbitrary: tried l e es)
  case (Cons a as)
  note a = agreesD [OF Cons.prems(2) [of a, simplified]]
  have tl: "agrees (retry_loop run (map g as) tried' l' e' es') (retry_verdict (map v as))" if "as \<noteq> []" for tried' l' e' es'
    using Cons.IH [OF that] Cons.prems(2) by simp
  show ?case
  proof (cases "v a = VSucceeded")
    case True
    then show ?thesis using a by (auto simp: Let_def agrees_def retry_verdict_def)
  next
    case False
    then have *: "retry_loop run (map g (a # as)) tried l e es =
        retry_loop run (map g as) (tried @ [r_step (run (g a))]) (Some (r_step (run (g a)))) (r_err (run (g a))) (es @ r_trace (run (g a)))"
      using a by (auto simp: Let_def)
    show ?thesis
    proof (cases "as = []")
      case True
      then show ?thesis using False a by (auto simp: * agrees_def retry_verdict_def Let_def)
    next
      case as: False
      have "retry_verdict (map v (a # as)) = retry_verdict (map v as)" using False as by (auto simp: retry_verdict_def)
      then show ?thesis unfolding * using tl [OF as] by simp
    qed
  qed
qed simp

lemma aggregate_agrees:
  assumes "\<And>f. f \<in> set fs \<Longrightarrow> agrees (Run w (Using f)) (v f)" and "\<not> env_signalled w i"
  shows "agrees (Run w (Using (Aggregate i fs))) (all_verdict (map v fs))"
proof (rule agreesI)
  note m = agreesD [OF assms(1)]
  show "\<not> r_panic (Run w (Using (Aggregate i fs)))" using m(1) by (auto simp: Let_def list_ex_iff)
  show "r_err (Run w (Using (Aggregate i fs))) \<noteq> Some ErrInterrupted" using assms(2) by (auto simp: Let_def agg_error_def)
  show "(r_err (Run w (Using (Aggregate i fs))) \<noteq> None) = (all_verdict (map v fs) = VErrored)"
    using m(3) assms(2) by (auto simp: Let_def agg_error_None all_verdict_def image_iff) metis+
  have "all_succeeded (map Succeeded (map r_step (map (Run w) (map Using fs)))) True = Some (\<forall>f \<in> set fs. v f = VSucceeded)"
    by (subst all_succeeded_Some) (auto simp: m(4))
  moreover have "(\<forall>f \<in> set fs. v f = VSucceeded) \<longleftrightarrow> all_verdict (map v fs) = VSucceeded"
    unfolding all_verdict_def set_map image_iff by (auto) (metis Verdict.exhaust Verdict.distinct)+
  ultimately show "Succeeded (r_step (Run w (Using (Aggregate i fs)))) = Some (all_verdict (map v fs) = VSucceeded)"
    by (simp add: Let_def)
qed

lemma ensure_agrees:
  assumes "agrees (Run w (Using f)) v" and "agrees (Run w (Using h)) v'"
  shows "agrees (Run w (Using (Ensure f h))) (all_verdict [v, v'])"
  using agreesD [OF assms(1)] agreesD [OF assms(2)]
  by (cases v; cases v') (simp_all add: agrees_def Let_def all_verdict_def and_then_def)

lemma on_abort_agrees:
  assumes "agrees (Run w (Using f)) v" and "agrees (Run w (Using h)) v'"
  shows "agrees (Run w (Using (OnAbort f h))) v"
  using agreesD [OF assms(1)] agreesD [OF assms(2)]
  by (cases "r_err (Run w (Using f))") (simp_all add: agrees_def Let_def append_err_Some)

lemma on_failure_agrees:
  assumes "agrees (Run w (Using f)) v" and "agrees (Run w (Using h)) v'"
  shows "agrees (Run w (Using (OnFailure f h))) (if v = VFailed \<and> v' = VErrored then VErrored else v)"
  using agreesD [OF assms(1)] agreesD [OF assms(2)]
  by (cases v) (simp_all add: agrees_def Let_def)

lemma on_success_agrees:
  assumes "agrees (Run w (Using f)) v" and "agrees (Run w (Using h)) v'"
  shows "agrees (Run w (Using (OnSuccess f h))) (if v = VSucceeded then v' else v)"
  using agreesD [OF assms(1)] agreesD [OF assms(2)]
  by (cases v) (simp_all add: agrees_def Let_def and_then_def)

lemma actions_agrees:
  assumes "runnable (Actions l)" and "calm w (Actions l)"
  shows "agrees (Run w (Using (Actions l))) (verdict w (Actions l))"
proof (rule agreesI)
  let ?r = "actions_loop w (leaf_ID l) (leaf_Actions l) True"
  have n: "\<forall>a \<in> set (leaf_Actions l). \<not> nil_version_source a" using assms(1) by simp
  note a = actions_loop_verdict [OF n, of w "leaf_ID l" True]
  show "\<not> r_panic (Run w (Using (Actions l)))" using n by (simp add: Let_def actions_loop_safe)
  show "r_err (Run w (Using (Actions l))) \<noteq> Some ErrInterrupted" using a(3) assms(2) by (simp add: Let_def)
  show "(r_err (Run w (Using (Actions l))) \<noteq> None) = (verdict w (Actions l) = VErrored)"
    using a(1) by (simp add: Let_def actions_verdict_def)
  show "Succeeded (r_step (Run w (Using (Actions l)))) = Some (verdict w (Actions l) = VSucceeded)"
    using a(1,2) by (simp add: Let_def actions_verdict_def)
qed

lemma Run_agrees:
  "runnable f \<Longrightarrow> durations_ok f \<Longrightarrow> calm w f \<Longrightarrow> agrees (Run w (Using f)) (verdict w f)"
proof (induction f)
  case Identity
  then show ?case by (simp add: agrees_def)
next
  case (Actions l)
  then show ?case by (intro actions_agrees)
next
  case (Aggregate i fs)
  then have "agrees (Run w (Using f)) (verdict w f)" if "f \<in> set fs" for f using that by (auto simp: list_all_iff)
  then show ?case using Aggregate.prems unfolding verdict.simps by (intro aggregate_agrees) simp_all
next
  case (Ensure f h)
  then have "agrees (Run w (Using f)) (verdict w f)" "agrees (Run w (Using h)) (verdict w h)" by simp_all
  then show ?case unfolding verdict.simps by (rule ensure_agrees)
next
  case (OnAbort f h)
  then have "agrees (Run w (Using f)) (verdict w f)" "agrees (Run w (Using h)) (verdict w h)" by simp_all
  then show ?case unfolding verdict.simps by (rule on_abort_agrees)
next
  case (OnFailure f h)
  then have "agrees (Run w (Using f)) (verdict w f)" "agrees (Run w (Using h)) (verdict w h)" by simp_all
  then show ?case unfolding verdict.simps by (rule on_failure_agrees)
next
  case (OnSuccess f h)
  then have "agrees (Run w (Using f)) (verdict w f)" "agrees (Run w (Using h)) (verdict w h)" by simp_all
  then show ?case unfolding verdict.simps by (rule on_success_agrees)
next
  case (Try f)
  then show ?case by (simp add: agrees_def Let_def)
next
  case (Retry fs)
  then have "agrees (retry_loop (Run w) (map Using fs) [] None None []) (retry_verdict (map (verdict w) fs))"
    by (intro retry_loop_agrees) (simp_all add: list_all_iff)
  then show ?case by simp
next
  case (Timeout i f d)
  obtain n where d: "ParseDuration d = Inr n" using Timeout.prems(2) by (cases "ParseDuration d") auto
  show ?case
  proof (cases "env_timedOut w i")
    case True
    then show ?thesis using Run_safe [of f w] Timeout.prems(1) by (simp add: agrees_def Let_def safe_def d)
  next
    case False
    then show ?thesis using Timeout by (simp add: agrees_def Let_def d)
  qed
qed

section \<open>Theorems\<close>

text \<open>A put step and an environment in which every action succeeds but for two of them.\<close>

definition sample_leaf :: "PlanID \<Rightarrow> leaf" where
  "sample_leaf i =
     \<lparr>leaf_ID = i,
      leaf_Actions = [PutAction \<lparr>pp_Type = ''git'', pp_Name = ''repo'', pp_Resource = ''repo'', pp_Source = [],
        pp_Params = [], pp_Tags = [], pp_VersionedResourceTypes = []\<rparr>],
      leaf_Type = ContainerTypePut, leaf_StepName = ''repo'', leaf_Attempt = []\<rparr>"

definition sample_env :: "goerror option \<Rightarrow> env" where
  "sample_env err =
     \<lparr>env_action = (\<lambda>i a. if i = ''1'' then (None, 1) else if i = ''2'' then (err, 0) else (None, 0)),
      env_timedOut = (\<lambda>i. False), env_signalled = (\<lambda>i. False)\<rparr>"

definition sample_factory :: StepFactory where
  "sample_factory =
     Ensure (OnFailure (OnSuccess (Timeout ''9'' (Retry [Actions (sample_leaf ''1''), Actions (sample_leaf ''3'')]) ''1h'')
         (Aggregate ''8'' [Actions (sample_leaf ''2''), Actions (sample_leaf ''4'')]))
       (Actions (sample_leaf ''5''))) (Try (Actions (sample_leaf ''2'')))"

lemma sample_factory_ok: "runnable sample_factory" "durations_ok sample_factory"
  by (simp add: sample_factory_def sample_leaf_def, code_simp)

text \<open>
  C17. The steps of a build do what the build description asks for: a run without interruptions ends in an
  error exactly when the verdict is an error and has succeeded exactly when the verdict is a success. The
  verdict is defined by recursion on the description: an error beats a failure, hooks run on the outcome
  they wait for, a try hides errors and failures, a retry has the outcome of its first success or of its
  last attempt, and a step whose timer fired has failed.
\<close>

theorem Run_refines_verdict:
  assumes "runnable f" and "durations_ok f" and "calm w f"
  shows "(r_err (Run w (Using f)) \<noteq> None \<longleftrightarrow> verdict w f = VErrored) \<and>
    Succeeded (r_step (Run w (Using f))) = Some (verdict w f = VSucceeded)"
  using agreesD [OF Run_agrees [OF assms]] by simp

theorem Run_refines_verdict_witness:
  "r_err (Run (sample_env (Some (OtherError ''disk full''))) (Using sample_factory)) \<noteq> None \<and>
   Succeeded (r_step (Run (sample_env None) (Using sample_factory))) = Some True"
proof -
  have v: "verdict (sample_env (Some (OtherError ''disk full''))) sample_factory = VErrored"
    "verdict (sample_env None) sample_factory = VSucceeded"
    by (simp_all add: sample_factory_def sample_env_def sample_leaf_def actions_verdict_def all_verdict_def retry_verdict_def)
  have "calm (sample_env (Some (OtherError ''disk full''))) sample_factory" "calm (sample_env None) sample_factory"
    by (simp_all add: sample_factory_def sample_env_def sample_leaf_def)
  then show ?thesis
    using Run_refines_verdict [OF sample_factory_ok, of "sample_env (Some (OtherError ''disk full''))"]
      Run_refines_verdict [OF sample_factory_ok, of "sample_env None"] v by simp
qed

text \<open>
  C18. No step panics, whatever the actions return, whichever timers fire and whichever steps are
  interrupted, provided every retry has an attempt and every get knows the put it depends on; and a run that
  ends without error leaves a step whose success can be asked for.
\<close>

theorem Run_never_panics:
  assumes "runnable f"
  shows "\<not> r_panic (Run w (Using f)) \<and> (r_err (Run w (Using f)) = None \<longrightarrow> Succeeded (r_step (Run w (Using f))) \<noteq> None)"
  using Run_safe [OF assms, of w] by (simp add: safe_def)

theorem Run_never_panics_witness:
  "\<not> r_panic (Run (sample_env (Some ErrInterrupted)) (Using sample_factory))"
  using Run_never_panics [OF sample_factory_ok(1), of "sample_env (Some ErrInterrupted)"] by simp


end
