(* ===== verification/Engine.thy ===== *)
theory Engine
  imports Exec_Correct
begin

text \<open>
  \<open>engine/build_step.go\<close> and \<open>engine/exec_engine.go\<close>: the steps of a build from its plan, and the loop
  that waits for the build to end and records its status.

  The plan's \<open>Attempts\<close> field, which every caller overwrites in its copy of the nested plan, is an argument.
  The map of put actions of the step factory is threaded through as the list of the plan ids in it. A step
  is identified by the id of its plan.
\<close>

section \<open>Leaf steps\<close>

definition containerMetadata_Attempt :: "int list \<Rightarrow> string" where
  "containerMetadata_Attempt attempts = strings_Join (map itoa attempts) ''.''"

definition putActions_lookup :: "PlanID list \<Rightarrow> PlanID \<Rightarrow> PlanID option" where
  "putActions_lookup puts k = (if k \<in> set puts then Some k else None)"

definition NewVersionSourceFromPlan :: "GetPlan \<Rightarrow> PlanID list \<Rightarrow> VersionSource" where
  "NewVersionSourceFromPlan getPlan putActions =
     (case gp_Version getPlan of
        Some v \<Rightarrow> StaticVersionSource v
      | None \<Rightarrow>
          (case gp_VersionFrom getPlan of
             Some k \<Rightarrow> PutActionVersionSource (putActions_lookup putActions k)
           | None \<Rightarrow> EmptyVersionSource))"

definition buildTaskStep :: "PlanID \<Rightarrow> TaskPlan \<Rightarrow> int list \<Rightarrow> StepFactory" where
  "buildTaskStep i p attempts = Actions
     \<lparr>leaf_ID = i, leaf_Actions = [FetchConfigAction p, TaskAction p], leaf_Type = ContainerTypeTask,
      leaf_StepName = tp_Name p, leaf_Attempt = containerMetadata_Attempt attempts\<rparr>"

definition buildGetStep :: "PlanID \<Rightarrow> GetPlan \<Rightarrow> int list \<Rightarrow> PlanID list \<Rightarrow> StepFactory" where
  "buildGetStep i p attempts putActions = Actions
     \<lparr>leaf_ID = i, leaf_Actions = [GetAction p (NewVersionSourceFromPlan p putActions)], leaf_Type = ContainerTypeGet,
      leaf_StepName = gp_Name p, leaf_Attempt = containerMetadata_Attempt attempts\<rparr>"

definition buildPutStep :: "PlanID \<Rightarrow> PutPlan \<Rightarrow> int list \<Rightarrow> StepFactory" where
  "buildPutStep i p attempts = Actions
     \<lparr>leaf_ID = i, leaf_Actions = [PutAction p], leaf_Type = ContainerTypePut,
      leaf_StepName = pp_Name p, leaf_Attempt = containerMetadata_Attempt attempts\<rparr>"

section \<open>Composite steps\<close>

type_synonym builder = "Plan \<Rightarrow> int list \<Rightarrow> PlanID list \<Rightarrow> StepFactory \<times> PlanID list"

fun buildAggregateStep :: "builder \<Rightarrow> Plan list \<Rightarrow> int list \<Rightarrow> PlanID list \<Rightarrow> StepFactory list \<Rightarrow>
    StepFactory list \<times> PlanID list" where
  "buildAggregateStep build [] attempts puts step = (step, puts)"
| "buildAggregateStep build (innerPlan # plans) attempts puts step =
     (case build innerPlan attempts puts of
        (stepFactory, puts') \<Rightarrow> buildAggregateStep build plans attempts puts' (step @ [stepFactory]))"

text \<open>The loop over the index from the last plan to the first, as a loop over the reversed list.\<close>

fun buildDoStep :: "builder \<Rightarrow> Plan list \<Rightarrow> int list \<Rightarrow> PlanID list \<Rightarrow> StepFactory \<Rightarrow> StepFactory \<times> PlanID list" where
  "buildDoStep build [] attempts puts step = (step, puts)"
| "buildDoStep build (innerPlan # plans) attempts puts step =
     (case build innerPlan attempts puts of
        (previous, puts') \<Rightarrow> buildDoStep build plans attempts puts' (OnSuccess previous step))"

fun buildRetryStep :: "builder \<Rightarrow> Plan list \<Rightarrow> int list \<Rightarrow> int \<Rightarrow> PlanID list \<Rightarrow> StepFactory list \<Rightarrow>
    StepFactory list \<times> PlanID list" where
  "buildRetryStep build [] attempts index puts step = (step, puts)"
| "buildRetryStep build (innerPlan # plans) attempts index puts step =
     (case build innerPlan (attempts @ [index + 1]) puts of
        (stepFactory, puts') \<Rightarrow> buildRetryStep build plans attempts (index + 1) puts' (step @ [stepFactory]))"

definition buildTimeoutStep :: "PlanID \<Rightarrow> string \<Rightarrow> StepFactory \<times> PlanID list \<Rightarrow> StepFactory \<times> PlanID list" where [simp]:
  "buildTimeoutStep i d inner = (Timeout i (fst inner) d, snd inner)"

definition buildTryStep :: "StepFactory \<times> PlanID list \<Rightarrow> StepFactory \<times> PlanID list" where [simp]:
  "buildTryStep inner = (Try (fst inner), snd inner)"

text \<open>The steps with two nested plans build the step and then its hook.\<close>

definition build_pair :: "builder \<Rightarrow> (StepFactory \<Rightarrow> StepFactory \<Rightarrow> StepFactory) \<Rightarrow> Plan \<Rightarrow> Plan \<Rightarrow> int list \<Rightarrow>
    PlanID list \<Rightarrow> StepFactory \<times> PlanID list" where
  "build_pair build mk s n attempts puts =
     (case build s attempts puts of (step, puts') \<Rightarrow>
      case build n attempts puts' of (next, puts'') \<Rightarrow> (mk step next, puts''))"

lemma buildAggregateStep_cong [fundef_cong]:
  "ps = ps' \<Longrightarrow> (\<And>p a u. p \<in> set ps' \<Longrightarrow> build p a u = build' p a u) \<Longrightarrow> at = at' \<Longrightarrow> puts = puts' \<Longrightarrow> st = st' \<Longrightarrow>
     buildAggregateStep build ps at puts st = buildAggregateStep build' ps' at' puts' st'"
  by (induction ps' arbitrary: ps puts puts' st st') (auto split: prod.split)

lemma buildDoStep_cong [fundef_cong]:
  "ps = ps' \<Longrightarrow> (\<And>p a u. p \<in> set ps' \<Longrightarrow> build p a u = build' p a u) \<Longrightarrow> at = at' \<Longrightarrow> puts = puts' \<Longrightarrow> st = st' \<Longrightarrow>
     buildDoStep build ps at puts st = buildDoStep build' ps' at' puts' st'"
  by (induction ps' arbitrary: ps puts puts' st st') (auto split: prod.split)

lemma buildRetryStep_cong [fundef_cong]:
  "ps = ps' \<Longrightarrow> (\<And>p a u. p \<in> set ps' \<Longrightarrow> build p a u = build' p a u) \<Longrightarrow> at = at' \<Longrightarrow> k = k' \<Longrightarrow> puts = puts' \<Longrightarrow>
     st = st' \<Longrightarrow> buildRetryStep build ps at k puts st = buildRetryStep build' ps' at' k' puts' st'"
  by (induction ps' arbitrary: ps k k' puts puts' st st') (auto split: prod.split)

lemma build_pair_cong [fundef_cong]:
  "s = s' \<Longrightarrow> n = n' \<Longrightarrow> at = at' \<Longrightarrow> puts = puts' \<Longrightarrow> mk = mk' \<Longrightarrow> (\<And>p a u. p = s' \<or> p = n' \<Longrightarrow> build p a u = build' p a u) \<Longrightarrow>
     build_pair build mk s n at puts = build_pair build' mk' s' n' at' puts'"
  by (auto simp: build_pair_def split: prod.split)

text \<open>The step that the checks of \<open>buildStepFactory\<close> find first; a plan with no step is the identity.\<close>

definition first_step :: "Plan \<Rightarrow> Step option" where
  "first_step p =
     (if p_Aggregate p \<noteq> None then map_option StepAggregate (p_Aggregate p)
      else if p_Do p \<noteq> None then map_option StepDo (p_Do p)
      else if p_Timeout p \<noteq> None then map_option StepTimeout (p_Timeout p)
      else if p_Try p \<noteq> None then map_option StepTry (p_Try p)
      else if p_OnAbort p \<noteq> None then map_option StepOnAbort (p_OnAbort p)
      else if p_OnSuccess p \<noteq> None then map_option StepOnSuccess (p_OnSuccess p)
      else if p_OnFailure p \<noteq> None then map_option StepOnFailure (p_OnFailure p)
      else if p_Ensure p \<noteq> None then map_option StepEnsure (p_Ensure p)
      else if p_Task p \<noteq> None then map_option StepTask (p_Task p)
      else if p_Get p \<noteq> None then map_option StepGet (p_Get p)
      else if p_Put p \<noteq> None then map_option StepPut (p_Put p)
      else if p_Retry p \<noteq> None then map_option StepRetry (p_Retry p)
      else None)"

lemma first_step_kids: "first_step p = Some st \<Longrightarrow> q \<in> set (step_kids st) \<Longrightarrow> q \<in> set (plan_kids p)"
  by (auto simp: first_step_def plan_kids_def split: if_splits)

function buildStepFactory :: builder where
  "buildStepFactory p attempts puts =
     (case first_step p of
        None \<Rightarrow> (Identity, puts)
      | Some (StepAggregate ps) \<Rightarrow>
          (case buildAggregateStep buildStepFactory ps attempts puts [] of
             (fs, puts') \<Rightarrow> (Aggregate (p_ID p) fs, puts'))
      | Some (StepDo ps) \<Rightarrow> buildDoStep buildStepFactory (rev ps) attempts puts Identity
      | Some (StepTimeout t) \<Rightarrow>
          buildTimeoutStep (p_ID p) (timeout_Duration t) (buildStepFactory (timeout_Step t) attempts puts)
      | Some (StepTry t) \<Rightarrow> buildTryStep (buildStepFactory (try_Step t) attempts puts)
      | Some (StepOnAbort h) \<Rightarrow>
          build_pair buildStepFactory OnAbort (onabort_Step h) (onabort_Next h) attempts puts
      | Some (StepOnSuccess h) \<Rightarrow>
          build_pair buildStepFactory OnSuccess (onsuccess_Step h) (onsuccess_Next h) attempts puts
      | Some (StepOnFailure h) \<Rightarrow>
          build_pair buildStepFactory OnFailure (onfailure_Step h) (onfailure_Next h) attempts puts
      | Some (StepEnsure h) \<Rightarrow>
          build_pair buildStepFactory Ensure (ensure_Step h) (ensure_Next h) attempts puts
      | Some (StepTask t) \<Rightarrow> (buildTaskStep (p_ID p) t attempts, puts)
      | Some (StepGet g) \<Rightarrow> (buildGetStep (p_ID p) g attempts puts, puts)
      | Some (StepPut q) \<Rightarrow> (buildPutStep (p_ID p) q attempts, List.insert (p_ID p) puts)
      | Some (StepRetry ps) \<Rightarrow>
          (case buildRetryStep buildStepFactory ps attempts 0 puts [] of (fs, puts') \<Rightarrow> (Retry fs, puts'))
      | Some (StepDependentGet d) \<Rightarrow> (Identity, puts))"
  by pat_completeness auto
termination
  by (relation "measure (\<lambda>(p, _). size p)") (auto intro!: kids_size intro: first_step_kids)

declare buildStepFactory.simps [simp del]

section \<open>Resuming a build\<close>

text \<open>
  The events that \<open>Resume\<close> waits for, in the order they arrive: the engine is released, the process exits,
  or the build is sent a signal, \<open>os.Kill\<close> or another one.
\<close>

datatype resume_event = Released | Exited | Signalled bool

datatype resume_outcome =
    Waiting
  | Detached
  | Finished "goerror option" bool bool
  | Panicked

fun resume_loop :: "run_result \<Rightarrow> bool \<Rightarrow> resume_event list \<Rightarrow> resume_outcome" where
  "resume_loop r aborted [] = Waiting"
| "resume_loop r aborted (Released # es) = Detached"
| "resume_loop r aborted (Exited # es) =
     (if r_panic r then Panicked
      else if aborted then Finished (r_err r) False True
      else (case Succeeded (r_step r) of None \<Rightarrow> Panicked | Some b \<Rightarrow> Finished (r_err r) b False))"
| "resume_loop r aborted (Signalled kill # es) = resume_loop r (aborted \<or> kill) es"

definition Resume :: "env \<Rightarrow> PlanID list \<Rightarrow> Plan \<Rightarrow> resume_event list \<Rightarrow> resume_outcome" where
  "Resume w puts plan es =
     (let stepFactory = fst (buildStepFactory plan (p_Attempts plan) puts);
          source = Using stepFactory
      in resume_loop (Run w source) False es)"


end
