(* ===== verification/Delegate.thy ===== *)
theory Delegate
  imports Engine "HOL-Library.AList"
begin

text \<open>
  \<open>engine/db_actions_build_events_delegate.go\<close>, \<open>engine/exec_engine_build_delegate.go\<close> and the repository of
  implicit outputs of \<open>engine/build_step_delegate.go\<close>: what a build writes to the database when an action
  ends and when the build ends. The database is an argument that says which calls succeed; the calls are
  recorded in order. A failed call is logged, and only ends the handler where the code returns.
\<close>

section \<open>Implicit outputs\<close>

record VersionInfo =
  vi_Version :: AtcVersion
  vi_Metadata :: "(string \<times> string) list"

record implicitOutput =
  io_resourceType :: string
  io_info :: VersionInfo

type_synonym implicitOutputsRepo = "(string \<times> implicitOutput) list"

definition Register :: "implicitOutputsRepo \<Rightarrow> string \<Rightarrow> implicitOutput \<Rightarrow> implicitOutputsRepo" where
  "Register outputs resource output = AList.update resource output outputs"

definition Unregister :: "implicitOutputsRepo \<Rightarrow> string \<Rightarrow> implicitOutputsRepo" where
  "Unregister outputs resource = AList.delete resource outputs"

section \<open>Calls to the database\<close>

datatype build_event =
    FinishTask int int PlanID
  | FinishGet PlanID string string string AtcVersion int AtcVersion "(string \<times> string) list"
  | FinishPut PlanID string string string int AtcVersion "(string \<times> string) list"
  | ErrorEvent string PlanID

datatype db_call =
    SaveEvent build_event
  | SaveInput string VersionedResource
  | SaveOutput VersionedResource bool
  | FinishBuild BuildStatus

record delegate =
  d_outputs :: implicitOutputsRepo
  d_calls :: "db_call list"

definition newBuildDelegate :: delegate where
  "newBuildDelegate = \<lparr>d_outputs = [], d_calls = []\<rparr>"

definition call :: "delegate \<Rightarrow> db_call \<Rightarrow> delegate" where
  "call d c = d\<lparr>d_calls := d_calls d @ [c]\<rparr>"

text \<open>
  The world the handlers ask: whether a call to the database succeeds, the version information the action of
  a plan ended with, and the time.
\<close>

record delegate_env =
  de_ok :: "db_call \<Rightarrow> bool"
  de_info :: "PlanID \<Rightarrow> VersionInfo"
  de_now :: int

definition GetVersion :: "(PlanID \<Rightarrow> VersionInfo) \<Rightarrow> VersionSource \<Rightarrow> goerror + AtcVersion" where
  "GetVersion info source =
     (case source of
        StaticVersionSource v \<Rightarrow> Inr v
      | PutActionVersionSource (Some k) \<Rightarrow>
          (if vi_Version (info k) = None then Inl (OtherError ''version is missing from put action'')
           else Inr (vi_Version (info k)))
      | PutActionVersionSource None \<Rightarrow> Inl (OtherError ''runtime error: invalid memory address or nil pointer dereference'')
      | EmptyVersionSource \<Rightarrow> Inr (Some []))"

section \<open>The end of an action\<close>

definition completed_get :: "delegate_env \<Rightarrow> PlanID \<Rightarrow> GetPlan \<Rightarrow> VersionSource \<Rightarrow> int \<Rightarrow> delegate \<Rightarrow> delegate" where
  "completed_get de i a source exitStatus d =
     (let versionInfo = de_info de i;
          d = (if exitStatus = 0
               then let d = call d (SaveInput (gp_Name a)
                          \<lparr>vr_Resource = gp_Resource a, vr_Type = gp_Type a, vr_Version = vi_Version versionInfo,
                           vr_Metadata = vi_Metadata versionInfo\<rparr>)
                    in d\<lparr>d_outputs := Register (d_outputs d) (gp_Resource a)
                           \<lparr>io_resourceType = gp_Type a, io_info = versionInfo\<rparr>\<rparr>
               else d)
      in case GetVersion (de_info de) source of
           Inl e \<Rightarrow> d
         | Inr version \<Rightarrow>
             call d (SaveEvent (FinishGet i (gp_Name a) (gp_Resource a) (gp_Type a) version exitStatus
               (vi_Version versionInfo) (vi_Metadata versionInfo))))"

definition completed_put :: "delegate_env \<Rightarrow> PlanID \<Rightarrow> PutPlan \<Rightarrow> int \<Rightarrow> delegate \<Rightarrow> delegate" where
  "completed_put de i a exitStatus d =
     (let d = d\<lparr>d_outputs := Unregister (d_outputs d) (pp_Resource a)\<rparr>;
          versionInfo = de_info de i;
          ev = SaveEvent (FinishPut i (pp_Name a) (pp_Resource a) (pp_Type a) exitStatus
                 (vi_Version versionInfo) (vi_Metadata versionInfo));
          d = call d ev
      in if \<not> de_ok de ev then d
         else if exitStatus = 0
         then call d (SaveOutput
                \<lparr>vr_Resource = pp_Resource a, vr_Type = pp_Type a, vr_Version = vi_Version versionInfo,
                 vr_Metadata = vi_Metadata versionInfo\<rparr> True)
         else d)"

fun ActionCompleted_handler :: "delegate_env \<Rightarrow> PlanID \<Rightarrow> exec_action \<Rightarrow> int \<Rightarrow> delegate \<Rightarrow> delegate" where
  "ActionCompleted_handler de i (TaskAction a) exitStatus d = call d (SaveEvent (FinishTask exitStatus (de_now de) i))"
| "ActionCompleted_handler de i (GetAction a source) exitStatus d = completed_get de i a source exitStatus d"
| "ActionCompleted_handler de i (PutAction a) exitStatus d = completed_put de i a exitStatus d"
| "ActionCompleted_handler de i (FetchConfigAction a) exitStatus d = d"

definition Failed_handler :: "PlanID \<Rightarrow> goerror \<Rightarrow> delegate \<Rightarrow> delegate" where
  "Failed_handler i errVal d = call d (SaveEvent (ErrorEvent (err_Error errVal) i))"

text \<open>The handlers run as the trace of the steps is written.\<close>

fun handle :: "delegate_env \<Rightarrow> exec_event \<Rightarrow> delegate \<Rightarrow> delegate" where
  "handle de (ActionRun i a) d = d"
| "handle de (ActionCompleted i a n) d = ActionCompleted_handler de i a n d"
| "handle de (ActionFailed i e) d = Failed_handler i e d"

section \<open>The end of the build\<close>

definition saveImplicitOutput :: "string \<times> implicitOutput \<Rightarrow> db_call" where
  "saveImplicitOutput ro =
     SaveOutput \<lparr>vr_Resource = fst ro, vr_Type = io_resourceType (snd ro), vr_Version = vi_Version (io_info (snd ro)),
                 vr_Metadata = vi_Metadata (io_info (snd ro))\<rparr> False"

definition Finish :: "goerror option \<Rightarrow> bool \<Rightarrow> bool \<Rightarrow> delegate \<Rightarrow> delegate" where
  "Finish err succeeded aborted d =
     (if aborted then call d (FinishBuild StatusAborted)
      else if err \<noteq> None then call d (FinishBuild StatusErrored)
      else if succeeded
      then fold (\<lambda>ro d. call d (saveImplicitOutput ro)) (d_outputs d) (call d (FinishBuild StatusSucceeded))
      else call d (FinishBuild StatusFailed))"

text \<open>A whole build: the handlers on the trace of its steps, and \<open>Finish\<close> when \<open>Resume\<close> reaches it.\<close>

definition run_build :: "env \<Rightarrow> delegate_env \<Rightarrow> PlanID list \<Rightarrow> Plan \<Rightarrow> resume_event list \<Rightarrow> delegate" where
  "run_build w de puts plan es =
     (let r = Run w (Using (fst (buildStepFactory plan (p_Attempts plan) puts)));
          d = fold (handle de) (r_trace r) newBuildDelegate
      in case Resume w puts plan es of
           Finished err succeeded aborted \<Rightarrow> Finish err succeeded aborted d
         | _ \<Rightarrow> d)"

end
