(* ===== verification/Build_Factory.thy ===== *)
theory Build_Factory
  imports Plan_Data
begin

text \<open>
  \<open>scheduler/factory/build_factory.go\<close>: the plan of a build from the configuration of its job. The
  functions of the file call each other recursively through \<open>constructPlanFromConfig\<close>; here they take it
  as their first argument and \<open>constructPlanFromConfig\<close> ties the knot, by recursion on the nesting of the
  plan config. All of them run in the plan factory, whose counter advances even when an error follows.
\<close>

section \<open>Definitions\<close>

record JobBuildInput =
  bin_Name :: string
  bin_Resource :: string
  bin_Type :: string
  bin_Version :: AtcVersion
  bin_Metadata :: "(string \<times> string) list"
  bin_FirstOccurrence :: bool

type_synonym constructor =
  "PlanConfig \<Rightarrow> ResourceConfig list \<Rightarrow> VersionedResourceType list \<Rightarrow> JobBuildInput list \<Rightarrow> Plan factory"

record constructionParams =
  cp_plan :: Plan
  cp_hooks :: Hooks
  cp_resources :: "ResourceConfig list"
  cp_resourceTypes :: "VersionedResourceType list"
  cp_inputs :: "JobBuildInput list"

definition successIfPresent :: "constructor \<Rightarrow> constructionParams \<Rightarrow> constructionParams factory" where
  "successIfPresent construct cp =
     (case hook_Success (cp_hooks cp) of
        None \<Rightarrow> f_return cp
      | Some c \<Rightarrow>
          f_bind (construct c (cp_resources cp) (cp_resourceTypes cp) (cp_inputs cp)) (\<lambda>nextPlan.
          f_bind (NewPlan (StepOnSuccess (OnSuccessPlan (cp_plan cp) nextPlan))) (\<lambda>plan.
          f_return (cp\<lparr>cp_plan := plan\<rparr>))))"

definition failureIfPresent :: "constructor \<Rightarrow> constructionParams \<Rightarrow> constructionParams factory" where
  "failureIfPresent construct cp =
     (case hook_Failure (cp_hooks cp) of
        None \<Rightarrow> f_return cp
      | Some c \<Rightarrow>
          f_bind (construct c (cp_resources cp) (cp_resourceTypes cp) (cp_inputs cp)) (\<lambda>nextPlan.
          f_bind (NewPlan (StepOnFailure (OnFailurePlan (cp_plan cp) nextPlan))) (\<lambda>plan.
          f_return (cp\<lparr>cp_plan := plan\<rparr>))))"

definition ensureIfPresent :: "constructor \<Rightarrow> constructionParams \<Rightarrow> constructionParams factory" where
  "ensureIfPresent construct cp =
     (case hook_Ensure (cp_hooks cp) of
        None \<Rightarrow> f_return cp
      | Some c \<Rightarrow>
          f_bind (construct c (cp_resources cp) (cp_resourceTypes cp) (cp_inputs cp)) (\<lambda>nextPlan.
          f_bind (NewPlan (StepEnsure (EnsurePlan (cp_plan cp) nextPlan))) (\<lambda>plan.
          f_return (cp\<lparr>cp_plan := plan\<rparr>))))"

definition abortIfPresent :: "constructor \<Rightarrow> constructionParams \<Rightarrow> constructionParams factory" where
  "abortIfPresent construct cp =
     (case hook_Abort (cp_hooks cp) of
        None \<Rightarrow> f_return cp
      | Some c \<Rightarrow>
          f_bind (construct c (cp_resources cp) (cp_resourceTypes cp) (cp_inputs cp)) (\<lambda>nextPlan.
          f_bind (NewPlan (StepOnAbort (OnAbortPlan (cp_plan cp) nextPlan))) (\<lambda>plan.
          f_return (cp\<lparr>cp_plan := plan\<rparr>))))"

definition applyHooks :: "constructor \<Rightarrow> constructionParams \<Rightarrow> Plan factory" where
  "applyHooks construct cp =
     f_bind (abortIfPresent construct cp) (\<lambda>cp.
     f_bind (failureIfPresent construct cp) (\<lambda>cp.
     f_bind (successIfPresent construct cp) (\<lambda>cp.
     f_bind (ensureIfPresent construct cp) (\<lambda>cp.
     f_return (cp_plan cp)))))"

definition factory_do ::
    "constructor \<Rightarrow> PlanSequence \<Rightarrow> ResourceConfig list \<Rightarrow> VersionedResourceType list \<Rightarrow> JobBuildInput list \<Rightarrow> Plan factory" where
  "factory_do construct planSequence resources resourceTypes inputs =
     f_bind (f_each (\<lambda>planConfig. construct planConfig resources resourceTypes inputs) planSequence) (\<lambda>do.
     NewPlan (StepDo do))"

fun input_version :: "JobBuildInput list \<Rightarrow> string \<Rightarrow> AtcVersion" where
  "input_version [] name = None"
| "input_version (input # inputs) name = (if bin_Name input = name then bin_Version input else input_version inputs name)"

definition construct_put ::
    "PlanConfig \<Rightarrow> ResourceConfig list \<Rightarrow> VersionedResourceType list \<Rightarrow> Plan factory" where
  "construct_put planConfig resources resourceTypes =
     (let logicalName = plan_Put planConfig;
          resourceName = (if plan_Resource planConfig = [] then logicalName else plan_Resource planConfig)
      in case ResourceConfigs_Lookup resources resourceName of
           None \<Rightarrow> f_fail ErrResourceNotFound
         | Some resource \<Rightarrow>
             f_bind (NewPlan (StepPut
               \<lparr>pp_Type = resource_Type resource, pp_Name = logicalName, pp_Resource = resourceName,
                pp_Source = resource_Source resource, pp_Params = plan_Params planConfig,
                pp_Tags = plan_Tags planConfig, pp_VersionedResourceTypes = resourceTypes\<rparr>)) (\<lambda>putPlan.
             f_bind (NewPlan (StepGet
               \<lparr>gp_Type = resource_Type resource, gp_Name = logicalName, gp_Resource = resourceName,
                gp_Source = resource_Source resource, gp_Params = plan_GetParams planConfig,
                gp_Version = None, gp_VersionFrom = Some (p_ID putPlan), gp_Tags = plan_Tags planConfig,
                gp_VersionedResourceTypes = resourceTypes\<rparr>)) (\<lambda>dependentGetPlan.
             NewPlan (StepOnSuccess (OnSuccessPlan putPlan dependentGetPlan)))))"

definition construct_get ::
    "PlanConfig \<Rightarrow> ResourceConfig list \<Rightarrow> VersionedResourceType list \<Rightarrow> JobBuildInput list \<Rightarrow> Plan factory" where
  "construct_get planConfig resources resourceTypes inputs =
     (let resourceName = (if plan_Resource planConfig = [] then plan_Get planConfig else plan_Resource planConfig)
      in case ResourceConfigs_Lookup resources resourceName of
           None \<Rightarrow> f_fail ErrResourceNotFound
         | Some resource \<Rightarrow>
             let name = plan_Get planConfig
             in NewPlan (StepGet
               \<lparr>gp_Type = resource_Type resource, gp_Name = name, gp_Resource = resourceName,
                gp_Source = resource_Source resource, gp_Params = plan_Params planConfig,
                gp_Version = Some (input_version inputs name), gp_VersionFrom = None, gp_Tags = plan_Tags planConfig,
                gp_VersionedResourceTypes = resourceTypes\<rparr>))"

definition construct_task :: "PlanConfig \<Rightarrow> VersionedResourceType list \<Rightarrow> Plan factory" where
  "construct_task planConfig resourceTypes =
     NewPlan (StepTask
       \<lparr>tp_Name = plan_Task planConfig, tp_Privileged = plan_Privileged planConfig, tp_Tags = plan_Tags planConfig,
        tp_ConfigPath = plan_TaskConfigPath planConfig, tp_Config = plan_TaskConfig planConfig,
        tp_Params = plan_Params planConfig, tp_InputMapping = plan_InputMapping planConfig,
        tp_OutputMapping = plan_OutputMapping planConfig, tp_ImageArtifactName = plan_ImageArtifactName planConfig,
        tp_VersionedResourceTypes = resourceTypes\<rparr>)"

text \<open>The switch of \<open>constructUnhookedPlan\<close>; a config with no action gives the zero plan.\<close>

definition construct_action :: "constructor \<Rightarrow> constructor" where
  "construct_action construct planConfig resources resourceTypes inputs =
     (case plan_Do planConfig of
        Some ps \<Rightarrow> factory_do construct ps resources resourceTypes inputs
      | None \<Rightarrow>
          if plan_Put planConfig \<noteq> [] then construct_put planConfig resources resourceTypes
          else if plan_Get planConfig \<noteq> [] then construct_get planConfig resources resourceTypes inputs
          else if plan_Task planConfig \<noteq> [] then construct_task planConfig resourceTypes
          else (case plan_Try planConfig of
                  Some p \<Rightarrow>
                    f_bind (construct p resources resourceTypes inputs) (\<lambda>nextStep. NewPlan (StepTry (TryPlan nextStep)))
                | None \<Rightarrow>
                    (case plan_Aggregate planConfig of
                       Some ps \<Rightarrow>
                         f_bind (f_each (\<lambda>p. construct p resources resourceTypes inputs) ps) (\<lambda>aggregate.
                         NewPlan (StepAggregate aggregate))
                     | None \<Rightarrow> f_return zero_plan)))"

definition constructUnhookedPlan :: "constructor \<Rightarrow> constructor" where
  "constructUnhookedPlan construct planConfig resources resourceTypes inputs =
     f_bind (construct_action construct planConfig resources resourceTypes inputs) (\<lambda>plan.
     if plan_Timeout planConfig \<noteq> []
     then NewPlan (StepTimeout (TimeoutPlan plan (plan_Timeout planConfig)))
     else f_return plan)"

section \<open>The recursion\<close>

text \<open>The four hooks have the same shape.\<close>

definition attach :: "(Plan \<Rightarrow> Plan \<Rightarrow> Step) \<Rightarrow> PlanConfig option \<Rightarrow> constructor \<Rightarrow> constructionParams \<Rightarrow>
    constructionParams factory" where
  "attach mk h construct cp =
     (case h of
        None \<Rightarrow> f_return cp
      | Some c \<Rightarrow>
          f_bind (construct c (cp_resources cp) (cp_resourceTypes cp) (cp_inputs cp)) (\<lambda>nextPlan.
          f_bind (NewPlan (mk (cp_plan cp) nextPlan)) (\<lambda>plan. f_return (cp\<lparr>cp_plan := plan\<rparr>))))"

lemma hooks_attach:
  "abortIfPresent f cp = attach (\<lambda>a b. StepOnAbort (OnAbortPlan a b)) (hook_Abort (cp_hooks cp)) f cp"
  "failureIfPresent f cp = attach (\<lambda>a b. StepOnFailure (OnFailurePlan a b)) (hook_Failure (cp_hooks cp)) f cp"
  "successIfPresent f cp = attach (\<lambda>a b. StepOnSuccess (OnSuccessPlan a b)) (hook_Success (cp_hooks cp)) f cp"
  "ensureIfPresent f cp = attach (\<lambda>a b. StepEnsure (EnsurePlan a b)) (hook_Ensure (cp_hooks cp)) f cp"
  by (simp_all add: attach_def successIfPresent_def failureIfPresent_def ensureIfPresent_def abortIfPresent_def)

lemma f_bind_Inr: "f_bind m f s = (Inr y, s') \<longleftrightarrow> (\<exists>x s1. m s = (Inr x, s1) \<and> f x s1 = (Inr y, s'))"
  by (auto simp: f_bind_def split: prod.splits sum.splits)

lemma f_return_Inr [simp]: "f_return x s = (Inr y, s') \<longleftrightarrow> y = x \<and> s' = s"
  by (auto simp: f_return_def)

lemma f_fail_Inr [simp]: "f_fail e s \<noteq> (Inr y, s')"
  by (simp add: f_fail_def)

lemma attach_frame:
  "attach mk h f cp s = (Inr cp', s') \<Longrightarrow> cp_hooks cp' = cp_hooks cp \<and> cp_resources cp' = cp_resources cp \<and>
     cp_resourceTypes cp' = cp_resourceTypes cp \<and> cp_inputs cp' = cp_inputs cp"
  by (auto simp: attach_def f_bind_Inr split: option.splits)

definition hook_set :: "Hooks \<Rightarrow> PlanConfig set" where
  "hook_set h = set_option (hook_Abort h) \<union> set_option (hook_Failure h) \<union> set_option (hook_Success h) \<union>
     set_option (hook_Ensure h)"

lemma f_bind_cong:
  "m s = m' s \<Longrightarrow> (\<And>x s'. m' s = (Inr x, s') \<Longrightarrow> f x s' = f' x s') \<Longrightarrow> f_bind m f s = f_bind m' f' s"
  by (auto simp: f_bind_def split: prod.split sum.split)

lemma attach_cong:
  "(\<And>c. h = Some c \<Longrightarrow> f c (cp_resources cp) (cp_resourceTypes cp) (cp_inputs cp) =
      g c (cp_resources cp) (cp_resourceTypes cp) (cp_inputs cp)) \<Longrightarrow> attach mk h f cp = attach mk h g cp"
  by (simp add: attach_def split: option.split)

lemma applyHooks_cong [fundef_cong]:
  assumes "cp = cp'"
    and "\<And>c. c \<in> hook_set (cp_hooks cp') \<Longrightarrow>
      f c (cp_resources cp') (cp_resourceTypes cp') (cp_inputs cp') = g c (cp_resources cp') (cp_resourceTypes cp') (cp_inputs cp')"
  shows "applyHooks f cp = applyHooks g cp'"
proof -
  have step: "attach mk h f d s = attach mk h g d s"
    if "set_option h \<subseteq> hook_set (cp_hooks cp')" "cp_resources d = cp_resources cp'"
      "cp_resourceTypes d = cp_resourceTypes cp'" "cp_inputs d = cp_inputs cp'" for mk h d s
    using that assms(2) by (intro fun_cong [OF attach_cong]) auto
  show ?thesis
    unfolding applyHooks_def assms(1) hooks_attach
    by (intro ext f_bind_cong step) (auto simp: hook_set_def dest!: attach_frame)
qed

lemma constructUnhookedPlan_cong [fundef_cong]:
  assumes "pc = pc'" "r = r'" "t = t'" "i = i'"
    and "\<And>q. q \<in> set (plan_children pc') \<Longrightarrow> f q r' t' i' = g q r' t' i'"
  shows "constructUnhookedPlan f pc r t i = constructUnhookedPlan g pc' r' t' i'"
proof -
  have kids: "plan_Do pc' = Some ps \<Longrightarrow> q \<in> set ps \<Longrightarrow> f q r' t' i' = g q r' t' i'"
    "plan_Aggregate pc' = Some ps \<Longrightarrow> q \<in> set ps \<Longrightarrow> f q r' t' i' = g q r' t' i'"
    "plan_Try pc' = Some q \<Longrightarrow> f q r' t' i' = g q r' t' i'" for ps q
    using assms(5) by (auto simp: plan_children_def)
  show ?thesis
    unfolding assms(1-4) constructUnhookedPlan_def construct_action_def factory_do_def
    by (auto split: option.split intro!: arg_cong2 [of _ _ _ _ f_bind] f_each_cong simp: kids)
qed

lemma hook_set_children: "hook_set (PlanConfig_Hooks p) \<subseteq> set (plan_children p)"
  by (auto simp: hook_set_def PlanConfig_Hooks_def plan_children_def)

text \<open>\<open>make(atc.RetryPlan, n)\<close> panics for a negative \<open>n\<close>.\<close>

function constructPlanFromConfig :: constructor where
  "constructPlanFromConfig planConfig resources resourceTypes inputs =
     f_bind
       (if plan_Attempts planConfig = 0
        then constructUnhookedPlan constructPlanFromConfig planConfig resources resourceTypes inputs
        else if plan_Attempts planConfig < 0
        then f_fail (GoPanic ''runtime error: makeslice: len out of range'')
        else f_bind
               (f_each (\<lambda>i. constructUnhookedPlan constructPlanFromConfig planConfig resources resourceTypes inputs)
                 [0..<nat (plan_Attempts planConfig)])
               (\<lambda>retryStep. NewPlan (StepRetry retryStep)))
       (\<lambda>plan. applyHooks constructPlanFromConfig
          \<lparr>cp_plan = plan, cp_hooks = PlanConfig_Hooks planConfig, cp_resources = resources,
           cp_resourceTypes = resourceTypes, cp_inputs = inputs\<rparr>)"
  by pat_completeness auto
termination
  by (relation "measure (\<lambda>(pc, _). size pc)")
    (auto intro: children_size dest: subsetD [OF hook_set_children])

declare constructPlanFromConfig.simps [simp del]

definition constructPlanFromJob ::
    "JobConfig \<Rightarrow> ResourceConfig list \<Rightarrow> VersionedResourceType list \<Rightarrow> JobBuildInput list \<Rightarrow> Plan factory" where
  "constructPlanFromJob job resources resourceTypes inputs =
     (let planSequence = job_Plan job
      in if length planSequence = 1
         then constructPlanFromConfig (planSequence ! 0) resources resourceTypes inputs
         else factory_do constructPlanFromConfig planSequence resources resourceTypes inputs)"

definition factory_Create ::
    "JobConfig \<Rightarrow> ResourceConfig list \<Rightarrow> VersionedResourceType list \<Rightarrow> JobBuildInput list \<Rightarrow> Plan factory" where
  "factory_Create job resources resourceTypes inputs =
     f_bind (constructPlanFromJob job resources resourceTypes inputs) (\<lambda>plan.
     applyHooks constructPlanFromConfig
       \<lparr>cp_plan = plan, cp_hooks = JobConfig_Hooks job, cp_resources = resources,
        cp_resourceTypes = resourceTypes, cp_inputs = inputs\<rparr>)"

end
