(* ===== verification/Validate.thy ===== *)
theory Validate
  imports Config_Data Go_Duration
begin

text \<open>
  \<open>validate.go\<close>: the validation of a pipeline configuration, with its messages. A function that returns
  \<open>([]Warning, []string)\<close> returns the pair; \<open>error\<close> is an optional message. \<open>validatePlan\<close> reassigns
  \<open>identifier\<close> in the branches of a get, put or task step, and the hooks that follow use the new one.
\<close>

section \<open>Definitions\<close>

record Warning =
  warning_Type :: string
  warning_Message :: string

type_synonym findings = "Warning list \<times> string list"

definition join_findings :: "findings list \<Rightarrow> findings" where
  "join_findings rs = (concat (map fst rs), concat (map snd rs))"

definition formatErr :: "string \<Rightarrow> string \<Rightarrow> string" where
  "formatErr groupName err =
     ''invalid '' @ groupName @ '':'' @ newline @
     strings_Join (map (\<lambda>l. tab @ l) (strings_Split err (CHR 0x0A))) newline @ newline"

definition compositeErr :: "string list \<Rightarrow> string option" where
  "compositeErr errorMessages =
     (if length errorMessages = 0 then None else Some (strings_Join errorMessages newline))"

text \<open>The loops of \<open>validateGroups\<close> carry the messages and the map \<open>jobsGrouped\<close>.\<close>

type_synonym group_state = "string list \<times> (string \<times> bool) list"

definition group_job_step :: "Config \<Rightarrow> GroupConfig \<Rightarrow> group_state \<Rightarrow> string \<Rightarrow> group_state" where
  "group_job_step c g st job =
     (case JobConfigs_Lookup (cfg_Jobs c) job of
        None \<Rightarrow> (fst st @ [''group '' @ quoted (group_Name g) @ '' has unknown job '' @ quoted job], snd st)
      | Some _ \<Rightarrow> (fst st, AList.update job True (snd st)))"

definition group_resource_messages :: "Config \<Rightarrow> GroupConfig \<Rightarrow> string list" where
  "group_resource_messages c g =
     concat (map (\<lambda>resource.
       case ResourceConfigs_Lookup (cfg_Resources c) resource of
         None \<Rightarrow> [''group '' @ quoted (group_Name g) @ '' has unknown resource '' @ quoted resource]
       | Some _ \<Rightarrow> []) (group_Resources g))"

definition group_step :: "Config \<Rightarrow> group_state \<Rightarrow> GroupConfig \<Rightarrow> group_state" where
  "group_step c st g =
     (case foldl (group_job_step c g) st (group_Jobs g) of
        (errorMessages, jobsGrouped) \<Rightarrow> (errorMessages @ group_resource_messages c g, jobsGrouped))"

definition validateGroups :: "Config \<Rightarrow> string option" where
  "validateGroups c =
     (let jobsGrouped = foldl (\<lambda>m job. AList.update (job_Name job) False m) [] (cfg_Jobs c)
      in case foldl (group_step c) ([], jobsGrouped) (cfg_Groups c) of
           (errorMessages, jobsGrouped) \<Rightarrow>
             compositeErr (errorMessages @
               (if length (cfg_Groups c) \<noteq> 0
                then map (\<lambda>(job, grouped). ''job '' @ quoted job @ '' belongs to no group'')
                       (filter (\<lambda>(job, grouped). \<not> grouped) jobsGrouped)
                else [])))"

text \<open>\<open>names[name]\<close>: the duplicate message of element \<open>i\<close> of the list called \<open>kind\<close>, and the new map.\<close>

definition same_name :: "string \<Rightarrow> nat \<Rightarrow> string \<Rightarrow> (string \<times> nat) list \<Rightarrow> string list \<times> (string \<times> nat) list" where
  "same_name kind i name names =
     (case map_of names name of
        Some other \<Rightarrow>
          ([kind @ ''['' @ itoa (int other) @ ''] and '' @ kind @ ''['' @ itoa (int i) @
            ''] have the same name ('' @ quoted name @ '')''], names)
      | None \<Rightarrow> ([], if name \<noteq> [] then AList.update name i names else names))"

definition element_identifier :: "string \<Rightarrow> nat \<Rightarrow> string \<Rightarrow> string" where
  "element_identifier kind i name =
     (if name = [] then kind @ ''['' @ itoa (int i) @ '']'' else kind @ ''.'' @ name)"

definition usedResources :: "Config \<Rightarrow> string list" where
  "usedResources c =
     foldl (\<lambda>used job.
       foldl (\<lambda>used output. go_insert (jo_Resource output) used)
         (foldl (\<lambda>used input. go_insert (ji_Resource input) used) used (JobConfig_Inputs job))
         (JobConfig_Outputs job)) [] (cfg_Jobs c)"

definition validateResourcesUnused :: "Config \<Rightarrow> string list" where
  "validateResourcesUnused c =
     concat (map (\<lambda>resource.
       if resource_Name resource \<notin> set (usedResources c)
       then [''resource '' @ quoted (resource_Name resource) @ '' is not used''] else []) (cfg_Resources c))"

fun resources_loop :: "nat \<Rightarrow> ResourceConfig list \<Rightarrow> (string \<times> nat) list \<Rightarrow> string list" where
  "resources_loop i [] names = []"
| "resources_loop i (resource # resources) names =
     (let identifier = element_identifier ''resources'' i (resource_Name resource);
          (duplicate, names') = same_name ''resources'' i (resource_Name resource) names
      in duplicate @
         (if resource_Name resource = [] then [identifier @ '' has no name''] else []) @
         (if resource_Type resource = [] then [identifier @ '' has no type''] else []) @
         resources_loop (i + 1) resources names')"

definition validateResources :: "Config \<Rightarrow> string option" where
  "validateResources c = compositeErr (resources_loop 0 (cfg_Resources c) [] @ validateResourcesUnused c)"

fun resource_types_loop :: "nat \<Rightarrow> ResourceType list \<Rightarrow> (string \<times> nat) list \<Rightarrow> string list" where
  "resource_types_loop i [] names = []"
| "resource_types_loop i (resourceType # resourceTypes) names =
     (let identifier = element_identifier ''resource_types'' i (rt_Name resourceType);
          (duplicate, names') = same_name ''resource_types'' i (rt_Name resourceType) names
      in duplicate @
         (if rt_Name resourceType = [] then [identifier @ '' has no name''] else []) @
         (if rt_Type resourceType = [] then [identifier @ '' has no type''] else []) @
         resource_types_loop (i + 1) resourceTypes names')"

definition validateResourceTypes :: "Config \<Rightarrow> string option" where
  "validateResourceTypes c = compositeErr (resource_types_loop 0 (cfg_ResourceTypes c) [])"

record foundTypes =
  ft_identifier :: string
  ft_found :: "string list"

definition foundTypes_Find :: "foundTypes \<Rightarrow> string \<Rightarrow> foundTypes" where
  "foundTypes_Find ft name = ft\<lparr>ft_found := go_insert name (ft_found ft)\<rparr>"

definition foundTypes_IsValid :: "foundTypes \<Rightarrow> bool \<times> string" where
  "foundTypes_IsValid ft =
     (if length (ft_found ft) = 0 then (False, ft_identifier ft @ '' has no action specified'')
      else if length (ft_found ft) > 1
      then (False, ft_identifier ft @ '' has multiple actions specified ('' @
              strings_Join (sort_Strings (ft_found ft)) '', '' @ '')'')
      else (True, []))"

definition find_types :: "string \<Rightarrow> PlanConfig \<Rightarrow> foundTypes" where
  "find_types identifier plan =
     (let ft = \<lparr>ft_identifier = identifier, ft_found = []\<rparr>;
          ft = (if plan_Get plan \<noteq> [] then foundTypes_Find ft ''get'' else ft);
          ft = (if plan_Put plan \<noteq> [] then foundTypes_Find ft ''put'' else ft);
          ft = (if plan_Task plan \<noteq> [] then foundTypes_Find ft ''task'' else ft);
          ft = (if plan_Do plan \<noteq> None then foundTypes_Find ft ''do'' else ft);
          ft = (if plan_Aggregate plan \<noteq> None then foundTypes_Find ft ''aggregate'' else ft);
          ft = (if plan_Try plan \<noteq> None then foundTypes_Find ft ''try'' else ft)
      in ft)"

definition inapplicable :: "PlanConfig \<Rightarrow> string \<Rightarrow> bool" where
  "inapplicable plan field \<longleftrightarrow>
     (if field = ''resource'' then plan_Resource plan \<noteq> []
      else if field = ''passed'' then length (plan_Passed plan) \<noteq> 0
      else if field = ''trigger'' then plan_Trigger plan
      else if field = ''privileged'' then plan_Privileged plan
      else if field = ''config'' then plan_TaskConfig plan \<noteq> None
      else if field = ''file'' then plan_TaskConfigPath plan \<noteq> []
      else False)"

definition validateInapplicableFields :: "string list \<Rightarrow> PlanConfig \<Rightarrow> string \<Rightarrow> string list" where
  "validateInapplicableFields inapplicableFields plan identifier =
     (let foundInapplicableFields = filter (inapplicable plan) inapplicableFields
      in if length foundInapplicableFields > 0
         then [identifier @ '' has invalid fields specified ('' @
                 strings_Join foundInapplicableFields '', '' @ '')'']
         else [])"

text \<open>The check that the resource of a get or put step exists; \<open>logical\<close> is the name of the step.\<close>

definition resource_exists_messages :: "Config \<Rightarrow> string \<Rightarrow> PlanConfig \<Rightarrow> string \<Rightarrow> string list" where
  "resource_exists_messages c identifier plan logical =
     (if plan_Resource plan \<noteq> []
      then (case ResourceConfigs_Lookup (cfg_Resources c) (plan_Resource plan) of
              None \<Rightarrow> [identifier @ '' refers to a resource that does not exist ('' @
                         quoted (plan_Resource plan) @ '')'']
            | Some _ \<Rightarrow> [])
      else (case ResourceConfigs_Lookup (cfg_Resources c) logical of
              None \<Rightarrow> [identifier @ '' refers to a resource that does not exist'']
            | Some _ \<Rightarrow> []))"

definition passed_messages :: "Config \<Rightarrow> string \<Rightarrow> PlanConfig \<Rightarrow> string \<Rightarrow> string list" where
  "passed_messages c identifier plan job =
     (case JobConfigs_Lookup (cfg_Jobs c) job of
        None \<Rightarrow> [identifier @ ''.passed references an unknown job ('' @ quoted job @ '')'']
      | Some jobConfig \<Rightarrow>
          let foundResource =
            (\<exists>input \<in> set (JobConfig_Inputs jobConfig). Some (ji_Resource input) = PlanConfig_ResourceName plan) \<or>
            (\<exists>output \<in> set (JobConfig_Outputs jobConfig). Some (jo_Resource output) = PlanConfig_ResourceName plan)
          in if \<not> foundResource
             then [identifier @ ''.passed references a job ('' @ quoted job @ '') which doesn'' @ [CHR 0x27] @
                   ''t interact with the resource ('' @ quoted (plan_Get plan) @ '')'']
             else [])"

definition validate_get :: "Config \<Rightarrow> string \<Rightarrow> PlanConfig \<Rightarrow> string list" where
  "validate_get c identifier plan =
     validateInapplicableFields [''privileged'', ''config'', ''file''] plan identifier @
     resource_exists_messages c identifier plan (plan_Get plan) @
     concat (map (passed_messages c identifier plan) (plan_Passed plan))"

definition validate_put :: "Config \<Rightarrow> string \<Rightarrow> PlanConfig \<Rightarrow> string list" where
  "validate_put c identifier plan =
     validateInapplicableFields [''passed'', ''trigger'', ''privileged'', ''config'', ''file''] plan identifier @
     resource_exists_messages c identifier plan (plan_Put plan)"

definition validate_task :: "string \<Rightarrow> PlanConfig \<Rightarrow> findings" where
  "validate_task identifier plan =
     ((case plan_TaskConfig plan of
         Some tc \<Rightarrow>
           if (tc_RootfsURI tc \<noteq> [] \<or> tc_ImageResource tc \<noteq> None) \<and> plan_ImageArtifactName plan \<noteq> []
           then [\<lparr>warning_Type = ''pipeline'', warning_Message = identifier @
                   '' specifies an image artifact to use as the container'' @ [CHR 0x27] @
                   ''s image but also specifies an image or image resource in the task configuration; the image artifact takes precedence''\<rparr>]
           else []
       | None \<Rightarrow> []),
      (if plan_TaskConfig plan = None \<and> plan_TaskConfigPath plan = []
       then [identifier @ '' does not specify any task configuration''] else []) @
      (if plan_TaskConfig plan \<noteq> None \<and> plan_TaskConfigPath plan \<noteq> []
       then [identifier @ '' specifies both `file` and `config` in a task step''] else []) @
      (case plan_TaskConfig plan of
         None \<Rightarrow> []
       | Some tc \<Rightarrow>
           (case TaskConfig_Validate tc of
              None \<Rightarrow> []
            | Some err \<Rightarrow> map (\<lambda>message. identifier @ '' '' @ strings_TrimSpace message)
                (strings_Split err (CHR 0x0A)))) @
      validateInapplicableFields [''resource'', ''passed'', ''trigger''] plan identifier)"

definition validate_timeout :: "string \<Rightarrow> PlanConfig \<Rightarrow> string list" where
  "validate_timeout identifier plan =
     (if plan_Timeout plan \<noteq> [] \<and> isl (ParseDuration (plan_Timeout plan))
      then [identifier @ ''.timeout refers to a duration that could not be parsed ('' @
              quoted (plan_Timeout plan) @ '')'']
      else [])"

definition validate_attempts :: "string \<Rightarrow> PlanConfig \<Rightarrow> string list" where
  "validate_attempts identifier plan =
     (if plan_Attempts plan < 0
      then [identifier @ ''.attempts has an invalid number of attempts ('' @ itoa (plan_Attempts plan) @ '')'']
      else [])"

text \<open>The identifier after the switch over the kind of step.\<close>

definition step_identifier :: "string \<Rightarrow> PlanConfig \<Rightarrow> string" where
  "step_identifier identifier plan =
     (if plan_Do plan \<noteq> None \<or> plan_Aggregate plan \<noteq> None then identifier
      else if plan_Get plan \<noteq> [] then identifier @ ''.get.'' @ plan_Get plan
      else if plan_Put plan \<noteq> [] then identifier @ ''.put.'' @ plan_Put plan
      else if plan_Task plan \<noteq> [] then identifier @ ''.task.'' @ plan_Task plan
      else identifier)"

function validatePlan :: "Config \<Rightarrow> string \<Rightarrow> PlanConfig \<Rightarrow> findings" where
  "validatePlan c identifier plan =
     (case foundTypes_IsValid (find_types identifier plan) of
        (False, message) \<Rightarrow> ([], [message])
      | (True, _) \<Rightarrow>
          let ident = step_identifier identifier plan
          in join_findings
               [(case plan_Do plan of
                   Some ps \<Rightarrow>
                     join_findings (map (\<lambda>(i, p). validatePlan c (identifier @ ''['' @ itoa (int i) @ '']'') p)
                       (enumerate 0 ps))
                 | None \<Rightarrow>
                     (case plan_Aggregate plan of
                        Some ps \<Rightarrow>
                          join_findings
                            (map (\<lambda>(i, p). validatePlan c (identifier @ ''.aggregate['' @ itoa (int i) @ '']'') p)
                              (enumerate 0 ps))
                      | None \<Rightarrow>
                          if plan_Get plan \<noteq> [] then ([], validate_get c ident plan)
                          else if plan_Put plan \<noteq> [] then ([], validate_put c ident plan)
                          else if plan_Task plan \<noteq> [] then validate_task ident plan
                          else (case plan_Try plan of
                                  Some p \<Rightarrow> validatePlan c (identifier @ ''.try'') p
                                | None \<Rightarrow> ([], [])))),
                (case plan_Abort plan of Some p \<Rightarrow> validatePlan c (ident @ ''.abort'') p | None \<Rightarrow> ([], [])),
                (case plan_Ensure plan of Some p \<Rightarrow> validatePlan c (ident @ ''.ensure'') p | None \<Rightarrow> ([], [])),
                (case plan_Success plan of Some p \<Rightarrow> validatePlan c (ident @ ''.success'') p | None \<Rightarrow> ([], [])),
                (case plan_Failure plan of Some p \<Rightarrow> validatePlan c (ident @ ''.failure'') p | None \<Rightarrow> ([], [])),
                ([], validate_timeout ident plan),
                ([], validate_attempts ident plan)])"
  by pat_completeness auto
termination
  by (relation "measure (\<lambda>(c, identifier, plan). size plan)")
    (auto simp: plan_size plan_size_list dest!: in_set_enumerate_eq [THEN iffD1] nth_mem)

declare validatePlan.simps [simp del]

fun encountered_loop :: "string \<Rightarrow> JobInput list \<Rightarrow> (string \<times> nat) list \<Rightarrow> string list" where
  "encountered_loop identifier [] encountered = []"
| "encountered_loop identifier (input # inputs) encountered =
     (let encountered = AList.update (ji_Name input) (go_index 0 encountered (ji_Name input) + 1) encountered
      in (if go_index 0 encountered (ji_Name input) = 2
          then [identifier @ '' has get steps with the same name: '' @ ji_Name input] else []) @
         encountered_loop identifier inputs encountered)"

definition no_hooks :: Hooks where
  "no_hooks = \<lparr>hook_Abort = None, hook_Failure = None, hook_Ensure = None, hook_Success = None\<rparr>"

definition job_plan_findings :: "Config \<Rightarrow> string \<Rightarrow> JobConfig \<Rightarrow> findings" where
  "job_plan_findings c identifier job =
     join_findings
       [validatePlan c (identifier @ ''.plan'') (do_config (job_Plan job) no_hooks),
        (case job_Abort job of Some p \<Rightarrow> validatePlan c (identifier @ ''.abort'') p | None \<Rightarrow> ([], [])),
        (case job_Failure job of Some p \<Rightarrow> validatePlan c (identifier @ ''.failure'') p | None \<Rightarrow> ([], [])),
        (case job_Ensure job of Some p \<Rightarrow> validatePlan c (identifier @ ''.ensure'') p | None \<Rightarrow> ([], [])),
        (case job_Success job of Some p \<Rightarrow> validatePlan c (identifier @ ''.success'') p | None \<Rightarrow> ([], []))]"

fun jobs_loop :: "Config \<Rightarrow> nat \<Rightarrow> JobConfig list \<Rightarrow> (string \<times> nat) list \<Rightarrow> findings" where
  "jobs_loop c i [] names = ([], [])"
| "jobs_loop c i (job # jobs) names =
     (let identifier = element_identifier ''jobs'' i (job_Name job);
          (duplicate, names') = same_name ''jobs'' i (job_Name job) names
      in join_findings
           [([], duplicate @
              (if job_Name job = [] then [identifier @ '' has no name''] else []) @
              (if job_BuildLogsToRetain job < 0
               then [identifier @ '' has negative build_logs_to_retain: '' @ itoa (job_BuildLogsToRetain job)] else [])),
            job_plan_findings c identifier job,
            ([], encountered_loop identifier (JobConfig_Inputs job) []),
            jobs_loop c (i + 1) jobs names'])"

definition validateJobs :: "Config \<Rightarrow> Warning list \<times> string option" where
  "validateJobs c =
     (case jobs_loop c 0 (cfg_Jobs c) [] of (warnings, errorMessages) \<Rightarrow> (warnings, compositeErr errorMessages))"

definition format_section :: "string \<Rightarrow> string option \<Rightarrow> string list" where
  "format_section groupName err = (case err of None \<Rightarrow> [] | Some e \<Rightarrow> [formatErr groupName e])"

definition Config_Validate :: "Config \<Rightarrow> Warning list \<times> string list" where
  "Config_Validate c =
     (case validateJobs c of
        (jobWarnings, jobsErr) \<Rightarrow>
          (jobWarnings,
           format_section ''groups'' (validateGroups c) @
           format_section ''resources'' (validateResources c) @
           format_section ''resource types'' (validateResourceTypes c) @
           format_section ''jobs'' jobsErr))"

section \<open>Valid configurations\<close>

definition step_actions :: "PlanConfig \<Rightarrow> string list" where
  "step_actions p =
     (if plan_Get p \<noteq> [] then [''get''] else []) @ (if plan_Put p \<noteq> [] then [''put''] else []) @
     (if plan_Task p \<noteq> [] then [''task''] else []) @ (if plan_Do p \<noteq> None then [''do''] else []) @
     (if plan_Aggregate p \<noteq> None then [''aggregate''] else []) @ (if plan_Try p \<noteq> None then [''try''] else [])"

definition step_resource :: "PlanConfig \<Rightarrow> string" where
  "step_resource p =
     (if plan_Resource p \<noteq> [] then plan_Resource p else if plan_Get p \<noteq> [] then plan_Get p else plan_Put p)"

definition job_resources :: "JobConfig \<Rightarrow> string set" where
  "job_resources job = ji_Resource ` set (JobConfig_Inputs job) \<union> jo_Resource ` set (JobConfig_Outputs job)"

definition get_ok :: "Config \<Rightarrow> PlanConfig \<Rightarrow> bool" where
  "get_ok c p \<longleftrightarrow>
     \<not> plan_Privileged p \<and> plan_TaskConfig p = None \<and> plan_TaskConfigPath p = [] \<and>
     step_resource p \<in> resource_Name ` set (cfg_Resources c) \<and>
     (\<forall>j \<in> set (plan_Passed p). \<exists>job. JobConfigs_Lookup (cfg_Jobs c) j = Some job \<and> step_resource p \<in> job_resources job)"

definition put_ok :: "Config \<Rightarrow> PlanConfig \<Rightarrow> bool" where
  "put_ok c p \<longleftrightarrow>
     plan_Passed p = [] \<and> \<not> plan_Trigger p \<and> \<not> plan_Privileged p \<and> plan_TaskConfig p = None \<and>
     plan_TaskConfigPath p = [] \<and> step_resource p \<in> resource_Name ` set (cfg_Resources c)"

definition task_ok :: "PlanConfig \<Rightarrow> bool" where
  "task_ok p \<longleftrightarrow>
     plan_Resource p = [] \<and> plan_Passed p = [] \<and> \<not> plan_Trigger p \<and>
     (plan_TaskConfig p = None \<longleftrightarrow> plan_TaskConfigPath p \<noteq> []) \<and>
     (\<forall>tc. plan_TaskConfig p = Some tc \<longrightarrow> valid_task tc)"

text \<open>One step: exactly one action, with the fields that belong to it.\<close>

definition step_ok :: "Config \<Rightarrow> PlanConfig \<Rightarrow> bool" where
  "step_ok c p \<longleftrightarrow>
     length (step_actions p) = 1 \<and>
     (plan_Get p \<noteq> [] \<longrightarrow> get_ok c p) \<and> (plan_Put p \<noteq> [] \<longrightarrow> put_ok c p) \<and> (plan_Task p \<noteq> [] \<longrightarrow> task_ok p) \<and>
     (plan_Timeout p \<noteq> [] \<longrightarrow> \<not> isl (ParseDuration (plan_Timeout p))) \<and> plan_Attempts p \<ge> 0"

definition unique_names :: "string list \<Rightarrow> bool" where
  "unique_names ns \<longleftrightarrow> distinct ns \<and> [] \<notin> set ns"

definition valid_config :: "Config \<Rightarrow> bool" where
  "valid_config c \<longleftrightarrow>
     (\<forall>g \<in> set (cfg_Groups c). set (group_Jobs g) \<subseteq> job_Name ` set (cfg_Jobs c) \<and>
        set (group_Resources g) \<subseteq> resource_Name ` set (cfg_Resources c)) \<and>
     (cfg_Groups c \<noteq> [] \<longrightarrow> job_Name ` set (cfg_Jobs c) \<subseteq> (\<Union>g \<in> set (cfg_Groups c). set (group_Jobs g))) \<and>
     unique_names (map resource_Name (cfg_Resources c)) \<and>
     (\<forall>r \<in> set (cfg_Resources c). resource_Type r \<noteq> [] \<and>
        (\<exists>job \<in> set (cfg_Jobs c). resource_Name r \<in> job_resources job)) \<and>
     unique_names (map rt_Name (cfg_ResourceTypes c)) \<and> (\<forall>t \<in> set (cfg_ResourceTypes c). rt_Type t \<noteq> []) \<and>
     unique_names (map job_Name (cfg_Jobs c)) \<and>
     (\<forall>job \<in> set (cfg_Jobs c). job_BuildLogsToRetain job \<ge> 0 \<and>
        (\<forall>p \<in> set (JobConfig_Plans job). step_ok c p) \<and>
        distinct (map ji_Name (JobConfig_Inputs job)))"

section \<open>Validation is exact\<close>

lemma concat_map_Nil: "concat (map f xs) = [] \<longleftrightarrow> (\<forall>x \<in> set xs. f x = [])"
  by (induction xs) auto

lemma snd_join [simp]: "snd (join_findings rs) = [] \<longleftrightarrow> (\<forall>r \<in> set rs. snd r = [])"
  by (auto simp: join_findings_def)

lemma find_types_found: "ft_found (find_types identifier p) = step_actions p"
  by (simp add: find_types_def Let_def foundTypes_Find_def step_actions_def go_insert_def)

lemma IsValid_iff: "fst (foundTypes_IsValid (find_types identifier p)) \<longleftrightarrow> length (step_actions p) = 1"
  by (cases "step_actions p") (auto simp: foundTypes_IsValid_def find_types_found)

lemma inapplicable_Nil: "validateInapplicableFields fs p identifier = [] \<longleftrightarrow> (\<forall>f \<in> set fs. \<not> inapplicable p f)"
  by (auto simp: validateInapplicableFields_def Let_def filter_empty_conv)

lemma resource_exists_Nil:
  "resource_exists_messages c identifier p logical = [] \<longleftrightarrow>
     (if plan_Resource p \<noteq> [] then plan_Resource p else logical) \<in> resource_Name ` set (cfg_Resources c)"
  using resources.lookup_None [of "cfg_Resources c" "plan_Resource p"]
    resources.lookup_None [of "cfg_Resources c" logical]
  by (auto simp: resource_exists_messages_def split: option.split)

lemma found_resource: "(\<exists>x \<in> set xs. Some (f x) = Some r) \<longleftrightarrow> r \<in> f ` set xs"
  by auto

lemma passed_Nil:
  "plan_Get p \<noteq> [] \<Longrightarrow> passed_messages c identifier p j = [] \<longleftrightarrow>
     (\<exists>job. JobConfigs_Lookup (cfg_Jobs c) j = Some job \<and> step_resource p \<in> job_resources job)"
proof -
  assume "plan_Get p \<noteq> []"
  then have name: "PlanConfig_ResourceName p = Some (step_resource p)"
    by (simp add: PlanConfig_ResourceName_def step_resource_def)
  show ?thesis
    unfolding passed_messages_def name found_resource job_resources_def Let_def by (simp split: option.split)
qed

lemma validate_get_Nil: "plan_Get p \<noteq> [] \<Longrightarrow> validate_get c identifier p = [] \<longleftrightarrow> get_ok c p"
  by (auto simp: validate_get_def inapplicable_Nil inapplicable_def resource_exists_Nil passed_Nil get_ok_def
      step_resource_def [of p])

lemma validate_put_Nil:
  "plan_Put p \<noteq> [] \<Longrightarrow> plan_Get p = [] \<Longrightarrow> validate_put c identifier p = [] \<longleftrightarrow> put_ok c p"
  by (auto simp: validate_put_def inapplicable_Nil inapplicable_def resource_exists_Nil put_ok_def step_resource_def)

lemma validate_task_Nil: "snd (validate_task identifier p) = [] \<longleftrightarrow> task_ok p"
  by (auto simp: validate_task_def inapplicable_Nil inapplicable_def task_ok_def
      Validate_None [symmetric] split: option.splits)

lemma timeout_attempts_Nil:
  "validate_timeout identifier p = [] \<longleftrightarrow> (plan_Timeout p \<noteq> [] \<longrightarrow> \<not> isl (ParseDuration (plan_Timeout p)))"
  "validate_attempts identifier p = [] \<longleftrightarrow> plan_Attempts p \<ge> 0"
  by (auto simp: validate_timeout_def validate_attempts_def)

lemma findings_option:
  "snd (case x of Some p \<Rightarrow> f p | None \<Rightarrow> ([], [])) = [] \<longleftrightarrow> (\<forall>p. x = Some p \<longrightarrow> snd (f p) = [])"
  by (cases x) auto

lemma findings_enumerate:
  "(\<forall>r \<in> set (enumerate 0 ps). snd (case r of (i, p) \<Rightarrow> f i p) = []) \<longleftrightarrow> (\<forall>i < length ps. snd (f i (ps ! i)) = [])"
proof -
  have "set (enumerate 0 ps) = (\<lambda>i. (i, ps ! i)) ` {..<length ps}"
    by (auto simp: in_set_enumerate_eq image_iff)
  then show ?thesis by auto
qed

lemma single_action:
  assumes "length (step_actions p) = 1"
  obtains ps where "plan_Do p = Some ps" "plan_Aggregate p = None" "plan_Get p = []" "plan_Put p = []" "plan_Task p = []"
      "plan_Try p = None"
  | ps where "plan_Do p = None" "plan_Aggregate p = Some ps" "plan_Get p = []" "plan_Put p = []" "plan_Task p = []"
      "plan_Try p = None"
  | "plan_Do p = None" "plan_Aggregate p = None" "plan_Get p \<noteq> []" "plan_Put p = []" "plan_Task p = []" "plan_Try p = None"
  | "plan_Do p = None" "plan_Aggregate p = None" "plan_Get p = []" "plan_Put p \<noteq> []" "plan_Task p = []" "plan_Try p = None"
  | "plan_Do p = None" "plan_Aggregate p = None" "plan_Get p = []" "plan_Put p = []" "plan_Task p \<noteq> []" "plan_Try p = None"
  | q where "plan_Do p = None" "plan_Aggregate p = None" "plan_Get p = []" "plan_Put p = []" "plan_Task p = []"
      "plan_Try p = Some q"
  using assms unfolding step_actions_def by (auto split: if_splits)

lemma validatePlan_children:
  assumes "length (step_actions p) = 1"
    and sub: "\<And>q ident. q \<in> set (plan_children p) \<Longrightarrow> snd (validatePlan c ident q) = [] \<longleftrightarrow> R q"
  shows "snd (validatePlan c ident p) = [] \<longleftrightarrow> step_ok c p \<and> (\<forall>q \<in> set (plan_children p). R q)"
proof -
  have valid: "foundTypes_IsValid (find_types ident p) = (True, [])"
    using IsValid_iff [of ident p] assms(1) by (auto simp: foundTypes_IsValid_def find_types_found)
  have opt: "(\<forall>q. x = Some q \<longrightarrow> snd (validatePlan c i q) = []) \<longleftrightarrow> (\<forall>q \<in> set_option x. R q)"
    if "set_option x \<subseteq> set (plan_children p)" for x i
    using that sub by auto
  have lst: "(\<forall>i < length ps. snd (validatePlan c (f i) (ps ! i)) = []) \<longleftrightarrow> (\<forall>q \<in> set ps. R q)"
    if "set ps \<subseteq> set (plan_children p)" for ps f
    using that sub by (metis in_set_conv_nth subset_code(1))
  have children: "set_option (plan_Abort p) \<subseteq> set (plan_children p)" "set_option (plan_Success p) \<subseteq> set (plan_children p)"
    "set_option (plan_Failure p) \<subseteq> set (plan_children p)" "set_option (plan_Ensure p) \<subseteq> set (plan_children p)"
    "set_option (plan_Try p) \<subseteq> set (plan_children p)"
    "plan_Do p = Some ps \<Longrightarrow> set ps \<subseteq> set (plan_children p)"
    "plan_Aggregate p = Some ps \<Longrightarrow> set ps \<subseteq> set (plan_children p)" for ps
    by (auto simp: plan_children_def split: option.splits)
  have split: "(\<forall>q \<in> set (plan_children p). R q) \<longleftrightarrow>
      (\<forall>q \<in> set_option (plan_Abort p). R q) \<and> (\<forall>q \<in> set_option (plan_Success p). R q) \<and>
      (\<forall>q \<in> set_option (plan_Failure p). R q) \<and> (\<forall>q \<in> set_option (plan_Ensure p). R q) \<and>
      (\<forall>q \<in> set_option (plan_Try p). R q) \<and> (\<forall>ps \<in> set_option (plan_Do p). \<forall>q \<in> set ps. R q) \<and>
      (\<forall>ps \<in> set_option (plan_Aggregate p). \<forall>q \<in> set ps. R q)"
    by (auto simp: plan_children_def split: option.splits)
  note simps = valid Let_def findings_option opt children lst findings_enumerate timeout_attempts_Nil
    validate_get_Nil validate_put_Nil validate_task_Nil
  from assms(1) show ?thesis
  proof (cases rule: single_action)
    case (1 ps)
    then show ?thesis using assms(1) unfolding split step_ok_def
      by (subst validatePlan.simps) (simp add: simps conj_ac)
  next
    case (2 ps)
    then show ?thesis using assms(1) unfolding split step_ok_def
      by (subst validatePlan.simps) (simp add: simps conj_ac)
  next
    case (6 q)
    then have "q \<in> set (plan_children p)" using children(5) by simp
    with 6 show ?thesis using assms(1) unfolding split step_ok_def
      by (subst validatePlan.simps) (simp add: simps sub conj_ac)
  qed (use assms(1) in \<open>subst validatePlan.simps, simp add: simps split step_ok_def conj_ac\<close>)+
qed

text \<open>\<open>validatePlan\<close> reports nothing exactly when every step nested in the plan is well formed.\<close>

lemma validatePlan_iff: "snd (validatePlan c ident p) = [] \<longleftrightarrow> (\<forall>q \<in> set (collectPlans p). step_ok c q)"
proof (induction p arbitrary: ident rule: plan_config_induct)
  case (1 p)
  have all: "(\<forall>q \<in> set (collectPlans p). step_ok c q) \<longleftrightarrow>
      step_ok c p \<and> (\<forall>q \<in> set (plan_children p). \<forall>r \<in> set (collectPlans q). step_ok c r)"
    by (subst collectPlans_children) auto
  show ?case
  proof (cases "length (step_actions p) = 1")
    case True
    from validatePlan_children [OF True, of c "\<lambda>q. \<forall>r \<in> set (collectPlans q). step_ok c r" ident] 1
    show ?thesis unfolding all by blast
  next
    case False
    then have "fst (foundTypes_IsValid (find_types ident p)) = False" by (simp add: IsValid_iff)
    then obtain message where "foundTypes_IsValid (find_types ident p) = (False, message)"
      by (metis prod.collapse)
    then have "snd (validatePlan c ident p) \<noteq> []" by (subst validatePlan.simps) simp
    moreover have "\<not> step_ok c p" using False by (simp add: step_ok_def)
    ultimately show ?thesis unfolding all by blast
  qed
qed

lemma set_plan_children:
  "set (plan_children p) =
     set_option (plan_Abort p) \<union> set_option (plan_Success p) \<union> set_option (plan_Failure p) \<union>
     set_option (plan_Ensure p) \<union> set_option (plan_Try p) \<union>
     (case plan_Do p of None \<Rightarrow> {} | Some ps \<Rightarrow> set ps) \<union> (case plan_Aggregate p of None \<Rightarrow> {} | Some ps \<Rightarrow> set ps)"
  by (auto simp: plan_children_def split: option.splits)

lemma ball_set_option: "(\<forall>p. x = Some p \<longrightarrow> P p) \<longleftrightarrow> (\<forall>p \<in> set_option x. P p)"
  by (cases x) auto

lemma job_plan_Nil:
  "snd (job_plan_findings c identifier job) = [] \<longleftrightarrow> (\<forall>p \<in> set (JobConfig_Plans job). step_ok c p)"
proof -
  let ?all = "\<lambda>q. \<forall>p \<in> set (collectPlans q). step_ok c p"
  have root: "step_ok c (do_config ps h)" for ps h by (simp add: step_ok_def step_actions_def)
  have sub: "?all (do_config ps h) \<longleftrightarrow> (\<forall>q \<in> set (plan_children (do_config ps h)). ?all q)" for ps h
    using root by (subst collectPlans_children) auto
  have "?all (do_config (job_Plan job) no_hooks) \<longleftrightarrow> (\<forall>q \<in> set (job_Plan job). ?all q)"
    unfolding sub by (simp add: set_plan_children no_hooks_def)
  moreover have "(\<forall>p \<in> set (JobConfig_Plans job). step_ok c p) \<longleftrightarrow>
      (\<forall>q \<in> set (job_Plan job). ?all q) \<and> (\<forall>q \<in> set_option (job_Abort job). ?all q) \<and>
      (\<forall>q \<in> set_option (job_Failure job). ?all q) \<and> (\<forall>q \<in> set_option (job_Ensure job). ?all q) \<and>
      (\<forall>q \<in> set_option (job_Success job). ?all q)"
    unfolding JobConfig_Plans_def sub set_plan_children ball_Un
    by (simp only: do_config_simps JobConfig_Hooks_def Hooks.simps option.case ball_empty simp_thms option.set) blast
  ultimately show ?thesis
    by (simp only: job_plan_findings_def snd_join list.set ball_simps findings_option validatePlan_iff
        ball_set_option simp_thms)
qed

lemma encountered_Nil:
  "(\<forall>n. go_index 0 m n \<le> 1) \<Longrightarrow> encountered_loop identifier inputs m = [] \<longleftrightarrow>
     distinct (map ji_Name inputs) \<and> (\<forall>i \<in> set inputs. go_index 0 m (ji_Name i) = 0)"
proof (induction inputs arbitrary: m)
  case (Cons i inputs)
  let ?m = "AList.update (ji_Name i) (go_index 0 m (ji_Name i) + 1) m"
  show ?case
  proof (cases "go_index 0 m (ji_Name i) = 0")
    case True
    then have "\<forall>n. go_index 0 ?m n \<le> 1" using Cons.prems by auto
    from Cons.IH [OF this] True show ?thesis by (auto simp: Let_def image_iff)
  next
    case False
    moreover have "go_index 0 m (ji_Name i) \<le> 1" using Cons.prems by simp
    ultimately have "go_index 0 m (ji_Name i) = 1" by linarith
    then show ?thesis by (simp add: Let_def)
  qed
qed simp

text \<open>The map \<open>names\<close> of the three list validations holds the names seen so far.\<close>

lemma same_name_cases:
  assumes "same_name kind i name names = (duplicate, names')"
  shows "duplicate = [] \<longleftrightarrow> name \<notin> fst ` set names"
    and "duplicate = [] \<Longrightarrow> name \<noteq> [] \<Longrightarrow> fst ` set names' = insert name (fst ` set names)"
proof -
  show "duplicate = [] \<longleftrightarrow> name \<notin> fst ` set names"
    using assms map_of_eq_None_iff [of names name] by (auto simp: same_name_def split: option.splits)
  show "duplicate = [] \<Longrightarrow> name \<noteq> [] \<Longrightarrow> fst ` set names' = insert name (fst ` set names)"
  proof -
    assume "duplicate = []" and "name \<noteq> []"
    then have "names' = AList.update name i names" using assms by (auto simp: same_name_def split: option.splits)
    then show ?thesis by (simp only: fst_set_update)
  qed
qed

lemma names_step:
  assumes sn: "same_name kind i (nm r) names = (d, names')"
    and ih: "P \<longleftrightarrow> distinct (map nm rs) \<and> (\<forall>x \<in> set rs. Q x \<and> nm x \<notin> fst ` set names')"
    and named: "Q r \<Longrightarrow> nm r \<noteq> []"
  shows "d = [] \<and> Q r \<and> P \<longleftrightarrow> distinct (map nm (r # rs)) \<and> (\<forall>x \<in> set (r # rs). Q x \<and> nm x \<notin> fst ` set names)"
proof (cases "d = [] \<and> Q r")
  case True
  then have "fst ` set names' = insert (nm r) (fst ` set names)" "nm r \<notin> fst ` set names"
    using same_name_cases [OF sn] named by simp_all
  then show ?thesis using True ih by (auto simp: image_iff)
next
  case False
  then show ?thesis using same_name_cases(1) [OF sn] by auto
qed

lemma resources_loop_Nil:
  "resources_loop i rs names = [] \<longleftrightarrow> distinct (map resource_Name rs) \<and>
     (\<forall>r \<in> set rs. (resource_Name r \<noteq> [] \<and> resource_Type r \<noteq> []) \<and> resource_Name r \<notin> fst ` set names)"
proof (induction i rs names rule: resources_loop.induct)
  case (2 i r rs names)
  obtain d names' where sn: "same_name ''resources'' i (resource_Name r) names = (d, names')" by fastforce
  have "resources_loop i (r # rs) names = [] \<longleftrightarrow>
      d = [] \<and> (resource_Name r \<noteq> [] \<and> resource_Type r \<noteq> []) \<and> resources_loop (i + 1) rs names' = []"
    by (simp add: sn Let_def)
  then show ?case using names_step [OF sn "2.IH" [OF refl sn [symmetric] refl]] by simp
qed simp

lemma resource_types_loop_Nil:
  "resource_types_loop i ts names = [] \<longleftrightarrow> distinct (map rt_Name ts) \<and>
     (\<forall>t \<in> set ts. (rt_Name t \<noteq> [] \<and> rt_Type t \<noteq> []) \<and> rt_Name t \<notin> fst ` set names)"
proof (induction i ts names rule: resource_types_loop.induct)
  case (2 i t ts names)
  obtain d names' where sn: "same_name ''resource_types'' i (rt_Name t) names = (d, names')" by fastforce
  have "resource_types_loop i (t # ts) names = [] \<longleftrightarrow>
      d = [] \<and> (rt_Name t \<noteq> [] \<and> rt_Type t \<noteq> []) \<and> resource_types_loop (i + 1) ts names' = []"
    by (simp add: sn Let_def)
  then show ?case using names_step [OF sn "2.IH" [OF refl sn [symmetric] refl]] by simp
qed simp

definition job_ok :: "Config \<Rightarrow> JobConfig \<Rightarrow> bool" where
  "job_ok c job \<longleftrightarrow> job_Name job \<noteq> [] \<and> job_BuildLogsToRetain job \<ge> 0 \<and>
     (\<forall>p \<in> set (JobConfig_Plans job). step_ok c p) \<and> distinct (map ji_Name (JobConfig_Inputs job))"

lemma jobs_loop_Nil:
  "snd (jobs_loop c i js names) = [] \<longleftrightarrow> distinct (map job_Name js) \<and>
     (\<forall>job \<in> set js. job_ok c job \<and> job_Name job \<notin> fst ` set names)"
proof (induction c i js names rule: jobs_loop.induct)
  case (2 c i job js names)
  obtain d names' where sn: "same_name ''jobs'' i (job_Name job) names = (d, names')" by fastforce
  have enc: "encountered_loop ident inputs [] = [] \<longleftrightarrow> distinct (map ji_Name inputs)" for ident inputs
    using encountered_Nil [of "[]"] by simp
  have "snd (jobs_loop c i (job # js) names) = [] \<longleftrightarrow> d = [] \<and> job_ok c job \<and> snd (jobs_loop c (i + 1) js names') = []"
    by (simp add: sn Let_def job_plan_Nil enc job_ok_def not_less conj_ac)
  then show ?case using names_step [OF sn "2.IH" [OF refl sn [symmetric] refl]] by (simp add: job_ok_def)
qed simp

lemma go_insert_fold: "set (foldl (\<lambda>u x. go_insert (f x) u) u xs) = f ` set xs \<union> set u"
  by (induction xs arbitrary: u) auto

lemma set_usedResources: "set (usedResources c) = (\<Union>job \<in> set (cfg_Jobs c). job_resources job)"
proof -
  have "set (foldl (\<lambda>used job.
       foldl (\<lambda>used output. go_insert (jo_Resource output) used)
         (foldl (\<lambda>used input. go_insert (ji_Resource input) used) used (JobConfig_Inputs job))
         (JobConfig_Outputs job)) u js) = (\<Union>job \<in> set js. job_resources job) \<union> set u" for u js
    by (induction js arbitrary: u) (auto simp: go_insert_fold job_resources_def)
  then show ?thesis by (simp add: usedResources_def)
qed

lemma group_jobs_fold:
  assumes "distinct (map fst m)"
  shows "foldl (group_job_step c g) (e, m) js = (e', m') \<Longrightarrow> distinct (map fst m') \<and>
    (e' = [] \<longleftrightarrow> e = [] \<and> set js \<subseteq> job_Name ` set (cfg_Jobs c)) \<and>
    (\<forall>n. map_of m' n = (if n \<in> set js \<and> n \<in> job_Name ` set (cfg_Jobs c) then Some True else map_of m n))"
  using assms
proof (induction js arbitrary: e m)
  case (Cons j js)
  show ?case
  proof (cases "JobConfigs_Lookup (cfg_Jobs c) j")
    case None
    then have "j \<notin> job_Name ` set (cfg_Jobs c)" by (simp add: jobs.lookup_None)
    then show ?thesis
      using Cons.IH [of "e @ [''group '' @ quoted (group_Name g) @ '' has unknown job '' @ quoted j]" m] Cons.prems None
      by (auto simp: group_job_step_def)
  next
    case (Some job)
    then have "j \<in> job_Name ` set (cfg_Jobs c)" using jobs.lookup_Some by blast
    moreover have "distinct (map fst (AList.update j True m))" using Cons.prems by (simp add: distinct_update)
    ultimately show ?thesis using Cons.IH [of e "AList.update j True m"] Cons.prems Some
      by (simp add: group_job_step_def)
  qed
qed auto

lemma groups_fold:
  "foldl (group_step c) (e, m) gs = (e', m') \<Longrightarrow> distinct (map fst m) \<Longrightarrow> distinct (map fst m') \<and>
   (e' = [] \<longleftrightarrow> e = [] \<and> (\<forall>g \<in> set gs. set (group_Jobs g) \<subseteq> job_Name ` set (cfg_Jobs c) \<and>
      set (group_Resources g) \<subseteq> resource_Name ` set (cfg_Resources c))) \<and>
   (\<forall>n. map_of m' n =
      (if n \<in> (\<Union>g \<in> set gs. set (group_Jobs g)) \<and> n \<in> job_Name ` set (cfg_Jobs c) then Some True else map_of m n))"
proof (induction gs arbitrary: e m)
  case (Cons g gs)
  obtain e1 m1 where f: "foldl (group_job_step c g) (e, m) (group_Jobs g) = (e1, m1)" by fastforce
  note g = group_jobs_fold [OF Cons.prems(2) f]
  have r: "group_resource_messages c g = [] \<longleftrightarrow> set (group_Resources g) \<subseteq> resource_Name ` set (cfg_Resources c)"
  proof -
    have "group_resource_messages c g = [] \<longleftrightarrow>
        (\<forall>r \<in> set (group_Resources g). ResourceConfigs_Lookup (cfg_Resources c) r \<noteq> None)"
      by (auto simp: group_resource_messages_def split: option.splits)
    then show ?thesis by (auto simp: resources.lookup_None)
  qed
  have "foldl (group_step c) (e1 @ group_resource_messages c g, m1) gs = (e', m')"
    using Cons.prems(1) by (simp add: group_step_def [of c "(e, m)" g] f)
  from Cons.IH [OF this] g r show ?case by auto
qed simp

lemma ungrouped_Nil:
  "distinct (map fst m) \<Longrightarrow> filter (\<lambda>(j, grouped). \<not> grouped) m = [] \<longleftrightarrow> (\<forall>n. map_of m n \<noteq> Some False)"
  by (auto simp: filter_empty_conv)

lemma jobsGrouped_start:
  "distinct (map fst m) \<Longrightarrow>
     distinct (map fst (foldl (\<lambda>m job. AList.update (job_Name job) False m) m js)) \<and>
     (\<forall>n. map_of (foldl (\<lambda>m job. AList.update (job_Name job) False m) m js) n =
        (if n \<in> job_Name ` set js then Some False else map_of m n))"
  by (induction js arbitrary: m) (auto simp: distinct_update)

lemma validateGroups_None:
  "validateGroups c = None \<longleftrightarrow>
     (\<forall>g \<in> set (cfg_Groups c). set (group_Jobs g) \<subseteq> job_Name ` set (cfg_Jobs c) \<and>
        set (group_Resources g) \<subseteq> resource_Name ` set (cfg_Resources c)) \<and>
     (cfg_Groups c \<noteq> [] \<longrightarrow> job_Name ` set (cfg_Jobs c) \<subseteq> (\<Union>g \<in> set (cfg_Groups c). set (group_Jobs g)))"
proof -
  define m where "m = foldl (\<lambda>m job. AList.update (job_Name job) False m) [] (cfg_Jobs c)"
  have m: "distinct (map fst m)" "\<And>n. map_of m n = (if n \<in> job_Name ` set (cfg_Jobs c) then Some False else None)"
    using jobsGrouped_start [of "[]" "cfg_Jobs c"] by (simp_all add: m_def)
  obtain e' m' where f: "foldl (group_step c) ([], m) (cfg_Groups c) = (e', m')" by fastforce
  note g = groups_fold [OF f m(1)]
  have "validateGroups c = None \<longleftrightarrow> e' = [] \<and> (cfg_Groups c \<noteq> [] \<longrightarrow> filter (\<lambda>(j, grouped). \<not> grouped) m' = [])"
    by (simp add: validateGroups_def m_def [symmetric] f compositeErr_def Let_def)
  then show ?thesis using g ungrouped_Nil [of m'] m(2) by auto
qed

lemma format_section_Nil: "format_section n err = [] \<longleftrightarrow> err = None"
  by (cases err) (auto simp: format_section_def)

lemma names_unique:
  "distinct (map nm xs) \<and> (\<forall>x \<in> set xs. (nm x \<noteq> [] \<and> T x) \<and> nm x \<notin> fst ` set []) \<longleftrightarrow>
     unique_names (map nm xs) \<and> (\<forall>x \<in> set xs. T x)"
  by (auto simp: unique_names_def image_iff)

lemma Config_Validate_Nil: "snd (Config_Validate c) = [] \<longleftrightarrow> valid_config c"
proof -
  obtain w e where jobs: "jobs_loop c 0 (cfg_Jobs c) [] = (w, e)" by fastforce
  then have e: "e = [] \<longleftrightarrow> unique_names (map job_Name (cfg_Jobs c)) \<and>
      (\<forall>job \<in> set (cfg_Jobs c). job_BuildLogsToRetain job \<ge> 0 \<and>
        (\<forall>p \<in> set (JobConfig_Plans job). step_ok c p) \<and> distinct (map ji_Name (JobConfig_Inputs job)))"
    using jobs_loop_Nil [of c 0 "cfg_Jobs c" "[]"] unfolding job_ok_def
    by (subst names_unique [symmetric]) simp
  have unused: "validateResourcesUnused c = [] \<longleftrightarrow>
      (\<forall>r \<in> set (cfg_Resources c). \<exists>job \<in> set (cfg_Jobs c). resource_Name r \<in> job_resources job)"
    unfolding validateResourcesUnused_def set_usedResources concat_map_Nil by auto
  have comp: "compositeErr ms = None \<longleftrightarrow> ms = []" for ms by (simp add: compositeErr_def)
  have "snd (Config_Validate c) = [] \<longleftrightarrow> validateGroups c = None \<and> validateResources c = None \<and>
      validateResourceTypes c = None \<and> compositeErr e = None"
    by (simp add: Config_Validate_def validateJobs_def jobs format_section_Nil)
  also have "\<dots> \<longleftrightarrow> validateGroups c = None \<and>
      (resources_loop 0 (cfg_Resources c) [] = [] \<and> validateResourcesUnused c = []) \<and>
      resource_types_loop 0 (cfg_ResourceTypes c) [] = [] \<and> e = []"
    by (simp only: validateResources_def validateResourceTypes_def comp append_is_Nil_conv)
  also have "\<dots> \<longleftrightarrow> valid_config c"
    unfolding validateGroups_None resources_loop_Nil resource_types_loop_Nil names_unique unused e valid_config_def
    by (simp only: ball_conj_distrib conj_assoc)
  finally show ?thesis .
qed

text \<open>
  C11. Pipeline validation is exact: \<open>Config.Validate\<close> reports no error exactly when names are unique and
  present, groups and their members fit, every resource has a type and is used, and every step of every
  job, at any depth of nesting and in every hook, has exactly one action, refers to resources and passed
  jobs that exist and interact, carries only fields of its kind, and has a sensible timeout and number of
  attempts.
\<close>

theorem Config_Validate_iff: "snd (Config_Validate c) = [] \<longleftrightarrow> valid_config c"
  by (rule Config_Validate_Nil)

end
