(* ===== verification/Build_Factory_Correct.thy ===== *)
theory Build_Factory_Correct
  imports Build_Factory Validate
begin

text \<open>
  What the build factory guarantees: for a job of a validated pipeline it always produces a plan; the ids
  of all nested plans are those the counter handed out, each once; and the get steps of the plan are
  exactly the inputs of the job, at the versions of the build's inputs.
\<close>

section \<open>New plans\<close>

lemma NewPlan_Inr:
  assumes "NewPlan st s = (Inr p, s')"
  shows "s' = s + 1" and "p_ID p = plan_id (s + 1)" and "plan_kids p = step_kids st"
    and "p_Get p = (case st of StepGet g \<Rightarrow> Some g | _ \<Rightarrow> None)" and "p_Put p = (case st of StepPut g \<Rightarrow> Some g | _ \<Rightarrow> None)"
proof -
  have "s' = s + 1 \<and> p_ID p = plan_id (s + 1) \<and> plan_kids p = step_kids st \<and>
      p_Get p = (case st of StepGet g \<Rightarrow> Some g | _ \<Rightarrow> None) \<and> p_Put p = (case st of StepPut g \<Rightarrow> Some g | _ \<Rightarrow> None)"
    using assms by (cases st) (clarsimp simp: NewPlan_def Let_def plan_kids_def)+
  then show "s' = s + 1" and "p_ID p = plan_id (s + 1)" and "plan_kids p = step_kids st"
    and "p_Get p = (case st of StepGet g \<Rightarrow> Some g | _ \<Rightarrow> None)" and "p_Put p = (case st of StepPut g \<Rightarrow> Some g | _ \<Rightarrow> None)"
    by simp_all
qed

definition succeeds :: "'a factory \<Rightarrow> bool" where
  "succeeds m \<longleftrightarrow> (\<forall>s. \<exists>x s'. m s = (Inr x, s'))"

lemma succeeds_return [simp]: "succeeds (f_return x)"
  by (simp add: succeeds_def)

lemma succeeds_bind: "succeeds m \<Longrightarrow> (\<And>x. succeeds (f x)) \<Longrightarrow> succeeds (f_bind m f)"
  unfolding succeeds_def f_bind_Inr by meson

lemma succeeds_NewPlan: "(\<And>d. st \<noteq> StepDependentGet d) \<Longrightarrow> succeeds (NewPlan st)"
  by (cases st) (auto simp: succeeds_def NewPlan_def Let_def)

lemma succeeds_each: "(\<And>x. x \<in> set xs \<Longrightarrow> succeeds (f x)) \<Longrightarrow> succeeds (f_each f xs)"
  by (induction xs) (auto intro!: succeeds_bind)

lemma succeeds_attach:
  "(\<And>c. h = Some c \<Longrightarrow> succeeds (f c (cp_resources cp) (cp_resourceTypes cp) (cp_inputs cp))) \<Longrightarrow>
     (\<And>a b d. mk a b \<noteq> StepDependentGet d) \<Longrightarrow> succeeds (attach mk h f cp)"
  by (auto simp: attach_def intro!: succeeds_bind succeeds_NewPlan split: option.split)

lemma succeeds_hooks:
  assumes "\<And>c. c \<in> hook_set (cp_hooks cp) \<Longrightarrow> succeeds (f c (cp_resources cp) (cp_resourceTypes cp) (cp_inputs cp))"
  shows "succeeds (applyHooks f cp)"
proof -
  have seq: "succeeds (f_bind (attach mk h f d) k)"
    if "set_option h \<subseteq> hook_set (cp_hooks cp)" "\<And>a b d. mk a b \<noteq> StepDependentGet d"
      "cp_hooks d = cp_hooks cp" "cp_resources d = cp_resources cp" "cp_resourceTypes d = cp_resourceTypes cp"
      "cp_inputs d = cp_inputs cp"
      "\<And>e. cp_hooks e = cp_hooks cp \<Longrightarrow> cp_resources e = cp_resources cp \<Longrightarrow>
        cp_resourceTypes e = cp_resourceTypes cp \<Longrightarrow> cp_inputs e = cp_inputs cp \<Longrightarrow> succeeds (k e)"
    for mk h d and k :: "constructionParams \<Rightarrow> Plan factory"
  proof -
    have "succeeds (attach mk h f d)" using that(1-6) assms by (intro succeeds_attach) auto
    moreover have "\<exists>y s2. k e s1 = (Inr y, s2)" if "attach mk h f d s = (Inr e, s1)" for e s s1
      using attach_frame [OF that] \<open>cp_hooks d = _\<close> \<open>cp_resources d = _\<close> \<open>cp_resourceTypes d = _\<close> \<open>cp_inputs d = _\<close>
        \<open>\<And>e. _ \<Longrightarrow> _ \<Longrightarrow> _ \<Longrightarrow> _ \<Longrightarrow> succeeds (k e)\<close> unfolding succeeds_def by metis
    ultimately show ?thesis unfolding succeeds_def f_bind_Inr by meson
  qed
  show ?thesis unfolding applyHooks_def hooks_attach
    by (intro seq) (auto simp: hook_set_def)
qed

text \<open>A step of a validated config needs nothing that is not there.\<close>

lemma construct_succeeds:
  "\<forall>q \<in> set (collectPlans pc). step_ok c q \<Longrightarrow> succeeds (constructPlanFromConfig pc (cfg_Resources c) t i)"
proof (induction pc rule: plan_config_induct)
  case (1 pc)
  let ?r = "cfg_Resources c"
  have self: "step_ok c pc" using 1(2) by simp
  have kids: "succeeds (constructPlanFromConfig q ?r t i)" if "q \<in> set (plan_children pc)" for q
    using that 1(2) by (intro 1(1)) (auto simp: collectPlans_children [of pc])
  have resource: "\<exists>x. ResourceConfigs_Lookup ?r n = Some x" if "n \<in> resource_Name ` set ?r" for n
    using that resources.lookup_None [of ?r n] by (metis not_None_eq)
  have "succeeds (construct_action constructPlanFromConfig pc ?r t i)"
  proof -
    have "length (step_actions pc) = 1" using self by (simp add: step_ok_def)
    then show ?thesis
    proof (cases rule: single_action)
      case (1 ps)
      then show ?thesis using kids
        by (auto simp: construct_action_def factory_do_def plan_children_def intro!: succeeds_bind succeeds_each succeeds_NewPlan)
    next
      case (2 ps)
      then show ?thesis using kids
        by (auto simp: construct_action_def plan_children_def intro!: succeeds_bind succeeds_each succeeds_NewPlan)
    next
      case 3
      then have "get_ok c pc" using self by (simp add: step_ok_def)
      then obtain x where "ResourceConfigs_Lookup ?r (step_resource pc) = Some x" using resource by (auto simp: get_ok_def)
      then show ?thesis using 3
        by (auto simp: construct_action_def construct_get_def Let_def step_resource_def split: if_splits intro!: succeeds_NewPlan)
    next
      case 4
      then have "put_ok c pc" using self by (simp add: step_ok_def)
      then obtain x where "ResourceConfigs_Lookup ?r (step_resource pc) = Some x" using resource by (auto simp: put_ok_def)
      then show ?thesis using 4
        by (auto simp: construct_action_def construct_put_def Let_def step_resource_def split: if_splits
            intro!: succeeds_bind succeeds_NewPlan)
    next
      case 5
      then show ?thesis by (simp add: construct_action_def construct_task_def succeeds_NewPlan)
    next
      case (6 q)
      then show ?thesis using kids
        by (auto simp: construct_action_def plan_children_def intro!: succeeds_bind succeeds_NewPlan)
    qed
  qed
  then have unhooked: "succeeds (constructUnhookedPlan constructPlanFromConfig pc ?r t i)"
    by (auto simp: constructUnhookedPlan_def intro!: succeeds_bind succeeds_NewPlan)
  have "\<not> plan_Attempts pc < 0" using self by (simp add: step_ok_def)
  with unhooked show ?case
    using kids hook_set_children [of pc]
    by (subst constructPlanFromConfig.simps)
      (auto intro!: succeeds_bind succeeds_each succeeds_NewPlan succeeds_hooks)
qed

section \<open>The contents of a plan\<close>

text \<open>The \<open>n\<close> ids the factory hands out after counter value \<open>s\<close>.\<close>

definition fresh_ids :: "64 word \<Rightarrow> nat \<Rightarrow> PlanID list" where
  "fresh_ids s n = map (\<lambda>k. plan_id (s + of_nat k)) [1..<Suc n]"

lemma fresh_ids_Suc: "fresh_ids s (Suc n) = fresh_ids s n @ [plan_id (s + of_nat (Suc n))]"
  by (simp add: fresh_ids_def)

lemma fresh_ids_add: "fresh_ids s (m + n) = fresh_ids s m @ fresh_ids (s + of_nat m) n"
proof (induction n)
  case (Suc n)
  have "s + of_nat (Suc (m + n)) = s + of_nat m + of_nat (Suc n)" by (simp only: of_nat_add add_Suc_right [symmetric] add.assoc)
  with Suc show ?case by (simp only: add_Suc_right fresh_ids_Suc append_assoc)
qed (simp add: fresh_ids_def)

definition get_from :: "ResourceConfig list \<Rightarrow> JobBuildInput list \<Rightarrow> PlanConfig \<Rightarrow> GetPlan \<Rightarrow> bool" where
  "get_from r i q g \<longleftrightarrow>
     plan_Get q \<noteq> [] \<and> gp_Name g = plan_Get q \<and> gp_Resource g = step_resource q \<and> gp_Params g = plan_Params q \<and>
     gp_Version g = Some (input_version i (plan_Get q)) \<and>
     (\<exists>x. ResourceConfigs_Lookup r (step_resource q) = Some x \<and> gp_Type g = resource_Type x \<and> gp_Source g = resource_Source x)"

text \<open>
  The plans \<open>ps\<close> were built from the configs \<open>K\<close> while the counter went from \<open>s\<close> to \<open>s'\<close>: their ids are
  the ids handed out; a get step either comes from a get config or takes its version from a put step;
  and every get config has its get step.
\<close>

definition built_from ::
    "ResourceConfig list \<Rightarrow> JobBuildInput list \<Rightarrow> PlanConfig set \<Rightarrow> 64 word \<Rightarrow> Plan list \<Rightarrow> 64 word \<Rightarrow> bool" where
  "built_from r i K s ps s' \<longleftrightarrow>
     (let N = concat (map plan_nodes ps)
      in (\<exists>n. s' = s + of_nat n \<and> mset (map p_ID N) = mset (fresh_ids s n)) \<and>
         (\<forall>node \<in> set N. \<forall>g. p_Get node = Some g \<longrightarrow>
            (case gp_VersionFrom g of
               None \<Rightarrow> \<exists>q \<in> K. get_from r i q g
             | Some k \<Rightarrow> gp_Version g = None \<and> (\<exists>put \<in> set N. p_ID put = k \<and> p_Put put \<noteq> None))) \<and>
         (\<forall>q \<in> K. plan_Get q \<noteq> [] \<longrightarrow> (\<exists>node \<in> set N. \<exists>g. p_Get node = Some g \<and> get_from r i q g)))"

lemma built_from_Nil: "built_from r i {} s [] s"
  by (auto simp: built_from_def fresh_ids_def intro: exI [of _ 0])

lemma built_from_append:
  assumes "built_from r i K s ps s1" and "built_from r i L s1 qs s2"
  shows "built_from r i (K \<union> L) s (ps @ qs) s2"
proof -
  from assms obtain m n where "s1 = s + of_nat m" "s2 = s1 + of_nat n"
    "mset (map p_ID (concat (map plan_nodes ps))) = mset (fresh_ids s m)"
    "mset (map p_ID (concat (map plan_nodes qs))) = mset (fresh_ids s1 n)"
    by (auto simp: built_from_def Let_def)
  then have ids: "\<exists>n. s2 = s + of_nat n \<and> mset (map p_ID (concat (map plan_nodes (ps @ qs)))) = mset (fresh_ids s n)"
    by (intro exI [of _ "m + n"]) (simp add: fresh_ids_add add.assoc)
  have "case gp_VersionFrom g of
      None \<Rightarrow> \<exists>q \<in> K \<union> L. get_from r i q g
    | Some k \<Rightarrow> gp_Version g = None \<and> (\<exists>put \<in> set (concat (map plan_nodes (ps @ qs))). p_ID put = k \<and> p_Put put \<noteq> None)"
    if "node \<in> set (concat (map plan_nodes (ps @ qs)))" "p_Get node = Some g" for node g
  proof (cases "node \<in> set (concat (map plan_nodes ps))")
    case True
    then show ?thesis using assms(1) that(2) unfolding built_from_def Let_def by (fastforce split: option.splits)
  next
    case False
    then have "node \<in> set (concat (map plan_nodes qs))" using that(1) by simp
    then show ?thesis using assms(2) that(2) unfolding built_from_def Let_def by (fastforce split: option.splits)
  qed
  moreover have "\<exists>node \<in> set (concat (map plan_nodes (ps @ qs))). \<exists>g. p_Get node = Some g \<and> get_from r i q g"
    if "q \<in> K \<union> L" "plan_Get q \<noteq> []" for q
    using that assms unfolding built_from_def Let_def by fastforce
  ultimately show ?thesis using ids unfolding built_from_def Let_def by blast
qed

lemma built_from_wrap:
  assumes "built_from r i K s ps s1" and "NewPlan st s1 = (Inr p, s2)" and "step_kids st = ps" and "\<And>g. st \<noteq> StepGet g"
  shows "built_from r i K s [p] s2"
proof -
  note p = NewPlan_Inr [OF assms(2)]
  have nodes: "plan_nodes p = p # concat (map plan_nodes ps)"
    using p(3) assms(3) by (simp add: plan_nodes_unfold [of p])
  have none: "p_Get p = None" using p(4) assms(4) by (auto split: Step.splits)
  from assms(1) obtain n where "s1 = s + of_nat n" "mset (map p_ID (concat (map plan_nodes ps))) = mset (fresh_ids s n)"
    by (auto simp: built_from_def Let_def)
  then have "\<exists>n. s2 = s + of_nat n \<and> mset (map p_ID (plan_nodes p)) = mset (fresh_ids s n)"
    using p(1,2) by (intro exI [of _ "Suc n"]) (simp add: nodes fresh_ids_Suc add_ac)
  moreover have "case gp_VersionFrom g of
      None \<Rightarrow> \<exists>q \<in> K. get_from r i q g
    | Some k \<Rightarrow> gp_Version g = None \<and> (\<exists>put \<in> set (plan_nodes p). p_ID put = k \<and> p_Put put \<noteq> None)"
    if "node \<in> set (plan_nodes p)" "p_Get node = Some g" for node g
  proof -
    have "node \<in> set (concat (map plan_nodes ps))" using that none by (auto simp: nodes)
    then show ?thesis using assms(1) that(2) unfolding built_from_def Let_def nodes
      by (fastforce split: option.splits)
  qed
  moreover have "\<exists>node \<in> set (plan_nodes p). \<exists>g. p_Get node = Some g \<and> get_from r i q g"
    if "q \<in> K" "plan_Get q \<noteq> []" for q
    using that assms(1) unfolding built_from_def Let_def nodes by fastforce
  moreover have single: "concat (map plan_nodes [p]) = plan_nodes p" by simp
  ultimately show ?thesis unfolding built_from_def Let_def single by blast
qed

lemma built_from_insert: "built_from r i K s ps s' \<Longrightarrow> plan_Get q = [] \<Longrightarrow> built_from r i (insert q K) s ps s'"
  unfolding built_from_def Let_def by (fastforce split: option.splits)

lemma built_from_each:
  assumes "\<And>x p s s'. x \<in> set xs \<Longrightarrow> f x s = (Inr p, s') \<Longrightarrow> built_from r i (K x) s [p] s'"
  shows "f_each f xs s = (Inr ps, s') \<Longrightarrow> built_from r i (\<Union>x \<in> set xs. K x) s ps s'"
  using assms
proof (induction xs arbitrary: s ps)
  case (Cons x xs)
  from Cons.prems(1) obtain p qs s1 where p: "f x s = (Inr p, s1)" "f_each f xs s1 = (Inr qs, s')" "ps = p # qs"
    by (auto simp: f_bind_Inr)
  have "built_from r i (K x) s [p] s1" using Cons.prems(2) p(1) by simp
  moreover have "built_from r i (\<Union>x \<in> set xs. K x) s1 qs s'" using Cons p(2) by simp
  ultimately show ?case using built_from_append by (fastforce simp: p(3))
qed (simp add: built_from_Nil)

lemma built_from_attach:
  assumes "built_from r i K s0 [cp_plan cp] s" and "attach mk h f cp s = (Inr cp', s')"
    and "\<And>c p s s'. h = Some c \<Longrightarrow> f c (cp_resources cp) (cp_resourceTypes cp) (cp_inputs cp) s = (Inr p, s') \<Longrightarrow>
      built_from r i (L c) s [p] s'"
    and "\<And>a b. step_kids (mk a b) = [a, b]" and "\<And>a b g. mk a b \<noteq> StepGet g"
  shows "built_from r i (K \<union> (\<Union>c \<in> set_option h. L c)) s0 [cp_plan cp'] s'"
proof (cases h)
  case None
  then show ?thesis using assms(1,2) by (simp add: attach_def)
next
  case (Some c)
  then obtain n s1 where n: "f c (cp_resources cp) (cp_resourceTypes cp) (cp_inputs cp) s = (Inr n, s1)"
    "NewPlan (mk (cp_plan cp) n) s1 = (Inr (cp_plan cp'), s')"
    using assms(2) by (auto simp: attach_def f_bind_Inr)
  have "built_from r i (K \<union> L c) s0 ([cp_plan cp] @ [n]) s1"
    using built_from_append [OF assms(1) assms(3) [OF Some n(1)]] .
  then show ?thesis using built_from_wrap [OF _ n(2)] assms(4,5) Some by simp
qed

lemma built_from_hooks:
  assumes "built_from r i K s0 [cp_plan cp] s" and "applyHooks f cp s = (Inr p, s')"
    and f: "\<And>c p s s'. c \<in> hook_set (cp_hooks cp) \<Longrightarrow>
      f c (cp_resources cp) (cp_resourceTypes cp) (cp_inputs cp) s = (Inr p, s') \<Longrightarrow> built_from r i (L c) s [p] s'"
  shows "built_from r i (K \<union> (\<Union>c \<in> hook_set (cp_hooks cp). L c)) s0 [p] s'"
proof -
  from assms(2) obtain c1 s1 c2 s2 c3 s3 c4 where
    a: "attach (\<lambda>a b. StepOnAbort (OnAbortPlan a b)) (hook_Abort (cp_hooks cp)) f cp s = (Inr c1, s1)" and
    b: "attach (\<lambda>a b. StepOnFailure (OnFailurePlan a b)) (hook_Failure (cp_hooks c1)) f c1 s1 = (Inr c2, s2)" and
    c: "attach (\<lambda>a b. StepOnSuccess (OnSuccessPlan a b)) (hook_Success (cp_hooks c2)) f c2 s2 = (Inr c3, s3)" and
    d: "attach (\<lambda>a b. StepEnsure (EnsurePlan a b)) (hook_Ensure (cp_hooks c3)) f c3 s3 = (Inr c4, s')" and
    p: "p = cp_plan c4"
    by (auto simp: applyHooks_def hooks_attach f_bind_Inr)
  note frame = attach_frame [OF a] attach_frame [OF b] attach_frame [OF c]
  then have h: "cp_hooks c1 = cp_hooks cp" "cp_hooks c2 = cp_hooks cp" "cp_hooks c3 = cp_hooks cp" by simp_all
  let ?U = "\<lambda>h. (\<Union>c \<in> set_option (h (cp_hooks cp)). L c)"
  have "built_from r i (K \<union> ?U hook_Abort) s0 [cp_plan c1] s1"
    by (rule built_from_attach [OF assms(1) a]) (auto simp: hook_set_def intro: f)
  then have "built_from r i (K \<union> ?U hook_Abort \<union> (\<Union>c \<in> set_option (hook_Failure (cp_hooks c1)). L c)) s0 [cp_plan c2] s2"
    by (rule built_from_attach [OF _ b]) (auto simp: frame hook_set_def intro: f)
  then have "built_from r i (K \<union> ?U hook_Abort \<union> ?U hook_Failure \<union> (\<Union>c \<in> set_option (hook_Success (cp_hooks c2)). L c))
      s0 [cp_plan c3] s3"
    unfolding h by (rule built_from_attach [OF _ c [unfolded h]]) (auto simp: frame hook_set_def intro: f)
  then have "built_from r i (K \<union> ?U hook_Abort \<union> ?U hook_Failure \<union> ?U hook_Success \<union>
      (\<Union>c \<in> set_option (hook_Ensure (cp_hooks c3)). L c)) s0 [cp_plan c4] s'"
    unfolding h by (rule built_from_attach [OF _ d [unfolded h]]) (auto simp: frame hook_set_def intro: f)
  then show ?thesis unfolding p hook_set_def by (simp add: h Un_assoc UN_Un)
qed

lemma built_from_leaf:
  assumes "NewPlan st s = (Inr p, s')" and "step_kids st = []" and "\<And>g. st \<noteq> StepGet g"
  shows "built_from r i {} s [p] s'"
  using built_from_wrap [OF built_from_Nil assms(1)] assms(2,3) by simp

lemma built_from_get:
  assumes "construct_get pc r t i s = (Inr p, s')" and "plan_Get pc \<noteq> []"
  shows "built_from r i {pc} s [p] s'"
proof -
  have name: "(if plan_Resource pc = [] then plan_Get pc else plan_Resource pc) = step_resource pc"
    using assms(2) by (simp add: step_resource_def)
  from assms(1) obtain x where x: "ResourceConfigs_Lookup r (step_resource pc) = Some x"
    unfolding construct_get_def Let_def name by (auto split: option.splits)
  define g where "g = \<lparr>gp_Type = resource_Type x, gp_Name = plan_Get pc, gp_Resource = step_resource pc,
    gp_Source = resource_Source x, gp_Params = plan_Params pc, gp_Version = Some (input_version i (plan_Get pc)),
    gp_VersionFrom = None, gp_Tags = plan_Tags pc, gp_VersionedResourceTypes = t\<rparr>"
  have new: "NewPlan (StepGet g) s = (Inr p, s')"
    using assms(1) unfolding construct_get_def Let_def name x g_def by simp
  note p = NewPlan_Inr [OF new]
  have "plan_nodes p = [p]" using p(3) by (simp add: plan_nodes_unfold [of p])
  moreover have "get_from r i pc g" using assms(2) x by (simp add: get_from_def g_def)
  moreover have "gp_VersionFrom g = None" by (simp add: g_def)
  moreover have "fresh_ids s 1 = [plan_id (s + 1)]" by (simp add: fresh_ids_def)
  ultimately show ?thesis using p by (auto simp: built_from_def intro: exI [of _ 1])
qed

lemma built_from_put:
  assumes "construct_put pc r t s = (Inr p, s')"
  shows "built_from r i {} s [p] s'"
proof -
  from assms obtain put g p1 s1 p2 s2 where
    put: "NewPlan (StepPut put) s = (Inr p1, s1)" and get: "NewPlan (StepGet g) s1 = (Inr p2, s2)"
    and g: "gp_VersionFrom g = Some (p_ID p1)" "gp_Version g = None"
    and on: "NewPlan (StepOnSuccess (OnSuccessPlan p1 p2)) s2 = (Inr p, s')"
    by (auto simp: construct_put_def Let_def f_bind_Inr split: option.splits)
  note p1 = NewPlan_Inr [OF put] and p2 = NewPlan_Inr [OF get]
  have nodes: "plan_nodes p1 = [p1]" "plan_nodes p2 = [p2]"
    using p1(3) p2(3) by (simp_all add: plan_nodes_unfold [of p1] plan_nodes_unfold [of p2])
  have "fresh_ids s 2 = [plan_id (s + 1), plan_id (s + 2)]" by (simp add: fresh_ids_def eval_nat_numeral add_ac)
  then have "built_from r i {} s [p1, p2] s2"
    unfolding built_from_def Let_def
    using p1 p2 g by (auto simp: nodes add.assoc intro!: exI [of _ 2])
  then show ?thesis by (rule built_from_wrap [OF _ on]) simp_all
qed

text \<open>The configs a step's own action is built from: the step and everything nested below its action.\<close>

definition action_children :: "PlanConfig \<Rightarrow> PlanConfig list" where
  "action_children p =
     case_option [] id (plan_Do p) @ case_option [] (\<lambda>q. [q]) (plan_Try p) @ case_option [] id (plan_Aggregate p)"

lemma children_split: "set (plan_children p) = set (action_children p) \<union> hook_set (PlanConfig_Hooks p)"
  by (auto simp: plan_children_def action_children_def hook_set_def PlanConfig_Hooks_def split: option.splits)

lemma built_from_action:
  assumes "length (step_actions pc) = 1" and "construct_action f pc r t i s = (Inr p, s')"
    and f: "\<And>q p s s'. q \<in> set (action_children pc) \<Longrightarrow> f q r t i s = (Inr p, s') \<Longrightarrow> built_from r i (K q) s [p] s'"
  shows "built_from r i (insert pc (\<Union>q \<in> set (action_children pc). K q)) s [p] s'"
  using assms(1)
proof (cases rule: single_action)
  case (1 ps)
  then obtain qs s1 where qs: "f_each (\<lambda>q. f q r t i) ps s = (Inr qs, s1)" "NewPlan (StepDo qs) s1 = (Inr p, s')"
    using assms(2) by (auto simp: construct_action_def factory_do_def f_bind_Inr)
  have "built_from r i (\<Union>q \<in> set ps. K q) s qs s1"
    by (rule built_from_each [OF _ qs(1)]) (use f 1 in \<open>auto simp: action_children_def\<close>)
  then have "built_from r i (\<Union>q \<in> set ps. K q) s [p] s'" by (rule built_from_wrap [OF _ qs(2)]) simp_all
  then show ?thesis using 1 by (simp add: action_children_def built_from_insert)
next
  case (2 ps)
  then obtain qs s1 where qs: "f_each (\<lambda>q. f q r t i) ps s = (Inr qs, s1)" "NewPlan (StepAggregate qs) s1 = (Inr p, s')"
    using assms(2) by (auto simp: construct_action_def f_bind_Inr)
  have "built_from r i (\<Union>q \<in> set ps. K q) s qs s1"
    by (rule built_from_each [OF _ qs(1)]) (use f 2 in \<open>auto simp: action_children_def\<close>)
  then have "built_from r i (\<Union>q \<in> set ps. K q) s [p] s'" by (rule built_from_wrap [OF _ qs(2)]) simp_all
  then show ?thesis using 2 by (simp add: action_children_def built_from_insert)
next
  case 3
  then show ?thesis using assms(2) built_from_get [of pc r t i s p s'] by (simp add: construct_action_def action_children_def)
next
  case 4
  then have "built_from r i {} s [p] s'" using assms(2) built_from_put [of pc r t s p s' i] by (simp add: construct_action_def)
  then show ?thesis using 4 by (simp add: action_children_def built_from_insert)
next
  case 5
  then have "built_from r i {} s [p] s'"
    using assms(2) by (auto simp: construct_action_def construct_task_def intro: built_from_leaf)
  then show ?thesis using 5 by (simp add: action_children_def built_from_insert)
next
  case (6 q)
  then obtain n s1 where n: "f q r t i s = (Inr n, s1)" "NewPlan (StepTry (TryPlan n)) s1 = (Inr p, s')"
    using assms(2) by (auto simp: construct_action_def f_bind_Inr)
  have "built_from r i (K q) s [n] s1" using f [OF _ n(1)] 6 by (simp add: action_children_def)
  then have "built_from r i (K q) s [p] s'" by (rule built_from_wrap [OF _ n(2)]) simp_all
  then show ?thesis using 6 by (simp add: action_children_def built_from_insert)
qed

lemma unhooked_built:
  assumes "length (step_actions pc) = 1" and "constructUnhookedPlan f pc r t i s = (Inr p, s')"
    and f: "\<And>q p s s'. q \<in> set (action_children pc) \<Longrightarrow> f q r t i s = (Inr p, s') \<Longrightarrow> built_from r i (K q) s [p] s'"
  shows "built_from r i (insert pc (\<Union>q \<in> set (action_children pc). K q)) s [p] s'"
proof -
  from assms(2) obtain p1 s1 where p1: "construct_action f pc r t i s = (Inr p1, s1)" and
    rest: "(if plan_Timeout pc \<noteq> [] then NewPlan (StepTimeout (TimeoutPlan p1 (plan_Timeout pc))) else f_return p1) s1 = (Inr p, s')"
    by (auto simp: constructUnhookedPlan_def f_bind_Inr)
  have b: "built_from r i (insert pc (\<Union>q \<in> set (action_children pc). K q)) s [p1] s1"
    by (rule built_from_action [OF assms(1) p1]) (rule f)
  show ?thesis
  proof (cases "plan_Timeout pc = []")
    case True
    then show ?thesis using b rest by simp
  next
    case False
    then have "NewPlan (StepTimeout (TimeoutPlan p1 (plan_Timeout pc))) s1 = (Inr p, s')" using rest by simp
    then show ?thesis by (rule built_from_wrap [OF b]) simp_all
  qed
qed

lemma construct_built:
  "\<forall>q \<in> set (collectPlans pc). length (step_actions q) = 1 \<Longrightarrow>
     constructPlanFromConfig pc r t i s = (Inr p, s') \<Longrightarrow> built_from r i (set (collectPlans pc)) s [p] s'"
proof (induction pc arbitrary: s p s' rule: plan_config_induct)
  case (1 pc)
  let ?K = "insert pc (\<Union>q \<in> set (action_children pc). set (collectPlans q))"
  have collect: "set (collectPlans pc) = ?K \<union> (\<Union>q \<in> hook_set (PlanConfig_Hooks pc). set (collectPlans q))"
    using children_split [of pc] by (subst collectPlans_children) auto
  have kids: "built_from r i (set (collectPlans q)) s [p] s'"
    if "q \<in> set (plan_children pc)" "constructPlanFromConfig q r t i s = (Inr p, s')" for q s p s'
    using that 1(1) [OF that(1) _ that(2)] 1(2) by (auto simp: collectPlans_children [of pc])
  have single: "length (step_actions pc) = 1" using 1(2) by simp
  have unhooked: "built_from r i ?K s [p] s'"
    if "constructUnhookedPlan constructPlanFromConfig pc r t i s = (Inr p, s')" for s p s'
    by (rule unhooked_built [OF single that]) (use kids children_split [of pc] in blast)
  from 1(3) obtain p1 s1 where
    h: "applyHooks constructPlanFromConfig \<lparr>cp_plan = p1, cp_hooks = PlanConfig_Hooks pc, cp_resources = r,
          cp_resourceTypes = t, cp_inputs = i\<rparr> s1 = (Inr p, s')" and
    p1: "(if plan_Attempts pc = 0 then constructUnhookedPlan constructPlanFromConfig pc r t i
        else if plan_Attempts pc < 0 then f_fail (GoPanic ''runtime error: makeslice: len out of range'')
        else f_bind (f_each (\<lambda>_. constructUnhookedPlan constructPlanFromConfig pc r t i) [0..<nat (plan_Attempts pc)])
          (\<lambda>retryStep. NewPlan (StepRetry retryStep))) s = (Inr p1, s1)"
    by (auto simp: constructPlanFromConfig.simps [of pc] f_bind_Inr)
  have "built_from r i ?K s [p1] s1"
  proof (cases "plan_Attempts pc = 0")
    case True
    then show ?thesis using p1 unhooked by simp
  next
    case False
    with p1 have pos: "plan_Attempts pc > 0" by (auto split: if_splits)
    with p1 obtain ps s2 where
      each: "f_each (\<lambda>_. constructUnhookedPlan constructPlanFromConfig pc r t i) [0..<nat (plan_Attempts pc)] s = (Inr ps, s2)"
      and retry: "NewPlan (StepRetry ps) s2 = (Inr p1, s1)"
      by (auto simp: f_bind_Inr)
    have "built_from r i (\<Union>x \<in> set [0..<nat (plan_Attempts pc)]. ?K) s ps s2"
      by (rule built_from_each [OF _ each]) (rule unhooked)
    moreover have "(\<Union>x \<in> set [0..<nat (plan_Attempts pc)]. ?K) = ?K" using pos by auto
    ultimately show ?thesis by (intro built_from_wrap [OF _ retry]) auto
  qed
  then have "built_from r i (?K \<union> (\<Union>q \<in> hook_set (PlanConfig_Hooks pc). set (collectPlans q))) s [p] s'"
    using built_from_hooks [OF _ h, of r i ?K s "\<lambda>q. set (collectPlans q)"] kids children_split [of pc] by auto
  then show ?case unfolding collect .
qed

lemma Create_built:
  assumes "\<forall>q \<in> set (JobConfig_Plans job). length (step_actions q) = 1"
    and "factory_Create job r t i s = (Inr p, s')"
  shows "built_from r i (set (JobConfig_Plans job)) s [p] s'"
proof -
  let ?root = "do_config (job_Plan job) (JobConfig_Hooks job)"
  let ?K = "\<Union>q \<in> set (job_Plan job). set (collectPlans q)"
  let ?H = "\<Union>q \<in> hook_set (JobConfig_Hooks job). set (collectPlans q)"
  have kids: "set (plan_children ?root) = set (job_Plan job) \<union> hook_set (JobConfig_Hooks job)"
    by (auto simp: set_plan_children hook_set_def)
  then have all: "set (JobConfig_Plans job) = insert ?root (?K \<union> ?H)"
    unfolding JobConfig_Plans_def by (subst collectPlans_children) auto
  have sub: "built_from r i (set (collectPlans q)) s [p] s'"
    if "q \<in> set (plan_children ?root)" "constructPlanFromConfig q r t i s = (Inr p, s')" for q s p s'
    using that(1) assms(1) unfolding kids all by (intro construct_built [OF _ that(2)]) auto
  from assms(2) obtain p1 s1 where p1: "constructPlanFromJob job r t i s = (Inr p1, s1)" and
    h: "applyHooks constructPlanFromConfig \<lparr>cp_plan = p1, cp_hooks = JobConfig_Hooks job, cp_resources = r,
          cp_resourceTypes = t, cp_inputs = i\<rparr> s1 = (Inr p, s')"
    by (auto simp: factory_Create_def f_bind_Inr)
  have "built_from r i ?K s [p1] s1"
  proof (cases "length (job_Plan job) = 1")
    case True
    then obtain q where q: "job_Plan job = [q]" by (auto simp: length_Suc_conv)
    then show ?thesis using p1 sub [of q] kids by (simp add: constructPlanFromJob_def)
  next
    case False
    then obtain qs s2 where
      qs: "f_each (\<lambda>q. constructPlanFromConfig q r t i) (job_Plan job) s = (Inr qs, s2)" "NewPlan (StepDo qs) s2 = (Inr p1, s1)"
      using p1 by (auto simp: constructPlanFromJob_def Let_def factory_do_def f_bind_Inr)
    have "built_from r i ?K s qs s2" by (rule built_from_each [OF _ qs(1)]) (use sub kids in blast)
    then show ?thesis by (rule built_from_wrap [OF _ qs(2)]) simp_all
  qed
  then have "built_from r i (?K \<union> ?H) s [p] s'"
    using built_from_hooks [OF _ h, of r i ?K s "\<lambda>q. set (collectPlans q)"] sub kids by auto
  then show ?thesis unfolding all by (rule built_from_insert) simp
qed

lemma valid_actions:
  assumes "valid_config c" and "job \<in> set (cfg_Jobs c)"
  shows "\<forall>q \<in> set (JobConfig_Plans job). step_ok c q"
    and "\<forall>q \<in> set (JobConfig_Plans job). length (step_actions q) = 1"
  using assms by (auto simp: valid_config_def step_ok_def)

lemma fresh_ids_distinct: "n \<le> 2 ^ 64 \<Longrightarrow> distinct (fresh_ids s n)"
proof -
  assume n: "n \<le> 2 ^ 64"
  have "inj_on (\<lambda>k. plan_id (s + of_nat k)) (set [1..<Suc n])"
  proof (rule inj_onI)
    fix j k assume j: "j \<in> set [1..<Suc n]" and k: "k \<in> set [1..<Suc n]"
      and "plan_id (s + of_nat j) = plan_id (s + of_nat k)"
    then have "sint (s + of_nat j) = sint (s + of_nat k)" by (simp add: plan_id_def)
    then have "s + of_nat j = s + of_nat k" by (rule signed_word_eqI)
    moreover have r: "0 < j" "j \<le> n" "0 < k" "k \<le> n" using j k by auto
    moreover from r obtain j' k' where "j = Suc j'" "k = Suc k'" using gr0_implies_Suc by meson
    ultimately have jk: "j = Suc j'" "k = Suc k'" "(of_nat j' :: 64 word) = of_nat k'" by simp_all
    moreover have "j' < 2 ^ 64" "k' < 2 ^ 64" using r n jk by linarith+
    ultimately show "j = k" by (simp add: word_of_nat_eq_iff take_bit_nat_eq_self)
  qed
  then show ?thesis by (simp add: fresh_ids_def distinct_map del: upt_Suc)
qed

section \<open>A sample pipeline\<close>

definition sample_get :: PlanConfig where
  "sample_get =
     PlanConfig [] None None ''repo'' [] True [] [] [] False [] None [] [] [] [] [] [] None None None None None [] [] 0 None"

definition sample_put :: PlanConfig where
  "sample_put =
     PlanConfig [] None None [] [] False ''image'' [] [] False [] None [] [] [] [] [] [] None None None None None ''1h'' [] 2 None"

definition sample_step :: PlanConfig where
  "sample_step =
     PlanConfig [] None None [] [] False [] [] ''unit'' False ''repo/task.yml'' None [] [] [] [] [] [] None None
       (Some sample_put) None None [] [] 0 None"

definition sample_job :: JobConfig where
  "sample_job =
     \<lparr>job_Name = ''build'', job_Public = False, job_DisableManualTrigger = False, job_Serial = True,
      job_Interruptible = False, job_SerialGroups = [], job_RawMaxInFlight = 0, job_BuildLogsToRetain = 0,
      job_Plan = [sample_get, sample_step], job_Abort = None, job_Failure = None, job_Ensure = None, job_Success = None\<rparr>"

definition sample_resource :: "string \<Rightarrow> string \<Rightarrow> ResourceConfig" where
  "sample_resource name type =
     \<lparr>resource_Name = name, resource_WebhookToken = [], resource_Type = type, resource_Source = [],
      resource_CheckEvery = [], resource_Tags = []\<rparr>"

definition sample_config :: Config where
  "sample_config =
     \<lparr>cfg_Groups = [], cfg_Resources = [sample_resource ''repo'' ''git'', sample_resource ''image'' ''docker-image''],
      cfg_ResourceTypes = [], cfg_Jobs = [sample_job]\<rparr>"

definition sample_inputs :: "JobBuildInput list" where
  "sample_inputs =
     [\<lparr>bin_Name = ''repo'', bin_Resource = ''repo'', bin_Type = ''git'', bin_Version = Some [(''ref'', ''abc'')],
       bin_Metadata = [], bin_FirstOccurrence = True\<rparr>]"

lemma sample_validate: "Config_Validate sample_config = ([], [])"
  by code_simp

lemma sample_valid: "valid_config sample_config" "sample_job \<in> set (cfg_Jobs sample_config)"
  using Config_Validate_Nil [of sample_config] sample_validate by (simp_all add: sample_config_def)

definition sample_plan :: Plan where
  "sample_plan = (case fst (factory_Create sample_job (cfg_Resources sample_config) [] sample_inputs 0) of
     Inr p \<Rightarrow> p | Inl _ \<Rightarrow> zero_plan)"

lemma sample_create:
  "factory_Create sample_job (cfg_Resources sample_config) [] sample_inputs 0 = (Inr sample_plan, 13)"
  by code_simp

section \<open>Theorems\<close>

lemma input_triples:
  "{(ji_Name input, ji_Resource input, Some (input_version i (ji_Name input))) | input. input \<in> set (JobConfig_Inputs job)} =
   {(plan_Get q, step_resource q, Some (input_version i (plan_Get q))) | q. q \<in> set (JobConfig_Plans job) \<and> plan_Get q \<noteq> []}"
proof -
  let ?F = "\<lambda>input. (ji_Name input, ji_Resource input, Some (input_version i (ji_Name input)))"
  let ?G = "\<lambda>q. (plan_Get q, step_resource q, Some (input_version i (plan_Get q)))"
  let ?S = "{q \<in> set (JobConfig_Plans job). plan_Get q \<noteq> []}"
  have "?F (plan_input q) = ?G q" if "q \<in> ?S" for q
    using that by (simp add: plan_input_def step_resource_def)
  then have "?F ` plan_input ` ?S = ?G ` ?S" unfolding image_image by (rule image_cong [OF refl])
  moreover have "{?G q | q. q \<in> set (JobConfig_Plans job) \<and> plan_Get q \<noteq> []} = ?G ` ?S" by blast
  ultimately show ?thesis unfolding set_JobConfig_Inputs Setcompr_eq_image by simp
qed

lemma built_from_gets:
  assumes "built_from r i K s [plan] s'"
  shows "node \<in> set (plan_nodes plan) \<Longrightarrow> p_Get node = Some g \<Longrightarrow> get_from r i q g \<Longrightarrow> gp_VersionFrom g = None"
    and "node \<in> set (plan_nodes plan) \<Longrightarrow> p_Get node = Some g \<Longrightarrow> gp_VersionFrom g = None \<Longrightarrow> \<exists>q \<in> K. get_from r i q g"
    and "q \<in> K \<Longrightarrow> plan_Get q \<noteq> [] \<Longrightarrow> \<exists>node \<in> set (plan_nodes plan). \<exists>g. p_Get node = Some g \<and> get_from r i q g"
    and "node \<in> set (plan_nodes plan) \<Longrightarrow> p_Get node = Some g \<Longrightarrow> gp_VersionFrom g = Some k \<Longrightarrow>
      gp_Version g = None \<and> (\<exists>put \<in> set (plan_nodes plan). p_ID put = k \<and> p_Put put \<noteq> None)"
proof -
  have single: "concat (map plan_nodes [plan]) = plan_nodes plan" by simp
  note b = assms [unfolded built_from_def Let_def single]
  have get: "case gp_VersionFrom g of
      None \<Rightarrow> \<exists>q \<in> K. get_from r i q g
    | Some k \<Rightarrow> gp_Version g = None \<and> (\<exists>put \<in> set (plan_nodes plan). p_ID put = k \<and> p_Put put \<noteq> None)"
    if "node \<in> set (plan_nodes plan)" "p_Get node = Some g" for node g
    using b that by blast
  show "gp_VersionFrom g = None" if "node \<in> set (plan_nodes plan)" "p_Get node = Some g" "get_from r i q g"
    using get [OF that(1,2)] that(3) by (auto simp: get_from_def split: option.splits)
  show "\<exists>q \<in> K. get_from r i q g" if "node \<in> set (plan_nodes plan)" "p_Get node = Some g" "gp_VersionFrom g = None"
    using get [OF that(1,2)] that(3) by simp
  show "gp_Version g = None \<and> (\<exists>put \<in> set (plan_nodes plan). p_ID put = k \<and> p_Put put \<noteq> None)"
    if "node \<in> set (plan_nodes plan)" "p_Get node = Some g" "gp_VersionFrom g = Some k"
    using get [OF that(1,2)] that(3) by simp
  show "\<exists>node \<in> set (plan_nodes plan). \<exists>g. p_Get node = Some g \<and> get_from r i q g" if "q \<in> K" "plan_Get q \<noteq> []"
    using b that by blast
qed

text \<open>
  C13. Validation is enough: for a job of a pipeline that \<open>Config.Validate\<close> accepts, \<open>buildFactory.Create\<close>
  always produces a plan. It never reports a missing resource, never panics on a number of attempts, and
  this holds for any resource types, any build inputs and any value of the counter.
\<close>

theorem Create_succeeds:
  assumes "snd (Config_Validate c) = []" and "job \<in> set (cfg_Jobs c)"
  shows "\<exists>plan s'. factory_Create job (cfg_Resources c) t i s = (Inr plan, s')"
proof -
  have v: "valid_config c" using assms(1) by (simp add: Config_Validate_Nil)
  note ok = valid_actions(1) [OF v assms(2)]
  let ?r = "cfg_Resources c"
  have kids: "succeeds (constructPlanFromConfig q ?r t i)" if "q \<in> set (plan_children (do_config (job_Plan job) (JobConfig_Hooks job)))" for q
    using ok that by (intro construct_succeeds) (auto simp: JobConfig_Plans_def collectPlans_children [of "do_config _ _"])
  then have "succeeds (constructPlanFromJob job ?r t i)"
    by (auto simp: constructPlanFromJob_def factory_do_def set_plan_children Let_def
        intro!: succeeds_bind succeeds_each succeeds_NewPlan)
  then have "succeeds (factory_Create job ?r t i)"
    unfolding factory_Create_def using kids
    by (intro succeeds_bind succeeds_hooks) (auto simp: hook_set_def set_plan_children)
  then show ?thesis by (simp add: succeeds_def)
qed

theorem Create_succeeds_witness:
  "\<exists>plan s'. factory_Create sample_job (cfg_Resources sample_config) [] sample_inputs 0 = (Inr plan, s')"
  by (rule Create_succeeds) (simp_all add: sample_validate sample_valid(2))

text \<open>
  C14. Plan ids identify: all plans nested in the plan of a build, retries and hooks included, have different
  ids, wherever the 64-bit counter stood and even when it wraps around (for plans of fewer than 2^64 steps).
\<close>

theorem Create_ids_distinct:
  assumes "snd (Config_Validate c) = []" and "job \<in> set (cfg_Jobs c)"
    and "factory_Create job (cfg_Resources c) t i s = (Inr plan, s')" and "length (plan_nodes plan) \<le> 2 ^ 64"
  shows "distinct (map p_ID (plan_nodes plan))"
proof -
  have v: "valid_config c" using assms(1) by (simp add: Config_Validate_Nil)
  from Create_built [OF valid_actions(2) [OF v assms(2)] assms(3)] obtain n where
    n: "mset (map p_ID (plan_nodes plan)) = mset (fresh_ids s n)"
    by (auto simp: built_from_def Let_def)
  from arg_cong [OF n, of size] have "n = length (plan_nodes plan)" by (simp add: fresh_ids_def)
  then have "distinct (fresh_ids s n)" using assms(4) by (intro fresh_ids_distinct) simp
  then show ?thesis using mset_eq_imp_distinct_iff [OF n] by simp
qed

theorem Create_ids_distinct_witness: "distinct (map p_ID (plan_nodes sample_plan))"
proof (rule Create_ids_distinct [OF _ sample_valid(2) sample_create])
  have "length (plan_nodes sample_plan) = 13" by code_simp
  then show "length (plan_nodes sample_plan) \<le> 2 ^ 64" by simp
qed (simp add: sample_validate)

text \<open>
  C15. The plan fetches exactly the inputs of the job: each get step that does not follow a put is an input
  of the job, with the resource of that input and the version the build's inputs give for its name, and
  each input of the job, in any nested step or hook, has its get step in the plan.
\<close>

theorem Create_fetches_inputs:
  assumes "snd (Config_Validate c) = []" and "job \<in> set (cfg_Jobs c)"
    and "factory_Create job (cfg_Resources c) t i s = (Inr plan, s')"
  shows "{(gp_Name g, gp_Resource g, gp_Version g) | g node. node \<in> set (plan_nodes plan) \<and> p_Get node = Some g \<and>
      gp_VersionFrom g = None} =
    {(ji_Name input, ji_Resource input, Some (input_version i (ji_Name input))) | input. input \<in> set (JobConfig_Inputs job)}"
proof -
  have v: "valid_config c" using assms(1) by (simp add: Config_Validate_Nil)
  have b: "built_from (cfg_Resources c) i (set (JobConfig_Plans job)) s [plan] s'"
    by (rule Create_built [OF valid_actions(2) [OF v assms(2)] assms(3)])
  note from_none = built_from_gets(1) [OF b] and sound = built_from_gets(2) [OF b] and complete = built_from_gets(3) [OF b]
  show ?thesis unfolding input_triples
  proof (intro equalityI subsetI)
    fix x assume "x \<in> {(gp_Name g, gp_Resource g, gp_Version g) | g node. node \<in> set (plan_nodes plan) \<and>
      p_Get node = Some g \<and> gp_VersionFrom g = None}"
    then obtain g node where x: "x = (gp_Name g, gp_Resource g, gp_Version g)" and
      g: "node \<in> set (plan_nodes plan)" "p_Get node = Some g" "gp_VersionFrom g = None" by blast
    from sound [OF g] show "x \<in> {(plan_Get q, step_resource q, Some (input_version i (plan_Get q))) | q.
      q \<in> set (JobConfig_Plans job) \<and> plan_Get q \<noteq> []}" by (auto simp: x get_from_def)
  next
    fix x assume "x \<in> {(plan_Get q, step_resource q, Some (input_version i (plan_Get q))) | q.
      q \<in> set (JobConfig_Plans job) \<and> plan_Get q \<noteq> []}"
    then obtain q where x: "x = (plan_Get q, step_resource q, Some (input_version i (plan_Get q)))" and
      q: "q \<in> set (JobConfig_Plans job)" "plan_Get q \<noteq> []" by blast
    from complete [OF q] obtain node g where g: "node \<in> set (plan_nodes plan)" "p_Get node = Some g"
      "get_from (cfg_Resources c) i q g" by blast
    then have "x = (gp_Name g, gp_Resource g, gp_Version g)" by (simp add: x get_from_def)
    then show "x \<in> {(gp_Name g, gp_Resource g, gp_Version g) | g node. node \<in> set (plan_nodes plan) \<and>
      p_Get node = Some g \<and> gp_VersionFrom g = None}" using g from_none [OF g] by blast
  qed
qed

theorem Create_fetches_inputs_witness:
  "\<exists>g node. node \<in> set (plan_nodes sample_plan) \<and> p_Get node = Some g \<and> gp_VersionFrom g = None \<and>
     gp_Name g = ''repo'' \<and> gp_Version g = Some (Some [(''ref'', ''abc'')])"
proof -
  have "map ji_Name (JobConfig_Inputs sample_job) = [''repo'']" by code_simp
  then obtain input where "input \<in> set (JobConfig_Inputs sample_job)" "ji_Name input = ''repo''"
    by (metis (no_types) list.set_intros(1) imageE list.set_map)
  moreover have "input_version sample_inputs ''repo'' = Some [(''ref'', ''abc'')]" by (simp add: sample_inputs_def)
  ultimately have "(''repo'', ji_Resource input, Some (Some [(''ref'', ''abc'')])) \<in>
      {(ji_Name input, ji_Resource input, Some (input_version sample_inputs (ji_Name input))) | input.
        input \<in> set (JobConfig_Inputs sample_job)}" by force
  then have "(''repo'', ji_Resource input, Some (Some [(''ref'', ''abc'')])) \<in>
      {(gp_Name g, gp_Resource g, gp_Version g) | g node. node \<in> set (plan_nodes sample_plan) \<and> p_Get node = Some g \<and>
        gp_VersionFrom g = None}"
    by (subst Create_fetches_inputs [OF _ sample_valid(2) sample_create]) (simp_all add: sample_validate)
  then show ?thesis by (auto dest: sym)
qed

text \<open>
  C16. The get that follows a put fetches what the put produced: every get step that takes its version from
  another step names the id of a put step of the same plan, and carries no version of its own.
\<close>

theorem Create_version_from_put:
  assumes "snd (Config_Validate c) = []" and "job \<in> set (cfg_Jobs c)"
    and "factory_Create job (cfg_Resources c) t i s = (Inr plan, s')"
    and "node \<in> set (plan_nodes plan)" and "p_Get node = Some g" and "gp_VersionFrom g = Some k"
  shows "gp_Version g = None \<and> (\<exists>put \<in> set (plan_nodes plan). p_ID put = k \<and> p_Put put \<noteq> None)"
proof -
  have v: "valid_config c" using assms(1) by (simp add: Config_Validate_Nil)
  show ?thesis
    by (rule built_from_gets(4) [OF Create_built [OF valid_actions(2) [OF v assms(2)] assms(3)] assms(4-6)])
qed

theorem Create_version_from_put_witness:
  "\<exists>put \<in> set (plan_nodes sample_plan). p_ID put = ''3'' \<and> p_Put put \<noteq> None"
proof -
  have "map (map_option gp_VersionFrom \<circ> p_Get) (plan_nodes sample_plan) ! 8 = Some (Some ''3'')"
    "length (plan_nodes sample_plan) = 13" by code_simp+
  then obtain node g where "node \<in> set (plan_nodes sample_plan)" "p_Get node = Some g" "gp_VersionFrom g = Some ''3''"
    using nth_mem [of 8 "plan_nodes sample_plan"] by (auto simp del: nth_mem)
  from Create_version_from_put [OF _ sample_valid(2) sample_create this] show ?thesis by (simp add: sample_validate)
qed

end
