(* ===== verification/Engine_Correct.thy ===== *)
theory Engine_Correct
  imports Engine Build_Factory_Correct
begin

text \<open>
  From the configuration to the status of a build: the plan of a job of a validated pipeline gives steps
  that run without a panic, and the status that is saved is the verdict of the steps.
\<close>

section \<open>Sound plans\<close>

text \<open>A put and the get of what it produced.\<close>

definition dependent :: "Plan \<Rightarrow> Plan \<Rightarrow> bool" where
  "dependent a b \<longleftrightarrow> (\<exists>q g. first_step a = Some (StepPut q) \<and> first_step b = Some (StepGet g) \<and> gp_VersionFrom g = Some (p_ID a))"

text \<open>Durations can be read, retries have an attempt, and a get that takes its version from a put follows it.\<close>

function sound_plan :: "Plan \<Rightarrow> bool" where
  "sound_plan p =
     (case first_step p of
        None \<Rightarrow> True
      | Some (StepOnSuccess h) \<Rightarrow>
          sound_plan (onsuccess_Step h) \<and> (dependent (onsuccess_Step h) (onsuccess_Next h) \<or> sound_plan (onsuccess_Next h))
      | Some st \<Rightarrow>
          (case st of
             StepGet g \<Rightarrow> gp_Version g \<noteq> None \<or> gp_VersionFrom g = None
           | StepTimeout t \<Rightarrow> \<not> isl (ParseDuration (timeout_Duration t))
           | StepRetry ps \<Rightarrow> ps \<noteq> []
           | _ \<Rightarrow> True) \<and> (\<forall>q \<in> set (step_kids st). sound_plan q))"
  by pat_completeness auto
termination
  by (relation "measure size") (auto intro!: kids_size intro: first_step_kids)

declare sound_plan.simps [simp del]

definition good :: "StepFactory \<Rightarrow> bool" where
  "good f \<longleftrightarrow> runnable f \<and> durations_ok f"

lemma good_simps [simp]:
  "good Identity" "good (Aggregate i fs) \<longleftrightarrow> list_all good fs" "good (Ensure f h) \<longleftrightarrow> good f \<and> good h"
  "good (OnAbort f h) \<longleftrightarrow> good f \<and> good h" "good (OnFailure f h) \<longleftrightarrow> good f \<and> good h"
  "good (OnSuccess f h) \<longleftrightarrow> good f \<and> good h" "good (Try f) \<longleftrightarrow> good f" "good (Retry fs) \<longleftrightarrow> fs \<noteq> [] \<and> list_all good fs"
  "good (Timeout i f d) \<longleftrightarrow> \<not> isl (ParseDuration d) \<and> good f" "good (buildTaskStep i t at)" "good (buildPutStep i q at)"
  "good (buildGetStep i g at puts) \<longleftrightarrow>
     (\<forall>k. gp_Version g = None \<and> gp_VersionFrom g = Some k \<longrightarrow> k \<in> set puts)"
  by (auto simp: good_def list_all_iff buildTaskStep_def buildPutStep_def buildGetStep_def NewVersionSourceFromPlan_def
      putActions_lookup_def split: option.split)

lemma buildAggregateStep_good:
  "(\<And>p a u. p \<in> set ps \<Longrightarrow> good (fst (build p a u))) \<Longrightarrow> list_all good st \<Longrightarrow>
     list_all good (fst (buildAggregateStep build ps at puts st))"
proof (induction ps arbitrary: puts st)
  case (Cons p ps)
  then show ?case using Cons.prems(1) [of p at puts] by (simp add: split_def)
qed simp

lemma buildDoStep_good:
  "(\<And>p a u. p \<in> set ps \<Longrightarrow> good (fst (build p a u))) \<Longrightarrow> good st \<Longrightarrow> good (fst (buildDoStep build ps at puts st))"
proof (induction ps arbitrary: puts st)
  case (Cons p ps)
  then show ?case using Cons.prems(1) [of p at puts] by (simp add: split_def)
qed simp

lemma buildRetryStep_good:
  "(\<And>p a u. p \<in> set ps \<Longrightarrow> good (fst (build p a u))) \<Longrightarrow> list_all good st \<Longrightarrow>
     list_all good (fst (buildRetryStep build ps at k puts st))"
proof (induction ps arbitrary: k puts st)
  case (Cons p ps)
  then show ?case using Cons.prems(1) [of p "at @ [k + 1]" puts] by (simp add: split_def)
qed simp

lemma buildRetryStep_length: "length (fst (buildRetryStep build ps at k puts st)) = length st + length ps"
  by (induction ps arbitrary: k puts st) (auto split: prod.split)

lemma build_pair_good:
  "(\<And>a u. good (fst (build s a u))) \<Longrightarrow> (\<And>a u. good (fst (build n a u))) \<Longrightarrow>
     (\<And>f h. good (mk f h) \<longleftrightarrow> good f \<and> good h) \<Longrightarrow> good (fst (build_pair build mk s n at puts))"
  by (simp add: build_pair_def split_def)

lemma build_dependent_good:
  assumes "dependent a b"
  shows "good (fst (build_pair buildStepFactory OnSuccess a b at puts))"
proof -
  obtain q g where "first_step a = Some (StepPut q)" "first_step b = Some (StepGet g)" "gp_VersionFrom g = Some (p_ID a)"
    using assms by (auto simp: dependent_def)
  then show ?thesis by (simp add: build_pair_def buildStepFactory.simps)
qed

lemma buildStepFactory_good: "sound_plan p \<Longrightarrow> good (fst (buildStepFactory p at puts))"
proof (induction p arbitrary: at puts rule: plan_induct)
  case (1 p)
  note IH = 1(1) [OF first_step_kids]
  show ?case
  proof (cases "first_step p")
    case None
    then show ?thesis by (simp add: buildStepFactory.simps)
  next
    case (Some st)
    note s = 1(2) [unfolded sound_plan.simps [of p] Some] and b = buildStepFactory.simps [of p at puts, unfolded Some]
    have k: "good (fst (buildStepFactory q a u))" if "q \<in> set (step_kids st)" "sound_plan q" for q a u
      using IH Some that by blast
    show ?thesis
    proof (cases st)
      case (StepAggregate ps)
      then show ?thesis using s k by (simp add: b split_def buildAggregateStep_good)
    next
      case (StepDo ps)
      then show ?thesis using s k by (auto simp: b intro!: buildDoStep_good)
    next
      case (StepRetry ps)
      then have "fst (buildRetryStep buildStepFactory ps at 0 puts []) \<noteq> []"
        using s buildRetryStep_length [of buildStepFactory ps at 0 puts "[]"] by auto
      then show ?thesis using s k StepRetry by (simp add: b split_def buildRetryStep_good)
    next
      case (StepOnSuccess h)
      then show ?thesis using s k by (auto simp: b intro: build_dependent_good build_pair_good)
    qed (use s k in \<open>auto simp: b split_def build_pair_good\<close>)
  qed
qed

section \<open>The plans of the build factory are sound\<close>

definition yields :: "('a \<Rightarrow> bool) \<Rightarrow> 'a factory \<Rightarrow> bool" where
  "yields P m \<longleftrightarrow> (\<forall>s x s'. m s = (Inr x, s') \<longrightarrow> P x)"

lemma yields_return [simp]: "yields P (f_return x) \<longleftrightarrow> P x"
  by (simp add: yields_def)

lemma yields_fail [simp]: "yields P (f_fail e)"
  by (simp add: yields_def)

lemma yields_bind: "yields Q m \<Longrightarrow> (\<And>x. Q x \<Longrightarrow> yields P (f x)) \<Longrightarrow> yields P (f_bind m f)"
  unfolding yields_def f_bind_Inr by blast

lemma yields_each: "(\<And>x. x \<in> set xs \<Longrightarrow> yields P (f x)) \<Longrightarrow> yields (\<lambda>ys. length ys = length xs \<and> (\<forall>y \<in> set ys. P y)) (f_each f xs)"
proof (induction xs)
  case (Cons x xs)
  then have "yields P (f x)" and "yields (\<lambda>ys. length ys = length xs \<and> (\<forall>y \<in> set ys. P y)) (f_each f xs)" by simp_all
  then show ?case by (auto intro!: yields_bind)
qed simp

lemma yields_mono: "yields Q m \<Longrightarrow> (\<And>x. Q x \<Longrightarrow> P x) \<Longrightarrow> yields P m"
  by (auto simp: yields_def)

lemma yields_NewPlan_step: "yields (\<lambda>p. first_step p = Some st) (NewPlan st)"
  by (cases st) (auto simp: yields_def NewPlan_def Let_def first_step_def)

lemma yields_NewPlan: "(\<And>p. first_step p = Some st \<Longrightarrow> sound_plan p) \<Longrightarrow> yields sound_plan (NewPlan st)"
  by (rule yields_mono [OF yields_NewPlan_step])

lemma zero_plan_sound [simp]: "sound_plan zero_plan"
  by (simp add: sound_plan.simps first_step_def zero_plan_def)

lemma sound_hooks:
  assumes "sound_plan a" "sound_plan b"
  shows "first_step p = Some (StepOnAbort (OnAbortPlan a b)) \<Longrightarrow> sound_plan p"
    and "first_step p = Some (StepOnFailure (OnFailurePlan a b)) \<Longrightarrow> sound_plan p"
    and "first_step p = Some (StepOnSuccess (OnSuccessPlan a b)) \<Longrightarrow> sound_plan p"
    and "first_step p = Some (StepEnsure (EnsurePlan a b)) \<Longrightarrow> sound_plan p"
  using assms by (simp_all add: sound_plan.simps [of p])

definition same_frame :: "constructionParams \<Rightarrow> constructionParams \<Rightarrow> bool" where
  "same_frame cp d \<longleftrightarrow> cp_hooks d = cp_hooks cp \<and> cp_resources d = cp_resources cp \<and>
     cp_resourceTypes d = cp_resourceTypes cp \<and> cp_inputs d = cp_inputs cp"

lemma yields_attach:
  assumes "\<And>c. h = Some c \<Longrightarrow> yields sound_plan (f c (cp_resources cp) (cp_resourceTypes cp) (cp_inputs cp))"
    and "\<And>a b p. sound_plan a \<Longrightarrow> sound_plan b \<Longrightarrow> first_step p = Some (mk a b) \<Longrightarrow> sound_plan p"
    and "sound_plan (cp_plan cp)"
  shows "yields (\<lambda>d. sound_plan (cp_plan d) \<and> same_frame cp d) (attach mk h f cp)"
proof (cases h)
  case None
  then show ?thesis by (simp add: attach_def assms(3) same_frame_def)
next
  case (Some c)
  have "yields (\<lambda>d. sound_plan (cp_plan d) \<and> same_frame cp d) (f_bind (NewPlan (mk (cp_plan cp) n)) (\<lambda>plan. f_return (cp\<lparr>cp_plan := plan\<rparr>)))"
    if "sound_plan n" for n
    by (rule yields_bind [OF yields_NewPlan]) (use assms(2) [OF assms(3) that] in \<open>simp_all add: same_frame_def\<close>)
  then show ?thesis unfolding attach_def Some option.case by (rule yields_bind [OF assms(1) [OF Some]])
qed

lemma yields_hooks:
  assumes "\<And>c. c \<in> hook_set (cp_hooks cp) \<Longrightarrow> yields sound_plan (f c (cp_resources cp) (cp_resourceTypes cp) (cp_inputs cp))"
    and "sound_plan (cp_plan cp)"
  shows "yields sound_plan (applyHooks f cp)"
proof -
  have seq: "yields sound_plan (f_bind (attach mk h f d) k)"
    if h: "set_option h \<subseteq> hook_set (cp_hooks cp)"
      and mk: "\<And>a b p. sound_plan a \<Longrightarrow> sound_plan b \<Longrightarrow> first_step p = Some (mk a b) \<Longrightarrow> sound_plan p"
      and d: "sound_plan (cp_plan d) \<and> same_frame cp d"
      and k: "\<And>e. sound_plan (cp_plan e) \<and> same_frame cp e \<Longrightarrow> yields sound_plan (k e)"
    for mk h d and k :: "constructionParams \<Rightarrow> Plan factory"
  proof (rule yields_bind [OF yields_attach])
    show "yields sound_plan (f c (cp_resources d) (cp_resourceTypes d) (cp_inputs d))" if "h = Some c" for c
      using assms(1) [of c] h d that by (simp add: same_frame_def)
    show "sound_plan p" if "sound_plan a" "sound_plan b" "first_step p = Some (mk a b)" for a b p
      using that by (rule mk)
    show "sound_plan (cp_plan d)" using d by simp
    show "yields sound_plan (k e)" if "sound_plan (cp_plan e) \<and> same_frame d e" for e
      using that d by (intro k) (simp add: same_frame_def)
  qed
  have "same_frame cp cp" by (simp add: same_frame_def)
  then show ?thesis unfolding applyHooks_def hooks_attach
    by (intro seq) (auto simp: hook_set_def same_frame_def assms(2) intro: sound_hooks)
qed

lemma sound_steps:
  shows "first_step p = Some (StepDo ps) \<Longrightarrow> \<forall>q \<in> set ps. sound_plan q \<Longrightarrow> sound_plan p"
    and "first_step p = Some (StepAggregate ps) \<Longrightarrow> \<forall>q \<in> set ps. sound_plan q \<Longrightarrow> sound_plan p"
    and "first_step p = Some (StepRetry ps) \<Longrightarrow> ps \<noteq> [] \<Longrightarrow> \<forall>q \<in> set ps. sound_plan q \<Longrightarrow> sound_plan p"
    and "first_step p = Some (StepTry (TryPlan q)) \<Longrightarrow> sound_plan q \<Longrightarrow> sound_plan p"
    and "first_step p = Some (StepTimeout (TimeoutPlan q d)) \<Longrightarrow> \<not> isl (ParseDuration d) \<Longrightarrow> sound_plan q \<Longrightarrow> sound_plan p"
    and "first_step p = Some (StepTask t) \<Longrightarrow> sound_plan p"
    and "first_step p = Some (StepPut u) \<Longrightarrow> sound_plan p"
    and "first_step p = Some (StepGet g) \<Longrightarrow> gp_Version g \<noteq> None \<Longrightarrow> sound_plan p"
    and "first_step p = Some (StepOnSuccess (OnSuccessPlan a b)) \<Longrightarrow> sound_plan a \<Longrightarrow> dependent a b \<Longrightarrow> sound_plan p"
  by (simp_all add: sound_plan.simps [of p])

lemma yields_put: "yields sound_plan (construct_put pc r t)"
proof -
  have "yields sound_plan (f_bind (NewPlan (StepGet g)) (\<lambda>b. NewPlan (StepOnSuccess (OnSuccessPlan a b))))"
    if a: "first_step a = Some (StepPut u)" and g: "gp_VersionFrom g = Some (p_ID a)" for a u g
  proof (rule yields_bind [OF yields_NewPlan_step])
    fix b assume "first_step b = Some (StepGet g)"
    then have "dependent a b" using a g by (simp add: dependent_def)
    then show "yields sound_plan (NewPlan (StepOnSuccess (OnSuccessPlan a b)))"
      using sound_steps(7) [OF a] sound_steps(9) by (metis yields_NewPlan)
  qed
  note dep = this
  show ?thesis
  proof (cases "ResourceConfigs_Lookup r (if plan_Resource pc = [] then plan_Put pc else plan_Resource pc)")
    case (Some x)
    show ?thesis unfolding construct_put_def Let_def Some option.case
      by (rule yields_bind [OF yields_NewPlan_step], rule dep) simp_all
  qed (simp add: construct_put_def Let_def)
qed

lemma yields_action:
  assumes "\<And>q. q \<in> set (plan_children pc) \<Longrightarrow> yields sound_plan (f q r t i)"
  shows "yields sound_plan (construct_action f pc r t i)"
proof -
  have many: "yields sound_plan (f_bind (f_each (\<lambda>p. f p r t i) ps) (\<lambda>x. NewPlan (mk x)))"
    if "set ps \<subseteq> set (plan_children pc)"
      and "\<And>p qs. first_step p = Some (mk qs) \<Longrightarrow> \<forall>q \<in> set qs. sound_plan q \<Longrightarrow> sound_plan p" for ps mk
    using that assms by (intro yields_bind [OF yields_each] yields_NewPlan) auto
  have do: "yields sound_plan (factory_do f ps r t i)" if "plan_Do pc = Some ps" for ps
    unfolding factory_do_def by (rule many) (use that sound_steps(1) in \<open>auto simp: plan_children_def\<close>)
  have agg: "yields sound_plan (f_bind (f_each (\<lambda>p. f p r t i) ps) (\<lambda>x. NewPlan (StepAggregate x)))"
    if "plan_Aggregate pc = Some ps" for ps
    by (rule many) (use that sound_steps(2) in \<open>auto simp: plan_children_def\<close>)
  have tr: "yields sound_plan (f_bind (f q r t i) (\<lambda>n. NewPlan (StepTry (TryPlan n))))" if "plan_Try pc = Some q" for q
    by (rule yields_bind [OF assms yields_NewPlan]) (use that sound_steps(4) in \<open>auto simp: plan_children_def\<close>)
  have get: "yields sound_plan (construct_get pc r t i)"
    by (auto simp: construct_get_def Let_def split: option.split intro!: yields_NewPlan sound_steps(8))
  have task: "yields sound_plan (construct_task pc t)"
    by (auto simp: construct_task_def intro!: yields_NewPlan sound_steps(6))
  show ?thesis
    by (auto simp: construct_action_def do agg tr get task yields_put split: option.split)
qed

lemma construct_sound:
  "\<forall>q \<in> set (collectPlans pc). step_ok c q \<Longrightarrow> yields sound_plan (constructPlanFromConfig pc r t i)"
proof (induction pc rule: plan_config_induct)
  case (1 pc)
  have self: "step_ok c pc" using 1(2) by simp
  have kids: "yields sound_plan (constructPlanFromConfig q r t i)" if "q \<in> set (plan_children pc)" for q
    using that 1(2) by (intro 1(1)) (auto simp: collectPlans_children [of pc])
  have action: "yields sound_plan (construct_action constructPlanFromConfig pc r t i)"
    by (rule yields_action) (rule kids)
  have unhooked: "yields sound_plan (constructUnhookedPlan constructPlanFromConfig pc r t i)"
    unfolding constructUnhookedPlan_def
  proof (rule yields_bind [OF action])
    fix p assume "sound_plan p"
    then show "yields sound_plan (if plan_Timeout pc \<noteq> [] then NewPlan (StepTimeout (TimeoutPlan p (plan_Timeout pc))) else f_return p)"
      using self by (auto simp: step_ok_def intro!: yields_NewPlan intro: sound_steps(5))
  qed
  have retry: "yields sound_plan (f_bind (f_each (\<lambda>i'. constructUnhookedPlan constructPlanFromConfig pc r t i) [0..<nat n])
      (\<lambda>rs. NewPlan (StepRetry rs)))" if "n > 0" for n :: int
    by (rule yields_bind [OF yields_each [OF unhooked] yields_NewPlan]) (use that in \<open>auto elim!: sound_steps(3)\<close>)
  show ?case
    by (subst constructPlanFromConfig.simps, rule yields_bind [of sound_plan])
      (use unhooked retry kids hook_set_children [of pc] in \<open>auto intro!: yields_hooks\<close>)
qed

lemma Create_sound:
  assumes "valid_config c" and "job \<in> set (cfg_Jobs c)"
    and "factory_Create job (cfg_Resources c) t i s = (Inr plan, s')"
  shows "sound_plan plan"
proof -
  let ?r = "cfg_Resources c"
  have kids: "yields sound_plan (constructPlanFromConfig q ?r t i)"
    if "q \<in> set (plan_children (do_config (job_Plan job) (JobConfig_Hooks job)))" for q
    using valid_actions(1) [OF assms(1,2)] that
    by (intro construct_sound) (auto simp: JobConfig_Plans_def collectPlans_children [of "do_config _ _"])
  have "yields sound_plan (factory_do constructPlanFromConfig (job_Plan job) ?r t i)"
    unfolding factory_do_def using kids
    by (intro yields_bind [OF yields_each] yields_NewPlan) (auto simp: set_plan_children intro: sound_steps(1))
  then have "yields sound_plan (constructPlanFromJob job ?r t i)"
    using kids by (auto simp: constructPlanFromJob_def set_plan_children Let_def)
  then have "yields sound_plan (factory_Create job ?r t i)"
    unfolding factory_Create_def using kids
    by (intro yields_bind yields_hooks) (auto simp: hook_set_def set_plan_children)
  then show ?thesis using assms(3) by (auto simp: yields_def)
qed

end
