(* ===== verification/Delegate_Correct.thy ===== *)
theory Delegate_Correct
  imports Delegate Engine_Correct
begin

text \<open>
  What a build leaves in the database: one final status, the verdict of its steps or the abort it was sent,
  and the implicit outputs, which are the resources fetched and not put since.
\<close>

section \<open>Implicit outputs\<close>

text \<open>The events that change the implicit output of a resource.\<close>

fun touches :: "string \<Rightarrow> exec_event \<Rightarrow> bool" where
  "touches r (ActionCompleted i (GetAction g src) n) \<longleftrightarrow> gp_Resource g = r \<and> n = 0"
| "touches r (ActionCompleted i (PutAction p) n) \<longleftrightarrow> pp_Resource p = r"
| "touches r _ \<longleftrightarrow> False"

definition implicit_output :: "delegate_env \<Rightarrow> PlanID \<Rightarrow> GetPlan \<Rightarrow> implicitOutput" where
  "implicit_output de i g = \<lparr>io_resourceType = gp_Type g, io_info = de_info de i\<rparr>"

text \<open>The resource is fetched successfully as \<open>out\<close>, and neither fetched nor put after that.\<close>

definition fetched_last :: "delegate_env \<Rightarrow> exec_event list \<Rightarrow> string \<Rightarrow> implicitOutput \<Rightarrow> bool" where
  "fetched_last de es r out \<longleftrightarrow>
     (\<exists>es1 i g src es2. es = es1 @ ActionCompleted i (GetAction g src) 0 # es2 \<and> gp_Resource g = r \<and>
        out = implicit_output de i g \<and> (\<forall>e \<in> set es2. \<not> touches r e))"

lemma d_outputs_call [simp]: "d_outputs (call d c) = d_outputs d"
  by (simp add: call_def)

lemma d_calls_call [simp]: "d_calls (call d c) = d_calls d @ [c]"
  by (simp add: call_def)

lemma completed_get_outputs:
  "d_outputs (completed_get de i g src n d) =
     (if n = 0 then Register (d_outputs d) (gp_Resource g) (implicit_output de i g) else d_outputs d)"
  by (simp add: completed_get_def Let_def implicit_output_def split: sum.split)

lemma completed_put_outputs: "d_outputs (completed_put de i p n d) = Unregister (d_outputs d) (pp_Resource p)"
  by (simp add: completed_put_def Let_def)

lemma handle_untouched: "\<not> touches r e \<Longrightarrow> map_of (d_outputs (handle de e d)) r = map_of (d_outputs d) r"
  by (cases "(r, e)" rule: touches.cases)
    (auto simp: completed_get_outputs completed_put_outputs Register_def Unregister_def update_conv delete_conv Failed_handler_def)

lemma handle_touched:
  "touches r e \<Longrightarrow> map_of (d_outputs (handle de e d)) r =
     (case e of ActionCompleted i (GetAction g src) n \<Rightarrow> Some (implicit_output de i g) | _ \<Rightarrow> None)"
  by (cases "(r, e)" rule: touches.cases)
    (auto simp: completed_get_outputs completed_put_outputs Register_def Unregister_def update_conv delete_conv)

lemma handle_distinct: "distinct (map fst (d_outputs d)) \<Longrightarrow> distinct (map fst (d_outputs (handle de e d)))"
  by (cases "(''r'', e)" rule: touches.cases)
    (auto simp: completed_get_outputs completed_put_outputs Register_def Unregister_def distinct_update distinct_delete Failed_handler_def)

lemma fold_handle_distinct:
  "distinct (map fst (d_outputs d)) \<Longrightarrow> distinct (map fst (d_outputs (fold (handle de) es d)))"
  by (induction es arbitrary: d) (auto simp: handle_distinct)

lemma fetched_last_snoc:
  "fetched_last de (es @ [e]) r out \<longleftrightarrow>
     (if touches r e then (\<exists>i g src. e = ActionCompleted i (GetAction g src) 0 \<and> out = implicit_output de i g)
      else fetched_last de es r out)"
proof (cases "touches r e")
  case True
  have last: "es2 = []" if "es @ [e] = es1 @ x # es2" "\<forall>e \<in> set es2. \<not> touches r e" for es1 x es2
    using that True by (cases es2 rule: rev_cases) auto
  have "\<exists>i g src. e = ActionCompleted i (GetAction g src) 0 \<and> out = implicit_output de i g"
    if "fetched_last de (es @ [e]) r out"
    using that last unfolding fetched_last_def by (metis append1_eq_conv)
  moreover have "fetched_last de (es @ [e]) r out" if "e = ActionCompleted i (GetAction g src) 0" "out = implicit_output de i g" for i g src
    using that True unfolding fetched_last_def by fastforce
  ultimately show ?thesis using True by auto
next
  case False
  have split: "\<exists>es3. es2 = es3 @ [e] \<and> es = es1 @ ActionCompleted i (GetAction g src) 0 # es3"
    if "es @ [e] = es1 @ ActionCompleted i (GetAction g src) 0 # es2" "gp_Resource g = r" for es1 i g src es2
    using that False by (cases es2 rule: rev_cases) auto
  have "fetched_last de es r out" if "fetched_last de (es @ [e]) r out"
  proof -
    from that obtain es1 i g src es2 where x: "es @ [e] = es1 @ ActionCompleted i (GetAction g src) 0 # es2" "gp_Resource g = r"
      "out = implicit_output de i g" "\<forall>e \<in> set es2. \<not> touches r e" unfolding fetched_last_def by blast
    from split [OF x(1,2)] obtain es3 where "es2 = es3 @ [e]" "es = es1 @ ActionCompleted i (GetAction g src) 0 # es3" by blast
    moreover from this x(4) have "\<forall>e \<in> set es3. \<not> touches r e" by simp
    ultimately show ?thesis using x(2,3) unfolding fetched_last_def by blast
  qed
  moreover have "fetched_last de (es @ [e]) r out" if "fetched_last de es r out"
  proof -
    from that obtain es1 i g src es2 where x: "es = es1 @ ActionCompleted i (GetAction g src) 0 # es2" "gp_Resource g = r"
      "out = implicit_output de i g" "\<forall>e \<in> set es2. \<not> touches r e" unfolding fetched_last_def by blast
    then have "es @ [e] = es1 @ ActionCompleted i (GetAction g src) 0 # (es2 @ [e])" "\<forall>x \<in> set (es2 @ [e]). \<not> touches r x"
      using False by auto
    with x show ?thesis unfolding fetched_last_def by blast
  qed
  ultimately show ?thesis using False by auto
qed

lemma fold_handle_outputs:
  "map_of (d_outputs (fold (handle de) es newBuildDelegate)) r = Some out \<longleftrightarrow> fetched_last de es r out"
proof (induction es rule: rev_induct)
  case Nil
  then show ?case by (simp add: newBuildDelegate_def fetched_last_def)
next
  case (snoc e es)
  show ?case
  proof (cases "touches r e")
    case True
    then show ?thesis
      by (cases "(r, e)" rule: touches.cases) (auto simp: fetched_last_snoc handle_touched simp del: handle.simps)
  next
    case False
    then show ?thesis using snoc by (simp add: fetched_last_snoc handle_untouched)
  qed
qed

section \<open>The final calls\<close>

text \<open>The statuses a build was finished with, and the outputs saved as implicit ones.\<close>

definition statuses :: "db_call list \<Rightarrow> BuildStatus list" where
  "statuses cs = concat (map (\<lambda>c. case c of FinishBuild s \<Rightarrow> [s] | _ \<Rightarrow> []) cs)"

definition implicit_saves :: "db_call list \<Rightarrow> VersionedResource list" where
  "implicit_saves cs = concat (map (\<lambda>c. case c of SaveOutput v False \<Rightarrow> [v] | _ \<Rightarrow> []) cs)"

lemma final_calls [simp]:
  "statuses [] = []" "statuses (cs @ ds) = statuses cs @ statuses ds" "implicit_saves [] = []"
  "implicit_saves (cs @ ds) = implicit_saves cs @ implicit_saves ds"
  "statuses (FinishBuild s # cs) = s # statuses cs" "statuses (SaveEvent e # cs) = statuses cs"
  "statuses (SaveInput n v # cs) = statuses cs" "statuses (SaveOutput v b # cs) = statuses cs"
  "implicit_saves (FinishBuild s # cs) = implicit_saves cs" "implicit_saves (SaveEvent e # cs) = implicit_saves cs"
  "implicit_saves (SaveInput n v # cs) = implicit_saves cs" "implicit_saves (SaveOutput v True # cs) = implicit_saves cs"
  "implicit_saves (SaveOutput v False # cs) = v # implicit_saves cs"
  by (simp_all add: statuses_def implicit_saves_def)

lemma completed_final [simp]:
  "statuses (d_calls (completed_get de i g src n d)) = statuses (d_calls d)"
  "statuses (d_calls (completed_put de i p n d)) = statuses (d_calls d)"
  "implicit_saves (d_calls (completed_get de i g src n d)) = implicit_saves (d_calls d)"
  "implicit_saves (d_calls (completed_put de i p n d)) = implicit_saves (d_calls d)"
  by (simp_all add: completed_get_def completed_put_def Let_def split: sum.split)

lemma handle_final [simp]:
  "statuses (d_calls (handle de e d)) = statuses (d_calls d)"
  "implicit_saves (d_calls (handle de e d)) = implicit_saves (d_calls d)"
proof -
  have "statuses (d_calls (ActionCompleted_handler de i a n d)) = statuses (d_calls d) \<and>
      implicit_saves (d_calls (ActionCompleted_handler de i a n d)) = implicit_saves (d_calls d)" for i a n
    by (cases a) simp_all
  then show "statuses (d_calls (handle de e d)) = statuses (d_calls d)"
    "implicit_saves (d_calls (handle de e d)) = implicit_saves (d_calls d)"
    by (cases e; simp add: Failed_handler_def)+
qed

lemma fold_handle_final [simp]:
  "statuses (d_calls (fold (handle de) es d)) = statuses (d_calls d)"
  "implicit_saves (d_calls (fold (handle de) es d)) = implicit_saves (d_calls d)"
  by (induction es arbitrary: d) simp_all

definition implicit_resource :: "string \<times> implicitOutput \<Rightarrow> VersionedResource" where
  "implicit_resource ro = \<lparr>vr_Resource = fst ro, vr_Type = io_resourceType (snd ro), vr_Version = vi_Version (io_info (snd ro)),
     vr_Metadata = vi_Metadata (io_info (snd ro))\<rparr>"

lemma fold_save_outputs [simp]:
  "statuses (d_calls (fold (\<lambda>ro d. call d (saveImplicitOutput ro)) ros d)) = statuses (d_calls d)"
  "implicit_saves (d_calls (fold (\<lambda>ro d. call d (saveImplicitOutput ro)) ros d)) =
     implicit_saves (d_calls d) @ map implicit_resource ros"
  by (induction ros arbitrary: d) (simp_all add: saveImplicitOutput_def implicit_resource_def)

lemma Finish_statuses:
  "statuses (d_calls (Finish err succeeded aborted d)) = statuses (d_calls d) @
     [if aborted then StatusAborted else if err \<noteq> None then StatusErrored
      else if succeeded then StatusSucceeded else StatusFailed]"
  by (simp add: Finish_def)

lemma Finish_saves:
  "implicit_saves (d_calls (Finish err succeeded aborted d)) = implicit_saves (d_calls d) @
     (if \<not> aborted \<and> err = None \<and> succeeded then map implicit_resource (d_outputs d) else [])"
  by (simp add: Finish_def)

lemma newBuildDelegate_calls [simp]: "d_calls newBuildDelegate = []"
  by (simp add: newBuildDelegate_def)

lemma resume_loop_signals:
  "resume_loop r aborted (map Signalled ks @ es) = resume_loop r (aborted \<or> True \<in> set ks) es"
  by (induction ks arbitrary: aborted) auto

primrec outcome_status :: "Verdict \<Rightarrow> BuildStatus" where
  "outcome_status VErrored = StatusErrored"
| "outcome_status VFailed = StatusFailed"
| "outcome_status VSucceeded = StatusSucceeded"

lemma run_build_sound_status:
  assumes f: "fst (buildStepFactory plan (p_Attempts plan) puts) = f"
    and "sound_plan plan" and "True \<in> set ks \<or> calm w f"
  shows "statuses (d_calls (run_build w de puts plan (map Signalled ks @ Exited # es))) =
     [if True \<in> set ks then StatusAborted else outcome_status (verdict w f)]"
proof -
  have g: "good f" unfolding f [symmetric] by (rule buildStepFactory_good [OF assms(2)])
  then have p: "\<not> r_panic (Run w (Using f))" using Run_safe [of f w] by (simp add: good_def safe_def)
  show ?thesis
  proof (cases "True \<in> set ks")
    case True
    then show ?thesis using p by (simp add: run_build_def Resume_def Let_def resume_loop_signals Finish_statuses f)
  next
    case False
    then have "agrees (Run w (Using f)) (verdict w f)" using g assms(3) by (intro Run_agrees) (simp_all add: good_def)
    note a = agreesD [OF this]
    then show ?thesis using False
      by (cases "verdict w f") (simp_all add: run_build_def Resume_def Let_def resume_loop_signals Finish_statuses f)
  qed
qed

section \<open>Theorems\<close>

definition build_trace :: "env \<Rightarrow> PlanID list \<Rightarrow> Plan \<Rightarrow> exec_event list" where
  "build_trace w puts plan = r_trace (Run w (Using (fst (buildStepFactory plan (p_Attempts plan) puts))))"

text \<open>
  C20. From the pipeline to the status: the plan made for a job of a validated pipeline, run to its end,
  saves exactly one final status. It is aborted when the build was sent a kill signal, whatever the steps
  returned then; otherwise, when no step was interrupted, it is the verdict of the steps.
\<close>

theorem build_status:
  assumes "snd (Config_Validate c) = []" and "job \<in> set (cfg_Jobs c)"
    and "factory_Create job (cfg_Resources c) t i s = (Inr plan, s')"
    and "True \<in> set ks \<or> calm w (fst (buildStepFactory plan (p_Attempts plan) puts))"
  shows "statuses (d_calls (run_build w de puts plan (map Signalled ks @ Exited # es))) =
    [if True \<in> set ks then StatusAborted
     else outcome_status (verdict w (fst (buildStepFactory plan (p_Attempts plan) puts)))]"
proof -
  have "valid_config c" using assms(1) by (simp add: Config_Validate_Nil)
  then have "sound_plan plan" using assms(2,3) by (rule Create_sound)
  then show ?thesis by (rule run_build_sound_status [OF refl _ assms(4)])
qed

theorem build_status_witness:
  "statuses (d_calls (run_build (sample_env None)
      \<lparr>de_ok = (\<lambda>c. True), de_info = (\<lambda>i. \<lparr>vi_Version = Some [], vi_Metadata = []\<rparr>), de_now = 0\<rparr> [] sample_plan
      (map Signalled [False, True] @ Exited # []))) = [StatusAborted]"
  using build_status [OF _ sample_valid(2) sample_create, where ks = "[False, True]" and w = "sample_env None" and puts = "[]"]
  by (simp add: sample_validate)

text \<open>
  C21. The implicit outputs of a build are saved only when its status is succeeded. They are then exactly the
  resources that were fetched successfully and neither put nor fetched again after that, each with the type
  and the version of that fetch and each saved once, whether or not the other calls to the database worked.
\<close>

theorem build_implicit_outputs:
  "set (implicit_saves (d_calls (run_build w de puts plan es))) =
     (if statuses (d_calls (run_build w de puts plan es)) = [StatusSucceeded]
      then {implicit_resource (r, out) | r out. fetched_last de (build_trace w puts plan) r out} else {}) \<and>
   distinct (map vr_Resource (implicit_saves (d_calls (run_build w de puts plan es))))"
proof -
  let ?d = "fold (handle de) (build_trace w puts plan) newBuildDelegate"
  have dist: "distinct (map fst (d_outputs ?d))" by (rule fold_handle_distinct) (simp add: newBuildDelegate_def)
  have mem: "(r, out) \<in> set (d_outputs ?d) \<longleftrightarrow> fetched_last de (build_trace w puts plan) r out" for r out
    using fold_handle_outputs map_of_eq_Some_iff [OF dist] by blast
  have "implicit_resource ` set (d_outputs ?d) = {implicit_resource (r, out) | r out. fetched_last de (build_trace w puts plan) r out}"
    unfolding mem [symmetric] by (auto simp: image_iff)
  moreover have "distinct (map vr_Resource (map implicit_resource (d_outputs ?d)))"
    using dist by (simp add: implicit_resource_def comp_def)
  ultimately show ?thesis
    by (cases "Resume w puts plan es")
      (simp_all add: run_build_def Let_def Finish_statuses Finish_saves build_trace_def)
qed

end
