(* ===== verification/Database.thy ===== *)
theory Database
  imports Plan_Data Resolver
begin

text \<open>
  The tables of the database that the scheduler and the engine work on, and the shape of a database
  operation: it changes the tables and returns a value or an error. Every statement may fail; which ones do
  is an argument, a function of the number of statements run before. A transaction that fails, or that is
  not committed, leaves the tables as they were. The clock of the database runs in whole seconds.

  A version is compared by its value; in the program by its JSON text, which \<open>encoding/json\<close> writes with
  sorted keys.
\<close>

section \<open>Tables\<close>

record build_row =
  b_id :: int
  b_name :: string
  b_status :: BuildStatus
  b_scheduled :: bool
  b_team_id :: int
  b_pipeline_id :: int
  b_job_id :: int
  b_manually_triggered :: bool
  b_engine :: string
  b_engine_metadata :: "Plan option"
  b_public_plan :: "gvalue option"
  b_start_time :: "int option"
  b_end_time :: "int option"
  b_completed :: bool
  b_reap_time :: "int option"

record job_row =
  j_id :: int
  j_name :: string
  j_pipeline_id :: int
  j_paused :: bool
  j_active :: bool
  j_inputs_determined :: bool
  j_max_in_flight_reached :: bool
  j_build_number_seq :: int
  j_config :: JobConfig
  j_interruptible :: bool
  j_first_logged_build_id :: int

record resource_row =
  r_id :: int
  r_name :: string
  r_pipeline_id :: int
  r_config :: ResourceConfig
  r_active :: bool
  r_paused :: bool
  r_check_error :: "string option"
  r_last_checked :: int
  r_resource_config_id :: "int option"

record resource_type_row =
  y_id :: int
  y_name :: string
  y_pipeline_id :: int
  y_type :: string
  y_config :: ResourceType
  y_active :: bool
  y_version :: AtcVersion
  y_last_checked :: int
  y_resource_config_id :: "int option"

record task_cache_row =
  tc_worker_name :: string
  tc_job_id :: int
  tc_step_name :: string
  tc_path :: string

record version_row =
  v_id :: int
  v_resource_id :: int
  v_type :: string
  v_version :: AtcVersion
  v_metadata :: "(string \<times> string) list"
  v_enabled :: bool
  v_check_order :: int

record pipeline_row =
  p_id :: int
  p_name :: string
  p_team_id :: int
  p_paused :: bool
  p_public :: bool
  p_ordering :: int
  p_groups :: "GroupConfig list"
  p_version :: int

record team_row =
  tm_id :: int
  tm_name :: string
  tm_admin :: bool

datatype WorkerState = WorkerStateRunning | WorkerStateStalled | WorkerStateLanding | WorkerStateLanded | WorkerStateRetiring

record worker_row =
  w_name :: string
  w_state :: WorkerState
  w_team_id :: "int option"

datatype saved_event = StatusEvent BuildStatus int | ErrorMessage string

type_synonym input_rows = "(int \<times> string \<times> InputVersion) list"

record tables =
  t_builds :: "build_row list"
  t_jobs :: "job_row list"
  t_serial_groups :: "(int \<times> string) list"
  t_next_inputs :: input_rows
  t_independent_inputs :: input_rows
  t_build_inputs :: "(int \<times> int \<times> string) list"
  t_build_outputs :: "(int \<times> int \<times> bool) list"
  t_resources :: "resource_row list"
  t_versions :: "version_row list"
  t_pipelines :: "pipeline_row list"
  t_teams :: "team_row list"
  t_workers :: "worker_row list"
  t_events :: "(int \<times> saved_event) list"
  t_event_seqs :: "int list"
  t_next_build_id :: int
  t_next_version_id :: int
  t_now :: int
  t_resource_types :: "resource_type_row list"
  t_task_caches :: "task_cache_row list"
  t_next_pipeline_id :: int
  t_next_job_id :: int
  t_next_resource_id :: int
  t_next_type_id :: int
  t_config_version :: int

text \<open>The tables, the number of statements run so far, and which statements fail.\<close>

record db =
  db_tables :: tables
  db_ticks :: nat
  db_fails :: "nat \<Rightarrow> bool"

section \<open>Operations\<close>

datatype dberror =
    SqlError
  | ErrNoRows
  | NonOneRowAffected nat
  | ErrBuildDisappeared
  | ErrResourceNotFoundIn string
  | UnknownEngineError string
  | InvalidMetadata
  | LockError
  | ScanError string
  | PipelineRemoved
  | UniqueViolation
  | ErrWorkerNotPresent
  | ErrCannotPruneRunningWorker
  | ErrConfigComparisonFailed
  | ResourceNotFoundError string
  | ResourceTypeNotFoundError string
  | FirstLoggedBuildIDDecreasedError string int int
  | ErrFailedToAcquireLock
  | ErrResourceScriptFailed int
  | Panicked string

type_synonym 'a dbm = "db \<Rightarrow> (dberror + 'a) \<times> db"

definition d_return :: "'a \<Rightarrow> 'a dbm" where
  "d_return x = (\<lambda>s. (Inr x, s))"

definition d_fail :: "dberror \<Rightarrow> 'a dbm" where
  "d_fail e = (\<lambda>s. (Inl e, s))"

definition d_bind :: "'a dbm \<Rightarrow> ('a \<Rightarrow> 'b dbm) \<Rightarrow> 'b dbm" where
  "d_bind m f = (\<lambda>s. case m s of (Inl e, s') \<Rightarrow> (Inl e, s') | (Inr x, s') \<Rightarrow> f x s')"

definition d_seq :: "'a dbm \<Rightarrow> 'b dbm \<Rightarrow> 'b dbm" where
  "d_seq m n = d_bind m (\<lambda>_. n)"

text \<open>One SQL statement.\<close>

definition stmt :: "(tables \<Rightarrow> 'a \<times> tables) \<Rightarrow> 'a dbm" where
  "stmt f = (\<lambda>s.
     let s' = s\<lparr>db_ticks := Suc (db_ticks s)\<rparr>
     in if db_fails s (db_ticks s) then (Inl SqlError, s')
        else (case f (db_tables s) of (x, t) \<Rightarrow> (Inr x, s'\<lparr>db_tables := t\<rparr>)))"

definition query :: "(tables \<Rightarrow> 'a) \<Rightarrow> 'a dbm" where
  "query f = stmt (\<lambda>t. (f t, t))"

definition exec :: "(tables \<Rightarrow> tables) \<Rightarrow> unit dbm" where
  "exec f = stmt (\<lambda>t. ((), f t))"

text \<open>A statement that expects a row.\<close>

definition query_row :: "(tables \<Rightarrow> 'a option) \<Rightarrow> 'a dbm" where
  "query_row f = d_bind (query f) (\<lambda>r. case r of None \<Rightarrow> d_fail ErrNoRows | Some x \<Rightarrow> d_return x)"

text \<open>
  \<open>conn.Begin()\<close> with a deferred \<open>Rollback\<close>: the body says whether it reaches the \<open>Commit\<close>.
\<close>

definition undo :: "db \<Rightarrow> db \<Rightarrow> db" where
  "undo s s' = s'\<lparr>db_tables := db_tables s\<rparr>"

definition tx :: "(bool \<times> 'a) dbm \<Rightarrow> 'a dbm" where
  "tx body = d_bind (query (\<lambda>t. ())) (\<lambda>_ s.
     case d_bind body (\<lambda>(commit, x). if commit then d_seq (query (\<lambda>t. ())) (d_return (commit, x)) else d_return (commit, x)) s of
       (Inl e, s') \<Rightarrow> (Inl e, undo s s')
     | (Inr (commit, x), s') \<Rightarrow> (Inr x, if commit then s' else undo s s'))"

definition committed :: "'a dbm \<Rightarrow> (bool \<times> 'a) dbm" where
  "committed m = d_bind m (\<lambda>x. d_return (True, x))"

text \<open>A loop that ends on the first error.\<close>

fun d_each :: "('a \<Rightarrow> unit dbm) \<Rightarrow> 'a list \<Rightarrow> unit dbm" where
  "d_each f [] = d_return ()"
| "d_each f (x # xs) = d_seq (f x) (d_each f xs)"

section \<open>Lemmas\<close>

lemma d_bind_Inr: "d_bind m f s = (Inr y, s') \<longleftrightarrow> (\<exists>x s1. m s = (Inr x, s1) \<and> f x s1 = (Inr y, s'))"
  by (auto simp: d_bind_def split: prod.splits sum.splits)

lemma d_return_iff [simp]: "d_return x s = (Inr y, s') \<longleftrightarrow> y = x \<and> s' = s"
  by (auto simp: d_return_def)

lemma d_fail_iff [simp]: "d_fail e s \<noteq> (Inr y, s')"
  by (simp add: d_fail_def)

text \<open>
  A property of the tables that an operation keeps whatever it returns; and the promise that an operation
  that returns an error, or returns at all, leaves the tables in a relation to those it started from.
\<close>

definition keeps :: "(tables \<Rightarrow> bool) \<Rightarrow> 'a dbm \<Rightarrow> bool" where
  "keeps P m \<longleftrightarrow> (\<forall>s. P (db_tables s) \<longrightarrow> P (db_tables (snd (m s))))"

lemma keepsD: "keeps P m \<Longrightarrow> P (db_tables s) \<Longrightarrow> P (db_tables (snd (m s)))"
  by (simp add: keeps_def)

lemma keeps_return [simp]: "keeps P (d_return x)"
  by (simp add: keeps_def d_return_def)

lemma keeps_fail [simp]: "keeps P (d_fail e)"
  by (simp add: keeps_def d_fail_def)

lemma keeps_bind: "keeps P m \<Longrightarrow> (\<And>x. keeps P (f x)) \<Longrightarrow> keeps P (d_bind m f)"
  unfolding keeps_def d_bind_def by (auto simp: split_def split: sum.split)

lemma keeps_seq: "keeps P m \<Longrightarrow> keeps P n \<Longrightarrow> keeps P (d_seq m n)"
  by (simp add: d_seq_def keeps_bind)

lemma keeps_stmt: "(\<And>t. P t \<Longrightarrow> P (snd (f t))) \<Longrightarrow> keeps P (stmt f)"
  by (auto simp: keeps_def stmt_def Let_def split_def)

lemma keeps_query [simp]: "keeps P (query f)"
  by (simp add: query_def keeps_stmt)

lemma keeps_query_row [simp]: "keeps P (query_row f)"
  by (auto simp: query_row_def intro!: keeps_bind split: option.split)

lemma keeps_exec: "(\<And>t. P t \<Longrightarrow> P (f t)) \<Longrightarrow> keeps P (exec f)"
  by (simp add: exec_def keeps_stmt)

lemma keeps_committed: "keeps P m \<Longrightarrow> keeps P (committed m)"
  by (simp add: committed_def keeps_bind)

lemma keeps_tx:
  assumes "keeps P m"
  shows "keeps P (tx m)"
proof -
  let ?b = "d_bind m (\<lambda>(commit, x). if commit then d_seq (query (\<lambda>t. ())) (d_return (commit, x)) else d_return (commit, x))"
  have "keeps P ?b" by (rule keeps_bind [OF assms]) (auto split: prod.split intro!: keeps_seq)
  then have "P (db_tables (snd (?b s)))" if "P (db_tables s)" for s using that by (rule keepsD)
  then have "keeps P (\<lambda>s. case ?b s of (Inl e, s') \<Rightarrow> (Inl e, undo s s')
       | (Inr (commit, x), s') \<Rightarrow> (Inr x, if commit then s' else undo s s'))"
    unfolding keeps_def by (auto simp: undo_def split_def split: sum.split)
  then show ?thesis unfolding tx_def by (intro keeps_bind keeps_query)
qed

lemma keeps_each: "(\<And>x. x \<in> set xs \<Longrightarrow> keeps P (f x)) \<Longrightarrow> keeps P (d_each f xs)"
  by (induction xs) (auto intro!: keeps_seq)

lemmas keeps_intros = keeps_bind keeps_seq keeps_stmt keeps_exec keeps_committed keeps_tx keeps_each

text \<open>An operation that fails changes nothing.\<close>

definition atomic :: "'a dbm \<Rightarrow> bool" where
  "atomic m \<longleftrightarrow> (\<forall>s e s'. m s = (Inl e, s') \<longrightarrow> db_tables s' = db_tables s)"

lemma atomic_stmt [simp]: "atomic (stmt f)"
  by (auto simp: atomic_def stmt_def Let_def split: prod.splits if_splits)

lemma atomic_tx [simp]: "atomic (tx m)"
  by (auto simp: atomic_def tx_def d_bind_def query_def stmt_def Let_def undo_def split: prod.splits sum.splits if_splits)

section \<open>Postconditions\<close>

text \<open>
  Whatever statements fail, the operation started from the tables \<open>t\<close> ends with a result and tables that
  satisfy \<open>Q\<close>. The rules compute what has to hold, statement by statement.
\<close>

definition post :: "'a dbm \<Rightarrow> tables \<Rightarrow> (dberror + 'a \<Rightarrow> tables \<Rightarrow> bool) \<Rightarrow> bool" where
  "post m t Q \<longleftrightarrow> (\<forall>s. db_tables s = t \<longrightarrow> Q (fst (m s)) (db_tables (snd (m s))))"

definition after :: "('a \<Rightarrow> tables \<Rightarrow> bool) \<Rightarrow> (dberror \<Rightarrow> tables \<Rightarrow> bool) \<Rightarrow> dberror + 'a \<Rightarrow> tables \<Rightarrow> bool" where
  "after P E r t = (case r of Inl e \<Rightarrow> E e t | Inr x \<Rightarrow> P x t)"

lemma after_simps [simp]: "after P E (Inl e) t = E e t" "after P E (Inr x) t = P x t"
  by (simp_all add: after_def)

lemma postD: "post m t Q \<Longrightarrow> m s = (r, s') \<Longrightarrow> db_tables s = t \<Longrightarrow> Q r (db_tables s')"
  by (auto simp: post_def)

lemma post_mono: "post m t P \<Longrightarrow> (\<And>r t'. P r t' \<Longrightarrow> Q r t') \<Longrightarrow> post m t Q"
  by (simp add: post_def)

lemma post_conj: "post m t P \<Longrightarrow> post m t Q \<Longrightarrow> post m t (\<lambda>r t'. P r t' \<and> Q r t')"
  by (simp add: post_def)

lemma post_return: "Q (Inr x) t \<Longrightarrow> post (d_return x) t Q"
  by (simp add: post_def d_return_def)

lemma post_fail: "Q (Inl e) t \<Longrightarrow> post (d_fail e) t Q"
  by (simp add: post_def d_fail_def)

lemma post_bind: "post m t (after (\<lambda>x t'. post (f x) t' Q) (\<lambda>e. Q (Inl e))) \<Longrightarrow> post (d_bind m f) t Q"
  unfolding post_def [of "d_bind m f"]
proof (intro allI impI)
  fix s :: db assume p: "post m t (after (\<lambda>x t'. post (f x) t' Q) (\<lambda>e. Q (Inl e)))" and s: "db_tables s = t"
  obtain r s' where m: "m s = (r, s')" by fastforce
  from postD [OF p m s] show "Q (fst (d_bind m f s)) (db_tables (snd (d_bind m f s)))"
    by (cases r) (simp_all add: d_bind_def m post_def)
qed

lemma post_seq: "post m t (after (\<lambda>_ t'. post n t' Q) (\<lambda>e. Q (Inl e))) \<Longrightarrow> post (d_seq m n) t Q"
  by (simp add: d_seq_def post_bind)

lemma post_stmt: "Q (Inl SqlError) t \<Longrightarrow> Q (Inr (fst (f t))) (snd (f t)) \<Longrightarrow> post (stmt f) t Q"
  by (simp add: post_def stmt_def Let_def split_def)

lemma post_query: "Q (Inl SqlError) t \<Longrightarrow> Q (Inr (f t)) t \<Longrightarrow> post (query f) t Q"
  by (simp add: query_def post_stmt)

lemma post_exec: "Q (Inl SqlError) t \<Longrightarrow> Q (Inr ()) (f t) \<Longrightarrow> post (exec f) t Q"
  by (simp add: exec_def post_stmt)

lemma post_query_row:
  "Q (Inl SqlError) t \<Longrightarrow> (f t = None \<Longrightarrow> Q (Inl ErrNoRows) t) \<Longrightarrow> (\<And>x. f t = Some x \<Longrightarrow> Q (Inr x) t) \<Longrightarrow> post (query_row f) t Q"
  unfolding query_row_def by (rule post_bind, rule post_query) (auto split: option.split intro: post_return post_fail)

lemma post_committed: "post m t (after (\<lambda>x t'. Q (Inr (True, x)) t') (\<lambda>e. Q (Inl e))) \<Longrightarrow> post (committed m) t Q"
  unfolding committed_def by (rule post_bind, erule post_mono) (auto simp: after_def split: sum.splits intro: post_return)

lemma post_tx:
  assumes "Q (Inl SqlError) t"
    and "post m t (after (\<lambda>(commit, x) t'. if commit then Q (Inr x) t' else Q (Inr x) t) (\<lambda>e _. Q (Inl e) t))"
  shows "post (tx m) t Q"
proof -
  let ?stop = "\<lambda>(commit, x). if commit then d_seq (query (\<lambda>t. ())) (d_return (commit, x)) else d_return (commit, x)"
  have "post (d_bind m ?stop) t (after (\<lambda>(commit, x) t'. if commit then Q (Inr x) t' else Q (Inr x) t) (\<lambda>e _. Q (Inl e) t))"
    by (rule post_bind, rule post_mono [OF assms(2)])
      (auto simp: after_def assms(1) split: sum.splits prod.splits if_splits intro!: post_return post_seq post_query)
  note e = this
  have "post (\<lambda>s. case d_bind m ?stop s of (Inl e, s') \<Rightarrow> (Inl e, undo s s')
      | (Inr (commit, x), s') \<Rightarrow> (Inr x, if commit then s' else undo s s')) t Q"
    unfolding post_def
  proof (intro allI impI)
    fix s :: db assume s: "db_tables s = t"
    obtain r s' where m: "d_bind m ?stop s = (r, s')" by fastforce
    from postD [OF e m s] show "Q (fst (case d_bind m ?stop s of (Inl e, s') \<Rightarrow> (Inl e, undo s s')
        | (Inr (commit, x), s') \<Rightarrow> (Inr x, if commit then s' else undo s s')))
      (db_tables (snd (case d_bind m ?stop s of (Inl e, s') \<Rightarrow> (Inl e, undo s s')
        | (Inr (commit, x), s') \<Rightarrow> (Inr x, if commit then s' else undo s s'))))"
      unfolding m by (cases r) (auto simp: undo_def s split: prod.splits if_splits)
  qed
  then show ?thesis
    unfolding tx_def by (intro post_bind post_query) (simp_all add: assms(1))
qed

lemma post_each:
  assumes "I [] t" and "\<And>x ds t'. I ds t' \<Longrightarrow> post (f x) t' (after (\<lambda>_ t''. I (ds @ [x]) t'') (\<lambda>e. Q (Inl e)))"
    and "\<And>t'. I xs t' \<Longrightarrow> Q (Inr ()) t'"
  shows "post (d_each f xs) t Q"
proof -
  have "I ds t' \<Longrightarrow> xs = ds @ ys \<Longrightarrow> post (d_each f ys) t' Q" for ds ys t'
  proof (induction ys arbitrary: ds t')
    case Nil
    then show ?case using assms(3) by (simp add: post_return)
  next
    case (Cons y ys)
    have "post (f y) t' (after (\<lambda>_ t''. I (ds @ [y]) t'') (\<lambda>e. Q (Inl e)))" using Cons.prems(1) by (rule assms(2))
    then have "post (f y) t' (after (\<lambda>_ t''. post (d_each f ys) t'' Q) (\<lambda>e. Q (Inl e)))"
      by (rule post_mono) (use Cons in \<open>auto simp: after_def split: sum.splits\<close>)
    then show ?case by (simp add: post_seq)
  qed
  then show ?thesis using assms(1) by (metis append_Nil)
qed

lemmas post_intros = post_return post_fail post_bind post_seq post_stmt post_query post_exec post_query_row post_committed post_tx

lemma keeps_post: "(\<And>t. P t \<Longrightarrow> post m t (\<lambda>_. P)) \<Longrightarrow> keeps P m"
  by (simp add: keeps_def post_def)

lemma post_keeps: "keeps P m \<Longrightarrow> P t \<Longrightarrow> post m t (\<lambda>_. P)"
  by (auto simp: keeps_def post_def)

section \<open>When no statement fails\<close>

text \<open>
  The operation started from the tables \<open>t\<close> with no statement failing ends with a result and tables that
  satisfy \<open>Q\<close>. The rules compute the outcome.
\<close>

definition healthy :: "db \<Rightarrow> bool" where
  "healthy s \<longleftrightarrow> db_fails s = (\<lambda>_. False)"

definition sure :: "'a dbm \<Rightarrow> tables \<Rightarrow> (dberror + 'a \<Rightarrow> tables \<Rightarrow> bool) \<Rightarrow> bool" where
  "sure m t Q \<longleftrightarrow> (\<forall>s. db_tables s = t \<longrightarrow> healthy s \<longrightarrow> Q (fst (m s)) (db_tables (snd (m s))) \<and> healthy (snd (m s)))"

lemma sureD: "sure m t Q \<Longrightarrow> m s = (r, s') \<Longrightarrow> db_tables s = t \<Longrightarrow> healthy s \<Longrightarrow> Q r (db_tables s') \<and> healthy s'"
  by (auto simp: sure_def)

lemma sure_mono: "sure m t P \<Longrightarrow> (\<And>r t'. P r t' \<Longrightarrow> Q r t') \<Longrightarrow> sure m t Q"
  by (simp add: sure_def)

lemma sure_return: "Q (Inr x) t \<Longrightarrow> sure (d_return x) t Q"
  by (simp add: sure_def d_return_def)

lemma sure_fail: "Q (Inl e) t \<Longrightarrow> sure (d_fail e) t Q"
  by (simp add: sure_def d_fail_def)

lemma sure_bind:
  assumes "sure m t (after (\<lambda>x t'. sure (f x) t' Q) (\<lambda>e. Q (Inl e)))"
  shows "sure (d_bind m f) t Q"
  unfolding sure_def [of "d_bind m f"]
proof (intro allI impI)
  fix s :: db assume s: "db_tables s = t" "healthy s"
  obtain r s' where m: "m s = (r, s')" by fastforce
  from sureD [OF assms m s] show "Q (fst (d_bind m f s)) (db_tables (snd (d_bind m f s))) \<and> healthy (snd (d_bind m f s))"
    by (cases r) (simp_all add: d_bind_def m sure_def)
qed

lemma sure_seq: "sure m t (after (\<lambda>_ t'. sure n t' Q) (\<lambda>e. Q (Inl e))) \<Longrightarrow> sure (d_seq m n) t Q"
  by (simp add: d_seq_def sure_bind)

lemma sure_stmt: "Q (Inr (fst (f t))) (snd (f t)) \<Longrightarrow> sure (stmt f) t Q"
  by (simp add: sure_def stmt_def Let_def split_def healthy_def)

lemma sure_query: "Q (Inr (f t)) t \<Longrightarrow> sure (query f) t Q"
  by (simp add: query_def sure_stmt)

lemma sure_exec: "Q (Inr ()) (f t) \<Longrightarrow> sure (exec f) t Q"
  by (simp add: exec_def sure_stmt)

lemma sure_query_row:
  "(f t = None \<Longrightarrow> Q (Inl ErrNoRows) t) \<Longrightarrow> (\<And>x. f t = Some x \<Longrightarrow> Q (Inr x) t) \<Longrightarrow> sure (query_row f) t Q"
  unfolding query_row_def by (rule sure_bind, rule sure_query) (auto split: option.split intro: sure_return sure_fail)

lemma sure_committed: "sure m t (after (\<lambda>x t'. Q (Inr (True, x)) t') (\<lambda>e. Q (Inl e))) \<Longrightarrow> sure (committed m) t Q"
  unfolding committed_def by (rule sure_bind, erule sure_mono) (auto simp: after_def split: sum.splits intro: sure_return)

lemma sure_tx:
  assumes "sure m t (after (\<lambda>(commit, x) t'. if commit then Q (Inr x) t' else Q (Inr x) t) (\<lambda>e _. Q (Inl e) t))"
  shows "sure (tx m) t Q"
proof -
  let ?stop = "\<lambda>(commit, x). if commit then d_seq (query (\<lambda>t. ())) (d_return (commit, x)) else d_return (commit, x)"
  have e: "sure (d_bind m ?stop) t (after (\<lambda>(commit, x) t'. if commit then Q (Inr x) t' else Q (Inr x) t) (\<lambda>e _. Q (Inl e) t))"
    by (rule sure_bind, rule sure_mono [OF assms])
      (auto simp: after_def split: sum.splits prod.splits if_splits intro!: sure_return sure_seq sure_query)
  have "sure (\<lambda>s. case d_bind m ?stop s of (Inl e, s') \<Rightarrow> (Inl e, undo s s')
      | (Inr (commit, x), s') \<Rightarrow> (Inr x, if commit then s' else undo s s')) t Q"
    unfolding sure_def
  proof (intro allI impI)
    fix s :: db assume s: "db_tables s = t" "healthy s"
    obtain r s' where m: "d_bind m ?stop s = (r, s')" by fastforce
    from sureD [OF e m s] show "Q (fst (case d_bind m ?stop s of (Inl e, s') \<Rightarrow> (Inl e, undo s s')
        | (Inr (commit, x), s') \<Rightarrow> (Inr x, if commit then s' else undo s s')))
      (db_tables (snd (case d_bind m ?stop s of (Inl e, s') \<Rightarrow> (Inl e, undo s s')
        | (Inr (commit, x), s') \<Rightarrow> (Inr x, if commit then s' else undo s s')))) \<and>
      healthy (snd (case d_bind m ?stop s of (Inl e, s') \<Rightarrow> (Inl e, undo s s')
        | (Inr (commit, x), s') \<Rightarrow> (Inr x, if commit then s' else undo s s')))"
      unfolding m by (cases r) (auto simp: undo_def s healthy_def split: prod.splits if_splits)
  qed
  then show ?thesis unfolding tx_def by (intro sure_bind sure_query) simp
qed

lemma sure_each:
  assumes "I [] t" and "\<And>x ds t'. x \<in> set xs \<Longrightarrow> I ds t' \<Longrightarrow> sure (f x) t' (\<lambda>r t''. r = Inr () \<and> I (ds @ [x]) t'')"
    and "\<And>t'. I xs t' \<Longrightarrow> Q (Inr ()) t'"
  shows "sure (d_each f xs) t Q"
proof -
  have "I ds t' \<Longrightarrow> xs = ds @ ys \<Longrightarrow> sure (d_each f ys) t' Q" for ds ys t'
  proof (induction ys arbitrary: ds t')
    case Nil
    then show ?case using assms(3) by (simp add: sure_return)
  next
    case (Cons y ys)
    have "sure (f y) t' (\<lambda>r t''. r = Inr () \<and> I (ds @ [y]) t'')" using Cons.prems by (intro assms(2)) simp_all
    then have "sure (f y) t' (after (\<lambda>_ t''. sure (d_each f ys) t'' Q) (\<lambda>e. Q (Inl e)))"
      by (rule sure_mono) (use Cons in auto)
    then show ?case by (simp add: sure_seq)
  qed
  then show ?thesis using assms(1) by (metis append_Nil)
qed

lemmas sure_intros = sure_return sure_fail sure_bind sure_seq sure_stmt sure_query sure_exec sure_query_row sure_committed sure_tx

lemma post_sure: "post m t P \<Longrightarrow> sure m t Q \<Longrightarrow> sure m t (\<lambda>r t'. P r t' \<and> Q r t')"
  by (simp add: post_def sure_def)

end
