(* ===== verification/Build_DB.thy ===== *)
theory Build_DB
  imports Database Build_Factory
begin

text \<open>
  \<open>db/build.go\<close>, \<open>db/job.go\<close> and the parts of \<open>db/pipeline.go\<close> that the scheduler uses, statement by
  statement: what each SQL statement selects, inserts, updates and deletes. Notifications and the refresh of
  materialised views are statements that change none of the tables here but may fail.
\<close>

section \<open>Rows\<close>

definition update_where :: "('r \<Rightarrow> bool) \<Rightarrow> ('r \<Rightarrow> 'r) \<Rightarrow> 'r list \<Rightarrow> 'r list" where
  "update_where P f rows = map (\<lambda>r. if P r then f r else r) rows"

definition affected :: "('r \<Rightarrow> bool) \<Rightarrow> 'r list \<Rightarrow> nat" where
  "affected P rows = length (filter P rows)"

text \<open>A deleted build takes its inputs and outputs with it: \<open>ON DELETE CASCADE\<close>.\<close>

definition drop_builds :: "(build_row \<Rightarrow> bool) \<Rightarrow> tables \<Rightarrow> tables" where
  "drop_builds P t =
     (let gone = (\<lambda>i. \<exists>b \<in> set (t_builds t). b_id b = i \<and> P b)
      in t\<lparr>t_builds := filter (\<lambda>b. \<not> P b) (t_builds t),
           t_build_inputs := filter (\<lambda>(b, _, _). \<not> gone b) (t_build_inputs t),
           t_build_outputs := filter (\<lambda>(b, _, _). \<not> gone b) (t_build_outputs t)\<rparr>)"

text \<open>A statement without effect on the tables: a notification or the refresh of a view.\<close>

definition touch :: "unit dbm" where
  "touch = query (\<lambda>t. ())"

record job =
  jb_id :: int
  jb_name :: string
  jb_paused :: bool
  jb_pipelineID :: int
  jb_teamID :: int
  jb_config :: JobConfig
  jb_firstLoggedBuildID :: int

section \<open>Builds\<close>

definition build_IsRunning :: "build_row \<Rightarrow> bool" where
  "build_IsRunning b \<longleftrightarrow> (case b_status b of StatusPending \<Rightarrow> True | StatusStarted \<Rightarrow> True | _ \<Rightarrow> False)"

text \<open>The reloaded build, or nothing when the row is gone.\<close>

definition build_Reload :: "int \<Rightarrow> build_row option dbm" where
  "build_Reload i = query (\<lambda>t. find (\<lambda>b. b_id b = i) (t_builds t))"

definition saveEvent :: "int \<Rightarrow> saved_event \<Rightarrow> unit dbm" where
  "saveEvent i e = d_bind (query (\<lambda>t. i \<in> set (t_event_seqs t))) (\<lambda>seq.
     if seq then exec (\<lambda>t. t\<lparr>t_events := t_events t @ [(i, e)]\<rparr>) else d_fail SqlError)"

definition build_SaveEvent :: "int \<Rightarrow> saved_event \<Rightarrow> unit dbm" where
  "build_SaveEvent i e = d_seq (tx (committed (saveEvent i e))) touch"

definition build_Start :: "int \<Rightarrow> string \<Rightarrow> Plan \<Rightarrow> bool dbm" where
  "build_Start i engine plan =
     d_bind (tx
       (d_bind (stmt (\<lambda>t.
           let P = (\<lambda>b. b_id b = i \<and> b_status b = StatusPending)
           in (affected P (t_builds t) > 0,
               t\<lparr>t_builds := update_where P
                   (\<lambda>b. b\<lparr>b_status := StatusStarted, b_start_time := Some (t_now t), b_engine := engine,
                          b_engine_metadata := Some plan, b_public_plan := Some (Plan_Public plan)\<rparr>) (t_builds t)\<rparr>)))
         (\<lambda>updated.
            if \<not> updated then d_return (False, False)
            else d_bind (query t_now) (\<lambda>now. d_seq (saveEvent i (StatusEvent StatusStarted now)) (d_return (True, True))))))
       (\<lambda>started. if \<not> started then d_return False else d_seq touch (d_seq touch (d_return True)))"

definition build_Finish :: "int \<Rightarrow> int \<Rightarrow> BuildStatus \<Rightarrow> unit dbm" where
  "build_Finish i jobID status =
     d_seq (tx (committed
       (d_bind (stmt (\<lambda>t.
           (affected (\<lambda>b. b_id b = i) (t_builds t) > 0,
            t\<lparr>t_builds := update_where (\<lambda>b. b_id b = i)
                (\<lambda>b. b\<lparr>b_status := status, b_end_time := Some (t_now t), b_completed := True, b_engine_metadata := None\<rparr>)
                (t_builds t)\<rparr>)))
         (\<lambda>updated.
            if \<not> updated then d_fail ErrNoRows
            else d_bind (query t_now) (\<lambda>now.
                 d_seq (saveEvent i (StatusEvent status now))
                (d_bind (query (\<lambda>t. i \<in> set (t_event_seqs t))) (\<lambda>seq.
                 if \<not> seq then d_fail SqlError
                 else d_seq (exec (\<lambda>t. t\<lparr>t_event_seqs := removeAll i (t_event_seqs t)\<rparr>))
                        (if jobID \<noteq> 0 \<and> status = StatusSucceeded then touch else d_return ()))))))))
     (d_seq touch (d_seq touch (d_seq touch touch)))"

definition build_FinishWithError :: "int \<Rightarrow> int \<Rightarrow> string \<Rightarrow> unit dbm" where
  "build_FinishWithError i jobID cause =
     d_seq (build_SaveEvent i (ErrorMessage cause)) (build_Finish i jobID StatusErrored)"

definition build_Delete :: "int \<Rightarrow> bool dbm" where
  "build_Delete i =
     d_bind (stmt (\<lambda>t. (affected (\<lambda>b. b_id b = i) (t_builds t),
                        drop_builds (\<lambda>b. b_id b = i) t)))
       (\<lambda>n. if n = 0 then d_fail ErrBuildDisappeared else d_return True)"

definition MarkAsAborted :: "int \<Rightarrow> unit dbm" where
  "MarkAsAborted i =
     d_seq (exec (\<lambda>t. t\<lparr>t_builds := update_where (\<lambda>b. b_id b = i) (\<lambda>b. b\<lparr>b_status := StatusAborted\<rparr>) (t_builds t)\<rparr>)) touch"

definition build_Schedule :: "int \<Rightarrow> bool dbm" where
  "build_Schedule i =
     d_bind (stmt (\<lambda>t. (affected (\<lambda>b. b_id b = i) (t_builds t),
                        t\<lparr>t_builds := update_where (\<lambda>b. b_id b = i) (\<lambda>b. b\<lparr>b_scheduled := True\<rparr>) (t_builds t)\<rparr>)))
       (\<lambda>rows. d_return (rows = 1))"

section \<open>Versions of resources\<close>

definition same_version :: "int \<Rightarrow> string \<Rightarrow> AtcVersion \<Rightarrow> version_row \<Rightarrow> bool" where
  "same_version r type v row \<longleftrightarrow> v_resource_id row = r \<and> v_type row = type \<and> v_version row = v"

definition saveVersionedResource :: "int \<Rightarrow> VersionedResource \<Rightarrow> (version_row \<times> bool) dbm" where
  "saveVersionedResource r vr =
     (let same = same_version r (vr_Type vr) (vr_Version vr)
      in d_bind (stmt (\<lambda>t.
           if \<exists>row \<in> set (t_versions t). same row then (0, t)
           else (1 :: nat, t\<lparr>t_versions := t_versions t @
                   [\<lparr>v_id = t_next_version_id t, v_resource_id = r, v_type = vr_Type vr, v_version = vr_Version vr,
                     v_metadata = vr_Metadata vr, v_enabled = True, v_check_order = 0\<rparr>],
                 t_next_version_id := t_next_version_id t + 1\<rparr>)))
         (\<lambda>rowsAffected.
          d_bind (if length (vr_Metadata vr) > 0
                  then d_seq (exec (\<lambda>t. t\<lparr>t_versions := update_where same (\<lambda>row. row\<lparr>v_metadata := vr_Metadata vr\<rparr>) (t_versions t)\<rparr>))
                         (query_row (\<lambda>t. find same (t_versions t)))
                  else query_row (\<lambda>t. find same (t_versions t)))
            (\<lambda>row. d_return (row, rowsAffected \<noteq> 0))))"

definition incrementCheckOrderWhenNewerVersion :: "int \<Rightarrow> string \<Rightarrow> AtcVersion \<Rightarrow> unit dbm" where
  "incrementCheckOrderWhenNewerVersion r type version =
     exec (\<lambda>t.
       let orders = map v_check_order (filter (\<lambda>row. v_resource_id row = r \<and> v_type row = type) (t_versions t))
       in if orders = [] then t
          else let co = Max (set orders)
               in t\<lparr>t_versions := update_where (\<lambda>row. same_version r type version row \<and> v_check_order row \<le> co)
                      (\<lambda>row. row\<lparr>v_check_order := co + 1\<rparr>) (t_versions t)\<rparr>)"

definition find_resource :: "int \<Rightarrow> string \<Rightarrow> int dbm" where
  "find_resource pipelineID name =
     query_row (\<lambda>t. map_option r_id (find (\<lambda>r. r_name r = name \<and> r_pipeline_id r = pipelineID) (t_resources t)))"

definition saveInputTx :: "int \<Rightarrow> int \<Rightarrow> JobBuildInput \<Rightarrow> unit dbm" where
  "saveInputTx pipelineID buildID input =
     d_bind (find_resource pipelineID (bin_Resource input)) (\<lambda>resourceID.
     d_bind (saveVersionedResource resourceID
         \<lparr>vr_Resource = bin_Resource input, vr_Type = bin_Type input, vr_Version = bin_Version input,
          vr_Metadata = bin_Metadata input\<rparr>) (\<lambda>(svr, _).
     exec (\<lambda>t. let row = (buildID, v_id svr, bin_Name input)
               in if row \<in> set (t_build_inputs t) then t else t\<lparr>t_build_inputs := t_build_inputs t @ [row]\<rparr>)))"

definition find_pipeline :: "int \<Rightarrow> pipeline_row dbm" where
  "find_pipeline pipelineID = query_row (\<lambda>t. find (\<lambda>p. p_id p = pipelineID) (t_pipelines t))"

definition build_UseInputs :: "build_row \<Rightarrow> JobBuildInput list \<Rightarrow> unit dbm" where
  "build_UseInputs b inputs =
     tx (committed
       (d_seq (exec (\<lambda>t. t\<lparr>t_build_inputs := filter (\<lambda>(i, _). i \<noteq> b_id b) (t_build_inputs t)\<rparr>))
       (d_bind (find_pipeline (b_pipeline_id b)) (\<lambda>pipeline.
        d_each (saveInputTx (p_id pipeline) (b_id b)) inputs))))"

definition build_SaveInput :: "build_row \<Rightarrow> JobBuildInput \<Rightarrow> unit dbm" where
  "build_SaveInput b input =
     (if b_pipeline_id b = 0 then d_return ()
      else tx (committed (d_bind (find_pipeline (b_pipeline_id b)) (\<lambda>pipeline. saveInputTx (p_id pipeline) (b_id b) input))))"

definition pipeline_saveOutput :: "int \<Rightarrow> int \<Rightarrow> VersionedResource \<Rightarrow> bool \<Rightarrow> unit dbm" where
  "pipeline_saveOutput pipelineID buildID vr explicit =
     tx (committed
       (d_bind (query (\<lambda>t. find (\<lambda>r. r_name r = vr_Resource vr \<and> r_pipeline_id r = pipelineID) (t_resources t))) (\<lambda>row.
        d_bind (case row of None \<Rightarrow> d_fail (ErrResourceNotFoundIn (vr_Resource vr)) | Some r \<Rightarrow> d_return (r_id r)) (\<lambda>resourceID.
        d_bind (saveVersionedResource resourceID vr) (\<lambda>(svr, created).
        d_seq (if created then incrementCheckOrderWhenNewerVersion resourceID (vr_Type vr) (vr_Version vr) else d_return ())
          (exec (\<lambda>t. t\<lparr>t_build_outputs := t_build_outputs t @ [(buildID, v_id svr, explicit)]\<rparr>)))))))"

definition build_SaveOutput :: "build_row \<Rightarrow> VersionedResource \<Rightarrow> bool \<Rightarrow> unit dbm" where
  "build_SaveOutput b vr explicit =
     (if b_pipeline_id b = 0 then d_return ()
      else d_bind (find_pipeline (b_pipeline_id b)) (\<lambda>pipeline. pipeline_saveOutput (p_id pipeline) (b_id b) vr explicit))"

end
