(* ===== verification/Job_DB.thy ===== *)
theory Job_DB
  imports Build_DB
begin

text \<open>
  \<open>db/job.go\<close> and the queries of \<open>db/pipeline.go\<close> the scheduler uses: pending and running builds, serial
  groups, the saved input mappings of a job, and the snapshot of versions for the input resolution.
\<close>

section \<open>Serial groups\<close>

definition updateSerialGroups :: "job \<Rightarrow> string list \<Rightarrow> unit dbm" where
  "updateSerialGroups j serialGroups =
     tx (committed
       (d_seq (exec (\<lambda>t. t\<lparr>t_serial_groups := filter (\<lambda>(i, _). i \<noteq> jb_id j) (t_serial_groups t)\<rparr>))
         (d_each (\<lambda>g. exec (\<lambda>t. t\<lparr>t_serial_groups := t_serial_groups t @ [(jb_id j, g)]\<rparr>)) serialGroups)))"

text \<open>The join of the tables of builds, jobs and serial groups: the build's job has one of the groups.\<close>

definition in_groups :: "tables \<Rightarrow> string list \<Rightarrow> int \<Rightarrow> (job_row \<Rightarrow> bool) \<Rightarrow> build_row \<Rightarrow> bool" where
  "in_groups t serialGroups pipelineID P b \<longleftrightarrow>
     (\<exists>j \<in> set (t_jobs t). j_id j = b_job_id b \<and> j_pipeline_id j = pipelineID \<and> P j \<and>
        (\<exists>g \<in> set serialGroups. (j_id j, g) \<in> set (t_serial_groups t)))"

definition GetNextPendingBuildBySerialGroup :: "job \<Rightarrow> string list \<Rightarrow> build_row option dbm" where
  "GetNextPendingBuildBySerialGroup j serialGroups =
     d_seq (updateSerialGroups j serialGroups)
       (query (\<lambda>t. case sort_key b_id (filter (\<lambda>b. b_status b = StatusPending \<and>
                         in_groups t serialGroups (jb_pipelineID j) (\<lambda>r. \<not> j_paused r \<and> j_inputs_determined r) b) (t_builds t)) of
                     [] \<Rightarrow> None | b # _ \<Rightarrow> Some b))"

definition running :: "build_row \<Rightarrow> bool" where
  "running b \<longleftrightarrow> b_status b = StatusStarted \<or> b_status b = StatusPending \<and> b_scheduled b"

definition GetRunningBuildsBySerialGroup :: "job \<Rightarrow> string list \<Rightarrow> build_row list dbm" where
  "GetRunningBuildsBySerialGroup j serialGroups =
     d_seq (updateSerialGroups j serialGroups)
       (query (\<lambda>t. filter (\<lambda>b. running b \<and> in_groups t serialGroups (jb_pipelineID j) (\<lambda>_. True) b) (t_builds t)))"

text \<open>An update of the row of the job that has to hit exactly one row.\<close>

definition update_job :: "int \<Rightarrow> (job_row \<Rightarrow> job_row) \<Rightarrow> unit dbm" where
  "update_job i f =
     d_bind (stmt (\<lambda>t. (affected (\<lambda>r. j_id r = i) (t_jobs t),
                        t\<lparr>t_jobs := update_where (\<lambda>r. j_id r = i) f (t_jobs t)\<rparr>)))
       (\<lambda>n. if n \<noteq> 1 then d_fail (NonOneRowAffected n) else d_return ())"

definition SetMaxInFlightReached :: "job \<Rightarrow> bool \<Rightarrow> unit dbm" where
  "SetMaxInFlightReached j reached = update_job (jb_id j) (\<lambda>r. r\<lparr>j_max_in_flight_reached := reached\<rparr>)"

definition updatePausedJob :: "job \<Rightarrow> bool \<Rightarrow> unit dbm" where
  "updatePausedJob j pause = update_job (jb_id j) (\<lambda>r. r\<lparr>j_paused := pause\<rparr>)"

section \<open>Input mappings\<close>

datatype input_table = NextBuildInputs | IndependentBuildInputs

definition rows_of :: "input_table \<Rightarrow> tables \<Rightarrow> input_rows" where
  "rows_of tb t = (case tb of NextBuildInputs \<Rightarrow> t_next_inputs t | IndependentBuildInputs \<Rightarrow> t_independent_inputs t)"

definition set_rows :: "input_table \<Rightarrow> input_rows \<Rightarrow> tables \<Rightarrow> tables" where
  "set_rows tb rows t =
     (case tb of NextBuildInputs \<Rightarrow> t\<lparr>t_next_inputs := rows\<rparr> | IndependentBuildInputs \<Rightarrow> t\<lparr>t_independent_inputs := rows\<rparr>)"

definition job_where :: "job \<Rightarrow> job_row \<Rightarrow> bool" where
  "job_where j r \<longleftrightarrow> j_name r = jb_name j \<and> j_pipeline_id r = jb_pipelineID j"

definition saveJobInputMapping :: "job \<Rightarrow> input_table \<Rightarrow> InputMapping \<Rightarrow> unit dbm" where
  "saveJobInputMapping j tb inputMapping =
     tx (committed
       (d_seq (if tb = NextBuildInputs
               then exec (\<lambda>t. t\<lparr>t_jobs := update_where (\<lambda>r. j_id r = jb_id j \<and> \<not> j_inputs_determined r)
                                   (\<lambda>r. r\<lparr>j_inputs_determined := True\<rparr>) (t_jobs t)\<rparr>)
               else d_return ())
       (d_bind (query (\<lambda>t. map snd (filter (\<lambda>(i, _). i = jb_id j) (rows_of tb t)))) (\<lambda>rows.
          let oldInputMapping = range_assign rows []
          in d_seq (d_each (\<lambda>(inputName, oldInputVersion).
                 if map_of inputMapping inputName \<noteq> Some oldInputVersion
                 then exec (\<lambda>t. set_rows tb (filter (\<lambda>(i, n, _). \<not> (i = jb_id j \<and> n = inputName)) (rows_of tb t)) t)
                 else d_return ()) oldInputMapping)
               (d_each (\<lambda>(inputName, inputVersion).
                 if map_of oldInputMapping inputName \<noteq> Some inputVersion
                 then exec (\<lambda>t. set_rows tb (rows_of tb t @ [(jb_id j, inputName, inputVersion)]) t)
                 else d_return ()) inputMapping)))))"

definition SaveIndependentInputMapping :: "job \<Rightarrow> InputMapping \<Rightarrow> unit dbm" where
  "SaveIndependentInputMapping j inputMapping = saveJobInputMapping j IndependentBuildInputs inputMapping"

definition SaveNextInputMapping :: "job \<Rightarrow> InputMapping \<Rightarrow> unit dbm" where
  "SaveNextInputMapping j inputMapping = saveJobInputMapping j NextBuildInputs inputMapping"

definition DeleteNextInputMapping :: "job \<Rightarrow> unit dbm" where
  "DeleteNextInputMapping j =
     tx (committed
       (d_seq (exec (\<lambda>t. t\<lparr>t_jobs := update_where (job_where j) (\<lambda>r. r\<lparr>j_inputs_determined := False\<rparr>) (t_jobs t)\<rparr>))
         (exec (\<lambda>t. t\<lparr>t_next_inputs := filter (\<lambda>(i, _). i \<noteq> jb_id j) (t_next_inputs t)\<rparr>))))"

text \<open>The join of the input rows with the jobs, versions and resources.\<close>

definition getBuildInputs :: "job \<Rightarrow> input_table \<Rightarrow> JobBuildInput list dbm" where
  "getBuildInputs j tb =
     query (\<lambda>t. concat (map (\<lambda>(i, n, iv).
       concat (map (\<lambda>jr. concat (map (\<lambda>v. map (\<lambda>r.
           \<lparr>bin_Name = n, bin_Resource = r_name r, bin_Type = v_type v, bin_Version = v_version v,
            bin_Metadata = v_metadata v, bin_FirstOccurrence = iv_FirstOccurrence iv\<rparr>)
         (filter (\<lambda>r. r_id r = v_resource_id v) (t_resources t)))
         (filter (\<lambda>v. v_id v = iv_VersionID iv) (t_versions t))))
         (filter (\<lambda>jr. j_id jr = i \<and> job_where j jr) (t_jobs t)))) (rows_of tb t)))"

definition GetNextBuildInputs :: "job \<Rightarrow> JobBuildInput list option dbm" where
  "GetNextBuildInputs j =
     d_bind (query_row (\<lambda>t. map_option j_inputs_determined (find (job_where j) (t_jobs t)))) (\<lambda>found.
     if \<not> found then d_return None
     else d_bind (getBuildInputs j NextBuildInputs) (\<lambda>buildInputs. d_return (Some buildInputs)))"

section \<open>Pending builds\<close>

definition getNewBuildName :: "job \<Rightarrow> string dbm" where
  "getNewBuildName j =
     d_bind (stmt (\<lambda>t. let t' = t\<lparr>t_jobs := update_where (job_where j) (\<lambda>r. r\<lparr>j_build_number_seq := j_build_number_seq r + 1\<rparr>) (t_jobs t)\<rparr>
                        in (map_option j_build_number_seq (find (job_where j) (t_jobs t')), t')))
       (\<lambda>n. case n of None \<Rightarrow> d_fail ErrNoRows | Some k \<Rightarrow> d_return (itoa k))"

definition new_build :: "tables \<Rightarrow> job \<Rightarrow> string \<Rightarrow> bool \<Rightarrow> build_row" where
  "new_build t j name manual =
     \<lparr>b_id = t_next_build_id t, b_name = name, b_status = StatusPending, b_scheduled = False, b_team_id = jb_teamID j,
      b_pipeline_id = jb_pipelineID j, b_job_id = jb_id j, b_manually_triggered = manual, b_engine = [],
      b_engine_metadata = None, b_public_plan = None, b_start_time = None, b_end_time = None, b_completed = False, b_reap_time = None\<rparr>"

definition insert_build :: "job \<Rightarrow> string \<Rightarrow> bool \<Rightarrow> tables \<Rightarrow> build_row \<times> tables" where
  "insert_build j name manual t =
     (let b = new_build t j name manual
      in (b, t\<lparr>t_builds := t_builds t @ [b], t_next_build_id := t_next_build_id t + 1\<rparr>))"

definition createBuildEventSeq :: "int \<Rightarrow> unit dbm" where
  "createBuildEventSeq i =
     d_bind (query (\<lambda>t. i \<in> set (t_event_seqs t))) (\<lambda>exists.
     if exists then d_fail SqlError else exec (\<lambda>t. t\<lparr>t_event_seqs := i # t_event_seqs t\<rparr>))"

definition EnsurePendingBuildExists :: "job \<Rightarrow> unit dbm" where
  "EnsurePendingBuildExists j =
     tx (d_bind (getNewBuildName j) (\<lambda>buildName.
         d_bind (stmt (\<lambda>t.
             if \<exists>b \<in> set (t_builds t). b_job_id b = jb_id j \<and> b_status b = StatusPending then (None, t)
             else map_prod Some id (insert_build j buildName False t))) (\<lambda>row.
         case row of
           None \<Rightarrow> d_return (False, ())
         | Some b \<Rightarrow> committed (createBuildEventSeq (b_id b)))))"

definition GetPendingBuilds :: "job \<Rightarrow> build_row list dbm" where
  "GetPendingBuilds j =
     d_seq (query_row (\<lambda>t. find (\<lambda>r. job_where j r \<and> j_active r) (t_jobs t)))
       (query (\<lambda>t. sort_key b_id (filter (\<lambda>b. b_job_id b = jb_id j \<and> b_status b = StatusPending) (t_builds t))))"

definition job_CreateBuild :: "job \<Rightarrow> build_row dbm" where
  "job_CreateBuild j =
     d_bind (tx (committed
       (d_bind (getNewBuildName j) (\<lambda>buildName.
        d_bind (stmt (insert_build j buildName True)) (\<lambda>b.
        d_seq touch (d_seq (createBuildEventSeq (b_id b)) (d_return b))))))) (\<lambda>b.
     d_seq touch (d_return b))"

section \<open>Queries of a pipeline\<close>

definition CheckPaused :: "int \<Rightarrow> bool dbm" where
  "CheckPaused i = query_row (\<lambda>t. map_option p_paused (find (\<lambda>p. p_id p = i) (t_pipelines t)))"

text \<open>\<open>builds[name] = append(builds[name], build)\<close>\<close>

definition append_to :: "string \<Rightarrow> build_row \<Rightarrow> (string \<times> build_row list) list \<Rightarrow> (string \<times> build_row list) list" where
  "append_to name b m = AList.update name (case_option [] id (map_of m name) @ [b]) m"

definition GetAllPendingBuilds :: "int \<Rightarrow> (string \<times> build_row list) list dbm" where
  "GetAllPendingBuilds i =
     query (\<lambda>t. fold (\<lambda>(n, b). append_to n b)
       (concat (map (\<lambda>b. map (\<lambda>r. (j_name r, b)) (filter (\<lambda>r. j_id r = b_job_id b \<and> j_active r) (t_jobs t)))
         (sort_key b_id (filter (\<lambda>b. b_status b = StatusPending \<and> b_pipeline_id b = i) (t_builds t))))) [])"

definition GetVersionedResourceByVersion :: "int \<Rightarrow> AtcVersion \<Rightarrow> string \<Rightarrow> version_row option dbm" where
  "GetVersionedResourceByVersion i version resourceName =
     query (\<lambda>t. find (\<lambda>v. v_version v = version \<and> v_enabled v \<and>
         (\<exists>r \<in> set (t_resources t). r_id r = v_resource_id v \<and> r_name r = resourceName \<and> r_pipeline_id r = i)) (t_versions t))"

definition pipeline_versions :: "int \<Rightarrow> tables \<Rightarrow> (version_row \<times> resource_row) list" where
  "pipeline_versions i t =
     concat (map (\<lambda>v. map (\<lambda>r. (v, r)) (filter (\<lambda>r. r_id r = v_resource_id v \<and> r_pipeline_id r = i) (t_resources t)))
       (filter v_enabled (t_versions t)))"

text \<open>The five queries of \<open>LoadVersionsDB\<close>, without its cache.\<close>

definition load_versions :: "int \<Rightarrow> tables \<Rightarrow> VersionsDB" where
  "load_versions i t =
     \<lparr>db_ResourceVersions = map (\<lambda>(v, r). \<lparr>rv_VersionID = v_id v, rv_ResourceID = r_id r, rv_CheckOrder = v_check_order v\<rparr>) (pipeline_versions i t),
      db_BuildOutputs = concat (map (\<lambda>(bid, vid, _).
        concat (map (\<lambda>b. map (\<lambda>(v, r).
            \<lparr>rv_VersionID = v_id v, rv_ResourceID = r_id r, rv_CheckOrder = v_check_order v, bo_BuildID = bid, bo_JobID = b_job_id b\<rparr>)
          (filter (\<lambda>(v, r). v_id v = vid) (pipeline_versions i t)))
          (filter (\<lambda>b. b_id b = bid \<and> b_status b = StatusSucceeded) (t_builds t)))) (t_build_outputs t)),
      db_BuildInputs = concat (map (\<lambda>(bid, vid, n).
        concat (map (\<lambda>b. map (\<lambda>(v, r).
            \<lparr>rv_VersionID = v_id v, rv_ResourceID = r_id r, rv_CheckOrder = v_check_order v, bi_BuildID = bid,
             bi_JobID = b_job_id b, bi_InputName = n\<rparr>)
          (filter (\<lambda>(v, r). v_id v = vid) (pipeline_versions i t)))
          (filter (\<lambda>b. b_id b = bid) (t_builds t)))) (t_build_inputs t)),
      db_JobIDs = map (\<lambda>r. (j_name r, j_id r)) (filter (\<lambda>r. j_pipeline_id r = i) (t_jobs t)),
      db_ResourceIDs = map (\<lambda>r. (r_name r, r_id r)) (filter (\<lambda>r. r_pipeline_id r = i) (t_resources t))\<rparr>"

definition LoadVersionsDB :: "int \<Rightarrow> VersionsDB dbm" where
  "LoadVersionsDB i = d_seq touch (d_seq touch (d_seq touch (d_seq touch (d_seq touch (query (load_versions i))))))"

end
