(* ===== verification/Build_Lifecycle.thy ===== *)
theory Build_Lifecycle
  imports Job_DB
begin

text \<open>
  The life of a build in the database. Each operation on a build either leaves the tables as they are or
  applies one change to them, whatever statements fail; the changes keep the invariant that ids are unique
  and that a build has an event sequence exactly while it is not completed.
\<close>

section \<open>What the operations do\<close>

definition started_tables :: "int \<Rightarrow> string \<Rightarrow> Plan \<Rightarrow> tables \<Rightarrow> tables" where
  "started_tables i engine plan t =
     t\<lparr>t_builds := update_where (\<lambda>b. b_id b = i \<and> b_status b = StatusPending)
         (\<lambda>b. b\<lparr>b_status := StatusStarted, b_start_time := Some (t_now t), b_engine := engine,
                b_engine_metadata := Some plan, b_public_plan := Some (Plan_Public plan)\<rparr>) (t_builds t),
       t_events := t_events t @ [(i, StatusEvent StatusStarted (t_now t))]\<rparr>"

definition finished_tables :: "int \<Rightarrow> BuildStatus \<Rightarrow> tables \<Rightarrow> tables" where
  "finished_tables i status t =
     t\<lparr>t_builds := update_where (\<lambda>b. b_id b = i)
         (\<lambda>b. b\<lparr>b_status := status, b_end_time := Some (t_now t), b_completed := True, b_engine_metadata := None\<rparr>) (t_builds t),
       t_events := t_events t @ [(i, StatusEvent status (t_now t))],
       t_event_seqs := removeAll i (t_event_seqs t)\<rparr>"

definition aborted_tables :: "int \<Rightarrow> tables \<Rightarrow> tables" where
  "aborted_tables i t = t\<lparr>t_builds := update_where (\<lambda>b. b_id b = i) (\<lambda>b. b\<lparr>b_status := StatusAborted\<rparr>) (t_builds t)\<rparr>"

definition scheduled_tables :: "int \<Rightarrow> tables \<Rightarrow> tables" where
  "scheduled_tables i t = t\<lparr>t_builds := update_where (\<lambda>b. b_id b = i) (\<lambda>b. b\<lparr>b_scheduled := True\<rparr>) (t_builds t)\<rparr>"

lemma affected_pos [simp]: "0 < affected P rows \<longleftrightarrow> (\<exists>r \<in> set rows. P r)"
  by (auto simp: affected_def filter_empty_conv)

lemma post_touch: "Q (Inl SqlError) t \<Longrightarrow> Q (Inr ()) t \<Longrightarrow> post touch t Q"
  by (simp add: touch_def post_query)

lemma post_saveEvent:
  "Q (Inl SqlError) t \<Longrightarrow> (i \<in> set (t_event_seqs t) \<Longrightarrow> Q (Inr ()) (t\<lparr>t_events := t_events t @ [(i, e)]\<rparr>)) \<Longrightarrow> post (saveEvent i e) t Q"
  unfolding saveEvent_def by (auto intro!: post_intros)

lemma Start_post:
  "post (build_Start i engine plan) t (\<lambda>r t'.
     t' = t \<and> r \<noteq> Inr True \<or>
     t' = started_tables i engine plan t \<and> r \<noteq> Inr False \<and> i \<in> set (t_event_seqs t) \<and>
       (\<exists>b \<in> set (t_builds t). b_id b = i \<and> b_status b = StatusPending))"
  unfolding build_Start_def
  by (auto intro!: post_intros post_touch post_saveEvent simp: Let_def started_tables_def)

lemma Finish_post:
  "post (build_Finish i j status) t (\<lambda>r t'.
     t' = t \<and> (\<exists>e. r = Inl e) \<or>
     t' = finished_tables i status t \<and> i \<in> set (t_event_seqs t) \<and> (\<exists>b \<in> set (t_builds t). b_id b = i))"
  unfolding build_Finish_def
  by (auto intro!: post_intros post_touch post_saveEvent simp: finished_tables_def)

lemma MarkAsAborted_post:
  "post (MarkAsAborted i) t (\<lambda>r t'. t' = t \<and> (\<exists>e. r = Inl e) \<or> t' = aborted_tables i t)"
  unfolding MarkAsAborted_def by (auto intro!: post_intros post_touch simp: aborted_tables_def)

lemma Schedule_post:
  "post (build_Schedule i) t (\<lambda>r t'. t' = t \<and> r = Inl SqlError \<or> t' = scheduled_tables i t \<and> r = Inr (affected (\<lambda>b. b_id b = i) (t_builds t) = 1))"
  unfolding build_Schedule_def by (auto intro!: post_intros simp: scheduled_tables_def)

lemma SaveEvent_post:
  "post (build_SaveEvent i e) t (\<lambda>r t'. t' = t \<and> (\<exists>x. r = Inl x) \<or> t' = t\<lparr>t_events := t_events t @ [(i, e)]\<rparr> \<and> i \<in> set (t_event_seqs t))"
  unfolding build_SaveEvent_def by (auto intro!: post_intros post_touch post_saveEvent)

lemma Reload_post: "post (build_Reload i) t (\<lambda>r t'. t' = t \<and> (\<forall>b. r = Inr b \<longrightarrow> b = find (\<lambda>b. b_id b = i) (t_builds t)))"
  unfolding build_Reload_def by (rule post_query) auto

text \<open>The outcome when no statement fails.\<close>

lemma sure_touch: "Q (Inr ()) t \<Longrightarrow> sure touch t Q"
  by (simp add: touch_def sure_query)

lemma sure_saveEvent:
  "i \<in> set (t_event_seqs t) \<Longrightarrow> Q (Inr ()) (t\<lparr>t_events := t_events t @ [(i, e)]\<rparr>) \<Longrightarrow> sure (saveEvent i e) t Q"
  unfolding saveEvent_def by (auto intro!: sure_intros)

lemma sure_Reload: "Q (Inr (find (\<lambda>b. b_id b = i) (t_builds t))) t \<Longrightarrow> sure (build_Reload i) t Q"
  by (simp add: build_Reload_def sure_query)

lemma sure_MarkAsAborted: "Q (Inr ()) (aborted_tables i t) \<Longrightarrow> sure (MarkAsAborted i) t Q"
  unfolding MarkAsAborted_def aborted_tables_def by (auto intro!: sure_intros sure_touch)

lemma sure_Start:
  assumes "b \<in> set (t_builds t)" and "b_id b = i" and "b_status b = StatusPending" and "i \<in> set (t_event_seqs t)"
    and "Q (Inr True) (started_tables i engine plan t)"
  shows "sure (build_Start i engine plan) t Q"
  using assms unfolding build_Start_def started_tables_def
  by (auto intro!: sure_intros sure_touch sure_saveEvent simp: Let_def)

lemma sure_Finish:
  assumes "b \<in> set (t_builds t)" and "b_id b = i" and "i \<in> set (t_event_seqs t)" and "Q (Inr ()) (finished_tables i st t)"
  shows "sure (build_Finish i j st) t Q"
proof -
  have "\<exists>b \<in> set (t_builds t). b_id b = i" using assms(1,2) by blast
  then show ?thesis using assms(3,4) unfolding build_Finish_def finished_tables_def
    by (auto intro!: sure_intros sure_touch sure_saveEvent) blast+
qed

section \<open>The invariant of the table of builds\<close>

definition final_status :: "BuildStatus \<Rightarrow> bool" where
  "final_status st \<longleftrightarrow> st \<notin> {StatusPending, StatusStarted}"

definition build_ok :: "tables \<Rightarrow> build_row \<Rightarrow> bool" where
  "build_ok t b \<longleftrightarrow>
     b_id b < t_next_build_id t \<and> (b_id b \<in> set (t_event_seqs t) \<longleftrightarrow> \<not> b_completed b) \<and>
     (b_completed b \<longrightarrow> final_status (b_status b)) \<and>
     (\<not> b_completed b \<longrightarrow> b_status b \<in> {StatusPending, StatusStarted, StatusAborted}) \<and>
     (b_status b = StatusPending \<longrightarrow> b_engine b = []) \<and>
     (b_status b = StatusStarted \<longrightarrow> b_engine b \<noteq> [] \<and> b_engine_metadata b \<noteq> None)"

definition builds_ok :: "tables \<Rightarrow> bool" where
  "builds_ok t \<longleftrightarrow> distinct (map b_id (t_builds t)) \<and> (\<forall>i \<in> set (t_event_seqs t). i < t_next_build_id t) \<and>
     (\<forall>b \<in> set (t_builds t). build_ok t b)"

lemma update_where_ids [simp]:
  "(\<And>r. b_id (f r) = b_id r) \<Longrightarrow> map b_id (update_where P f rows) = map b_id rows"
  by (simp add: update_where_def)

lemma in_update_where: "r \<in> set (update_where P f rows) \<longleftrightarrow> (\<exists>q \<in> set rows. r = (if P q then f q else q))"
  by (auto simp: update_where_def)

lemma ball_update_where:
  "(\<forall>r \<in> set (update_where P f rows). Q r) \<longleftrightarrow> (\<forall>q \<in> set rows. (P q \<longrightarrow> Q (f q)) \<and> (\<not> P q \<longrightarrow> Q q))"
  by (auto simp: update_where_def)

lemma started_ok: "builds_ok t \<Longrightarrow> engine \<noteq> [] \<Longrightarrow> builds_ok (started_tables i engine plan t)"
  by (auto simp: builds_ok_def started_tables_def build_ok_def ball_update_where final_status_def)

lemma finished_ok: "builds_ok t \<Longrightarrow> final_status st \<Longrightarrow> builds_ok (finished_tables i st t)"
  by (auto simp: builds_ok_def finished_tables_def build_ok_def ball_update_where final_status_def)

lemma aborted_ok: "builds_ok t \<Longrightarrow> builds_ok (aborted_tables i t)"
  by (auto simp: builds_ok_def aborted_tables_def build_ok_def ball_update_where final_status_def)

lemma scheduled_ok: "builds_ok t \<Longrightarrow> builds_ok (scheduled_tables i t)"
  by (auto simp: builds_ok_def scheduled_tables_def build_ok_def ball_update_where final_status_def)

lemma keeps_from_post: "(\<And>t. post m t (Q t)) \<Longrightarrow> (\<And>t r t'. P t \<Longrightarrow> Q t r t' \<Longrightarrow> P t') \<Longrightarrow> keeps P m"
  by (rule keeps_post) (blast intro: post_mono)

lemma builds_ok_events [simp]: "builds_ok (t\<lparr>t_events := es\<rparr>) = builds_ok t"
  by (simp add: builds_ok_def build_ok_def)

lemma builds_ok_frame:
  "t_builds t' = t_builds t \<Longrightarrow> t_event_seqs t' = t_event_seqs t \<Longrightarrow> t_next_build_id t' = t_next_build_id t \<Longrightarrow> builds_ok t' = builds_ok t"
  by (simp add: builds_ok_def build_ok_def)

lemma keeps_Start: "engine \<noteq> [] \<Longrightarrow> keeps builds_ok (build_Start i engine plan)"
  by (rule keeps_from_post [OF Start_post]) (auto intro: started_ok)

lemma keeps_Finish: "final_status st \<Longrightarrow> keeps builds_ok (build_Finish i j st)"
  by (rule keeps_from_post [OF Finish_post]) (auto intro: finished_ok)

lemma keeps_MarkAsAborted: "keeps builds_ok (MarkAsAborted i)"
  by (rule keeps_from_post [OF MarkAsAborted_post]) (auto intro: aborted_ok)

lemma keeps_Schedule: "keeps builds_ok (build_Schedule i)"
  by (rule keeps_from_post [OF Schedule_post]) (auto intro: scheduled_ok)

lemma keeps_SaveEvent: "keeps builds_ok (build_SaveEvent i e)"
  by (rule keeps_from_post [OF SaveEvent_post]) auto

lemma keeps_Delete: "keeps builds_ok (build_Delete i)"
  unfolding build_Delete_def
  by (rule keeps_post) (auto intro!: post_intros simp: builds_ok_def build_ok_def drop_builds_def Let_def distinct_map_filter)

lemma insert_build_ok:
  assumes "builds_ok t" and "insert_build j n manual t = (b, t')"
  shows "builds_ok (t'\<lparr>t_event_seqs := b_id b # t_event_seqs t'\<rparr>)"
proof -
  have b: "b = new_build t j n manual" and t': "t' = t\<lparr>t_builds := t_builds t @ [b], t_next_build_id := t_next_build_id t + 1\<rparr>"
    using assms(2) by (auto simp: insert_build_def Let_def)
  have "b_id x < t_next_build_id t" if "x \<in> set (t_builds t)" for x using assms(1) that by (auto simp: builds_ok_def build_ok_def)
  then show ?thesis using assms(1) unfolding b t'
    by (fastforce simp: builds_ok_def build_ok_def new_build_def final_status_def)
qed

definition bumped :: "job \<Rightarrow> tables \<Rightarrow> tables" where
  "bumped j t = t\<lparr>t_jobs := update_where (job_where j) (\<lambda>r. r\<lparr>j_build_number_seq := j_build_number_seq r + 1\<rparr>) (t_jobs t)\<rparr>"

definition created_tables :: "job \<Rightarrow> string \<Rightarrow> bool \<Rightarrow> tables \<Rightarrow> tables" where
  "created_tables j n manual t =
     (case insert_build j n manual (bumped j t) of (b, t') \<Rightarrow> t'\<lparr>t_event_seqs := b_id b # t_event_seqs t'\<rparr>)"

lemma bumped_simps [simp]:
  "t_builds (bumped j t) = t_builds t" "t_event_seqs (bumped j t) = t_event_seqs t" "t_next_build_id (bumped j t) = t_next_build_id t"
  "builds_ok (bumped j t) = builds_ok t"
  by (simp_all add: bumped_def builds_ok_def build_ok_def)

lemma post_getNewBuildName:
  "(\<And>e t'. Q (Inl e) t') \<Longrightarrow> (\<And>n. Q (Inr n) (bumped j t)) \<Longrightarrow> post (getNewBuildName j) t Q"
  unfolding getNewBuildName_def by (auto intro!: post_intros simp: Let_def bumped_def split: option.split)

lemma post_createBuildEventSeq:
  "(\<And>e. Q (Inl e) t) \<Longrightarrow> Q (Inr ()) (t\<lparr>t_event_seqs := i # t_event_seqs t\<rparr>) \<Longrightarrow> post (createBuildEventSeq i) t Q"
  unfolding createBuildEventSeq_def by (auto intro!: post_intros)

definition has_pending :: "job \<Rightarrow> tables \<Rightarrow> bool" where
  "has_pending j t \<longleftrightarrow> (\<exists>b \<in> set (t_builds t). b_job_id b = jb_id j \<and> b_status b = StatusPending)"

lemma EnsurePendingBuildExists_post:
  "post (EnsurePendingBuildExists j) t (\<lambda>r t'.
     t' = t \<and> (r = Inr () \<longrightarrow> has_pending j t) \<or> (\<exists>n. t' = created_tables j n False t \<and> r = Inr () \<and> \<not> has_pending j t))"
  unfolding EnsurePendingBuildExists_def
  by (auto intro!: post_intros post_getNewBuildName post_createBuildEventSeq
      simp: has_pending_def created_tables_def insert_build_def Let_def) blast+

lemma CreateBuild_post:
  "post (job_CreateBuild j) t (\<lambda>r t'. t' = t \<and> (\<exists>e. r = Inl e) \<or> (\<exists>n. t' = created_tables j n True t))"
  unfolding job_CreateBuild_def
  by (auto intro!: post_intros post_getNewBuildName post_createBuildEventSeq post_touch
      simp: created_tables_def insert_build_def Let_def) blast+

lemma created_ok: "builds_ok t \<Longrightarrow> builds_ok (created_tables j n manual t)"
  using insert_build_ok [of "bumped j t" j n manual] by (auto simp: created_tables_def split: prod.split)

lemma keeps_EnsurePendingBuildExists: "keeps builds_ok (EnsurePendingBuildExists j)"
  by (rule keeps_from_post [OF EnsurePendingBuildExists_post]) (auto intro: created_ok)

lemma keeps_CreateBuild: "keeps builds_ok (job_CreateBuild j)"
  by (rule keeps_from_post [OF CreateBuild_post]) (auto intro: created_ok)

end
