(* ===== verification/Locks.thy ===== *)
theory Locks
  imports Go_Strings "HOL-Library.Word" "HOL-Library.AList"
begin

unbundle bit_operations_syntax

text \<open>
  \<open>db/lock/lock.go\<close>: locks shared by all ATCs through the advisory locks of one database, and a local
  registry per ATC, because an advisory lock is reentrant for the session that holds it.

  The operations are given twice: as functions, the way one goroutine runs them, and as the steps of a
  transition system, one per action that another goroutine or another ATC can see, in which the registry's
  mutex is held from the start of \<open>Acquire\<close> to its end but not in \<open>Release\<close>. A session keeps its connection
  for the life of the transition system.
\<close>

section \<open>Lock ids\<close>

type_synonym LockID = "int list"

definition LockTypeResourceConfigChecking :: int where "LockTypeResourceConfigChecking = 0"
definition LockTypeBuildTracking :: int where "LockTypeBuildTracking = 1"
definition LockTypePipelineScheduling :: int where "LockTypePipelineScheduling = 2"
definition LockTypeBatch :: int where "LockTypeBatch = 3"
definition LockTypeVolumeCreating :: int where "LockTypeVolumeCreating = 4"
definition LockTypeContainerCreating :: int where "LockTypeContainerCreating = 5"
definition LockTypeDatabaseMigration :: int where "LockTypeDatabaseMigration = 6"

lemmas lock_types = LockTypeResourceConfigChecking_def LockTypeBuildTracking_def LockTypePipelineScheduling_def
  LockTypeBatch_def LockTypeVolumeCreating_def LockTypeContainerCreating_def LockTypeDatabaseMigration_def

definition toKey :: "LockID \<Rightarrow> string" where
  "toKey l = strings_Join (map itoa l) ''+''"

text \<open>\<open>crc32.ChecksumIEEE\<close>, bit by bit with the reversed polynomial.\<close>

definition crc_bit :: "32 word \<Rightarrow> 32 word" where
  "crc_bit c = (if bit c 0 then drop_bit 1 c XOR 0xEDB88320 else drop_bit 1 c)"

definition crc_byte :: "32 word \<Rightarrow> char \<Rightarrow> 32 word" where
  "crc_byte c b = (crc_bit ^^ 8) (c XOR of_nat (of_char b))"

definition crc32_ChecksumIEEE :: "string \<Rightarrow> 32 word" where
  "crc32_ChecksumIEEE s = NOT (foldl crc_byte (NOT 0) s)"

text \<open>\<open>int(int32(...))\<close>\<close>

definition lockIDFromString :: "string \<Rightarrow> int" where
  "lockIDFromString taskName = sint (crc32_ChecksumIEEE taskName)"

definition NewBuildTrackingLockID :: "int \<Rightarrow> LockID" where
  "NewBuildTrackingLockID buildID = [LockTypeBuildTracking, buildID]"

definition NewResourceConfigCheckingLockID :: "int \<Rightarrow> LockID" where
  "NewResourceConfigCheckingLockID resourceConfigID = [LockTypeResourceConfigChecking, resourceConfigID]"

definition NewPipelineSchedulingLockLockID :: "int \<Rightarrow> LockID" where
  "NewPipelineSchedulingLockLockID pipelineID = [LockTypePipelineScheduling, pipelineID]"

definition NewTaskLockID :: "string \<Rightarrow> LockID" where
  "NewTaskLockID taskName = [LockTypeBatch, lockIDFromString taskName]"

definition NewVolumeCreatingLockID :: "int \<Rightarrow> LockID" where
  "NewVolumeCreatingLockID volumeID = [LockTypeVolumeCreating, volumeID]"

definition NewContainerCreatingLockID :: "int \<Rightarrow> LockID" where
  "NewContainerCreatingLockID containerID = [LockTypeContainerCreating, containerID]"

definition NewDatabaseMigrationLockID :: LockID where
  "NewDatabaseMigrationLockID = [LockTypeDatabaseMigration]"

section \<open>Keys\<close>

lemma itoa_no_plus: "CHR ''+'' \<notin> set (itoa i)"
  using itoa_chars [of "CHR ''+''" i] by (auto simp: minus_char_def)

lemma toKey_Nil [simp]: "toKey l = [] \<longleftrightarrow> l = []"
  by (cases l rule: list.exhaust; cases "tl l") (auto simp: toKey_def)

text \<open>The key can be split back into the numbers of the lock id.\<close>

lemma toKey_Split: "l \<noteq> [] \<Longrightarrow> strings_Split (toKey l) CHR ''+'' = map itoa l"
  unfolding toKey_def by (rule strings_Split_Join) (auto simp: itoa_no_plus)

lemma toKey_inject [simp]: "toKey l = toKey l' \<longleftrightarrow> l = l'"
proof
  assume e: "toKey l = toKey l'"
  show "l = l'"
  proof (cases "l = []")
    case True
    then show ?thesis using e by (metis toKey_Nil)
  next
    case False
    moreover from this e have "l' \<noteq> []" by (metis toKey_Nil)
    ultimately have "map itoa l = map itoa l'" using e toKey_Split [of l] toKey_Split [of l'] by simp
    then show ?thesis by (simp add: inj_map_eq_map inj_def)
  qed
qed simp

section \<open>The operations\<close>

type_synonym atc = nat

text \<open>The advisory locks: for every lock id the session that holds it, and how many times.\<close>

type_synonym advisory = "(LockID \<times> atc \<times> nat) list"

definition pg_try_advisory_lock :: "atc \<Rightarrow> LockID \<Rightarrow> advisory \<Rightarrow> bool \<times> advisory" where
  "pg_try_advisory_lock a lid m =
     (case map_of m lid of
        None \<Rightarrow> (True, AList.update lid (a, 1) m)
      | Some (a', n) \<Rightarrow> if a' = a then (True, AList.update lid (a, n + 1) m) else (False, m))"

definition pg_advisory_unlock :: "atc \<Rightarrow> LockID \<Rightarrow> advisory \<Rightarrow> bool \<times> advisory" where
  "pg_advisory_unlock a lid m =
     (case map_of m lid of
        None \<Rightarrow> (False, m)
      | Some (a', n) \<Rightarrow>
          if a' \<noteq> a then (False, m)
          else if n > 1 then (True, AList.update lid (a, n - 1) m)
          else (True, AList.delete lid m))"

text \<open>The registry of one ATC: the keys of the locks it holds.\<close>

definition IsRegistered :: "string list \<Rightarrow> LockID \<Rightarrow> bool" where
  "IsRegistered locks lid \<longleftrightarrow> toKey lid \<in> set locks"

definition RegisterLock :: "string list \<Rightarrow> LockID \<Rightarrow> string list" where
  "RegisterLock locks lid = List.insert (toKey lid) locks"

definition UnregisterLock :: "string list \<Rightarrow> LockID \<Rightarrow> string list" where
  "UnregisterLock locks lid = removeAll (toKey lid) locks"

record lock_state =
  ls_advisory :: advisory
  ls_locks :: "string list"

datatype lock_error = DBError | ErrLostLock

text \<open>\<open>db_error\<close> says that the query fails.\<close>

definition lock_Acquire :: "atc \<Rightarrow> bool \<Rightarrow> LockID \<Rightarrow> lock_state \<Rightarrow> (lock_error + bool) \<times> lock_state" where
  "lock_Acquire a db_error lid s =
     (if IsRegistered (ls_locks s) lid then (Inr False, s)
      else if db_error then (Inl DBError, s)
      else (case pg_try_advisory_lock a lid (ls_advisory s) of
              (acquired, m) \<Rightarrow>
                if \<not> acquired then (Inr False, s\<lparr>ls_advisory := m\<rparr>)
                else (Inr True, s\<lparr>ls_advisory := m, ls_locks := RegisterLock (ls_locks s) lid\<rparr>)))"

definition lock_Release :: "atc \<Rightarrow> bool \<Rightarrow> LockID \<Rightarrow> lock_state \<Rightarrow> (lock_error + unit) \<times> lock_state" where
  "lock_Release a db_error lid s =
     (case (if db_error then (False, ls_advisory s) else pg_advisory_unlock a lid (ls_advisory s)) of
        (released, m) \<Rightarrow>
          (if \<not> released then Inl ErrLostLock else Inr (),
           s\<lparr>ls_advisory := m, ls_locks := UnregisterLock (ls_locks s) lid\<rparr>))"

section \<open>The transition system\<close>

text \<open>A client is a goroutine of an ATC that wants one lock. Where it is in \<open>Acquire\<close> and \<open>Release\<close>:\<close>

datatype phase = Idle | Entered | NotHeldLocally | AcquiredInDB | Holding | ReleasedInDB

record client =
  c_atc :: atc
  c_goroutine :: nat
  c_lock :: LockID

record world =
  w_phase :: "client \<Rightarrow> phase"
  w_mutex :: "atc \<Rightarrow> client option"
  w_locks :: "atc \<Rightarrow> string list"
  w_advisory :: advisory

definition set_phase :: "client \<Rightarrow> phase \<Rightarrow> world \<Rightarrow> world" where
  "set_phase c p w = w\<lparr>w_phase := (w_phase w)(c := p)\<rparr>"

definition unlock_mutex :: "client \<Rightarrow> world \<Rightarrow> world" where
  "unlock_mutex c w = w\<lparr>w_mutex := (w_mutex w)(c_atc c := None)\<rparr>"

inductive lock_step :: "world \<Rightarrow> world \<Rightarrow> bool" where
  enter: "w_phase w c = Idle \<Longrightarrow> w_mutex w (c_atc c) = None \<Longrightarrow>
    lock_step w (set_phase c Entered (w\<lparr>w_mutex := (w_mutex w)(c_atc c \<mapsto> c)\<rparr>))"
| held_locally: "w_phase w c = Entered \<Longrightarrow> IsRegistered (w_locks w (c_atc c)) (c_lock c) \<Longrightarrow>
    lock_step w (set_phase c Idle (unlock_mutex c w))"
| not_held_locally: "w_phase w c = Entered \<Longrightarrow> \<not> IsRegistered (w_locks w (c_atc c)) (c_lock c) \<Longrightarrow>
    lock_step w (set_phase c NotHeldLocally w)"
| acquired_in_db: "w_phase w c = NotHeldLocally \<Longrightarrow>
    pg_try_advisory_lock (c_atc c) (c_lock c) (w_advisory w) = (True, m) \<Longrightarrow>
    lock_step w (set_phase c AcquiredInDB (w\<lparr>w_advisory := m\<rparr>))"
| held_in_db: "w_phase w c = NotHeldLocally \<Longrightarrow>
    pg_try_advisory_lock (c_atc c) (c_lock c) (w_advisory w) = (False, m) \<Longrightarrow>
    lock_step w (set_phase c Idle (unlock_mutex c w))"
| acquire_error: "w_phase w c = NotHeldLocally \<Longrightarrow> lock_step w (set_phase c Idle (unlock_mutex c w))"
| acquire_error_late: "w_phase w c = NotHeldLocally \<Longrightarrow>
    pg_try_advisory_lock (c_atc c) (c_lock c) (w_advisory w) = (True, m) \<Longrightarrow>
    lock_step w (set_phase c Idle (unlock_mutex c (w\<lparr>w_advisory := m\<rparr>)))"
| registered: "w_phase w c = AcquiredInDB \<Longrightarrow>
    lock_step w (set_phase c Holding (unlock_mutex c
      (w\<lparr>w_locks := (w_locks w)(c_atc c := RegisterLock (w_locks w (c_atc c)) (c_lock c))\<rparr>)))"
| released_in_db: "w_phase w c = Holding \<Longrightarrow>
    pg_advisory_unlock (c_atc c) (c_lock c) (w_advisory w) = (released, m) \<Longrightarrow>
    lock_step w (set_phase c ReleasedInDB (w\<lparr>w_advisory := m\<rparr>))"
| release_error: "w_phase w c = Holding \<Longrightarrow> lock_step w (set_phase c ReleasedInDB w)"
| unregistered: "w_phase w c = ReleasedInDB \<Longrightarrow>
    lock_step w (set_phase c Idle
      (w\<lparr>w_locks := (w_locks w)(c_atc c := UnregisterLock (w_locks w (c_atc c)) (c_lock c))\<rparr>))"

definition init_world :: world where
  "init_world = \<lparr>w_phase = (\<lambda>c. Idle), w_mutex = (\<lambda>a. None), w_locks = (\<lambda>a. []), w_advisory = []\<rparr>"

inductive reachable :: "world \<Rightarrow> bool" where
  start: "reachable init_world"
| step: "reachable w \<Longrightarrow> lock_step w w' \<Longrightarrow> reachable w'"

end
