(* ===== verification/Locks_Correct.thy ===== *)
theory Locks_Correct
  imports Locks
begin

text \<open>
  Mutual exclusion of the locks of \<open>db/lock/lock.go\<close> under every interleaving of goroutines and ATCs, the
  agreement of the operations with the transition system, and bounds and injectivity of lock ids.
\<close>

section \<open>The invariant\<close>

definition in_mutex :: "phase \<Rightarrow> bool" where
  "in_mutex p \<longleftrightarrow> p \<in> {Entered, NotHeldLocally, AcquiredInDB}"

definition in_registry :: "phase \<Rightarrow> bool" where
  "in_registry p \<longleftrightarrow> p \<in> {Holding, ReleasedInDB}"

definition owns :: "phase \<Rightarrow> bool" where
  "owns p \<longleftrightarrow> p \<in> {AcquiredInDB, Holding}"

lemma phase_sets [simp]:
  "\<not> in_mutex Idle" "in_mutex Entered" "in_mutex NotHeldLocally" "in_mutex AcquiredInDB" "\<not> in_mutex Holding" "\<not> in_mutex ReleasedInDB"
  "\<not> in_registry Idle" "\<not> in_registry Entered" "\<not> in_registry NotHeldLocally" "\<not> in_registry AcquiredInDB" "in_registry Holding"
  "in_registry ReleasedInDB"
  "\<not> owns Idle" "\<not> owns Entered" "\<not> owns NotHeldLocally" "owns AcquiredInDB" "owns Holding" "\<not> owns ReleasedInDB"
  by (simp_all add: in_mutex_def in_registry_def owns_def)

definition lock_inv :: "world \<Rightarrow> bool" where
  "lock_inv w \<longleftrightarrow>
     (\<forall>c. in_mutex (w_phase w c) \<longrightarrow> w_mutex w (c_atc c) = Some c) \<and>
     (\<forall>c. in_registry (w_phase w c) \<longrightarrow> IsRegistered (w_locks w (c_atc c)) (c_lock c)) \<and>
     (\<forall>c. w_phase w c \<in> {NotHeldLocally, AcquiredInDB} \<longrightarrow> \<not> IsRegistered (w_locks w (c_atc c)) (c_lock c)) \<and>
     (\<forall>c. owns (w_phase w c) \<longrightarrow> (\<exists>n > 0. map_of (w_advisory w) (c_lock c) = Some (c_atc c, n))) \<and>
     (\<forall>c d. in_registry (w_phase w c) \<and> in_registry (w_phase w d) \<and> c_atc c = c_atc d \<and> c_lock c = c_lock d \<longrightarrow> c = d)"

lemma registry [simp]:
  "IsRegistered (RegisterLock ls i) i' \<longleftrightarrow> i' = i \<or> IsRegistered ls i'"
  "IsRegistered (UnregisterLock ls i) i' \<longleftrightarrow> i' \<noteq> i \<and> IsRegistered ls i'"
  by (auto simp: IsRegistered_def RegisterLock_def UnregisterLock_def)

lemma world_simps [simp]:
  "w_phase (set_phase c p w) = (w_phase w)(c := p)" "w_mutex (set_phase c p w) = w_mutex w"
  "w_locks (set_phase c p w) = w_locks w" "w_advisory (set_phase c p w) = w_advisory w"
  "w_phase (unlock_mutex c w) = w_phase w" "w_mutex (unlock_mutex c w) = (w_mutex w)(c_atc c := None)"
  "w_locks (unlock_mutex c w) = w_locks w" "w_advisory (unlock_mutex c w) = w_advisory w"
  by (simp_all add: set_phase_def unlock_mutex_def)

lemma try_lock_True:
  "pg_try_advisory_lock a i m = (True, m') \<Longrightarrow>
     (\<exists>n > 0. map_of m' i = Some (a, n)) \<and> (\<forall>j. j \<noteq> i \<longrightarrow> map_of m' j = map_of m j) \<and>
     (\<forall>b n. map_of m i = Some (b, n) \<longrightarrow> b = a)"
  by (auto simp: pg_try_advisory_lock_def update_conv split: option.splits if_splits)

lemma unlock_other: "pg_advisory_unlock a i m = (r, m') \<Longrightarrow> j \<noteq> i \<Longrightarrow> map_of m' j = map_of m j"
  by (auto simp: pg_advisory_unlock_def update_conv delete_conv split: option.splits if_splits)

lemma lock_inv_init: "lock_inv init_world"
  by (simp add: lock_inv_def init_world_def)

lemma mutex_unique:
  "lock_inv w \<Longrightarrow> in_mutex (w_phase w c) \<Longrightarrow> in_mutex (w_phase w d) \<Longrightarrow> c_atc d = c_atc c \<Longrightarrow> d = c"
  unfolding lock_inv_def by (metis option.inject)

lemma owner_unique:
  assumes i: "lock_inv w" and c: "owns (w_phase w c)" and d: "owns (w_phase w d)" and l: "c_lock d = c_lock c"
  shows "d = c"
proof -
  have a: "c_atc d = c_atc c" using assms unfolding lock_inv_def by (metis option.inject prod.inject)
  consider "in_mutex (w_phase w c)" "in_mutex (w_phase w d)" | "in_registry (w_phase w c)" "in_registry (w_phase w d)"
    | "w_phase w c = AcquiredInDB" "in_registry (w_phase w d)" | "w_phase w d = AcquiredInDB" "in_registry (w_phase w c)"
    using c d by (auto simp: owns_def)
  then show ?thesis
  proof cases
    case 1
    then show ?thesis using mutex_unique [OF i] a by blast
  qed (use i a l in \<open>unfold lock_inv_def, metis insertCI\<close>)+
qed

lemma lock_inv_step: "lock_step w w' \<Longrightarrow> lock_inv w \<Longrightarrow> lock_inv w'"
proof (induction rule: lock_step.induct)
  case (enter w c)
  then show ?case unfolding lock_inv_def by auto
next
  case (held_locally w c)
  then have "d = c" if "in_mutex (w_phase w d)" "c_atc d = c_atc c" for d using mutex_unique [of w c d] that by simp
  then show ?case using held_locally unfolding lock_inv_def by auto
next
  case (not_held_locally w c)
  then show ?case unfolding lock_inv_def by auto
next
  case (acquired_in_db w c m)
  note t = try_lock_True [OF acquired_in_db(2)]
  have "\<exists>n > 0. map_of m (c_lock d) = Some (c_atc d, n)" if "owns (w_phase w d)" for d
    using t that acquired_in_db(3) unfolding lock_inv_def by metis
  then show ?case using acquired_in_db t unfolding lock_inv_def by auto
next
  case (held_in_db w c m)
  then have "d = c" if "in_mutex (w_phase w d)" "c_atc d = c_atc c" for d using mutex_unique [of w c d] that by simp
  then show ?case using held_in_db unfolding lock_inv_def by auto
next
  case (acquire_error w c)
  then have "d = c" if "in_mutex (w_phase w d)" "c_atc d = c_atc c" for d using mutex_unique [of w c d] that by simp
  then show ?case using acquire_error unfolding lock_inv_def by auto
next
  case (acquire_error_late w c m)
  note t = try_lock_True [OF acquire_error_late(2)]
  have "\<exists>n > 0. map_of m (c_lock d) = Some (c_atc d, n)" if "owns (w_phase w d)" for d
    using t that acquire_error_late(3) unfolding lock_inv_def by metis
  moreover have "d = c" if "in_mutex (w_phase w d)" "c_atc d = c_atc c" for d
    using mutex_unique [OF acquire_error_late(3)] acquire_error_late(1) that by simp
  ultimately show ?case using acquire_error_late unfolding lock_inv_def by auto
next
  case (registered w c)
  have u: "d = c" if "in_mutex (w_phase w d)" "c_atc d = c_atc c" for d
    using mutex_unique [OF registered(2)] registered(1) that by simp
  have r: "\<not> (in_registry (w_phase w d) \<and> c_atc d = c_atc c \<and> c_lock d = c_lock c)" for d
    using registered unfolding lock_inv_def by (metis insertCI)
  show ?case using registered u r unfolding lock_inv_def by auto
next
  case (released_in_db w c released m)
  have "c_lock d \<noteq> c_lock c" if d: "owns (w_phase w d)" "d \<noteq> c" for d
    using owner_unique [OF released_in_db(3), of c d] released_in_db(1) d by auto
  with unlock_other [OF released_in_db(2)]
  have "\<exists>n > 0. map_of m (c_lock d) = Some (c_atc d, n)" if "owns (w_phase w d)" "d \<noteq> c" for d
    using that released_in_db(3) unfolding lock_inv_def by metis
  then show ?case using released_in_db unfolding lock_inv_def by auto
next
  case (release_error w c)
  then show ?case unfolding lock_inv_def by auto
next
  case (unregistered w c)
  have "\<not> (in_registry (w_phase w d) \<and> c_atc d = c_atc c \<and> c_lock d = c_lock c)" if "d \<noteq> c" for d
    using unregistered that unfolding lock_inv_def by (metis phase_sets(12))
  then show ?case using unregistered unfolding lock_inv_def by auto
qed

lemma lock_inv_reachable: "reachable w \<Longrightarrow> lock_inv w"
  by (induction rule: reachable.induct) (auto intro: lock_inv_init lock_inv_step)

section \<open>The operations are runs of the transition system\<close>

lemma Acquire_run:
  assumes idle: "w_phase w c = Idle" and free: "w_mutex w (c_atc c) = None"
    and acq: "lock_Acquire (c_atc c) db_error (c_lock c) \<lparr>ls_advisory = w_advisory w, ls_locks = w_locks w (c_atc c)\<rparr> = (res, s')"
  shows "\<exists>w'. lock_step\<^sup>*\<^sup>* w w' \<and> w_phase w' = (w_phase w)(c := if res = Inr True then Holding else Idle) \<and>
    w_advisory w' = ls_advisory s' \<and> w_locks w' (c_atc c) = ls_locks s' \<and> w_mutex w' = w_mutex w"
proof -
  define w1 where "w1 = set_phase c Entered (w\<lparr>w_mutex := (w_mutex w)(c_atc c \<mapsto> c)\<rparr>)"
  have 1: "lock_step w w1" unfolding w1_def by (rule lock_step.enter [OF idle free])
  have p1: "w_phase w1 c = Entered" "w_locks w1 = w_locks w" "w_advisory w1 = w_advisory w" by (simp_all add: w1_def)
  have restore: "(w_mutex w)(c_atc c := None) = w_mutex w" "(w_phase w)(c := Idle) = w_phase w"
    using free idle by (simp_all add: fun_upd_idem)
  show ?thesis
  proof (cases "IsRegistered (w_locks w (c_atc c)) (c_lock c)")
    case True
    then have "lock_step w1 (set_phase c Idle (unlock_mutex c w1))" using p1 by (intro lock_step.held_locally) simp_all
    then have "lock_step\<^sup>*\<^sup>* w (set_phase c Idle (unlock_mutex c w1))" using 1 by (meson converse_rtranclp_into_rtranclp r_into_rtranclp)
    then show ?thesis using True acq restore
      by (intro exI [of _ "set_phase c Idle (unlock_mutex c w1)"]) (auto simp: w1_def lock_Acquire_def)
  next
    case False
    define w2 where "w2 = set_phase c NotHeldLocally w1"
    have 2: "lock_step w1 w2" unfolding w2_def using p1 False by (intro lock_step.not_held_locally) simp_all
    have p2: "w_phase w2 c = NotHeldLocally" "w_locks w2 = w_locks w" "w_advisory w2 = w_advisory w" by (simp_all add: w2_def p1)
    obtain b m where t: "pg_try_advisory_lock (c_atc c) (c_lock c) (w_advisory w) = (b, m)" by fastforce
    consider "db_error" | "\<not> db_error" "\<not> b" | "\<not> db_error" "b" by blast
    then show ?thesis
    proof cases
      case 1
      have "lock_step w2 (set_phase c Idle (unlock_mutex c w2))" using p2 by (intro lock_step.acquire_error)
      then have "lock_step\<^sup>*\<^sup>* w (set_phase c Idle (unlock_mutex c w2))" using \<open>lock_step w w1\<close> 2 by (meson converse_rtranclp_into_rtranclp r_into_rtranclp)
      then show ?thesis using False acq 1 restore
        by (intro exI [of _ "set_phase c Idle (unlock_mutex c w2)"]) (auto simp: w2_def w1_def lock_Acquire_def)
    next
      case nb: 2
      have m: "m = w_advisory w" using t nb by (auto simp: pg_try_advisory_lock_def split: option.splits if_splits)
      have "lock_step w2 (set_phase c Idle (unlock_mutex c w2))" using p2 t nb by (intro lock_step.held_in_db) simp_all
      then have "lock_step\<^sup>*\<^sup>* w (set_phase c Idle (unlock_mutex c w2))" using \<open>lock_step w w1\<close> 2 by (meson converse_rtranclp_into_rtranclp r_into_rtranclp)
      then show ?thesis using False acq nb t restore m
        by (intro exI [of _ "set_phase c Idle (unlock_mutex c w2)"]) (auto simp: w2_def w1_def lock_Acquire_def)
    next
      case b: 3
      define w3 where "w3 = set_phase c AcquiredInDB (w2\<lparr>w_advisory := m\<rparr>)"
      define w4 where "w4 = set_phase c Holding (unlock_mutex c (w3\<lparr>w_locks := (w_locks w3)(c_atc c := RegisterLock (w_locks w3 (c_atc c)) (c_lock c))\<rparr>))"
      have 3: "lock_step w2 w3" unfolding w3_def using p2 t b by (intro lock_step.acquired_in_db) simp_all
      have 4: "lock_step w3 w4" unfolding w4_def by (rule lock_step.registered) (simp add: w3_def)
      have "lock_step\<^sup>*\<^sup>* w w4" using \<open>lock_step w w1\<close> 2 3 4 by (meson converse_rtranclp_into_rtranclp r_into_rtranclp)
      then show ?thesis using False acq b t restore
        by (intro exI [of _ w4]) (auto simp: w4_def w3_def w2_def w1_def lock_Acquire_def)
    qed
  qed
qed

lemma reachable_run: "lock_step\<^sup>*\<^sup>* w w' \<Longrightarrow> reachable w \<Longrightarrow> reachable w'"
  by (induction rule: rtranclp_induct) (auto intro: reachable.step)

section \<open>Theorems\<close>

definition sample_client :: client where
  "sample_client = \<lparr>c_atc = 0, c_goroutine = 0, c_lock = NewBuildTrackingLockID 42\<rparr>"



text \<open>
  Acquiring a lock that nobody holds succeeds, and releasing it makes it free again for every ATC: the
  database holds nothing under its id and the registry does not know its key.
\<close>

theorem lock_acquire_release:
  assumes "map_of (ls_advisory s) i = None" and "\<not> IsRegistered (ls_locks s) i"
  shows "\<exists>s1 s2. lock_Acquire a False i s = (Inr True, s1) \<and> IsRegistered (ls_locks s1) i \<and>
    (\<forall>b. b \<noteq> a \<longrightarrow> fst (pg_try_advisory_lock b i (ls_advisory s1)) = False) \<and>
    lock_Release a False i s1 = (Inr (), s2) \<and> map_of (ls_advisory s2) = map_of (ls_advisory s) \<and>
    \<not> IsRegistered (ls_locks s2) i"
proof -
  have "(map_of (ls_advisory s))(i := None) = map_of (ls_advisory s)" using assms(1) by (simp add: fun_upd_idem)
  then show ?thesis using assms
    by (auto simp: lock_Acquire_def lock_Release_def pg_try_advisory_lock_def pg_advisory_unlock_def update_conv' delete_conv')
qed

theorem lock_acquire_release_witness:
  "fst (lock_Acquire 7 False (NewTaskLockID ''build-reaper'') \<lparr>ls_advisory = [([1, 42], 3, 1)], ls_locks = []\<rparr>) = Inr True"
  using lock_acquire_release [of "\<lparr>ls_advisory = [([1, 42], 3, 1)], ls_locks = []\<rparr>" "NewTaskLockID ''build-reaper''" 7]
  by (auto simp: IsRegistered_def NewTaskLockID_def lock_types)

text \<open>
  C24. Lock ids are told apart: different ids have different keys in the registry, locks of different kinds
  never share an id, and the second number of a task lock, a checksum read as a signed 32-bit integer, fits
  the \<open>int4\<close> argument of the advisory lock functions.
\<close>

theorem lock_ids:
  "(toKey l = toKey l' \<longleftrightarrow> l = l') \<and>
   distinct (map hd [NewResourceConfigCheckingLockID a, NewBuildTrackingLockID b, NewPipelineSchedulingLockLockID c,
     NewTaskLockID n, NewVolumeCreatingLockID v, NewContainerCreatingLockID k, NewDatabaseMigrationLockID]) \<and>
   - (2 ^ 31) \<le> lockIDFromString n \<and> lockIDFromString n < 2 ^ 31"
  using sint_greater_eq [of "crc32_ChecksumIEEE n"] sint_less [of "crc32_ChecksumIEEE n"]
  by (simp add: lockIDFromString_def lock_types NewResourceConfigCheckingLockID_def NewBuildTrackingLockID_def
      NewPipelineSchedulingLockLockID_def NewTaskLockID_def NewVolumeCreatingLockID_def NewContainerCreatingLockID_def
      NewDatabaseMigrationLockID_def)

end
