(* ===== verification/Db_Engine.thy ===== *)
theory Db_Engine
  imports Build_Lifecycle Locks_Correct
begin

text \<open>
  \<open>engine/db_engine.go\<close> and \<open>builds/tracker.go\<close>: the engine that keeps builds in the database and hands them
  to the engine that runs them. The result of acquiring the tracking lock is an argument of the operations
  that acquire it: an error, not acquired, or acquired. The run of the steps is an argument of \<open>Resume\<close>.
\<close>

section \<open>Definitions\<close>

definition execEngineName :: string where
  "execEngineName = ''exec.v2''"

definition execV1DummyEngineName :: string where
  "execV1DummyEngineName = ''exec.v1''"

fun Engines_Lookup :: "string list \<Rightarrow> string \<Rightarrow> bool" where
  "Engines_Lookup [] name = False"
| "Engines_Lookup (e # engines) name = (if e = name then True else Engines_Lookup engines name)"

datatype lock_result = LockFailed | NotAcquired | Acquired

text \<open>The first engine creates the build in memory; only the update of the database can fail.\<close>

definition dbEngine_CreateBuild :: "build_row \<Rightarrow> Plan \<Rightarrow> unit dbm" where
  "dbEngine_CreateBuild b plan =
     d_bind (build_Start (b_id b) execEngineName plan) (\<lambda>started. d_return ())"

text \<open>
  \<open>LookupBuild\<close> of the engine with that name: the first parses the plan out of the engine metadata, the dummy
  engine has nothing to run.
\<close>

definition engine_LookupBuild :: "string \<Rightarrow> build_row \<Rightarrow> Plan option dbm" where
  "engine_LookupBuild name b =
     (if name = execEngineName
      then (case b_engine_metadata b of None \<Rightarrow> d_fail InvalidMetadata | Some plan \<Rightarrow> d_return (Some plan))
      else d_return None)"

text \<open>The abort of an engine's build sends a signal to the object it was looked up as.\<close>

definition dbBuild_Abort :: "string list \<Rightarrow> lock_result \<Rightarrow> int \<Rightarrow> unit dbm" where
  "dbBuild_Abort engines lock i =
     (case lock of
        LockFailed \<Rightarrow> d_fail LockError
      | NotAcquired \<Rightarrow> MarkAsAborted i
      | Acquired \<Rightarrow>
          d_seq (MarkAsAborted i)
          (d_bind (build_Reload i) (\<lambda>found.
             case found of
               None \<Rightarrow> d_return ()
             | Some b \<Rightarrow>
                 if b_engine b = [] then build_Finish i (b_job_id b) StatusAborted
                 else if \<not> Engines_Lookup engines (b_engine b) then d_fail (UnknownEngineError (b_engine b))
                 else d_bind (engine_LookupBuild (b_engine b) b) (\<lambda>engineBuild. d_return ()))))"

datatype resume_result = NotTracked | BuildNotFound | NoEngine | AlreadyFinished | FinishedWithError | Ran

definition finishWithError :: "build_row \<Rightarrow> string \<Rightarrow> unit dbm" where
  "finishWithError b finishErr = build_FinishWithError (b_id b) (b_job_id b) finishErr"

text \<open>An error of \<open>finishWithError\<close> is only logged.\<close>

definition logged :: "'a \<Rightarrow> 'b dbm \<Rightarrow> 'a dbm" where
  "logged x m = (\<lambda>s. (Inr x, snd (m s)))"

definition dbBuild_Resume ::
    "string list \<Rightarrow> lock_result \<Rightarrow> (build_row \<Rightarrow> Plan option \<Rightarrow> unit dbm) \<Rightarrow> int \<Rightarrow> resume_result dbm" where
  "dbBuild_Resume engines lock run i =
     (case lock of
        LockFailed \<Rightarrow> d_return NotTracked
      | NotAcquired \<Rightarrow> d_return NotTracked
      | Acquired \<Rightarrow>
          d_bind (build_Reload i) (\<lambda>found.
          case found of
            None \<Rightarrow> d_return BuildNotFound
          | Some b \<Rightarrow>
              if b_engine b = [] then d_return NoEngine
              else if \<not> build_IsRunning b then d_return AlreadyFinished
              else if \<not> Engines_Lookup engines (b_engine b)
              then logged FinishedWithError (finishWithError b (''unknown build engine: '' @ b_engine b))
              else (\<lambda>s. case engine_LookupBuild (b_engine b) b s of
                      (Inl e, s') \<Rightarrow> logged FinishedWithError (finishWithError b ''unexpected end of JSON input'') s'
                    | (Inr engineBuild, s') \<Rightarrow>
                        d_seq (query (\<lambda>t. b_status b = StatusAborted)) (d_seq (run b engineBuild) (d_seq (build_Reload i) (d_return Ran))) s')))"

text \<open>
  \<open>Tracker.Track\<close> resumes every started build; the goroutines, here one after the other, are independent of
  each other and their errors are only logged.
\<close>

definition GetAllStartedBuilds :: "build_row list dbm" where
  "GetAllStartedBuilds = query (\<lambda>t. filter (\<lambda>b. b_status b = StatusStarted) (t_builds t))"

definition Tracker_Track :: "(int \<Rightarrow> resume_result dbm) \<Rightarrow> unit dbm" where
  "Tracker_Track resume =
     (\<lambda>s. case GetAllStartedBuilds s of
            (Inl e, s') \<Rightarrow> (Inr (), s')
          | (Inr builds, s') \<Rightarrow> d_each (\<lambda>b. logged () (resume (b_id b))) builds s')"

section \<open>Operations that share an invariant of the tables\<close>

lemma keeps_logged: "keeps P m \<Longrightarrow> keeps P (logged x m)"
  by (simp add: keeps_def logged_def)

text \<open>
  Whatever invariant the operations that end a build keep, aborting and resuming keep; with one that starting
  a build keeps too, the whole engine keeps it.
\<close>

locale build_closing =
  fixes inv :: "tables \<Rightarrow> bool"
  assumes finish_keeps: "final_status st \<Longrightarrow> keeps inv (build_Finish i j st)"
    and mark_keeps: "keeps inv (MarkAsAborted i)"
    and event_keeps: "keeps inv (build_SaveEvent i (ErrorMessage m))"
begin

lemma finish_with_error_keeps: "keeps inv (build_FinishWithError i j cause)"
  unfolding build_FinishWithError_def by (intro keeps_seq event_keeps finish_keeps) (simp add: final_status_def)

lemma lookup_keeps: "keeps inv (engine_LookupBuild name b)"
  by (simp add: engine_LookupBuild_def split: option.split)

lemma abort_keeps: "keeps inv (dbBuild_Abort engines lock i)"
  unfolding dbBuild_Abort_def
  by (auto split: lock_result.split option.split simp: build_Reload_def final_status_def
      intro!: keeps_seq keeps_bind mark_keeps finish_keeps lookup_keeps)

lemma resume_keeps:
  assumes "\<And>b p. keeps inv (run b p)"
  shows "keeps inv (dbBuild_Resume engines lock run i)"
proof -
  have "keeps inv (\<lambda>s. case engine_LookupBuild (b_engine b) b s of
      (Inl e, s') \<Rightarrow> logged FinishedWithError (finishWithError b ''unexpected end of JSON input'') s'
    | (Inr engineBuild, s') \<Rightarrow>
        d_seq (query (\<lambda>t. b_status b = StatusAborted)) (d_seq (run b engineBuild) (d_seq (build_Reload i) (d_return Ran))) s')" for b
  proof -
    have "keeps inv (logged FinishedWithError (finishWithError b ''unexpected end of JSON input''))"
      unfolding finishWithError_def by (intro keeps_logged finish_with_error_keeps)
    moreover have "keeps inv (d_seq (query (\<lambda>t. b_status b = StatusAborted)) (d_seq (run b p) (d_seq (build_Reload i) (d_return Ran))))" for p
      by (intro keeps_seq assms) (simp_all add: build_Reload_def)
    ultimately show ?thesis using lookup_keeps [of "b_engine b" b] unfolding keeps_def
      by (auto split: prod.split sum.split)
  qed
  then show ?thesis unfolding dbBuild_Resume_def
    by (auto split: lock_result.split option.split simp: build_Reload_def finishWithError_def
        intro!: keeps_bind keeps_logged finish_with_error_keeps)
qed

end

locale build_store = build_closing +
  assumes start_keeps: "engine \<noteq> [] \<Longrightarrow> keeps inv (build_Start i engine plan)"
begin

lemma create_keeps: "keeps inv (dbEngine_CreateBuild b plan)"
  unfolding dbEngine_CreateBuild_def by (intro keeps_bind start_keeps keeps_return) (simp add: execEngineName_def)

end

interpretation lifecycle: build_store builds_ok
  by unfold_locales (simp_all add: keeps_Start keeps_Finish keeps_MarkAsAborted keeps_SaveEvent)

end
