(* ===== verification/Db_Engine_Correct.thy ===== *)
theory Db_Engine_Correct
  imports Db_Engine
begin

text \<open>
  What the engine over the database promises: a build finishes at most once, whatever is called in whatever
  order and whatever statements fail; aborting a pending build finishes it and keeps it from starting; and
  a started build that nobody tracks is lost when it is aborted.
\<close>

section \<open>Lemmas\<close>

lemma find_row:
  assumes "distinct (map b_id rows)" and "b \<in> set rows" and "b_id b = i"
  shows "find (\<lambda>b. b_id b = i) rows = Some b"
  using assms by (induction rows) auto

lemma row_unique: "distinct (map b_id rows) \<Longrightarrow> a \<in> set rows \<Longrightarrow> b \<in> set rows \<Longrightarrow> b_id a = b_id b \<Longrightarrow> a = b"
  by (simp add: distinct_map inj_on_def)

lemma builds_ok_find: "builds_ok t \<Longrightarrow> b \<in> set (t_builds t) \<Longrightarrow> find (\<lambda>x. b_id x = b_id b) (t_builds t) = Some b"
  by (simp add: builds_ok_def find_row)

text \<open>An operation whose postcondition names one outcome.\<close>

lemma post_unchanged: "post m t (\<lambda>r t'. t' = t) \<Longrightarrow> db_tables s = t \<Longrightarrow> db_tables (snd (m s)) = t"
  by (simp add: post_def)

lemma post_result: "post m t Q \<Longrightarrow> db_tables s = t \<Longrightarrow> m s = (r, s') \<Longrightarrow> Q r (db_tables s')"
  by (auto simp: post_def)

lemma post_Reload: "Q (Inl SqlError) t \<Longrightarrow> Q (Inr (find (\<lambda>b. b_id b = i) (t_builds t))) t \<Longrightarrow> post (build_Reload i) t Q"
  by (simp add: build_Reload_def post_query)

lemma post_MarkAsAborted:
  "(\<And>e. Q (Inl e) t) \<Longrightarrow> (\<And>r. Q r (aborted_tables i t)) \<Longrightarrow> post (MarkAsAborted i) t Q"
  by (rule post_mono [OF MarkAsAborted_post]) auto

lemma post_Finish:
  "(\<And>e. Q (Inl e) t) \<Longrightarrow>
   (\<And>r. i \<in> set (t_event_seqs t) \<Longrightarrow> Q r (finished_tables i st t)) \<Longrightarrow> post (build_Finish i j st) t Q"
  by (rule post_mono [OF Finish_post]) auto

text \<open>The row of the build after it has been marked.\<close>

definition aborted_row :: "build_row \<Rightarrow> build_row" where
  "aborted_row b = b\<lparr>b_status := StatusAborted\<rparr>"

lemma aborted_row_in: "b \<in> set (t_builds t) \<Longrightarrow> aborted_row b \<in> set (t_builds (aborted_tables (b_id b) t))"
  by (auto simp: aborted_tables_def aborted_row_def in_update_where)

lemma aborted_find:
  assumes "builds_ok t" and "b \<in> set (t_builds t)"
  shows "find (\<lambda>x. b_id x = b_id b) (t_builds (aborted_tables (b_id b) t)) = Some (aborted_row b)"
  using builds_ok_find [OF aborted_ok [OF assms(1)] aborted_row_in [OF assms(2)]] by (simp add: aborted_row_def)

lemma aborted_frame [simp]:
  "t_events (aborted_tables i t) = t_events t" "t_event_seqs (aborted_tables i t) = t_event_seqs t" "t_now (aborted_tables i t) = t_now t"
  by (simp_all add: aborted_tables_def)


section \<open>The events of a build\<close>

definition events_of :: "int \<Rightarrow> tables \<Rightarrow> saved_event list" where
  "events_of i t = map snd (filter (\<lambda>(j, e). j = i) (t_events t))"

fun ends_build :: "saved_event \<Rightarrow> bool" where
  "ends_build (StatusEvent st n) = final_status st"
| "ends_build (ErrorMessage m) = False"

definition unended :: "saved_event list \<Rightarrow> bool" where
  "unended es \<longleftrightarrow> (\<forall>e \<in> set es. \<not> ends_build e)"

definition ended_once :: "saved_event list \<Rightarrow> bool" where
  "ended_once es \<longleftrightarrow> es \<noteq> [] \<and> ends_build (last es) \<and> unended (butlast es)"

text \<open>
  A build with an event sequence has no event that ends it, a completed one has exactly one and it is the
  last, and the ids to come have no events.
\<close>

definition events_ok :: "tables \<Rightarrow> bool" where
  "events_ok t \<longleftrightarrow> builds_ok t \<and> (\<forall>i \<in> set (t_event_seqs t). unended (events_of i t)) \<and>
     (\<forall>b \<in> set (t_builds t). b_completed b \<longrightarrow> ended_once (events_of (b_id b) t)) \<and>
     (\<forall>(i, e) \<in> set (t_events t). i < t_next_build_id t)"

lemma events_of_append:
  "events_of i (t\<lparr>t_events := t_events t @ [(j, e)]\<rparr>) = events_of i t @ (if j = i then [e] else [])"
  by (simp add: events_of_def)

lemma events_of_cong: "t_events t' = t_events t \<Longrightarrow> events_of i t' = events_of i t"
  by (simp add: events_of_def)

lemma unended_simps [simp]: "unended []" "unended (es @ [e]) \<longleftrightarrow> unended es \<and> \<not> ends_build e"
  by (auto simp: unended_def)

lemma ended_once_append [simp]: "ended_once (es @ [e]) \<longleftrightarrow> unended es \<and> ends_build e"
  by (auto simp: ended_once_def)

lemma events_ok_builds_ok: "events_ok t \<Longrightarrow> builds_ok t"
  by (simp add: events_ok_def)

text \<open>An update of the rows that keeps their ids and completion.\<close>

lemma events_ok_update:
  assumes "events_ok t" and "builds_ok t'" and "t_events t' = t_events t" and "t_event_seqs t' = t_event_seqs t"
    and "t_next_build_id t' = t_next_build_id t" and "\<And>b'. b' \<in> set (t_builds t') \<Longrightarrow> \<exists>b \<in> set (t_builds t). b_id b = b_id b' \<and> (b_completed b' \<longrightarrow> b_completed b)"
  shows "events_ok t'"
proof -
  have "ended_once (events_of (b_id b') t)" if "b' \<in> set (t_builds t')" "b_completed b'" for b'
    using assms(1) assms(6) [OF that(1)] that(2) by (auto simp: events_ok_def)
  then show ?thesis using assms(1-5) by (simp add: events_ok_def events_of_cong [OF assms(3)])
qed

lemma aborted_events_ok: "events_ok t \<Longrightarrow> events_ok (aborted_tables i t)"
  by (rule events_ok_update, assumption, rule aborted_ok, erule events_ok_builds_ok)
    (auto simp: aborted_tables_def in_update_where split: if_splits)

lemma scheduled_events_ok: "events_ok t \<Longrightarrow> events_ok (scheduled_tables i t)"
  by (rule events_ok_update, assumption, rule scheduled_ok, erule events_ok_builds_ok)
    (auto simp: scheduled_tables_def in_update_where split: if_splits)

text \<open>An event that does not end the build may be added while the build has its sequence.\<close>

lemma message_events_ok:
  assumes "events_ok t" and "i \<in> set (t_event_seqs t)" and "\<not> ends_build e"
  shows "events_ok (t\<lparr>t_events := t_events t @ [(i, e)]\<rparr>)"
proof -
  have b: "builds_ok t" using assms(1) by (rule events_ok_builds_ok)
  have "b_id b \<noteq> i" if "b \<in> set (t_builds t)" "b_completed b" for b
    using b that assms(2) by (auto simp: builds_ok_def build_ok_def)
  moreover have "i < t_next_build_id t" using b assms(2) by (simp add: builds_ok_def)
  ultimately show ?thesis using assms by (fastforce simp: events_ok_def events_of_append)
qed

lemma started_events_ok:
  assumes "events_ok t" and "engine \<noteq> []" and "i \<in> set (t_event_seqs t)"
  shows "events_ok (started_tables i engine plan t)"
proof -
  let ?t = "t\<lparr>t_events := t_events t @ [(i, StatusEvent StatusStarted (t_now t))]\<rparr>"
  have "events_ok ?t" using assms by (intro message_events_ok) (simp_all add: final_status_def)
  moreover have "builds_ok (started_tables i engine plan t)" using assms by (intro started_ok events_ok_builds_ok)
  ultimately show ?thesis
    by (rule events_ok_update) (auto simp: started_tables_def in_update_where split: if_splits)
qed

lemma finished_events_ok:
  assumes "events_ok t" and "final_status st" and "i \<in> set (t_event_seqs t)"
  shows "events_ok (finished_tables i st t)"
proof -
  have b: "builds_ok (finished_tables i st t)" using assms by (intro finished_ok events_ok_builds_ok)
  have e: "events_of j (finished_tables i st t) = events_of j t @ (if i = j then [StatusEvent st (t_now t)] else [])" for j
    by (simp add: events_of_def finished_tables_def)
  have "i < t_next_build_id t" using events_ok_builds_ok [OF assms(1)] assms(3) by (simp add: builds_ok_def)
  then show ?thesis using assms(1,2,3) b unfolding events_ok_def e
    by (auto simp: finished_tables_def in_update_where split: if_splits)
qed

lemma created_events_ok:
  assumes "events_ok t"
  shows "events_ok (created_tables j n manual t)"
proof -
  have b: "builds_ok (created_tables j n manual t)" using assms by (intro created_ok events_ok_builds_ok)
  have e: "events_of i (created_tables j n manual t) = events_of i t" for i
    by (simp add: events_of_def created_tables_def insert_build_def bumped_def Let_def)
  have "\<forall>(i, x) \<in> set (t_events t). i < t_next_build_id t" using assms by (simp add: events_ok_def)
  then have "events_of (t_next_build_id t) t = []" by (auto simp: events_of_def filter_empty_conv)
  then show ?thesis using assms b unfolding events_ok_def e
    by (fastforce simp: created_tables_def insert_build_def bumped_def Let_def new_build_def)
qed

lemma keeps_events_Start: "engine \<noteq> [] \<Longrightarrow> keeps events_ok (build_Start i engine plan)"
  by (rule keeps_from_post [OF Start_post]) (auto intro: started_events_ok)

lemma keeps_events_Finish: "final_status st \<Longrightarrow> keeps events_ok (build_Finish i j st)"
  by (rule keeps_from_post [OF Finish_post]) (auto intro: finished_events_ok)

lemma keeps_events_MarkAsAborted: "keeps events_ok (MarkAsAborted i)"
  by (rule keeps_from_post [OF MarkAsAborted_post]) (auto intro: aborted_events_ok)

lemma keeps_events_SaveEvent: "keeps events_ok (build_SaveEvent i (ErrorMessage m))"
  by (rule keeps_from_post [OF SaveEvent_post]) (auto intro: message_events_ok)

lemma keeps_events_Schedule: "keeps events_ok (build_Schedule i)"
  by (rule keeps_from_post [OF Schedule_post]) (auto intro: scheduled_events_ok)

lemma keeps_events_EnsurePendingBuildExists: "keeps events_ok (EnsurePendingBuildExists j)"
  by (rule keeps_from_post [OF EnsurePendingBuildExists_post]) (auto intro: created_events_ok)

lemma keeps_events_CreateBuild: "keeps events_ok (job_CreateBuild j)"
  by (rule keeps_from_post [OF CreateBuild_post]) (auto intro: created_events_ok)

interpretation history: build_store events_ok
  by unfold_locales (simp_all add: keeps_events_Start keeps_events_Finish keeps_events_MarkAsAborted keeps_events_SaveEvent)


section \<open>Runs of operations\<close>

text \<open>
  The operations on builds in any order, with any statements failing. The database statements that the steps
  of a resumed build make are operations of their own.
\<close>

inductive build_step :: "tables \<Rightarrow> tables \<Rightarrow> bool" where
  create: "build_step (db_tables s) (db_tables (snd (job_CreateBuild j s)))"
| ensure: "build_step (db_tables s) (db_tables (snd (EnsurePendingBuildExists j s)))"
| schedule: "build_step (db_tables s) (db_tables (snd (build_Schedule i s)))"
| start: "build_step (db_tables s) (db_tables (snd (dbEngine_CreateBuild b plan s)))"
| message: "build_step (db_tables s) (db_tables (snd (build_SaveEvent i (ErrorMessage m) s)))"
| finish: "final_status st \<Longrightarrow> build_step (db_tables s) (db_tables (snd (build_Finish i j st s)))"
| finish_with_error: "build_step (db_tables s) (db_tables (snd (build_FinishWithError i j m s)))"
| abort: "build_step (db_tables s) (db_tables (snd (dbBuild_Abort engines lock i s)))"
| resume: "build_step (db_tables s) (db_tables (snd (dbBuild_Resume engines lock (\<lambda>b p. d_return ()) i s)))"

lemma build_step_keeps: "build_step t t' \<Longrightarrow> events_ok t \<Longrightarrow> events_ok t'"
  by (induction rule: build_step.induct)
    (erule keepsD [where P = events_ok, rotated],
     rule keeps_events_CreateBuild keeps_events_EnsurePendingBuildExists keeps_events_Schedule keeps_events_SaveEvent
       history.create_keeps history.finish_with_error_keeps history.abort_keeps history.resume_keeps keeps_events_Finish,
     (rule keeps_return | assumption)?)+

lemma build_steps_keep: "build_step\<^sup>*\<^sup>* t t' \<Longrightarrow> events_ok t \<Longrightarrow> events_ok t'"
  by (induction rule: rtranclp_induct) (auto intro: build_step_keeps)

lemma Finish_completed:
  assumes "builds_ok (db_tables s)" and "b \<in> set (t_builds (db_tables s))" and "b_completed b"
  shows "\<exists>e s'. build_Finish (b_id b) j st s = (Inl e, s') \<and> db_tables s' = db_tables s"
proof -
  obtain r s' where f: "build_Finish (b_id b) j st s = (r, s')" by fastforce
  have "b_id b \<notin> set (t_event_seqs (db_tables s))" using assms by (auto simp: builds_ok_def build_ok_def)
  then show ?thesis using postD [OF Finish_post f refl] f by auto
qed

text \<open>
  C25. A build ends once. After any sequence of operations on the builds, whatever statements fail, the
  events of a completed build hold exactly one that ends it and it is the last, a build that is not completed
  has none, and to finish a completed build again is an error that changes nothing.
\<close>

theorem build_ends_once:
  assumes "build_step\<^sup>*\<^sup>* t0 t" and "events_ok t0" and "b \<in> set (t_builds t)"
  shows "(if b_completed b then ended_once (events_of (b_id b) t) else unended (events_of (b_id b) t)) \<and>
    (b_completed b \<longrightarrow> db_tables s = t \<longrightarrow>
       (\<exists>e s'. build_Finish (b_id b) (b_job_id b) st s = (Inl e, s') \<and> db_tables s' = t))"
proof -
  have ok: "events_ok t" using assms(1,2) by (rule build_steps_keep)
  have "\<not> b_completed b \<longrightarrow> b_id b \<in> set (t_event_seqs t)"
    using events_ok_builds_ok [OF ok] assms(3) by (auto simp: builds_ok_def build_ok_def)
  then show ?thesis using ok assms(3) Finish_completed [OF events_ok_builds_ok] by (auto simp: events_ok_def)
qed

section \<open>Aborts\<close>

lemma post_LookupBuild:
  "Q (Inl InvalidMetadata) t \<Longrightarrow> (\<And>p. Q (Inr p) t) \<Longrightarrow> post (engine_LookupBuild name b) t Q"
  by (auto simp: engine_LookupBuild_def split: option.split intro!: post_intros)

text \<open>The build is marked first; then, unless it has an engine, it is finished.\<close>

lemma Abort_post:
  assumes "builds_ok t" and "b \<in> set (t_builds t)"
  shows "post (dbBuild_Abort engines Acquired (b_id b)) t (\<lambda>r t'.
     t' = t \<and> (\<exists>e. r = Inl e) \<or>
     t' = aborted_tables (b_id b) t \<and> (r = Inr () \<longrightarrow> b_engine b \<noteq> []) \<or>
     t' = finished_tables (b_id b) StatusAborted (aborted_tables (b_id b) t) \<and> b_engine b = [])"
  unfolding dbBuild_Abort_def lock_result.case
  by (intro post_seq post_MarkAsAborted)
    (auto simp: after_def aborted_find [OF assms] aborted_row_def split: sum.split
      intro!: post_bind post_Reload post_fail post_return post_Finish post_LookupBuild)


text \<open>A build that is neither pending nor started is left alone by the engine.\<close>

lemma post_Start_not_pending:
  assumes "builds_ok t" and "b \<in> set (t_builds t)" and "b_status b \<noteq> StatusPending"
  shows "post (dbEngine_CreateBuild b plan) t (\<lambda>r t'. t' = t)"
proof -
  have "\<not> (\<exists>x \<in> set (t_builds t). b_id x = b_id b \<and> b_status x = StatusPending)"
    using assms row_unique [of "t_builds t"] by (auto simp: builds_ok_def)
  then show ?thesis unfolding dbEngine_CreateBuild_def
    by (intro post_bind post_mono [OF Start_post]) (auto simp: after_def split: sum.split intro: post_return)
qed

lemma post_Resume_not_running:
  assumes "builds_ok t" and "b \<in> set (t_builds t)" and "\<not> build_IsRunning b"
  shows "post (dbBuild_Resume engines lock run (b_id b)) t (\<lambda>r t'. t' = t)"
  unfolding dbBuild_Resume_def
  by (cases lock) (auto intro!: post_return post_bind post_Reload simp: builds_ok_find [OF assms(1,2)] assms(3))

definition aborted_build :: "build_row \<Rightarrow> tables \<Rightarrow> tables" where
  "aborted_build b t = finished_tables (b_id b) StatusAborted (aborted_tables (b_id b) t)"

lemma aborted_build_row:
  assumes "b \<in> set (t_builds t)"
  shows "\<exists>b' \<in> set (t_builds (aborted_build b t)). b_id b' = b_id b \<and> b_status b' = StatusAborted \<and> b_completed b'"
  using assms unfolding aborted_build_def finished_tables_def aborted_tables_def by (auto simp: update_where_def image_iff Bex_def)

lemma Abort_pending:
  assumes "builds_ok t" and "b \<in> set (t_builds t)" and "b_status b = StatusPending"
  shows "sure (dbBuild_Abort engines Acquired (b_id b)) t (\<lambda>r t'. r = Inr () \<and> t' = aborted_build b t)"
proof -
  have "b_engine b = []" and "b_id b \<in> set (t_event_seqs t)"
    using assms by (auto simp: builds_ok_def build_ok_def final_status_def)
  then show ?thesis
    unfolding dbBuild_Abort_def lock_result.case aborted_build_def
    by (intro sure_seq sure_MarkAsAborted)
      (auto simp: aborted_find [OF assms(1,2)] aborted_row_def
        intro!: sure_bind sure_Reload sure_Finish [OF aborted_row_in [OF assms(2)]])
qed

text \<open>
  C26. To abort a pending build that nobody tracks ends it: with no statement failing it is marked as aborted
  and completed and its events end with the status. A scheduler that goes on to start the build afterwards,
  or a tracker that resumes it, changes nothing, whatever statements fail.
\<close>

theorem abort_pending_build:
  assumes "events_ok (db_tables s)" and "healthy s" and "b \<in> set (t_builds (db_tables s))" and "b_status b = StatusPending"
  shows "\<exists>s' b'. dbBuild_Abort engines Acquired (b_id b) s = (Inr (), s') \<and> b' \<in> set (t_builds (db_tables s')) \<and>
    b_id b' = b_id b \<and> b_status b' = StatusAborted \<and> b_completed b' \<and>
    events_of (b_id b) (db_tables s') = events_of (b_id b) (db_tables s) @ [StatusEvent StatusAborted (t_now (db_tables s))] \<and>
    (\<forall>r. db_tables r = db_tables s' \<longrightarrow>
       db_tables (snd (dbEngine_CreateBuild b plan r)) = db_tables s' \<and>
       db_tables (snd (dbBuild_Resume engines lock run (b_id b) r)) = db_tables s')"
proof -
  let ?t = "db_tables s"
  have ok: "builds_ok ?t" using assms(1) by (rule events_ok_builds_ok)
  obtain r s' where s': "dbBuild_Abort engines Acquired (b_id b) s = (r, s')" by fastforce
  have r: "r = Inr ()" "db_tables s' = aborted_build b ?t"
    using sureD [OF Abort_pending [OF ok assms(3,4)] s' refl assms(2)] by auto
  have ok': "builds_ok (db_tables s')"
    unfolding r(2) aborted_build_def by (intro finished_ok aborted_ok ok) (simp add: final_status_def)
  obtain b' where b': "b' \<in> set (t_builds (db_tables s'))" "b_id b' = b_id b" "b_status b' = StatusAborted" "b_completed b'"
    using aborted_build_row [OF assms(3)] unfolding r(2) by auto
  have "post (dbEngine_CreateBuild b plan) (db_tables s') (\<lambda>r t'. t' = db_tables s')"
    using post_Start_not_pending [OF ok' b'(1)] b'(2,3) by (simp add: dbEngine_CreateBuild_def)
  moreover have "post (dbBuild_Resume engines lock run (b_id b)) (db_tables s') (\<lambda>r t'. t' = db_tables s')"
    using post_Resume_not_running [OF ok' b'(1)] b'(2,3) by (simp add: build_IsRunning_def)
  moreover have "events_of (b_id b) (db_tables s') = events_of (b_id b) ?t @ [StatusEvent StatusAborted (t_now ?t)]"
    unfolding r(2) aborted_build_def by (simp add: events_of_def finished_tables_def)
  ultimately show ?thesis using s' r(1) b' by (auto simp: post_def)
qed

text \<open>
  C27. To abort a started build that nobody tracks loses it. The signal goes to a build object that nobody
  resumes: the build is marked as aborted but not completed, gets no event, and from then on is never
  resumed and is not among the started builds the tracker looks for.
\<close>

theorem abort_untracked_build:
  assumes "builds_ok (db_tables s)" and "healthy s" and "b \<in> set (t_builds (db_tables s))" and "b_status b = StatusStarted"
    and "Engines_Lookup engines (b_engine b)"
  shows "\<exists>s' b'. dbBuild_Abort engines Acquired (b_id b) s = (Inr (), s') \<and> b' \<in> set (t_builds (db_tables s')) \<and>
    b_id b' = b_id b \<and> b_status b' = StatusAborted \<and> \<not> b_completed b' \<and> t_events (db_tables s') = t_events (db_tables s) \<and>
    (\<forall>r. db_tables r = db_tables s' \<longrightarrow>
       db_tables (snd (dbBuild_Resume engines lock run (b_id b) r)) = db_tables s' \<and>
       (\<forall>bs r'. GetAllStartedBuilds r = (Inr bs, r') \<longrightarrow> b_id b \<notin> b_id ` set bs))"
proof -
  let ?t = "db_tables s"
  let ?b = "aborted_row b"
  obtain p where p: "b_engine b \<noteq> []" "b_engine_metadata b = Some p" "\<not> b_completed b"
    using assms(1,3,4) by (auto simp: builds_ok_def build_ok_def final_status_def)
  have sure: "sure (dbBuild_Abort engines Acquired (b_id b)) ?t (\<lambda>r t'. r = Inr () \<and> t' = aborted_tables (b_id b) ?t)"
    unfolding dbBuild_Abort_def lock_result.case
    by (intro sure_seq sure_MarkAsAborted)
      (auto simp: aborted_find [OF assms(1,3)] aborted_row_def p assms(5) engine_LookupBuild_def
        intro!: sure_bind sure_Reload sure_return)
  obtain r s' where s': "dbBuild_Abort engines Acquired (b_id b) s = (r, s')" by fastforce
  have r: "r = Inr ()" "db_tables s' = aborted_tables (b_id b) ?t"
    using sureD [OF sure s' refl assms(2)] by auto
  have b': "?b \<in> set (t_builds (db_tables s'))" unfolding r(2) using assms(3) by (rule aborted_row_in)
  have ok': "builds_ok (db_tables s')" unfolding r(2) using assms(1) by (rule aborted_ok)
  have "post (dbBuild_Resume engines lock run (b_id b)) (db_tables s') (\<lambda>r t'. t' = db_tables s')"
    using post_Resume_not_running [OF ok' b'] by (simp add: build_IsRunning_def aborted_row_def)
  moreover have "b_id b \<notin> b_id ` set bs" if started: "GetAllStartedBuilds q = (Inr bs, q')" "db_tables q = db_tables s'" for q bs q'
  proof
    assume "b_id b \<in> b_id ` set bs"
    then obtain x where "x \<in> set (t_builds (db_tables s'))" "b_status x = StatusStarted" "b_id x = b_id ?b"
      using started by (auto simp: GetAllStartedBuilds_def query_def stmt_def Let_def aborted_row_def split: if_splits)
    then show False using row_unique [of "t_builds (db_tables s')" x ?b] b' ok' by (simp add: builds_ok_def aborted_row_def)
  qed
  ultimately show ?thesis using s' r b' p(3) by (intro exI [of _ s'] exI [of _ ?b]) (auto simp: post_def aborted_row_def)
qed


lemma outputs_of_succeeded:
  assumes "x \<in> set (db_BuildOutputs (load_versions i t))"
  shows "\<exists>b \<in> set (t_builds t). b_id b = bo_BuildID x \<and> b_status b = StatusSucceeded"
  using assms by (auto simp: load_versions_def split: prod.splits)


section \<open>Witnesses\<close>

definition stored_row :: "int \<Rightarrow> BuildStatus \<Rightarrow> build_row" where
  "stored_row i st = \<lparr>b_id = i, b_name = ''1'', b_status = st, b_scheduled = True, b_team_id = 1, b_pipeline_id = 1, b_job_id = 1,
     b_manually_triggered = False, b_engine = (if st = StatusPending then [] else execEngineName),
     b_engine_metadata = (if st = StatusStarted then Some zero_plan else None), b_public_plan = None,
     b_start_time = None, b_end_time = None, b_completed = (st = StatusSucceeded), b_reap_time = None\<rparr>"

definition stored_db :: db where
  "stored_db = \<lparr>db_tables =
     \<lparr>t_builds = [stored_row 1 StatusSucceeded, stored_row 2 StatusStarted, stored_row 3 StatusPending],
      t_jobs = [], t_serial_groups = [], t_next_inputs = [], t_independent_inputs = [], t_build_inputs = [], t_build_outputs = [(1, 1, True)],
      t_resources = [], t_versions = [], t_pipelines = [], t_teams = [], t_workers = [], t_events = [(1, StatusEvent StatusSucceeded 0)], t_event_seqs = [2, 3],
      t_next_build_id = 4, t_next_version_id = 1, t_now = 10, t_resource_types = [], t_task_caches = [], t_next_pipeline_id = 10, t_next_job_id = 10,
      t_next_resource_id = 10, t_next_type_id = 10, t_config_version = 10\<rparr>, db_ticks = 0, db_fails = (\<lambda>_. False)\<rparr>"

lemmas stored_simps = stored_db_def stored_row_def execEngineName_def healthy_def

lemma stored_builds_ok: "builds_ok (db_tables stored_db)"
  by (simp add: builds_ok_def build_ok_def final_status_def stored_simps)

lemma stored_events_ok: "events_ok (db_tables stored_db)"
  using stored_builds_ok by (simp add: events_ok_def) (simp add: stored_simps events_of_def unended_def ended_once_def final_status_def)

lemma stored_healthy: "healthy stored_db"
  by (simp add: stored_simps)

lemma stored_rows: "{stored_row 1 StatusSucceeded, stored_row 2 StatusStarted, stored_row 3 StatusPending} \<subseteq> set (t_builds (db_tables stored_db))"
  by (simp add: stored_db_def)

theorem build_ends_once_witness:
  "\<exists>e s'. build_Finish 1 1 StatusErrored stored_db = (Inl e, s') \<and> db_tables s' = db_tables stored_db"
  using build_ends_once [OF rtranclp.rtrancl_refl stored_events_ok, of "stored_row 1 StatusSucceeded" stored_db StatusErrored]
    stored_rows by (simp add: stored_row_def)

theorem abort_pending_build_witness:
  "\<exists>s' b'. dbBuild_Abort [execEngineName] Acquired 3 stored_db = (Inr (), s') \<and> b' \<in> set (t_builds (db_tables s')) \<and>
    b_id b' = 3 \<and> b_status b' = StatusAborted \<and> b_completed b'"
  using abort_pending_build [OF stored_events_ok stored_healthy, of "stored_row 3 StatusPending" "[execEngineName]" zero_plan Acquired "\<lambda>b p. d_return ()"] stored_rows
  by (simp add: stored_row_def execEngineName_def) blast

theorem abort_untracked_build_witness:
  "\<exists>s' b'. dbBuild_Abort [execEngineName] Acquired 2 stored_db = (Inr (), s') \<and> b' \<in> set (t_builds (db_tables s')) \<and>
    b_id b' = 2 \<and> b_status b' = StatusAborted \<and> \<not> b_completed b'"
  using abort_untracked_build [OF stored_builds_ok stored_healthy, of "stored_row 2 StatusStarted" "[execEngineName]" Acquired "\<lambda>b p. d_return ()"] stored_rows
  by (simp add: stored_row_def execEngineName_def) blast


end
