(* ===== verification/Scheduler.thy ===== *)
theory Scheduler
  imports Db_Engine_Correct
begin

text \<open>
  \<open>scheduler/\<close>: the input mapper, the limit of builds in flight, the build starter, the scheduler and the
  runner of a pipeline, over the operations of the database and of the engine.

  The scan of a resource is an argument: a database operation of the resource checker. The plan factory's
  counter when the plan is created is an argument too. A build that has been started is resumed by a
  goroutine of its own, which is not part of these operations.
\<close>

section \<open>Input mapper\<close>

definition transform_input :: "VersionsDB \<Rightarrow> string \<Rightarrow> JobInput \<Rightarrow> bool \<Rightarrow> int \<Rightarrow> InputConfig" where
  "transform_input db jobName input every pinnedVersionID =
     \<lparr>ic_Name = ji_Name input, ic_JobName = [],
      ic_Passed = foldl (\<lambda>jobs passedJobName. go_insert (go_index 0 (db_JobIDs db) passedJobName) jobs) [] (ji_Passed input),
      ic_UseEveryVersion = every, ic_PinnedVersionID = pinnedVersionID,
      ic_ResourceID = go_index 0 (db_ResourceIDs db) (ji_Resource input), ic_JobID = go_index 0 (db_JobIDs db) jobName\<rparr>"

fun TransformInputConfigs :: "int \<Rightarrow> VersionsDB \<Rightarrow> string \<Rightarrow> JobInput list \<Rightarrow> InputConfigs \<Rightarrow> InputConfigs dbm" where
  "TransformInputConfigs pipelineID db jobName [] inputConfigs = d_return inputConfigs"
| "TransformInputConfigs pipelineID db jobName (input # inputs) inputConfigs =
     (let version = (case ji_Version input of None \<Rightarrow> \<lparr>vcfg_Every = False, vcfg_Latest = True, vcfg_Pinned = None\<rparr> | Some v \<Rightarrow> v);
          continue = (\<lambda>pinnedVersionID. TransformInputConfigs pipelineID db jobName inputs
                        (inputConfigs @ [transform_input db jobName input (vcfg_Every version) pinnedVersionID]))
      in if vcfg_Pinned version = None then continue 0
         else d_bind (GetVersionedResourceByVersion pipelineID (vcfg_Pinned version) (ji_Resource input)) (\<lambda>savedVersion.
              case savedVersion of
                None \<Rightarrow> TransformInputConfigs pipelineID db jobName inputs inputConfigs
              | Some v \<Rightarrow> continue (version_row.v_id v)))"

text \<open>\<open>independentMapping[inputConfig.Name] = singletonMapping[inputConfig.Name]\<close> for the inputs that resolve alone.\<close>

fun independent_mapping :: "VersionsDB \<Rightarrow> InputConfigs \<Rightarrow> InputMapping \<Rightarrow> InputMapping" where
  "independent_mapping db [] m = m"
| "independent_mapping db (ic # ics) m =
     independent_mapping db ics
       (case InputConfigs_Resolve [ic] db of
          Resolved singletonMapping \<Rightarrow>
            AList.update (ic_Name ic) (go_index \<lparr>iv_VersionID = 0, iv_FirstOccurrence = False\<rparr> singletonMapping (ic_Name ic)) m
        | _ \<Rightarrow> m)"

text \<open>The nil mapping of the failed cases is the empty one: it is only read.\<close>

definition mapper_SaveNextInputMapping :: "VersionsDB \<Rightarrow> job \<Rightarrow> InputMapping dbm" where
  "mapper_SaveNextInputMapping versions j =
     (let inputConfigs = JobConfig_Inputs (jb_config j)
      in d_bind (TransformInputConfigs (jb_pipelineID j) versions (jb_name j) inputConfigs []) (\<lambda>algorithmInputConfigs.
         let independentMapping = independent_mapping versions algorithmInputConfigs []
         in d_seq (SaveIndependentInputMapping j independentMapping)
           (if length independentMapping < length inputConfigs then d_seq (DeleteNextInputMapping j) (d_return [])
            else (case InputConfigs_Resolve algorithmInputConfigs versions of
                    Resolved resolvedMapping \<Rightarrow> d_seq (SaveNextInputMapping j resolvedMapping) (d_return resolvedMapping)
                  | _ \<Rightarrow> d_seq (DeleteNextInputMapping j) (d_return [])))))"

section \<open>Builds in flight\<close>

definition isMaxInFlightReached :: "job \<Rightarrow> int \<Rightarrow> bool dbm" where
  "isMaxInFlightReached j buildID =
     (let maxInFlight = MaxInFlight (jb_config j); groups = GetSerialGroups (jb_config j)
      in if maxInFlight = 0 then d_return False
         else d_bind (GetRunningBuildsBySerialGroup j groups) (\<lambda>builds.
              if int (length builds) \<ge> maxInFlight then d_return True
              else d_bind (GetNextPendingBuildBySerialGroup j groups) (\<lambda>nextMostPendingBuild.
                   case nextMostPendingBuild of
                     None \<Rightarrow> d_return True
                   | Some b \<Rightarrow> d_return (b_id b \<noteq> buildID))))"

definition UpdateMaxInFlightReached :: "job \<Rightarrow> int \<Rightarrow> bool dbm" where
  "UpdateMaxInFlightReached j buildID =
     d_bind (isMaxInFlightReached j buildID) (\<lambda>reached. d_seq (SetMaxInFlightReached j reached) (d_return reached))"

section \<open>Build starter\<close>

record starter =
  bs_scan :: "string \<Rightarrow> unit dbm"
  bs_resource_types :: "tables \<Rightarrow> VersionedResourceType list"
  bs_plan_num :: "64 word"

text \<open>The part for a build that was triggered by hand: the resource types to use.\<close>

definition refresh_inputs :: "starter \<Rightarrow> job \<Rightarrow> VersionedResourceType list dbm" where
  "refresh_inputs st j =
     d_seq (d_each (\<lambda>input. bs_scan st (ji_Resource input)) (JobConfig_Inputs (jb_config j)))
     (d_bind (LoadVersionsDB (jb_pipelineID j)) (\<lambda>versions.
      d_seq (mapper_SaveNextInputMapping versions j)
        (query (bs_resource_types st))))"

definition resourceConfigs :: "ResourceConfig list \<Rightarrow> ResourceConfig list" where
  "resourceConfigs resources = map (\<lambda>v.
     \<lparr>resource_Name = resource_Name v, resource_WebhookToken = [], resource_Type = resource_Type v,
      resource_Source = resource_Source v, resource_CheckEvery = [], resource_Tags = resource_Tags v\<rparr>) resources"

text \<open>From \<open>UseInputs\<close> on; the failures to finish and to start the build are logged.\<close>

definition start_scheduled ::
    "starter \<Rightarrow> build_row \<Rightarrow> job \<Rightarrow> ResourceConfig list \<Rightarrow> VersionedResourceType list \<Rightarrow> JobBuildInput list \<Rightarrow> bool dbm" where
  "start_scheduled st nextPendingBuild j resources resourceTypes buildInputs =
     d_seq (build_UseInputs nextPendingBuild buildInputs)
       (case fst (factory_Create (jb_config j) (resourceConfigs resources) resourceTypes buildInputs (bs_plan_num st)) of
          Inl (GoPanic msg) \<Rightarrow> d_fail (Panicked msg)
        | Inl ErrResourceNotFound \<Rightarrow> logged False (build_Finish (b_id nextPendingBuild) (b_job_id nextPendingBuild) StatusErrored)
        | Inr plan \<Rightarrow> (\<lambda>s. case dbEngine_CreateBuild nextPendingBuild plan s of
                        (Inl err, s') \<Rightarrow> (Inr False, s')
                      | (Inr createdBuild, s') \<Rightarrow> (Inr True, s')))"

text \<open>From the check of how the build was triggered on.\<close>

definition start_below_limit ::
    "starter \<Rightarrow> build_row \<Rightarrow> job \<Rightarrow> ResourceConfig list \<Rightarrow> VersionedResourceType list \<Rightarrow> bool dbm" where
  "start_below_limit st nextPendingBuild j resources resourceTypes =
     d_bind (if b_manually_triggered nextPendingBuild then refresh_inputs st j else d_return resourceTypes) (\<lambda>resourceTypes.
     d_bind (GetNextBuildInputs j) (\<lambda>found.
     case found of
       None \<Rightarrow> d_return False
     | Some buildInputs \<Rightarrow>
         d_bind (CheckPaused (jb_pipelineID j)) (\<lambda>pipelinePaused.
         if pipelinePaused then d_return False
         else if jb_paused j then d_return False
         else d_bind (build_Schedule (b_id nextPendingBuild)) (\<lambda>updated.
              if \<not> updated then d_return False
              else start_scheduled st nextPendingBuild j resources resourceTypes buildInputs))))"

definition tryStartNextPendingBuild ::
    "starter \<Rightarrow> build_row \<Rightarrow> job \<Rightarrow> ResourceConfig list \<Rightarrow> VersionedResourceType list \<Rightarrow> bool dbm" where
  "tryStartNextPendingBuild st nextPendingBuild j resources resourceTypes =
     d_bind (UpdateMaxInFlightReached j (b_id nextPendingBuild)) (\<lambda>reachedMaxInFlight.
     if reachedMaxInFlight then d_return False
     else start_below_limit st nextPendingBuild j resources resourceTypes)"

fun TryStartPendingBuildsForJob ::
    "starter \<Rightarrow> job \<Rightarrow> ResourceConfig list \<Rightarrow> VersionedResourceType list \<Rightarrow> build_row list \<Rightarrow> unit dbm" where
  "TryStartPendingBuildsForJob st j resources resourceTypes [] = d_return ()"
| "TryStartPendingBuildsForJob st j resources resourceTypes (nextPendingBuild # builds) =
     d_bind (tryStartNextPendingBuild st nextPendingBuild j resources resourceTypes) (\<lambda>started.
     if \<not> started then d_return () else TryStartPendingBuildsForJob st j resources resourceTypes builds)"

section \<open>Scheduler\<close>

text \<open>The first triggering input with a new version makes a pending build; then the loop ends.\<close>

fun trigger_loop :: "job \<Rightarrow> InputMapping \<Rightarrow> JobInput list \<Rightarrow> unit dbm" where
  "trigger_loop j inputMapping [] = d_return ()"
| "trigger_loop j inputMapping (inputConfig # inputs) =
     (case map_of inputMapping (ji_Name inputConfig) of
        Some inputVersion \<Rightarrow>
          if iv_FirstOccurrence inputVersion \<and> ji_Trigger inputConfig then EnsurePendingBuildExists j
          else trigger_loop j inputMapping inputs
      | None \<Rightarrow> trigger_loop j inputMapping inputs)"

definition ensurePendingBuildExists :: "VersionsDB \<Rightarrow> job \<Rightarrow> unit dbm" where
  "ensurePendingBuildExists versions j =
     d_bind (mapper_SaveNextInputMapping versions j) (\<lambda>inputMapping.
     trigger_loop j inputMapping (JobConfig_Inputs (jb_config j)))"

definition scheduler_Schedule ::
    "starter \<Rightarrow> int \<Rightarrow> VersionsDB \<Rightarrow> job list \<Rightarrow> ResourceConfig list \<Rightarrow> VersionedResourceType list \<Rightarrow> unit dbm" where
  "scheduler_Schedule st pipelineID versions jobs resources resourceTypes =
     d_seq (d_each (ensurePendingBuildExists versions) jobs)
     (d_bind (GetAllPendingBuilds pipelineID) (\<lambda>nextPendingBuilds.
      d_each (\<lambda>j. case map_of nextPendingBuilds (jb_name j) of
                    None \<Rightarrow> d_return ()
                  | Some builds \<Rightarrow> TryStartPendingBuildsForJob st j resources resourceTypes builds) jobs))"

text \<open>The build is returned; what follows it runs in a goroutine whose errors are logged.\<close>

definition TriggerImmediately ::
    "starter \<Rightarrow> job \<Rightarrow> ResourceConfig list \<Rightarrow> VersionedResourceType list \<Rightarrow> build_row dbm" where
  "TriggerImmediately st j resources resourceTypes =
     d_bind (job_CreateBuild j) (\<lambda>b.
     logged b (d_bind (GetPendingBuilds j) (TryStartPendingBuildsForJob st j resources resourceTypes)))"

definition scheduler_SaveNextInputMapping :: "job \<Rightarrow> unit dbm" where
  "scheduler_SaveNextInputMapping j =
     d_bind (LoadVersionsDB (jb_pipelineID j)) (\<lambda>versions. d_seq (mapper_SaveNextInputMapping versions j) (d_return ()))"

section \<open>Runner\<close>

record runner =
  rn_Noop :: bool
  rn_pipelineID :: int
  rn_resources :: "tables \<Rightarrow> ResourceConfig list"
  rn_jobs :: "tables \<Rightarrow> job list"

text \<open>
  One tick: the result is the error that ends the runner, if any. A failure to lock or to reload the
  pipeline only ends the tick.
\<close>

definition Runner_tick :: "runner \<Rightarrow> starter \<Rightarrow> lock_result \<Rightarrow> unit dbm" where
  "Runner_tick rn st schedulingLock =
     (if rn_Noop rn then d_return ()
      else (case schedulingLock of
              LockFailed \<Rightarrow> d_return ()
            | NotAcquired \<Rightarrow> d_return ()
            | Acquired \<Rightarrow>
                d_bind (LoadVersionsDB (rn_pipelineID rn)) (\<lambda>versions s.
                case query (\<lambda>t. find (\<lambda>p. p_id p = rn_pipelineID rn) (t_pipelines t)) s of
                  (Inl err, s') \<Rightarrow> (Inr (), s')
                | (Inr None, s') \<Rightarrow> (Inl PipelineRemoved, s')
                | (Inr (Some p), s') \<Rightarrow>
                    d_bind (query (rn_resources rn)) (\<lambda>resources.
                    d_bind (query (rn_jobs rn)) (\<lambda>jobs.
                    d_bind (query (bs_resource_types st)) (\<lambda>resourceTypes.
                    scheduler_Schedule st (rn_pipelineID rn) versions jobs resources resourceTypes))) s')))"

end
