(* ===== verification/Scheduler_Correct.thy ===== *)
theory Scheduler_Correct
  imports Scheduler Build_Factory_Correct
begin

text \<open>
  The limit of builds in flight: whatever the scheduler, the engine and the users do, in any order of
  complete operations and whatever statements fail, no serial group has more builds running than its limit.
\<close>

section \<open>What the operations leave alone\<close>

text \<open>The tables differ in what does not matter to the builds and to the serial groups.\<close>

definition job_keys :: "tables \<Rightarrow> (int \<times> int) list" where
  "job_keys t = map (\<lambda>r. (j_id r, j_pipeline_id r)) (t_jobs t)"

definition quiet :: "tables \<Rightarrow> tables \<Rightarrow> bool" where
  "quiet t t' \<longleftrightarrow> t_builds t' = t_builds t \<and> t_event_seqs t' = t_event_seqs t \<and> t_next_build_id t' = t_next_build_id t \<and>
     t_serial_groups t' = t_serial_groups t \<and> job_keys t' = job_keys t"

text \<open>They differ in the row of the build too, which stays a build of its job.\<close>

definition changes :: "int \<Rightarrow> tables \<Rightarrow> tables \<Rightarrow> bool" where
  "changes i t t' \<longleftrightarrow>
     (\<exists>f. (\<forall>b. b_id (f b) = b_id b \<and> b_job_id (f b) = b_job_id b) \<and> t_builds t' = update_where (\<lambda>b. b_id b = i) f (t_builds t)) \<and>
     t_serial_groups t' = t_serial_groups t \<and> job_keys t' = job_keys t"

lemma quiet_refl [simp]: "quiet t t"
  by (simp add: quiet_def)

lemma quiet_trans: "quiet t t' \<Longrightarrow> quiet t' t'' \<Longrightarrow> quiet t t''"
  by (simp add: quiet_def)

lemma update_where_keep: "(\<And>r. f r = r) \<Longrightarrow> update_where P f rows = rows"
  by (simp add: update_where_def map_idI)

lemma update_where_twice:
  "(\<And>b. b_id (f b) = b_id b) \<Longrightarrow> update_where (\<lambda>b. b_id b = i) g (update_where (\<lambda>b. b_id b = i) f rows) = update_where (\<lambda>b. b_id b = i) (\<lambda>b. g (f b)) rows"
  by (simp add: update_where_def)

lemma changes_refl [simp]: "changes i t t"
  by (auto simp: changes_def update_where_keep intro!: exI [of _ "\<lambda>b. b"])

lemma changes_trans: "changes i t t' \<Longrightarrow> changes i t' t'' \<Longrightarrow> changes i t t''"
  unfolding changes_def
proof (elim exE conjE, intro conjI)
  fix f g :: "build_row \<Rightarrow> build_row"
  assume "\<forall>b. b_id (f b) = b_id b \<and> b_job_id (f b) = b_job_id b" "t_builds t' = update_where (\<lambda>b. b_id b = i) f (t_builds t)"
    "\<forall>b. b_id (g b) = b_id b \<and> b_job_id (g b) = b_job_id b" "t_builds t'' = update_where (\<lambda>b. b_id b = i) g (t_builds t')"
  then show "\<exists>f. (\<forall>b. b_id (f b) = b_id b \<and> b_job_id (f b) = b_job_id b) \<and> t_builds t'' = update_where (\<lambda>b. b_id b = i) f (t_builds t)"
    by (intro exI [of _ "\<lambda>b. g (f b)"]) (simp add: update_where_twice)
qed simp_all

lemma quiet_changes: "quiet t t' \<Longrightarrow> changes i t t'"
  by (auto simp: changes_def quiet_def update_where_keep intro!: exI [of _ "\<lambda>b. b"])

text \<open>An operation leaves the builds alone when every set of tables it reaches differs so from the first.\<close>

lemma quiet_keeps_changes:
  assumes "\<And>t0. keeps (quiet t0) m"
  shows "keeps (changes i t0) m"
  unfolding keeps_def using keepsD [OF assms quiet_refl] changes_trans quiet_changes by blast

lemma quiet_exec: "(\<And>t. quiet t (f t)) \<Longrightarrow> keeps (quiet t0) (exec f)"
  by (rule keeps_exec) (blast intro: quiet_trans)

lemma quiet_stmt: "(\<And>t. quiet t (snd (f t))) \<Longrightarrow> keeps (quiet t0) (stmt f)"
  by (rule keeps_stmt) (blast intro: quiet_trans)

lemma changes_exec: "(\<And>t. changes i t (f t)) \<Longrightarrow> keeps (changes i t0) (exec f)"
  by (rule keeps_exec) (blast intro: changes_trans)

lemma changes_from_post: "(\<And>t. post m t (\<lambda>_. changes i t)) \<Longrightarrow> keeps (changes i t0) m"
  by (rule keeps_post, rule post_mono, assumption) (blast intro: changes_trans)

lemma quiet_simps [simp]:
  "quiet t (t\<lparr>t_next_inputs := x\<rparr>)" "quiet t (t\<lparr>t_independent_inputs := x\<rparr>)" "quiet t (t\<lparr>t_build_inputs := y\<rparr>)"
  "quiet t (t\<lparr>t_versions := vs\<rparr>)" "quiet t (t\<lparr>t_versions := vs, t_next_version_id := k\<rparr>)" "quiet t (set_rows tb x t)"
  by (simp_all add: quiet_def job_keys_def set_rows_def split: input_table.split)

lemma quiet_jobs: "(\<And>r. j_id (f r) = j_id r \<and> j_pipeline_id (f r) = j_pipeline_id r) \<Longrightarrow> quiet t (t\<lparr>t_jobs := update_where P f (t_jobs t)\<rparr>)"
  by (simp add: quiet_def job_keys_def update_where_def)

lemma quiet_update_job:
  "(\<And>r. j_id (f r) = j_id r \<and> j_pipeline_id (f r) = j_pipeline_id r) \<Longrightarrow> keeps (quiet t0) (update_job i f)"
  unfolding update_job_def by (auto intro!: keeps_bind quiet_stmt quiet_jobs)

lemma quiet_saveJobInputMapping: "keeps (quiet t0) (saveJobInputMapping j tb m)"
  unfolding saveJobInputMapping_def Let_def
  by (auto intro!: keeps_tx keeps_committed keeps_seq keeps_bind keeps_each quiet_exec quiet_jobs)

lemma quiet_DeleteNextInputMapping: "keeps (quiet t0) (DeleteNextInputMapping j)"
  unfolding DeleteNextInputMapping_def by (auto intro!: keeps_tx keeps_committed keeps_seq quiet_exec quiet_jobs)

lemma quiet_TransformInputConfigs: "keeps (quiet t0) (TransformInputConfigs p db n inputs cs)"
  by (induction p db n inputs cs rule: TransformInputConfigs.induct)
    (auto simp: Let_def GetVersionedResourceByVersion_def intro!: keeps_bind split: option.split)

lemma quiet_mapper: "keeps (quiet t0) (mapper_SaveNextInputMapping versions j)"
  unfolding mapper_SaveNextInputMapping_def Let_def SaveIndependentInputMapping_def SaveNextInputMapping_def
  by (auto intro!: keeps_seq keeps_bind quiet_saveJobInputMapping quiet_DeleteNextInputMapping quiet_TransformInputConfigs
      split: outcome.split)

lemma quiet_LoadVersionsDB: "keeps (quiet t0) (LoadVersionsDB i)"
  unfolding LoadVersionsDB_def touch_def by (intro keeps_seq keeps_query)

lemma quiet_saveVersionedResource: "keeps (quiet t0) (saveVersionedResource r vr)"
  unfolding saveVersionedResource_def Let_def
  by (auto intro!: keeps_bind keeps_seq quiet_stmt quiet_exec)

lemma quiet_saveInputTx: "keeps (quiet t0) (saveInputTx p i input)"
  unfolding saveInputTx_def find_resource_def
  by (auto simp: Let_def intro!: keeps_bind quiet_saveVersionedResource quiet_exec)

lemma quiet_UseInputs: "keeps (quiet t0) (build_UseInputs b inputs)"
  unfolding build_UseInputs_def find_pipeline_def
  by (auto intro!: keeps_tx keeps_committed keeps_seq keeps_bind keeps_each quiet_exec quiet_saveInputTx)

lemma quiet_GetNextBuildInputs: "keeps (quiet t0) (GetNextBuildInputs j)"
  unfolding GetNextBuildInputs_def getBuildInputs_def by (auto intro!: keeps_bind)


section \<open>Serial groups\<close>

definition groups_of :: "job \<Rightarrow> string list" where
  "groups_of j = GetSerialGroups (jb_config j)"

definition regrouped :: "job \<Rightarrow> tables \<Rightarrow> tables" where
  "regrouped j t = t\<lparr>t_serial_groups := filter (\<lambda>(i, _). i \<noteq> jb_id j) (t_serial_groups t) @ map (Pair (jb_id j)) (groups_of j)\<rparr>"

lemma updateSerialGroups_post:
  "post (updateSerialGroups j (groups_of j)) t (\<lambda>r t'. t' = t \<and> (\<exists>e. r = Inl e) \<or> t' = regrouped j t)"
proof -
  let ?u = "t\<lparr>t_serial_groups := filter (\<lambda>(i, _). i \<noteq> jb_id j) (t_serial_groups t)\<rparr>"
  let ?I = "\<lambda>ds t'. t' = ?u\<lparr>t_serial_groups := t_serial_groups ?u @ map (Pair (jb_id j)) ds\<rparr>"
  have "post (d_each (\<lambda>g. exec (\<lambda>t. t\<lparr>t_serial_groups := t_serial_groups t @ [(jb_id j, g)]\<rparr>)) (groups_of j)) ?u
      (after (\<lambda>_ t'. t' = regrouped j t) (\<lambda>e t'. True))"
    by (rule post_each [where I = ?I]) (auto simp: regrouped_def intro!: post_exec)
  then have "post (committed (d_seq (exec (\<lambda>t. t\<lparr>t_serial_groups := filter (\<lambda>(i, _). i \<noteq> jb_id j) (t_serial_groups t)\<rparr>))
      (d_each (\<lambda>g. exec (\<lambda>t. t\<lparr>t_serial_groups := t_serial_groups t @ [(jb_id j, g)]\<rparr>)) (groups_of j)))) t
      (after (\<lambda>(c, _) t'. c \<and> t' = regrouped j t) (\<lambda>e t'. True))"
    by (intro post_committed post_seq post_exec) (auto simp: after_def elim!: post_mono split: sum.splits)
  then show ?thesis unfolding updateSerialGroups_def
    by (intro post_tx) (auto simp: after_def elim!: post_mono split: sum.splits prod.splits)
qed

lemma post_updateSerialGroups:
  "(\<And>e. Q (Inl e) t) \<Longrightarrow> (\<And>r. Q r (regrouped j t)) \<Longrightarrow> post (updateSerialGroups j (groups_of j)) t Q"
  by (rule post_mono [OF updateSerialGroups_post]) auto

text \<open>The builds that count against the limit of the job, as the query sees them.\<close>

definition running_with :: "job \<Rightarrow> tables \<Rightarrow> build_row list" where
  "running_with j t = filter (\<lambda>b. running b \<and> in_groups t (groups_of j) (jb_pipelineID j) (\<lambda>_. True) b) (t_builds t)"

definition regroups :: "job \<Rightarrow> tables \<Rightarrow> tables \<Rightarrow> bool" where
  "regroups j t t' \<longleftrightarrow> quiet t t' \<or> quiet (regrouped j t) t'"

lemma regrouped_twice [simp]: "regrouped j (regrouped j t) = regrouped j t"
  by (simp add: regrouped_def)

lemma post_GetRunning:
  "(\<And>e t'. t' = t \<or> t' = regrouped j t \<Longrightarrow> Q (Inl e) t') \<Longrightarrow> Q (Inr (running_with j (regrouped j t))) (regrouped j t) \<Longrightarrow>
   post (GetRunningBuildsBySerialGroup j (groups_of j)) t Q"
  unfolding GetRunningBuildsBySerialGroup_def running_with_def
  by (intro post_seq post_mono [OF updateSerialGroups_post]) (auto simp: after_def split: sum.split intro!: post_query)

lemma post_GetNextPending:
  "(\<And>e t'. t' = t \<or> t' = regrouped j t \<Longrightarrow> Q (Inl e) t') \<Longrightarrow> (\<And>b. Q (Inr b) (regrouped j t)) \<Longrightarrow>
   post (GetNextPendingBuildBySerialGroup j (groups_of j)) t Q"
  unfolding GetNextPendingBuildBySerialGroup_def
  by (intro post_seq post_mono [OF updateSerialGroups_post]) (auto simp: after_def split: sum.split intro!: post_query)

text \<open>What the check has seen when it lets a build through.\<close>

definition below_limit :: "job \<Rightarrow> tables \<Rightarrow> bool" where
  "below_limit j t \<longleftrightarrow> MaxInFlight (jb_config j) = 0 \<or>
     int (length (running_with j t)) < MaxInFlight (jb_config j) \<and> (\<forall>g \<in> set (groups_of j). (jb_id j, g) \<in> set (t_serial_groups t))"

lemma in_groups_keys:
  "in_groups t gs p (\<lambda>_. True) b \<longleftrightarrow> (b_job_id b, p) \<in> set (job_keys t) \<and> (\<exists>g \<in> set gs. (b_job_id b, g) \<in> set (t_serial_groups t))"
proof -
  have "(\<exists>r \<in> set (t_jobs t). j_id r = i \<and> j_pipeline_id r = p \<and> G (j_id r)) \<longleftrightarrow> (i, p) \<in> set (job_keys t) \<and> G i" for i and G :: "int \<Rightarrow> bool"
    by (auto simp: job_keys_def)
  then show ?thesis unfolding in_groups_def by simp
qed

lemma running_with_quiet: "quiet t t' \<Longrightarrow> running_with j t' = running_with j t"
  by (simp add: running_with_def quiet_def in_groups_keys)

lemma below_limit_quiet: "below_limit j t \<Longrightarrow> quiet t t' \<Longrightarrow> below_limit j t'"
  unfolding below_limit_def using running_with_quiet [of t t' j] by (auto simp: quiet_def)

lemma regroups_quiet: "regroups j t t' \<Longrightarrow> quiet t' t'' \<Longrightarrow> regroups j t t''"
  unfolding regroups_def using quiet_trans by blast

lemma isMaxInFlightReached_post:
  "post (isMaxInFlightReached j i) t (\<lambda>r t'. regroups j t t' \<and> (r = Inr False \<longrightarrow> below_limit j t'))"
  unfolding isMaxInFlightReached_def Let_def groups_of_def [symmetric]
  by (auto intro!: post_return post_bind post_GetRunning post_GetNextPending split: option.split
      simp: regroups_def below_limit_def) (auto simp: regrouped_def)

lemma UpdateMaxInFlightReached_post:
  "post (UpdateMaxInFlightReached j i) t (\<lambda>r t'. regroups j t t' \<and> (r = Inr False \<longrightarrow> below_limit j t'))"
  unfolding UpdateMaxInFlightReached_def
proof (rule post_bind, rule post_mono [OF isMaxInFlightReached_post])
  fix r :: "dberror + bool" and t' assume r: "regroups j t t' \<and> (r = Inr False \<longrightarrow> below_limit j t')"
  have k: "keeps (quiet t') (SetMaxInFlightReached j x)" for x
    unfolding SetMaxInFlightReached_def by (rule quiet_update_job) simp
  have "post (d_seq (SetMaxInFlightReached j x) (d_return x)) t' (\<lambda>r t''. quiet t' t'' \<and> (\<forall>y. r = Inr y \<longrightarrow> y = x))" for x
    by (rule post_seq, rule post_mono [OF post_keeps [OF k quiet_refl, of x]]) (auto simp: after_def split: sum.split intro: post_return)
  then have "post (d_seq (SetMaxInFlightReached j x) (d_return x)) t' (\<lambda>r t'. regroups j t t' \<and> (r = Inr False \<longrightarrow> below_limit j t'))"
    if "r = Inr x" for x
    by (rule post_mono) (use r that below_limit_quiet regroups_quiet in blast)
  then show "after (\<lambda>x t'. post (d_seq (SetMaxInFlightReached j x) (d_return x)) t' (\<lambda>r t'. regroups j t t' \<and> (r = Inr False \<longrightarrow> below_limit j t')))
      (\<lambda>e t'. regroups j t t' \<and> (Inl e = Inr False \<longrightarrow> below_limit j t')) r t'"
    using r by (simp add: after_def split: sum.split)
qed


section \<open>The limit of a serial group\<close>

text \<open>The jobs of a pipeline: distinct ids, one pipeline, and each group's limit no smaller than its jobs'.\<close>

definition jobs_ok :: "int \<Rightarrow> job list \<Rightarrow> (string \<Rightarrow> nat) \<Rightarrow> bool" where
  "jobs_ok p jobs limit \<longleftrightarrow> distinct (map jb_id jobs) \<and>
     (\<forall>j \<in> set jobs. jb_pipelineID j = p \<and> (\<forall>g \<in> set (groups_of j). MaxInFlight (jb_config j) \<le> int (limit g)))"

definition job_for :: "job list \<Rightarrow> string \<Rightarrow> build_row \<Rightarrow> bool" where
  "job_for jobs g b \<longleftrightarrow> (\<exists>j \<in> set jobs. jb_id j = b_job_id b \<and> g \<in> set (groups_of j))"

definition in_flight :: "job list \<Rightarrow> string \<Rightarrow> tables \<Rightarrow> build_row list" where
  "in_flight jobs g t = filter (\<lambda>b. running b \<and> job_for jobs g b) (t_builds t)"

definition grouped :: "job list \<Rightarrow> tables \<Rightarrow> build_row \<Rightarrow> bool" where
  "grouped jobs t b \<longleftrightarrow> (\<forall>j \<in> set jobs. jb_id j = b_job_id b \<longrightarrow> (\<forall>g \<in> set (groups_of j). (jb_id j, g) \<in> set (t_serial_groups t)))"

text \<open>
  No group is over its limit; and the groups of the jobs of the running builds are in the table, where the
  query looks for them.
\<close>

definition serial_ok :: "int \<Rightarrow> job list \<Rightarrow> (string \<Rightarrow> nat) \<Rightarrow> tables \<Rightarrow> bool" where
  "serial_ok p jobs limit t \<longleftrightarrow> builds_ok t \<and> (\<forall>g. length (in_flight jobs g t) \<le> limit g) \<and>
     (\<forall>b \<in> set (t_builds t). running b \<longrightarrow> grouped jobs t b) \<and> (\<forall>j \<in> set jobs. (jb_id j, p) \<in> set (job_keys t))"

lemma serial_ok_quiet:
  assumes "quiet t t'"
  shows "serial_ok p jobs limit t' = serial_ok p jobs limit t"
proof -
  have "builds_ok t' = builds_ok t" using assms by (intro builds_ok_frame) (simp_all add: quiet_def)
  then show ?thesis using assms by (simp add: serial_ok_def in_flight_def grouped_def quiet_def)
qed

lemma serial_ok_regrouped:
  assumes "serial_ok p jobs limit t" and "jobs_ok p jobs limit" and "j \<in> set jobs"
  shows "serial_ok p jobs limit (regrouped j t)"
proof -
  have "j' = j" if "j' \<in> set jobs" "jb_id j' = jb_id j" for j'
    using assms(2,3) that by (auto simp: jobs_ok_def distinct_map inj_on_def)
  then have "grouped jobs (regrouped j t) b" if "grouped jobs t b" for b
    using that by (fastforce simp: grouped_def regrouped_def)
  moreover have "builds_ok (regrouped j t) = builds_ok t" by (rule builds_ok_frame) (simp_all add: regrouped_def)
  moreover have "job_keys (regrouped j t) = job_keys t" "t_builds (regrouped j t) = t_builds t"
    by (simp_all add: job_keys_def regrouped_def)
  ultimately show ?thesis using assms(1) by (simp add: serial_ok_def in_flight_def)
qed

text \<open>The query counts every build that runs in one of the job's groups.\<close>

lemma in_flight_counted:
  assumes "serial_ok p jobs limit t" and "jobs_ok p jobs limit" and "j \<in> set jobs" and "g \<in> set (groups_of j)"
  shows "length (in_flight jobs g t) \<le> length (running_with j t)"
proof -
  have "in_groups t (groups_of j) (jb_pipelineID j) (\<lambda>_. True) b" if "b \<in> set (t_builds t)" "running b" "job_for jobs g b" for b
  proof -
    obtain k where "k \<in> set jobs" "jb_id k = b_job_id b" "g \<in> set (groups_of k)"
      using \<open>job_for jobs g b\<close> by (auto simp: job_for_def)
    moreover have "jb_pipelineID j = p" using assms(2,3) by (simp add: jobs_ok_def)
    moreover have "grouped jobs t b" using assms(1) that(1,2) by (simp add: serial_ok_def)
    ultimately show ?thesis using assms(1,4) by (auto simp: in_groups_keys serial_ok_def grouped_def)
  qed
  then have "filter (\<lambda>b. running b \<and> job_for jobs g b) (t_builds t) =
      filter (\<lambda>b. running b \<and> job_for jobs g b) (running_with j t)"
    unfolding running_with_def by (auto intro: filter_cong)
  then show ?thesis unfolding in_flight_def by (metis length_filter_le)
qed

lemma filter_update_one:
  assumes "distinct (map b_id rows)"
  shows "length (filter P (update_where (\<lambda>b. b_id b = i) f rows)) \<le> length (filter P rows) + 1"
  using assms
proof (induction rows)
  case (Cons r rows)
  have "update_where (\<lambda>b. b_id b = i) f rows = rows" if "b_id r = i" using Cons.prems that
    unfolding update_where_def by (intro map_idI) (metis distinct.simps(2) image_eqI image_set list.simps(9))
  moreover have "update_where (\<lambda>b. b_id b = i) f (r # rows) = (if b_id r = i then f r else r) # update_where (\<lambda>b. b_id b = i) f rows"
    by (simp add: update_where_def)
  ultimately show ?case using Cons by simp
qed (simp add: update_where_def)

lemma filter_update_none:
  assumes "\<And>b. b \<in> set rows \<Longrightarrow> b_id b = i \<Longrightarrow> P (f b) \<Longrightarrow> P b"
  shows "length (filter P (update_where (\<lambda>b. b_id b = i) f rows)) \<le> length (filter P rows)"
  using assms by (induction rows) (auto simp: update_where_def)

text \<open>A change to one build of a job below its limit.\<close>

lemma serial_ok_changes:
  assumes "serial_ok p jobs limit t" and "jobs_ok p jobs limit" and "j \<in> set jobs" and "below_limit j t" and "changes i t t'"
    and "builds_ok t'" and "\<And>b. b \<in> set (t_builds t) \<Longrightarrow> b_id b = i \<Longrightarrow> b_job_id b = jb_id j"
  shows "serial_ok p jobs limit t'"
proof -
  obtain f where f: "\<And>b. b_id (f b) = b_id b" "\<And>b. b_job_id (f b) = b_job_id b"
      "t_builds t' = update_where (\<lambda>b. b_id b = i) f (t_builds t)"
    and same: "t_serial_groups t' = t_serial_groups t" "job_keys t' = job_keys t"
    using assms(5) by (auto simp: changes_def)
  have unique: "k = j" if "k \<in> set jobs" "jb_id k = jb_id j" for k
    using assms(2,3) that by (auto simp: jobs_ok_def distinct_map inj_on_def)
  have grouped: "\<forall>g \<in> set (groups_of j). (jb_id j, g) \<in> set (t_serial_groups t)"
    using assms(4) by (auto simp: below_limit_def groups_of_def GetSerialGroups_def MaxInFlight_def split: if_splits)
  have "length (in_flight jobs g t') \<le> limit g" for g
  proof (cases "g \<in> set (groups_of j)")
    case True
    have "MaxInFlight (jb_config j) \<noteq> 0"
      using True by (auto simp: groups_of_def GetSerialGroups_def MaxInFlight_def split: if_splits)
    then have "int (length (in_flight jobs g t)) < MaxInFlight (jb_config j)"
      using assms(4) in_flight_counted [OF assms(1-3) True] by (auto simp: below_limit_def)
    moreover have "MaxInFlight (jb_config j) \<le> int (limit g)" using assms(2,3) True by (simp add: jobs_ok_def)
    moreover have "length (in_flight jobs g t') \<le> length (in_flight jobs g t) + 1"
      unfolding in_flight_def f(3) using assms(1) by (intro filter_update_one) (simp add: serial_ok_def builds_ok_def)
    ultimately show ?thesis by linarith
  next
    case False
    then have "\<not> job_for jobs g (f b)" if "b \<in> set (t_builds t)" "b_id b = i" for b
      using assms(7) [OF that] unique f(2) by (auto simp: job_for_def)
    then have "length (in_flight jobs g t') \<le> length (in_flight jobs g t)"
      unfolding in_flight_def f(3) by (intro filter_update_none) auto
    also have "\<dots> \<le> limit g" using assms(1) by (simp add: serial_ok_def)
    finally show ?thesis .
  qed
  moreover have "grouped jobs t' b'" if "b' \<in> set (t_builds t')" "running b'" for b'
  proof -
    obtain b where b: "b \<in> set (t_builds t)" "b' = (if b_id b = i then f b else b)"
      using \<open>b' \<in> set (t_builds t')\<close> unfolding f(3) in_update_where by blast
    show ?thesis
    proof (cases "b_id b = i")
      case True
      then show ?thesis using b assms(7) f(2) unique grouped by (auto simp: grouped_def same)
    next
      case False
      then show ?thesis using b \<open>running b'\<close> assms(1) by (simp add: serial_ok_def grouped_def same)
    qed
  qed
  ultimately show ?thesis using assms(1,6) by (simp add: serial_ok_def same)
qed


section \<open>Operations that keep the limit\<close>

lemma changes_update:
  "(\<And>b. b_id (f b) = b_id b \<and> b_job_id (f b) = b_job_id b) \<Longrightarrow> t_builds t' = update_where (\<lambda>b. b_id b = i) f (t_builds t) \<Longrightarrow>
   t_serial_groups t' = t_serial_groups t \<Longrightarrow> t_jobs t' = t_jobs t \<Longrightarrow> changes i t t'"
  by (auto simp: changes_def job_keys_def)

lemma update_where_and:
  "update_where (\<lambda>r. P r \<and> Q r) f rows = update_where P (\<lambda>r. if Q r then f r else r) rows"
  by (simp add: update_where_def)

lemma changes_scheduled: "changes i t (scheduled_tables i t)"
  by (rule changes_update [where f = "\<lambda>b. b\<lparr>b_scheduled := True\<rparr>"]) (simp_all add: scheduled_tables_def)

lemma changes_started: "changes i t (started_tables i engine plan t)"
  by (rule changes_update) (auto simp: started_tables_def update_where_and)

lemma changes_finished: "changes i t (finished_tables i st t)"
  by (rule changes_update) (auto simp: finished_tables_def)

lemma changes_Finish: "keeps (changes i t0) (build_Finish i j st)"
  by (rule changes_from_post, rule post_mono [OF Finish_post]) (auto intro: changes_finished)

lemma changes_Start: "keeps (changes (b_id b) t0) (dbEngine_CreateBuild b plan)"
  unfolding dbEngine_CreateBuild_def
  by (intro keeps_bind keeps_return changes_from_post, rule post_mono [OF Start_post]) (auto intro: changes_started)

lemma changes_Schedule: "keeps (changes i t0) (build_Schedule i)"
  by (rule changes_from_post, rule post_mono [OF Schedule_post]) (auto intro: changes_scheduled)

lemma keeps_started:
  assumes "keeps P m"
  shows "keeps P (\<lambda>s. case m s of (Inl err, s') \<Rightarrow> (Inr False, s') | (Inr x, s') \<Rightarrow> (Inr True, s'))"
  using assms by (auto simp: keeps_def split_def split: sum.split)

text \<open>
  What every part of the build starter after the check keeps, the operations on the build itself keep, and
  the scan of a resource keeps.
\<close>

lemma keeps_start_scheduled:
  assumes "keeps P (build_UseInputs b inputs)" and "keeps P (build_Finish (b_id b) (b_job_id b) StatusErrored)"
    and "\<And>plan. keeps P (dbEngine_CreateBuild b plan)"
  shows "keeps P (start_scheduled st b j resources types inputs)"
  unfolding start_scheduled_def
  by (auto intro!: keeps_seq keeps_logged keeps_started assms split: sum.split fault.split)

lemma keeps_start_below_limit:
  assumes "\<And>r. keeps P (bs_scan st r)" and "\<And>vs. keeps P (mapper_SaveNextInputMapping vs j)"
    and "\<And>inputs. keeps P (build_UseInputs b inputs)" and "keeps P (build_Schedule (b_id b))"
    and "keeps P (build_Finish (b_id b) (b_job_id b) StatusErrored)" and "\<And>plan. keeps P (dbEngine_CreateBuild b plan)"
  shows "keeps P (start_below_limit st b j resources types)"
  unfolding start_below_limit_def
  by (auto simp: refresh_inputs_def LoadVersionsDB_def touch_def GetNextBuildInputs_def getBuildInputs_def CheckPaused_def
      intro!: keeps_bind keeps_seq keeps_each keeps_start_scheduled assms split: option.split)

text \<open>The scan of a resource saves versions of it; it has no part in builds or groups.\<close>

definition scan_ok :: "starter \<Rightarrow> bool" where
  "scan_ok st \<longleftrightarrow> (\<forall>r t. keeps (quiet t) (bs_scan st r))"

lemma builds_ok_quiet:
  assumes "\<And>t. keeps (quiet t) m"
  shows "keeps builds_ok m"
proof -
  have "builds_ok t' = builds_ok t" if "quiet t t'" for t t'
    using that by (intro builds_ok_frame) (simp_all add: quiet_def)
  then show ?thesis unfolding keeps_def using keepsD [OF assms quiet_refl] by blast
qed

lemma start_below_limit_post:
  assumes "scan_ok st"
  shows "post (start_below_limit st b j resources types) t
     (\<lambda>_ t'. changes (b_id b) t t' \<and> (builds_ok t \<longrightarrow> builds_ok t'))"
    (is "post ?m t _")
proof -
  have scan: "keeps (quiet t0) (bs_scan st r)" for t0 r using assms by (simp add: scan_ok_def)
  have "keeps (changes (b_id b) t) ?m"
    by (intro keeps_start_below_limit quiet_keeps_changes scan quiet_mapper quiet_UseInputs changes_Schedule changes_Finish changes_Start)
  moreover have "keeps builds_ok ?m"
    by (intro keeps_start_below_limit builds_ok_quiet scan quiet_mapper quiet_UseInputs keeps_Schedule keeps_Finish lifecycle.create_keeps)
      (simp add: final_status_def)
  ultimately show ?thesis by (auto simp: keeps_def post_def)
qed

lemma tryStart_serial:
  assumes "scan_ok st" and "jobs_ok p jobs limit" and "j \<in> set jobs" and "serial_ok p jobs limit t"
    and "\<And>c. c \<in> set (t_builds t) \<Longrightarrow> b_id c = b_id b \<Longrightarrow> b_job_id c = jb_id j"
  shows "post (tryStartNextPendingBuild st b j resources types) t (\<lambda>_. serial_ok p jobs limit)"
  unfolding tryStartNextPendingBuild_def
proof (rule post_bind, rule post_mono [OF UpdateMaxInFlightReached_post], elim conjE)
  fix r :: "dberror + bool" and t'
  assume r: "regroups j t t'" "r = Inr False \<longrightarrow> below_limit j t'"
  have ok: "serial_ok p jobs limit t'"
    using r(1) assms(2-4) serial_ok_regrouped serial_ok_quiet unfolding regroups_def by blast
  have "t_builds t' = t_builds t" using r(1) by (auto simp: regroups_def quiet_def regrouped_def)
  with assms(5) have job: "b_job_id c = jb_id j" if "c \<in> set (t_builds t')" "b_id c = b_id b" for c using that by simp
  have "serial_ok p jobs limit t''"
    if "below_limit j t'" "changes (b_id b) t' t''" "builds_ok t' \<longrightarrow> builds_ok t''" for t''
    using serial_ok_changes [OF ok assms(2,3) that(1,2) _ job] that(3) ok by (simp add: serial_ok_def)
  then have "below_limit j t' \<Longrightarrow> post (start_below_limit st b j resources types) t' (\<lambda>_. serial_ok p jobs limit)"
    by (intro post_mono [OF start_below_limit_post [OF assms(1)]]) simp
  then show "after (\<lambda>reached t'. post (if reached then d_return False else start_below_limit st b j resources types) t' (\<lambda>_. serial_ok p jobs limit))
      (\<lambda>e. serial_ok p jobs limit) r t'"
    using r(2) ok by (simp add: after_def post_return split: sum.split)
qed


text \<open>Operations after which no build runs that did not run before.\<close>

lemma serial_ok_shrinks:
  assumes "serial_ok p jobs limit t" and "builds_ok t'" and "t_serial_groups t' = t_serial_groups t" and "job_keys t' = job_keys t"
    and "filter running (t_builds t') = filter (\<lambda>b. running b \<and> R b) (t_builds t)"
  shows "serial_ok p jobs limit t'"
proof -
  have "in_flight jobs g u = filter (job_for jobs g) (filter running (t_builds u))" for g u
    by (simp add: in_flight_def conj_commute)
  moreover have "filter P (filter (\<lambda>b. running b \<and> R b) rows) = filter R (filter P (filter running rows))" for P rows
    by (induction rows) auto
  ultimately have "in_flight jobs g t' = filter R (in_flight jobs g t)" for g by (simp only: assms(5))
  then have "length (in_flight jobs g t') \<le> length (in_flight jobs g t)" for g by simp
  moreover have "b \<in> set (t_builds t)" if "b \<in> set (t_builds t')" "running b" for b
    using arg_cong [OF assms(5), of set] that by auto
  ultimately show ?thesis using assms(1-4) le_trans unfolding serial_ok_def grouped_def by metis
qed

lemma filter_update_stop:
  assumes "\<And>b. \<not> running (f b)"
  shows "filter running (update_where P f rows) = filter (\<lambda>b. running b \<and> \<not> P b) rows"
  using assms by (induction rows) (auto simp: update_where_def)

lemma serial_ok_builds: "serial_ok p jobs limit t \<Longrightarrow> builds_ok t"
  by (simp add: serial_ok_def)

lemma finished_serial: "serial_ok p jobs limit t \<Longrightarrow> final_status st \<Longrightarrow> serial_ok p jobs limit (finished_tables i st t)"
  by (rule serial_ok_shrinks [where R = "\<lambda>b. b_id b \<noteq> i"], assumption, rule finished_ok, erule serial_ok_builds)
    (auto simp: finished_tables_def job_keys_def running_def final_status_def filter_update_stop)

lemma aborted_serial: "serial_ok p jobs limit t \<Longrightarrow> serial_ok p jobs limit (aborted_tables i t)"
  by (rule serial_ok_shrinks [where R = "\<lambda>b. b_id b \<noteq> i"], assumption, rule aborted_ok, erule serial_ok_builds)
    (auto simp: aborted_tables_def job_keys_def running_def filter_update_stop)

lemma new_build_not_running [simp]: "\<not> running (new_build t j n manual)"
  by (simp add: running_def new_build_def)

lemma created_serial: "serial_ok p jobs limit t \<Longrightarrow> serial_ok p jobs limit (created_tables j n manual t)"
  by (rule serial_ok_shrinks [where R = "\<lambda>_. True"], assumption, rule created_ok, erule serial_ok_builds)
    (auto simp: created_tables_def insert_build_def bumped_def job_keys_def Let_def update_where_def)

lemma message_serial: "serial_ok p jobs limit (t\<lparr>t_events := es\<rparr>) = serial_ok p jobs limit t"
  by (rule serial_ok_quiet) (simp add: quiet_def job_keys_def)

interpretation closing: build_closing "serial_ok p jobs limit"
proof
  show "keeps (serial_ok p jobs limit) (build_Finish i j st)" if "final_status st" for i j st
    using that by (intro keeps_from_post [OF Finish_post]) (auto intro: finished_serial)
  show "keeps (serial_ok p jobs limit) (MarkAsAborted i)" for i
    by (intro keeps_from_post [OF MarkAsAborted_post]) (auto intro: aborted_serial)
  show "keeps (serial_ok p jobs limit) (build_SaveEvent i (ErrorMessage m))" for i m
    by (intro keeps_from_post [OF SaveEvent_post]) (auto simp: message_serial)
qed

lemma keeps_serial_quiet: "(\<And>t. keeps (quiet t) m) \<Longrightarrow> keeps (serial_ok p jobs limit) m"
  unfolding keeps_def using serial_ok_quiet by (metis quiet_refl)

lemma keeps_serial_CreateBuild: "keeps (serial_ok p jobs limit) (job_CreateBuild j)"
  by (rule keeps_from_post [OF CreateBuild_post]) (auto intro: created_serial)

lemma keeps_serial_EnsurePendingBuildExists: "keeps (serial_ok p jobs limit) (EnsurePendingBuildExists j)"
  by (rule keeps_from_post [OF EnsurePendingBuildExists_post]) (auto intro: created_serial)

lemma keeps_trigger_loop: "keeps P (EnsurePendingBuildExists j) \<Longrightarrow> keeps P (trigger_loop j m inputs)"
  by (induction inputs) (auto split: option.split)

lemma keeps_serial_ensurePendingBuildExists: "keeps (serial_ok p jobs limit) (ensurePendingBuildExists versions j)"
  unfolding ensurePendingBuildExists_def
  by (intro keeps_bind keeps_serial_quiet quiet_mapper keeps_trigger_loop keeps_serial_EnsurePendingBuildExists)


section \<open>Runs of the scheduler\<close>

text \<open>
  The complete operations of the scheduler, the engine and the users on the builds of a pipeline, in any
  order, with any statements failing. A build is tried for its own job, from a row that may be out of date.
\<close>

inductive sched_step :: "starter \<Rightarrow> job list \<Rightarrow> tables \<Rightarrow> tables \<Rightarrow> bool" for st jobs where
  try_start: "j \<in> set jobs \<Longrightarrow> \<forall>c \<in> set (t_builds (db_tables s)). b_id c = b_id b \<longrightarrow> b_job_id c = jb_id j \<Longrightarrow>
    sched_step st jobs (db_tables s) (db_tables (snd (tryStartNextPendingBuild st b j resources types s)))"
| ensure: "sched_step st jobs (db_tables s) (db_tables (snd (ensurePendingBuildExists versions j s)))"
| create: "sched_step st jobs (db_tables s) (db_tables (snd (job_CreateBuild j s)))"
| pause: "sched_step st jobs (db_tables s) (db_tables (snd (updatePausedJob j paused s)))"
| message: "sched_step st jobs (db_tables s) (db_tables (snd (build_SaveEvent i (ErrorMessage m) s)))"
| finish: "final_status status \<Longrightarrow> sched_step st jobs (db_tables s) (db_tables (snd (build_Finish i k status s)))"
| finish_with_error: "sched_step st jobs (db_tables s) (db_tables (snd (build_FinishWithError i k m s)))"
| abort: "sched_step st jobs (db_tables s) (db_tables (snd (dbBuild_Abort engines lock i s)))"
| resume: "sched_step st jobs (db_tables s) (db_tables (snd (dbBuild_Resume engines lock (\<lambda>b p. d_return ()) i s)))"

lemma keeps_serial_pause: "keeps (serial_ok p jobs limit) (updatePausedJob j paused)"
  unfolding updatePausedJob_def by (intro keeps_serial_quiet quiet_update_job) simp

lemma sched_step_keeps:
  assumes "scan_ok st" and "jobs_ok p jobs limit"
  shows "sched_step st jobs t t' \<Longrightarrow> serial_ok p jobs limit t \<Longrightarrow> serial_ok p jobs limit t'"
proof (induction rule: sched_step.induct)
  case (try_start j s b resources types)
  then show ?case using tryStart_serial [OF assms] by (auto simp: post_def)
qed (erule keepsD [where P = "serial_ok p jobs limit", rotated],
  rule keeps_serial_ensurePendingBuildExists keeps_serial_CreateBuild keeps_serial_pause closing.event_keeps
    closing.finish_with_error_keeps closing.abort_keeps closing.resume_keeps closing.finish_keeps,
  (rule keeps_return | assumption)?)+

lemma sched_steps_keep:
  assumes "(sched_step st jobs)\<^sup>*\<^sup>* t t'" and "scan_ok st" and "jobs_ok p jobs limit" and "serial_ok p jobs limit t"
  shows "serial_ok p jobs limit t'"
  using assms(1,4) by (induction rule: rtranclp_induct) (auto intro: sched_step_keeps [OF assms(2,3)])


text \<open>The limit of a group: the largest limit of its jobs.\<close>

definition group_limit :: "job list \<Rightarrow> string \<Rightarrow> nat" where
  "group_limit jobs g = foldr max (map (\<lambda>j. nat (MaxInFlight (jb_config j))) (filter (\<lambda>j. g \<in> set (groups_of j)) jobs)) 0"

definition pipeline_jobs :: "int \<Rightarrow> job list \<Rightarrow> bool" where
  "pipeline_jobs p jobs \<longleftrightarrow> distinct (map jb_id jobs) \<and> (\<forall>j \<in> set jobs. jb_pipelineID j = p)"

lemma foldr_max_ge: "x \<in> set xs \<Longrightarrow> x \<le> foldr max xs (0 :: nat)"
  by (induction xs) auto

lemma foldr_max_le: "(\<And>x. x \<in> set xs \<Longrightarrow> x \<le> k) \<Longrightarrow> foldr max xs 0 \<le> (k :: nat)"
  by (induction xs) auto

lemma jobs_ok_group_limit: "pipeline_jobs p jobs \<Longrightarrow> jobs_ok p jobs (group_limit jobs)"
  by (auto simp: jobs_ok_def pipeline_jobs_def group_limit_def nat_le_iff [symmetric] intro!: foldr_max_ge)


text \<open>A build that runs in one of the job's groups counts against the limit of the job.\<close>

lemma running_with_nonempty:
  assumes "serial_ok p jobs limit t" and "jobs_ok p jobs limit" and "j \<in> set jobs" and "g \<in> set (groups_of j)"
    and "b \<in> set (t_builds t)" and "running b" and "job_for jobs g b"
  shows "0 < length (running_with j t)"
proof -
  have "b \<in> set (in_flight jobs g t)" using assms(5-7) by (simp add: in_flight_def)
  then have "0 < length (in_flight jobs g t)" by (cases "in_flight jobs g t") auto
  then show ?thesis using in_flight_counted [OF assms(1-4)] by linarith
qed

text \<open>
  C30. A pending build that has been marked as scheduled blocks its serial group. The mark is set before the
  inputs of the build are saved and the build is started; when one of these fails the build stays pending and
  marked, counts as running, and from then on no build of a serial job of its group, itself included, is
  ever started, until it is aborted.
\<close>

theorem scheduled_build_blocks:
  assumes "pipeline_jobs p jobs" and "serial_ok p jobs (group_limit jobs) (db_tables s)" and "j \<in> set jobs"
    and "MaxInFlight (jb_config j) = 1" and "g \<in> set (groups_of j)"
    and "b \<in> set (t_builds (db_tables s))" and "b_status b = StatusPending" and "b_scheduled b" and "job_for jobs g b"
  shows "\<exists>r s'. tryStartNextPendingBuild st c j resources types s = (r, s') \<and> r \<noteq> Inr True \<and>
    t_builds (db_tables s') = t_builds (db_tables s)"
proof -
  let ?t = "db_tables s"
  note jobs = jobs_ok_group_limit [OF assms(1)]
  have "post (UpdateMaxInFlightReached j (b_id c)) ?t (\<lambda>r t'. regroups j ?t t' \<and> r \<noteq> Inr False)"
  proof (rule post_mono [OF UpdateMaxInFlightReached_post], elim conjE)
    fix r :: "dberror + bool" and t' assume r: "regroups j ?t t'" "r = Inr False \<longrightarrow> below_limit j t'"
    have "serial_ok p jobs (group_limit jobs) t'"
      using r(1) jobs assms(2,3) serial_ok_regrouped serial_ok_quiet unfolding regroups_def by blast
    moreover have "b \<in> set (t_builds t')" using r(1) assms(6) by (auto simp: regroups_def quiet_def regrouped_def)
    ultimately have "0 < length (running_with j t')"
      using running_with_nonempty [OF _ jobs assms(3,5)] assms(7-9) by (simp add: running_def)
    then have "\<not> below_limit j t'" using assms(4) by (simp add: below_limit_def)
    then show "regroups j ?t t' \<and> r \<noteq> Inr False" using r by blast
  qed
  then have "post (tryStartNextPendingBuild st c j resources types) ?t (\<lambda>r t'. regroups j ?t t' \<and> r \<noteq> Inr True)"
    unfolding tryStartNextPendingBuild_def
    by (intro post_bind, elim post_mono) (auto simp: after_def split: sum.splits intro: post_return)
  moreover have "t_builds t' = t_builds ?t" if "regroups j ?t t'" for t'
    using that by (auto simp: regroups_def quiet_def regrouped_def)
  ultimately show ?thesis by (cases "tryStartNextPendingBuild st c j resources types s") (auto simp: post_def)
qed


section \<open>A sample pipeline in the database\<close>

definition pending_row :: "bool \<Rightarrow> build_row" where
  "pending_row scheduled =
     \<lparr>b_id = 5, b_name = ''1'', b_status = StatusPending, b_scheduled = scheduled, b_team_id = 1, b_pipeline_id = 1, b_job_id = 1,
      b_manually_triggered = False, b_engine = [], b_engine_metadata = None, b_public_plan = None, b_start_time = None,
      b_end_time = None, b_completed = False, b_reap_time = None\<rparr>"

definition stored_job :: job where
  "stored_job = \<lparr>jb_id = 1, jb_name = ''build'', jb_paused = False, jb_pipelineID = 1, jb_teamID = 1, jb_config = sample_job,
     jb_firstLoggedBuildID = 0\<rparr>"

definition stored_pipeline_row :: pipeline_row where
  "stored_pipeline_row = \<lparr>p_id = 1, p_name = ''ci'', p_team_id = 1, p_paused = False, p_public = False, p_ordering = 0,
     p_groups = [], p_version = 1\<rparr>"

definition stored_resource :: "int \<Rightarrow> string \<Rightarrow> resource_row" where
  "stored_resource i name = \<lparr>r_id = i, r_name = name, r_pipeline_id = 1, r_config =
       \<lparr>resource_Name = name, resource_WebhookToken = [], resource_Type = ''git'', resource_Source = [], resource_CheckEvery = [],
        resource_Tags = []\<rparr>, r_active = True, r_paused = False, r_check_error = None,
      r_last_checked = 0, r_resource_config_id = None\<rparr>"

declare stored_resource_def [simp]

definition pipeline_db :: "bool \<Rightarrow> (nat \<Rightarrow> bool) \<Rightarrow> db" where
  "pipeline_db scheduled fails = \<lparr>db_tables =
     \<lparr>t_builds = [pending_row scheduled],
      t_jobs = [\<lparr>j_id = 1, j_name = ''build'', j_pipeline_id = 1, j_paused = False, j_active = True, j_inputs_determined = True,
                 j_max_in_flight_reached = False, j_build_number_seq = 1, j_config = sample_job,
                 j_interruptible = False, j_first_logged_build_id = 0\<rparr>],
      t_serial_groups = [(1, ''build'')], t_next_inputs = [(1, ''repo'', \<lparr>iv_VersionID = 7, iv_FirstOccurrence = True\<rparr>)],
      t_independent_inputs = [], t_build_inputs = [], t_build_outputs = [],
      t_resources = [stored_resource 1 ''repo'', stored_resource 2 ''image''],
      t_versions = [\<lparr>v_id = 7, v_resource_id = 1, v_type = ''git'', v_version = Some [(''ref'', ''abc'')], v_metadata = [],
                     v_enabled = True, v_check_order = 1\<rparr>],
      t_pipelines = [stored_pipeline_row],
      t_teams = [\<lparr>tm_id = 1, tm_name = ''main'', tm_admin = True\<rparr>], t_workers = [], t_events = [], t_event_seqs = [5],
      t_next_build_id = 6, t_next_version_id = 8, t_now = 10, t_resource_types = [], t_task_caches = [], t_next_pipeline_id = 10, t_next_job_id = 10,
      t_next_resource_id = 10, t_next_type_id = 10, t_config_version = 10\<rparr>, db_ticks = 0, db_fails = fails\<rparr>"

definition sample_starter :: starter where
  "sample_starter = \<lparr>bs_scan = (\<lambda>r. d_return ()), bs_resource_types = (\<lambda>t. []), bs_plan_num = 0\<rparr>"


lemma sample_scan_ok: "scan_ok sample_starter"
  by (simp add: scan_ok_def sample_starter_def)

lemma stored_pipeline: "pipeline_jobs 1 [stored_job]"
  by (simp add: pipeline_jobs_def stored_job_def)

lemma stored_groups: "groups_of stored_job = [''build'']" "MaxInFlight (jb_config stored_job) = 1"
  by (simp_all add: groups_of_def stored_job_def sample_job_def GetSerialGroups_def MaxInFlight_def)

lemma pipeline_serial: "serial_ok 1 [stored_job] (group_limit [stored_job]) (db_tables (pipeline_db scheduled fails))"
proof -
  have "builds_ok (db_tables (pipeline_db scheduled fails))"
    by (simp add: builds_ok_def build_ok_def pipeline_db_def pending_row_def final_status_def)
  moreover have "length (in_flight [stored_job] g (db_tables (pipeline_db scheduled fails))) \<le> group_limit [stored_job] g" for g
    using stored_groups by (auto simp: in_flight_def job_for_def group_limit_def pipeline_db_def stored_job_def groups_of_def)
  moreover have "grouped [stored_job] (db_tables (pipeline_db scheduled fails)) b" for b
    using stored_groups(1) by (simp add: grouped_def pipeline_db_def stored_job_def groups_of_def)
  ultimately show ?thesis by (simp add: serial_ok_def) (simp add: job_keys_def pipeline_db_def stored_job_def)
qed


lemma failed_start_leaves_mark:
  "map_prod id db_tables (tryStartNextPendingBuild sample_starter (pending_row False) stored_job (cfg_Resources sample_config) []
     (pipeline_db False (\<lambda>n. n = 15))) =
   (Inl SqlError, db_tables (pipeline_db True (\<lambda>_. False)))"
  by code_simp

theorem scheduled_build_blocks_witness:
  "\<exists>s r s'. tryStartNextPendingBuild sample_starter (pending_row False) stored_job (cfg_Resources sample_config) []
       (pipeline_db False (\<lambda>n. n = 15)) = (Inl SqlError, s) \<and>
     tryStartNextPendingBuild sample_starter (pending_row True) stored_job (cfg_Resources sample_config) [] s = (r, s') \<and>
     r \<noteq> Inr True \<and> t_builds (db_tables s') = [pending_row True]"
proof -
  obtain s where s: "tryStartNextPendingBuild sample_starter (pending_row False) stored_job (cfg_Resources sample_config) []
       (pipeline_db False (\<lambda>n. n = 15)) = (Inl SqlError, s)" "db_tables s = db_tables (pipeline_db True (\<lambda>_. False))"
    using failed_start_leaves_mark
    by (cases "tryStartNextPendingBuild sample_starter (pending_row False) stored_job (cfg_Resources sample_config) []
       (pipeline_db False (\<lambda>n. n = 15))") auto
  have "pending_row True \<in> set (t_builds (db_tables s))" "job_for [stored_job] ''build'' (pending_row True)"
    using stored_groups(1) by (simp_all add: s(2) pipeline_db_def job_for_def stored_job_def pending_row_def)
  then show ?thesis
    using scheduled_build_blocks [OF stored_pipeline, of s stored_job "''build''" "pending_row True" sample_starter "pending_row True"
        "cfg_Resources sample_config" "[]"] pipeline_serial [of True "\<lambda>_. False"] s(1) stored_groups
    by (simp add: s(2)) (simp add: pipeline_db_def pending_row_def)
qed

end
