(* ===== verification/Scheduler_Inputs.thy ===== *)
theory Scheduler_Inputs
  imports Scheduler_Correct
begin

text \<open>
  The way of an input from the resolver to the build: the mapping that is saved for a job is the mapping that
  is read, and the build is given exactly its versions.
\<close>

section \<open>Saved mappings\<close>

lemma rows_of_set_rows [simp]: "rows_of tb (set_rows tb rows t) = rows" "set_rows tb x (set_rows tb y t) = set_rows tb x t"
  by (cases tb; simp add: rows_of_def set_rows_def)+

lemma rows_of_jobs [simp]: "rows_of tb (t\<lparr>t_jobs := js\<rparr>) = rows_of tb t"
  by (cases tb) (simp_all add: rows_of_def)

definition old_mapping :: "job \<Rightarrow> input_rows \<Rightarrow> InputMapping" where
  "old_mapping j rows = range_assign (map snd (filter (\<lambda>(i, _). i = jb_id j) rows)) []"

definition stale_names :: "InputMapping \<Rightarrow> InputMapping \<Rightarrow> string set" where
  "stale_names m old = {n. \<exists>v. (n, v) \<in> set old \<and> map_of m n \<noteq> Some v}"

definition kept_rows :: "job \<Rightarrow> InputMapping \<Rightarrow> InputMapping \<Rightarrow> input_rows \<Rightarrow> input_rows" where
  "kept_rows j m old rows = filter (\<lambda>(i, n, _). \<not> (i = jb_id j \<and> n \<in> stale_names m old)) rows"

definition new_rows :: "job \<Rightarrow> InputMapping \<Rightarrow> InputMapping \<Rightarrow> input_rows" where
  "new_rows j old m = map (\<lambda>(n, v). (jb_id j, n, v)) (filter (\<lambda>(n, v). map_of old n \<noteq> Some v) m)"

definition determined :: "job \<Rightarrow> input_table \<Rightarrow> tables \<Rightarrow> tables" where
  "determined j tb t =
     (if tb = NextBuildInputs
      then t\<lparr>t_jobs := update_where (\<lambda>r. j_id r = jb_id j \<and> \<not> j_inputs_determined r) (\<lambda>r. r\<lparr>j_inputs_determined := True\<rparr>) (t_jobs t)\<rparr>
      else t)"

definition mapped_tables :: "job \<Rightarrow> input_table \<Rightarrow> InputMapping \<Rightarrow> tables \<Rightarrow> tables" where
  "mapped_tables j tb m t =
     (let rows = rows_of tb t; old = old_mapping j rows
      in set_rows tb (kept_rows j m old rows @ new_rows j old m) (determined j tb t))"

lemma rows_of_determined [simp]: "rows_of tb (determined j tb t) = rows_of tb t"
  by (simp add: determined_def)

lemma set_rows_same [simp]: "set_rows tb (rows_of tb t) t = t"
  by (cases tb) (simp_all add: set_rows_def rows_of_def)

lemma stale_names_snoc:
  "stale_names m (ds @ [(n, v)]) = (if map_of m n \<noteq> Some v then insert n (stale_names m ds) else stale_names m ds)"
  by (auto simp: stale_names_def)

text \<open>The two loops, whose bodies only differ in the condition.\<close>

lemma post_delete_loop:
  assumes "\<And>e t'. Q (Inl e) t'" and "Q (Inr ()) (set_rows tb (kept_rows j m old (rows_of tb t)) t)"
  shows "post (d_each (\<lambda>(n, v). if map_of m n \<noteq> Some v
      then exec (\<lambda>t. set_rows tb (filter (\<lambda>(i, k, _). \<not> (i = jb_id j \<and> k = n)) (rows_of tb t)) t) else d_return ()) old) t Q"
proof (rule post_each [where I = "\<lambda>ds t'. t' = set_rows tb (kept_rows j m ds (rows_of tb t)) t"])
  show "t = set_rows tb (kept_rows j m [] (rows_of tb t)) t"
    by (simp add: kept_rows_def stale_names_def split_def)
next
  fix x :: "string \<times> InputVersion" and ds t' assume t': "t' = set_rows tb (kept_rows j m ds (rows_of tb t)) t"
  obtain n v where x: "x = (n, v)" by fastforce
  have "filter (\<lambda>(i, k, _). \<not> (i = jb_id j \<and> k = n)) (kept_rows j m ds rows) = kept_rows j m (ds @ [(n, v)]) rows"
    if "map_of m n \<noteq> Some v" for rows
    using that by (auto simp: kept_rows_def stale_names_snoc intro!: filter_cong)
  moreover have "kept_rows j m (ds @ [(n, v)]) rows = kept_rows j m ds rows" if "map_of m n = Some v" for rows
    using that by (simp add: kept_rows_def stale_names_snoc)
  ultimately show "post (case x of (n, v) \<Rightarrow> if map_of m n \<noteq> Some v
      then exec (\<lambda>t. set_rows tb (filter (\<lambda>(i, k, _). \<not> (i = jb_id j \<and> k = n)) (rows_of tb t)) t) else d_return ()) t'
      (after (\<lambda>_ t''. t'' = set_rows tb (kept_rows j m (ds @ [x]) (rows_of tb t)) t) (\<lambda>e. Q (Inl e)))"
    by (auto simp: x t' assms(1) intro!: post_exec post_return)
qed (use assms(2) in simp)

lemma post_insert_loop:
  assumes "\<And>e t'. Q (Inl e) t'" and "Q (Inr ()) (set_rows tb (rows_of tb t @ new_rows j old m) t)"
  shows "post (d_each (\<lambda>(n, v). if map_of old n \<noteq> Some v
      then exec (\<lambda>t. set_rows tb (rows_of tb t @ [(jb_id j, n, v)]) t) else d_return ()) m) t Q"
proof (rule post_each [where I = "\<lambda>ds t'. t' = set_rows tb (rows_of tb t @ new_rows j old ds) t"])
  fix x :: "string \<times> InputVersion" and ds t' assume t': "t' = set_rows tb (rows_of tb t @ new_rows j old ds) t"
  obtain n v where x: "x = (n, v)" by fastforce
  show "post (case x of (n, v) \<Rightarrow> if map_of old n \<noteq> Some v
      then exec (\<lambda>t. set_rows tb (rows_of tb t @ [(jb_id j, n, v)]) t) else d_return ()) t'
      (after (\<lambda>_ t''. t'' = set_rows tb (rows_of tb t @ new_rows j old (ds @ [x])) t) (\<lambda>e. Q (Inl e)))"
    by (auto simp: x t' assms(1) new_rows_def intro!: post_exec post_return)
qed (use assms(2) in \<open>simp_all add: new_rows_def\<close>)

lemma saveJobInputMapping_post:
  "post (saveJobInputMapping j tb m) t (\<lambda>r t'. t' = t \<and> (\<exists>e. r = Inl e) \<or> t' = mapped_tables j tb m t)"
proof -
  have "post (if tb = NextBuildInputs
      then exec (\<lambda>t. t\<lparr>t_jobs := update_where (\<lambda>r. j_id r = jb_id j \<and> \<not> j_inputs_determined r) (\<lambda>r. r\<lparr>j_inputs_determined := True\<rparr>) (t_jobs t)\<rparr>)
      else d_return ()) t (after (\<lambda>_ t'. t' = determined j tb t) (\<lambda>_ _. True))"
    by (auto simp: determined_def intro!: post_exec post_return)
  then have "post (d_seq (if tb = NextBuildInputs
      then exec (\<lambda>t. t\<lparr>t_jobs := update_where (\<lambda>r. j_id r = jb_id j \<and> \<not> j_inputs_determined r) (\<lambda>r. r\<lparr>j_inputs_determined := True\<rparr>) (t_jobs t)\<rparr>)
      else d_return ())
    (d_bind (query (\<lambda>t. map snd (filter (\<lambda>(i, _). i = jb_id j) (rows_of tb t)))) (\<lambda>rows.
       let oldInputMapping = range_assign rows []
       in d_seq (d_each (\<lambda>(n, v). if map_of m n \<noteq> Some v
              then exec (\<lambda>t. set_rows tb (filter (\<lambda>(i, k, _). \<not> (i = jb_id j \<and> k = n)) (rows_of tb t)) t) else d_return ()) oldInputMapping)
            (d_each (\<lambda>(n, v). if map_of oldInputMapping n \<noteq> Some v
              then exec (\<lambda>t. set_rows tb (rows_of tb t @ [(jb_id j, n, v)]) t) else d_return ()) m)))) t
    (after (\<lambda>_ t'. t' = mapped_tables j tb m t) (\<lambda>_ _. True))"
    by (intro post_seq, elim post_mono)
      (auto simp: after_def mapped_tables_def Let_def old_mapping_def [symmetric] split: sum.splits simp del: map_of_range_assign
        intro!: post_bind post_query post_seq post_delete_loop post_insert_loop)
  then show ?thesis unfolding saveJobInputMapping_def
    by (intro post_tx post_committed) (auto simp: after_def elim!: post_mono split: sum.splits)
qed


text \<open>The key of the tables of input mappings: a job has at most one version for a name.\<close>

definition unique_rows :: "input_rows \<Rightarrow> bool" where
  "unique_rows rows \<longleftrightarrow> distinct (map (\<lambda>(i, n, _). (i, n)) rows)"

lemma unique_rowsD: "unique_rows rows \<Longrightarrow> (i, n, v) \<in> set rows \<Longrightarrow> (i, n, w) \<in> set rows \<Longrightarrow> v = w"
  by (fastforce simp: unique_rows_def distinct_map inj_on_def)

lemma distinct_names:
  assumes "unique_rows rows"
  shows "distinct (map fst (map snd (filter (\<lambda>(i, _). i = k) rows)))"
  using assms unfolding unique_rows_def by (induction rows) (auto simp: image_iff)

lemma map_of_old_mapping:
  assumes "unique_rows rows"
  shows "map_of (old_mapping j rows) n = Some v \<longleftrightarrow> (jb_id j, n, v) \<in> set rows"
proof -
  let ?m = "map snd (filter (\<lambda>(i, _). i = jb_id j) rows)"
  have "map_of (rev ?m) = map_of ?m" using distinct_names [OF assms] by (intro map_of_rev) simp
  then have "map_of (old_mapping j rows) n = map_of ?m n" by (simp add: old_mapping_def)
  moreover have "map_of ?m n = Some v \<longleftrightarrow> (n, v) \<in> set ?m" using distinct_names [OF assms] by (intro map_of_eq_Some_iff) simp
  ultimately show ?thesis by (force simp: image_iff)
qed

lemma distinct_range_assign: "distinct (map fst n) \<Longrightarrow> distinct (map fst (range_assign m n))"
  by (induction m n rule: range_assign.induct) (simp_all add: distinct_update)

lemma in_old_mapping:
  assumes "unique_rows rows"
  shows "(n, v) \<in> set (old_mapping j rows) \<longleftrightarrow> (jb_id j, n, v) \<in> set rows"
proof -
  have "distinct (map fst (old_mapping j rows))" by (simp add: old_mapping_def distinct_range_assign)
  then show ?thesis using map_of_old_mapping [OF assms] map_of_eq_Some_iff by metis
qed

lemma mapped_rows:
  assumes "unique_rows (rows_of tb t)" and "distinct (map fst m)"
  shows "(i, n, v) \<in> set (rows_of tb (mapped_tables j tb m t)) \<longleftrightarrow>
    (if i = jb_id j then map_of m n = Some v else (i, n, v) \<in> set (rows_of tb t))"
proof -
  have m: "(n, v) \<in> set m \<longleftrightarrow> map_of m n = Some v" using assms(2) by (simp add: map_of_eq_Some_iff)
  have "n \<in> stale_names m (old_mapping j (rows_of tb t)) \<longleftrightarrow> map_of m n \<noteq> Some v" if "(jb_id j, n, v) \<in> set (rows_of tb t)"
    using that unique_rowsD [OF assms(1)] by (auto simp: stale_names_def in_old_mapping [OF assms(1)])
  then show ?thesis using m map_of_old_mapping [OF assms(1)]
    by (auto simp: mapped_tables_def Let_def kept_rows_def new_rows_def)
qed

lemma mapped_unique:
  assumes "unique_rows (rows_of tb t)" and "distinct (map fst m)"
  shows "unique_rows (rows_of tb (mapped_tables j tb m t))"
proof -
  let ?old = "old_mapping j (rows_of tb t)"
  let ?key = "\<lambda>(i, n, _ :: InputVersion). (i, n :: string)"
  have kept: "unique_rows (kept_rows j m ?old (rows_of tb t))"
    using assms(1) by (simp add: unique_rows_def kept_rows_def distinct_map_filter)
  have "map ?key (new_rows j ?old m) = map (Pair (jb_id j)) (map fst (filter (\<lambda>(n, v). map_of ?old n \<noteq> Some v) m))"
    by (simp add: new_rows_def split_def)
  moreover have "distinct (map fst (filter (\<lambda>(n, v). map_of ?old n \<noteq> Some v) m))" using assms(2) by (rule distinct_map_filter)
  ultimately have new: "unique_rows (new_rows j ?old m)" by (simp add: unique_rows_def distinct_map inj_on_def)
  have "False" if "(jb_id j, n, v) \<in> set (kept_rows j m ?old (rows_of tb t))" "(n, w) \<in> set m" "map_of ?old n \<noteq> Some w" for n v w
  proof -
    have row: "(jb_id j, n, v) \<in> set (rows_of tb t)" and "n \<notin> stale_names m ?old" using that(1) by (auto simp: kept_rows_def)
    then have "map_of m n = Some v" by (auto simp: stale_names_def in_old_mapping [OF assms(1)])
    moreover have "map_of m n = Some w" using that(2) assms(2) by simp
    ultimately show False using that(3) row map_of_old_mapping [OF assms(1), of j n v] by simp
  qed
  then have "?key ` set (kept_rows j m ?old (rows_of tb t)) \<inter> ?key ` set (new_rows j ?old m) = {}"
    by (force simp: new_rows_def)
  then show ?thesis using kept new by (simp add: mapped_tables_def Let_def unique_rows_def)
qed

text \<open>
  A saved input mapping is the one that is read. The mapping of a job is saved as the difference to the
  rows in the table; when it succeeds, the rows of the job are exactly the mapping and those of the other
  jobs are as before, with a name once per job; when it fails, nothing has changed.
\<close>

theorem input_mapping_saved:
  assumes "unique_rows (rows_of tb (db_tables s))" and "distinct (map fst m)"
    and "saveJobInputMapping j tb m s = (r, s')"
  shows "case r of
      Inl e \<Rightarrow> db_tables s' = db_tables s
    | Inr _ \<Rightarrow> unique_rows (rows_of tb (db_tables s')) \<and>
        (\<forall>i n v. (i, n, v) \<in> set (rows_of tb (db_tables s')) \<longleftrightarrow>
           (if i = jb_id j then map_of m n = Some v else (i, n, v) \<in> set (rows_of tb (db_tables s))))"
proof (cases r)
  case (Inl e)
  have "atomic (saveJobInputMapping j tb m)" unfolding saveJobInputMapping_def by (rule atomic_tx)
  then show ?thesis using assms(3) Inl by (simp add: atomic_def)
next
  case (Inr x)
  then have "db_tables s' = mapped_tables j tb m (db_tables s)"
    using postD [OF saveJobInputMapping_post assms(3) refl] by auto
  then show ?thesis using Inr mapped_rows [OF assms(1,2)] mapped_unique [OF assms(1,2)] by simp
qed


section \<open>The inputs of a build\<close>

text \<open>The keys of the tables of resources, versions and jobs.\<close>

definition keys_ok :: "tables \<Rightarrow> bool" where
  "keys_ok t \<longleftrightarrow> distinct (map r_id (t_resources t)) \<and> distinct (map (\<lambda>r. (r_name r, r_pipeline_id r)) (t_resources t)) \<and>
     distinct (map version_row.v_id (t_versions t)) \<and>
     distinct (map (\<lambda>v. (v_resource_id v, v_type v, v_version v)) (t_versions t)) \<and>
     distinct (map (\<lambda>r. (j_name r, j_pipeline_id r)) (t_jobs t))"

definition input_of :: "string \<Rightarrow> InputVersion \<Rightarrow> version_row \<Rightarrow> resource_row \<Rightarrow> JobBuildInput" where
  "input_of n iv v r =
     \<lparr>bin_Name = n, bin_Resource = r_name r, bin_Type = v_type v, bin_Version = v_version v, bin_Metadata = v_metadata v,
      bin_FirstOccurrence = iv_FirstOccurrence iv\<rparr>"

definition read_inputs :: "job \<Rightarrow> input_table \<Rightarrow> tables \<Rightarrow> JobBuildInput list" where
  "read_inputs j tb t =
     concat (map (\<lambda>(i, n, iv).
       concat (map (\<lambda>jr. concat (map (\<lambda>v. map (input_of n iv v) (filter (\<lambda>r. r_id r = v_resource_id v) (t_resources t)))
         (filter (\<lambda>v. version_row.v_id v = iv_VersionID iv) (t_versions t))))
         (filter (\<lambda>jr. j_id jr = i \<and> job_where j jr) (t_jobs t)))) (rows_of tb t))"

lemma getBuildInputs_read: "getBuildInputs j tb = query (read_inputs j tb)"
  unfolding getBuildInputs_def read_inputs_def input_of_def ..

lemma in_read_inputs:
  "x \<in> set (read_inputs j tb t) \<longleftrightarrow>
     (\<exists>i n iv jr v r. (i, n, iv) \<in> set (rows_of tb t) \<and> jr \<in> set (t_jobs t) \<and> j_id jr = i \<and> job_where j jr \<and>
        v \<in> set (t_versions t) \<and> version_row.v_id v = iv_VersionID iv \<and> r \<in> set (t_resources t) \<and> r_id r = v_resource_id v \<and>
        x = input_of n iv v r)"
  by (auto simp: read_inputs_def split: prod.splits) blast+

lemma find_unique:
  assumes "distinct (map f xs)" and "x \<in> set xs" and "\<And>y. P y \<longleftrightarrow> f y = f x"
  shows "find P xs = Some x"
  using assms by (induction xs) auto

text \<open>A version that is in the table already, with the metadata it has, is found and nothing changes.\<close>

lemma sure_saveVersionedResource:
  assumes "keys_ok t" and "v \<in> set (t_versions t)" and "v_resource_id v = k"
    and "vr_Type vr = v_type v" "vr_Version vr = v_version v" "vr_Metadata vr = v_metadata v" and "Q (Inr (v, False)) t"
  shows "sure (saveVersionedResource k vr) t Q"
proof -
  let ?same = "same_version k (v_type v) (v_version v)"
  have same: "?same x \<longleftrightarrow> (v_resource_id x, v_type x, v_version x) = (v_resource_id v, v_type v, v_version v)" for x
    using assms(3) by (auto simp: same_version_def)
  have find_v: "find ?same (t_versions t) = Some v"
    using assms(1,2) same by (intro find_unique [where f = "\<lambda>v. (v_resource_id v, v_type v, v_version v)"]) (auto simp: keys_ok_def)
  have "inj_on (\<lambda>v. (v_resource_id v, v_type v, v_version v)) (set (t_versions t))"
    using assms(1) by (simp add: keys_ok_def distinct_map)
  then have only: "x = v" if "x \<in> set (t_versions t)" "?same x" for x
    using inj_onD [of _ "set (t_versions t)" x v] same [of x] that assms(2) by blast
  have "x\<lparr>v_metadata := v_metadata v\<rparr> = x" if "x \<in> set (t_versions t)" "?same x" for x
    using only [OF that] by simp
  then have keep: "update_where ?same (\<lambda>row. row\<lparr>v_metadata := v_metadata v\<rparr>) (t_versions t) = t_versions t"
    unfolding update_where_def by (intro map_idI) auto
  have ex: "\<exists>row \<in> set (t_versions t). ?same row" using assms(2) same by blast
  have row: "sure (query_row (\<lambda>t. find ?same (t_versions t))) t (after (\<lambda>row t'. row = v \<and> t' = t) (\<lambda>e _. False))"
    by (rule sure_query_row) (simp_all add: find_v)
  have t: "t\<lparr>t_versions := t_versions t\<rparr> = t" by simp
  have "sure (if length (v_metadata v) > 0
      then d_seq (exec (\<lambda>t. t\<lparr>t_versions := update_where ?same (\<lambda>row. row\<lparr>v_metadata := v_metadata v\<rparr>) (t_versions t)\<rparr>))
             (query_row (\<lambda>t. find ?same (t_versions t)))
      else query_row (\<lambda>t. find ?same (t_versions t))) t (after (\<lambda>row t'. row = v \<and> t' = t) (\<lambda>e _. False))"
    using row by (auto simp: keep t intro!: sure_seq sure_exec)
  then have "sure (d_bind (if length (v_metadata v) > 0
      then d_seq (exec (\<lambda>t. t\<lparr>t_versions := update_where ?same (\<lambda>row. row\<lparr>v_metadata := v_metadata v\<rparr>) (t_versions t)\<rparr>))
             (query_row (\<lambda>t. find ?same (t_versions t)))
      else query_row (\<lambda>t. find ?same (t_versions t))) (\<lambda>row. d_return (row, (0 :: nat) \<noteq> 0))) t Q"
    using assms(7) by (intro sure_bind, elim sure_mono) (auto simp: after_def split: sum.splits intro!: sure_return)
  then show ?thesis unfolding saveVersionedResource_def Let_def assms(4-6)
    by (intro sure_bind sure_stmt) (simp add: ex)
qed

lemma sure_saveInputTx:
  assumes "keys_ok t" and "v \<in> set (t_versions t)" and "r \<in> set (t_resources t)" and "r_id r = v_resource_id v" and "r_pipeline_id r = p"
    and "\<And>rows. set rows = insert (i, version_row.v_id v, n) (set (t_build_inputs t)) \<Longrightarrow> Q (Inr ()) (t\<lparr>t_build_inputs := rows\<rparr>)"
  shows "sure (saveInputTx p i (input_of n iv v r)) t Q"
proof -
  have find_r: "find (\<lambda>x. r_name x = r_name r \<and> r_pipeline_id x = p) (t_resources t) = Some r"
    using assms(1,3,5) by (intro find_unique [where f = "\<lambda>r. (r_name r, r_pipeline_id r)"]) (auto simp: keys_ok_def)
  let ?row = "(i, version_row.v_id v, n)"
  have "sure (exec (\<lambda>t. if ?row \<in> set (t_build_inputs t) then t else t\<lparr>t_build_inputs := t_build_inputs t @ [?row]\<rparr>)) t Q"
    using assms(6) [of "t_build_inputs t"] assms(6) [of "t_build_inputs t @ [?row]"]
    by (intro sure_exec) (auto simp: insert_absorb)
  then show ?thesis
    unfolding saveInputTx_def find_resource_def input_of_def Let_def
    by (intro sure_bind sure_query_row)
      (auto simp: find_r intro!: sure_bind sure_saveVersionedResource [OF assms(1,2) assms(4) [symmetric]] cong: if_cong)
qed


type_synonym read_row = "string \<times> InputVersion \<times> version_row \<times> resource_row"

definition read_rows :: "job \<Rightarrow> input_table \<Rightarrow> tables \<Rightarrow> read_row list" where
  "read_rows j tb t =
     concat (map (\<lambda>(i, n, iv).
       concat (map (\<lambda>jr. concat (map (\<lambda>v. map (\<lambda>r. (n, iv, v, r)) (filter (\<lambda>r. r_id r = v_resource_id v) (t_resources t)))
         (filter (\<lambda>v. version_row.v_id v = iv_VersionID iv) (t_versions t))))
         (filter (\<lambda>jr. j_id jr = i \<and> job_where j jr) (t_jobs t)))) (rows_of tb t))"

lemma read_inputs_rows: "read_inputs j tb t = map (\<lambda>(n, iv, v, r). input_of n iv v r) (read_rows j tb t)"
  by (simp add: read_inputs_def read_rows_def map_concat comp_def split_def)

lemma in_read_rows:
  "(n, iv, v, r) \<in> set (read_rows j tb t) \<longleftrightarrow>
     (\<exists>jr. (j_id jr, n, iv) \<in> set (rows_of tb t) \<and> jr \<in> set (t_jobs t) \<and> job_where j jr) \<and>
     v \<in> set (t_versions t) \<and> version_row.v_id v = iv_VersionID iv \<and> r \<in> set (t_resources t) \<and> r_id r = v_resource_id v"
  by (auto simp: read_rows_def split: prod.splits) blast+

lemma d_each_map: "d_each f (map g xs) = d_each (\<lambda>x. f (g x)) xs"
  by (induction xs) simp_all

definition row_of :: "int \<Rightarrow> read_row \<Rightarrow> int \<times> int \<times> string" where
  "row_of i x = (case x of (n, iv, v, r) \<Rightarrow> (i, version_row.v_id v, n))"

lemma sure_UseInputs:
  assumes "keys_ok t" and "find (\<lambda>p. p_id p = b_pipeline_id b) (t_pipelines t) = Some pl"
    and xs: "\<And>n iv v r. (n, iv, v, r) \<in> set xs \<Longrightarrow> v \<in> set (t_versions t) \<and> r \<in> set (t_resources t) \<and> r_id r = v_resource_id v \<and>
      r_pipeline_id r = b_pipeline_id b"
    and "\<And>rows. set rows = {x \<in> set (t_build_inputs t). fst x \<noteq> b_id b} \<union> row_of (b_id b) ` set xs \<Longrightarrow> Q (Inr ()) (t\<lparr>t_build_inputs := rows\<rparr>)"
  shows "sure (build_UseInputs b (map (\<lambda>(n, iv, v, r). input_of n iv v r) xs)) t Q"
proof -
  let ?u = "t\<lparr>t_build_inputs := filter (\<lambda>(i, _). i \<noteq> b_id b) (t_build_inputs t)\<rparr>"
  let ?I = "\<lambda>ds t'. \<exists>rows. t' = t\<lparr>t_build_inputs := rows\<rparr> \<and> set rows = {x \<in> set (t_build_inputs t). fst x \<noteq> b_id b} \<union> row_of (b_id b) ` set ds"
  have pl: "p_id pl = b_pipeline_id b" using assms(2) by (auto simp: find_Some_iff)
  have step: "sure (saveInputTx (b_pipeline_id b) (b_id b) ((\<lambda>(n, iv, v, r). input_of n iv v r) x)) t' (\<lambda>r t''. r = Inr () \<and> ?I (ds @ [x]) t'')"
    if "x \<in> set xs" "?I ds t'" for x ds t'
  proof -
    obtain n iv v r where x: "x = (n, iv, v, r)" by (cases x) auto
    obtain rows where rows: "t' = t\<lparr>t_build_inputs := rows\<rparr>"
        "set rows = {x \<in> set (t_build_inputs t). fst x \<noteq> b_id b} \<union> row_of (b_id b) ` set ds" using \<open>?I ds t'\<close> by blast
    have k: "keys_ok t'" using assms(1) by (simp add: rows(1) keys_ok_def)
    show ?thesis using xs [of n iv v r] \<open>x \<in> set xs\<close> unfolding x split
      by (intro sure_saveInputTx [OF k, of v r]) (auto simp: rows row_of_def)
  qed
  have "sure (d_each (saveInputTx (p_id pl) (b_id b)) (map (\<lambda>(n, iv, v, r). input_of n iv v r) xs)) ?u
      (\<lambda>r t'. r = Inr () \<and> ?I xs t')"
    unfolding d_each_map pl
  proof (rule sure_each [where I = ?I])
    show "?I [] ?u" by (intro exI conjI) (auto simp: split_def)
  qed (use step in auto)
  then have "sure (d_each (saveInputTx (p_id pl) (b_id b)) (map (\<lambda>(n, iv, v, r). input_of n iv v r) xs)) ?u
      (after (\<lambda>x t'. Q (Inr ()) t') (\<lambda>e _. Q (Inl e) t))"
    by (rule sure_mono) (use assms(4) in auto)
  then show ?thesis unfolding build_UseInputs_def find_pipeline_def
    by (intro sure_tx sure_committed sure_seq sure_exec)
      (auto simp: assms(2) intro!: sure_bind sure_query_row elim!: sure_mono simp: after_def split: sum.splits)
qed

lemma sure_saveJobInputMapping:
  assumes "Q (Inr ()) (mapped_tables j tb m t)"
  shows "sure (saveJobInputMapping j tb m) t Q"
proof -
  have each: "sure (d_each (\<lambda>(n, v). if C n v then exec (F n v) else d_return ()) xs) t' (\<lambda>r _. r = Inr ())" for C F t' and xs :: InputMapping
    by (rule sure_each [where I = "\<lambda>_ _. True"]) (auto intro!: sure_exec sure_return)
  then have "sure (saveJobInputMapping j tb m) t (\<lambda>r _. r = Inr ())"
    unfolding saveJobInputMapping_def Let_def
    by (auto intro!: sure_tx sure_committed sure_seq sure_bind sure_query sure_exec sure_return sure_mono [OF each])
  from post_sure [OF saveJobInputMapping_post this] show ?thesis by (rule sure_mono) (use assms in auto)
qed


text \<open>What the scheduler does between the resolution of the inputs and the start of the build.\<close>

definition hand_over :: "job \<Rightarrow> InputMapping \<Rightarrow> build_row \<Rightarrow> unit dbm" where
  "hand_over j m b =
     d_seq (SaveNextInputMapping j m)
     (d_bind (GetNextBuildInputs j) (\<lambda>found.
      case found of None \<Rightarrow> d_fail ErrNoRows | Some buildInputs \<Rightarrow> build_UseInputs b buildInputs))"

definition mapping_refers :: "job \<Rightarrow> tables \<Rightarrow> InputMapping \<Rightarrow> bool" where
  "mapping_refers j t m \<longleftrightarrow> (\<forall>(n, iv) \<in> set m. \<exists>v \<in> set (t_versions t). \<exists>r \<in> set (t_resources t).
     version_row.v_id v = iv_VersionID iv \<and> r_id r = v_resource_id v \<and> r_pipeline_id r = jb_pipelineID j)"

lemma mapped_tables_frame:
  "t_versions (mapped_tables j tb m t) = t_versions t" "t_resources (mapped_tables j tb m t) = t_resources t"
  "t_pipelines (mapped_tables j tb m t) = t_pipelines t" "t_build_inputs (mapped_tables j tb m t) = t_build_inputs t"
  "keys_ok (mapped_tables j tb m t) = keys_ok t"
  by (cases tb; simp add: mapped_tables_def Let_def set_rows_def determined_def keys_ok_def update_where_def comp_def if_distrib cong: if_cong)+

lemma mapped_job:
  assumes "jr \<in> set (t_jobs t)" and "j_id jr = jb_id j" and "job_where j jr"
  shows "\<exists>jr' \<in> set (t_jobs (mapped_tables j NextBuildInputs m t)). j_id jr' = jb_id j \<and> job_where j jr' \<and> j_inputs_determined jr'"
proof (rule bexI [where x = "jr\<lparr>j_inputs_determined := True\<rparr>"])
  have "jr = jr\<lparr>j_inputs_determined := True\<rparr>" if "j_inputs_determined jr" using that by simp
  then show "jr\<lparr>j_inputs_determined := True\<rparr> \<in> set (t_jobs (mapped_tables j NextBuildInputs m t))"
    using assms by (auto simp: mapped_tables_def Let_def set_rows_def determined_def in_update_where intro!: bexI [of _ jr])
qed (use assms in \<open>simp add: job_where_def\<close>)

lemma find_job:
  assumes "keys_ok t" and "jr \<in> set (t_jobs t)" and "job_where j jr"
  shows "find (job_where j) (t_jobs t) = Some jr"
  using assms by (intro find_unique [where f = "\<lambda>r. (j_name r, j_pipeline_id r)"]) (auto simp: keys_ok_def job_where_def)

lemma job_unique: "keys_ok t \<Longrightarrow> a \<in> set (t_jobs t) \<Longrightarrow> job_where j a \<Longrightarrow> c \<in> set (t_jobs t) \<Longrightarrow> job_where j c \<Longrightarrow> a = c"
  using find_job by (metis option.inject)

lemma in_mapped_read_rows:
  assumes "keys_ok t" and "unique_rows (t_next_inputs t)" and "distinct (map fst m)"
    and "jr \<in> set (t_jobs t)" "j_id jr = jb_id j" "job_where j jr"
  shows "(n, iv, v, r) \<in> set (read_rows j NextBuildInputs (mapped_tables j NextBuildInputs m t)) \<longleftrightarrow>
    map_of m n = Some iv \<and> v \<in> set (t_versions t) \<and> version_row.v_id v = iv_VersionID iv \<and> r \<in> set (t_resources t) \<and> r_id r = v_resource_id v"
proof -
  let ?t = "mapped_tables j NextBuildInputs m t"
  obtain jr' where jr': "jr' \<in> set (t_jobs ?t)" "j_id jr' = jb_id j" "job_where j jr'"
    using mapped_job [OF assms(4-6), of m] by blast
  have "a = jr'" if "a \<in> set (t_jobs ?t)" "job_where j a" for a
    using job_unique [of ?t] that jr' assms(1) by (simp add: mapped_tables_frame)
  moreover have "(jb_id j, n, iv) \<in> set (rows_of NextBuildInputs ?t) \<longleftrightarrow> map_of m n = Some iv"
    using mapped_rows [of NextBuildInputs t m "jb_id j" n iv j] assms(2,3) by (simp add: rows_of_def)
  ultimately have "(\<exists>a. (j_id a, n, iv) \<in> set (rows_of NextBuildInputs ?t) \<and> a \<in> set (t_jobs ?t) \<and> job_where j a) \<longleftrightarrow> map_of m n = Some iv"
    using jr' by metis
  then show ?thesis by (simp only: in_read_rows mapped_tables_frame)
qed

lemma in_row_image:
  assumes "mapping_refers j t m" and "distinct (map fst m)"
    and "\<And>n iv v r. (n, iv, v, r) \<in> set xs \<longleftrightarrow> map_of m n = Some iv \<and> v \<in> set (t_versions t) \<and>
      version_row.v_id v = iv_VersionID iv \<and> r \<in> set (t_resources t) \<and> r_id r = v_resource_id v"
  shows "(i, x, n) \<in> row_of i ` set xs \<longleftrightarrow> (\<exists>iv. map_of m n = Some iv \<and> iv_VersionID iv = x)"
proof
  assume "(i, x, n) \<in> row_of i ` set xs"
  then show "\<exists>iv. map_of m n = Some iv \<and> iv_VersionID iv = x" using assms(3) by (auto simp: row_of_def)
next
  assume "\<exists>iv. map_of m n = Some iv \<and> iv_VersionID iv = x"
  then obtain iv where iv: "map_of m n = Some iv" "iv_VersionID iv = x" by blast
  then obtain v r where v: "v \<in> set (t_versions t)" "version_row.v_id v = iv_VersionID iv" "r \<in> set (t_resources t)" "r_id r = v_resource_id v"
    using assms(1) map_of_SomeD [OF iv(1)] unfolding mapping_refers_def by blast
  then have "(n, iv, v, r) \<in> set xs" using iv assms(3) by blast
  then show "(i, x, n) \<in> row_of i ` set xs" using v iv by (auto simp: row_of_def intro!: image_eqI [of _ _ "(n, iv, v, r)"])
qed

text \<open>
  C32. A build runs with the versions that were resolved for it: when the mapping of the job is saved, read
  again as the inputs of the next build and used for a build, with no statement failing, the rows of inputs
  of the build are exactly the names and versions of the mapping, whatever inputs it had before, and the
  inputs of the other builds are as before.
\<close>

theorem build_uses_resolved_inputs:
  assumes "keys_ok (db_tables s)" and "unique_rows (t_next_inputs (db_tables s))" and "healthy s" and "distinct (map fst m)"
    and "jr \<in> set (t_jobs (db_tables s))" "j_id jr = jb_id j" "job_where j jr" and "mapping_refers j (db_tables s) m"
    and "b_pipeline_id b = jb_pipelineID j" and "find (\<lambda>p. p_id p = jb_pipelineID j) (t_pipelines (db_tables s)) = Some pl"
  shows "\<exists>s'. hand_over j m b s = (Inr (), s') \<and>
    (\<forall>i x n. (i, x, n) \<in> set (t_build_inputs (db_tables s')) \<longleftrightarrow>
       (if i = b_id b then \<exists>iv. map_of m n = Some iv \<and> iv_VersionID iv = x else (i, x, n) \<in> set (t_build_inputs (db_tables s))))"
proof -
  let ?t = "db_tables s" and ?u = "mapped_tables j NextBuildInputs m (db_tables s)"
  let ?xs = "read_rows j NextBuildInputs ?u"
  define Q where "Q r t' \<longleftrightarrow> r = Inr () \<and> (\<forall>i x n. (i, x, n) \<in> set (t_build_inputs t') \<longleftrightarrow>
       (if i = b_id b then \<exists>iv. map_of m n = Some iv \<and> iv_VersionID iv = x else (i, x, n) \<in> set (t_build_inputs ?t)))"
    for r :: "dberror + unit" and t' :: tables
  note xs = in_mapped_read_rows [OF assms(1,2,4-7)]
  have ids: "v = v'" if "v \<in> set (t_versions ?t)" "v' \<in> set (t_versions ?t)" "version_row.v_id v = version_row.v_id v'" for v v'
    using assms(1) that by (auto simp: keys_ok_def distinct_map inj_on_def)
  have rids: "r = r'" if "r \<in> set (t_resources ?t)" "r' \<in> set (t_resources ?t)" "r_id r = r_id r'" for r r'
    using assms(1) that by (auto simp: keys_ok_def distinct_map inj_on_def)
  have pipe: "r_pipeline_id r = b_pipeline_id b" if "(n, iv, v, r) \<in> set ?xs" for n iv v r
    using that assms(8,9) ids rids map_of_SomeD [of m n iv] unfolding xs mapping_refers_def by fastforce
  obtain jr' where jr': "jr' \<in> set (t_jobs ?u)" "job_where j jr'" "j_inputs_determined jr'" using mapped_job [OF assms(5-7), of m] by blast
  have "find (job_where j) (t_jobs ?u) = Some jr'" using find_job [of ?u jr' j] jr' assms(1) by (simp add: mapped_tables_frame)
  moreover have "sure (build_UseInputs b (map (\<lambda>(n, iv, v, r). input_of n iv v r) ?xs)) ?u Q"
    using assms(1,9,10) in_row_image [OF assms(8,4) xs] pipe
    by (intro sure_UseInputs) (auto simp: mapped_tables_frame xs row_of_def Q_def)
  ultimately have "sure (hand_over j m b) ?t Q"
    unfolding hand_over_def SaveNextInputMapping_def GetNextBuildInputs_def getBuildInputs_read
    using jr'(3) by (intro sure_seq sure_saveJobInputMapping)
      (auto simp: read_inputs_rows intro!: sure_bind sure_query_row sure_query sure_return)
  then show ?thesis using assms(3) by (cases "hand_over j m b s") (auto simp: sure_def Q_def)
qed


section \<open>Builds for new versions\<close>

definition triggers :: "job \<Rightarrow> InputMapping \<Rightarrow> bool" where
  "triggers j m \<longleftrightarrow> (\<exists>input \<in> set (JobConfig_Inputs (jb_config j)).
     ji_Trigger input \<and> (\<exists>iv. map_of m (ji_Name input) = Some iv \<and> iv_FirstOccurrence iv))"

lemma trigger_loop_eq:
  "trigger_loop j m inputs =
     (if \<exists>input \<in> set inputs. ji_Trigger input \<and> (\<exists>iv. map_of m (ji_Name input) = Some iv \<and> iv_FirstOccurrence iv)
      then EnsurePendingBuildExists j else d_return ())"
  by (induction inputs) (auto split: option.split)

lemma trigger_loop_triggers:
  "trigger_loop j m (JobConfig_Inputs (jb_config j)) = (if triggers j m then EnsurePendingBuildExists j else d_return ())"
  by (simp add: trigger_loop_eq triggers_def)

lemma created_builds: "t_builds (created_tables j n manual t) = t_builds t @ [new_build t j n manual]"
  by (simp add: created_tables_def insert_build_def Let_def new_build_def bumped_def)

text \<open>
  C33. A new version of an input makes one build. When the inputs of a job have been resolved, the job has
  a pending build afterwards if one of its triggering inputs has a version it has not used before: the one
  it had, or a new one when it had none. Otherwise no build is made.
\<close>

theorem new_version_makes_build:
  assumes "ensurePendingBuildExists versions j s = (Inr (), s')"
  shows "\<exists>m s1. mapper_SaveNextInputMapping versions j s = (Inr m, s1) \<and> t_builds (db_tables s1) = t_builds (db_tables s) \<and>
    (if triggers j m \<and> \<not> has_pending j (db_tables s)
     then has_pending j (db_tables s') \<and> (\<exists>n. t_builds (db_tables s') = t_builds (db_tables s) @ [new_build (db_tables s1) j n False])
     else t_builds (db_tables s') = t_builds (db_tables s))"
proof -
  obtain m s1 where m: "mapper_SaveNextInputMapping versions j s = (Inr m, s1)"
    and l: "trigger_loop j m (JobConfig_Inputs (jb_config j)) s1 = (Inr (), s')"
    using assms by (auto simp: ensurePendingBuildExists_def d_bind_Inr)
  have q: "t_builds (db_tables s1) = t_builds (db_tables s)"
    using keepsD [OF quiet_mapper quiet_refl, of s versions j] m by (simp add: quiet_def)
  have p: "has_pending j (db_tables s1) = has_pending j (db_tables s)" by (simp add: has_pending_def q)
  show ?thesis
  proof (cases "triggers j m")
    case True
    then have "EnsurePendingBuildExists j s1 = (Inr (), s')" using l by (simp add: trigger_loop_triggers)
    from postD [OF EnsurePendingBuildExists_post this refl] show ?thesis using m q p True
      by (auto simp: created_builds has_pending_def new_build_def)
  next
    case False
    then have "s' = s1" using l by (simp add: trigger_loop_triggers)
    then show ?thesis using m q False by simp
  qed
qed

section \<open>Progress\<close>

lemma sure_updateSerialGroups: "Q (Inr ()) (regrouped j t) \<Longrightarrow> sure (updateSerialGroups j (groups_of j)) t Q"
proof -
  assume q: "Q (Inr ()) (regrouped j t)"
  have each: "sure (d_each (\<lambda>g. exec (F g)) xs) t' (\<lambda>r _. r = Inr ())" for F t' and xs :: "string list"
    by (rule sure_each [where I = "\<lambda>_ _. True"]) (auto intro!: sure_exec)
  have "sure (updateSerialGroups j (groups_of j)) t (\<lambda>r _. r = Inr ())"
    unfolding updateSerialGroups_def by (auto intro!: sure_tx sure_committed sure_seq sure_exec sure_mono [OF each])
  from post_sure [OF updateSerialGroups_post this] show ?thesis by (rule sure_mono) (use q in auto)
qed

text \<open>The build is the first in line among the pending builds of the groups of the job.\<close>

definition next_in_line :: "job \<Rightarrow> build_row \<Rightarrow> tables \<Rightarrow> bool" where
  "next_in_line j b t \<longleftrightarrow> (\<exists>rest. sort_key b_id (filter (\<lambda>b. b_status b = StatusPending \<and>
     in_groups t (groups_of j) (jb_pipelineID j) (\<lambda>r. \<not> j_paused r \<and> j_inputs_determined r) b) (t_builds t)) = b # rest)"

definition may_start :: "job \<Rightarrow> build_row \<Rightarrow> tables \<Rightarrow> bool" where
  "may_start j b t \<longleftrightarrow> MaxInFlight (jb_config j) = 0 \<or>
     int (length (running_with j (regrouped j t))) < MaxInFlight (jb_config j) \<and> next_in_line j b (regrouped j t)"

definition allowed_tables :: "job \<Rightarrow> tables \<Rightarrow> tables" where
  "allowed_tables j t = (if MaxInFlight (jb_config j) = 0 then t else regrouped j t)"

lemma sure_isMaxInFlightReached:
  assumes "may_start j b t" and "Q (Inr False) (allowed_tables j t)"
  shows "sure (isMaxInFlightReached j (b_id b)) t Q"
  using assms
  unfolding isMaxInFlightReached_def Let_def groups_of_def [symmetric] GetRunningBuildsBySerialGroup_def
    GetNextPendingBuildBySerialGroup_def allowed_tables_def may_start_def next_in_line_def running_with_def
  by (auto intro!: sure_return sure_bind sure_seq sure_updateSerialGroups sure_query split: if_splits)


text \<open>The mark that the limit has not been reached.\<close>

definition unreached :: "job \<Rightarrow> tables \<Rightarrow> tables" where
  "unreached j t = t\<lparr>t_jobs := update_where (\<lambda>r. j_id r = jb_id j) (\<lambda>r. r\<lparr>j_max_in_flight_reached := False\<rparr>) (t_jobs t)\<rparr>"

definition checked_tables :: "job \<Rightarrow> tables \<Rightarrow> tables" where
  "checked_tables j t = unreached j (allowed_tables j t)"

lemma affected_one: "distinct (map f rows) \<Longrightarrow> r \<in> set rows \<Longrightarrow> affected (\<lambda>x. f x = f r) rows = 1"
proof (induction rows)
  case (Cons a rows)
  have "filter (\<lambda>x. f x = f r) rows = []" if "f a = f r" using Cons.prems that by (auto simp: filter_empty_conv image_iff)
  then show ?case using Cons by (auto simp: affected_def)
qed simp

lemma sure_UpdateMaxInFlightReached:
  assumes "may_start j b t" and "distinct (map j_id (t_jobs t))" and "jr \<in> set (t_jobs t)" and "j_id jr = jb_id j"
    and "Q (Inr False) (checked_tables j t)"
  shows "sure (UpdateMaxInFlightReached j (b_id b)) t Q"
proof -
  have "affected (\<lambda>r. j_id r = jb_id j) (t_jobs (allowed_tables j t)) = 1"
    using affected_one [OF assms(2,3)] assms(4) by (simp add: allowed_tables_def regrouped_def)
  then show ?thesis using assms(5) unfolding UpdateMaxInFlightReached_def SetMaxInFlightReached_def update_job_def checked_tables_def unreached_def
    by (intro sure_bind sure_isMaxInFlightReached [OF assms(1)]) (auto intro!: sure_seq sure_bind sure_stmt sure_return)
qed

lemma checked_frame:
  "t_builds (checked_tables j t) = t_builds t" "t_event_seqs (checked_tables j t) = t_event_seqs t"
  "t_pipelines (checked_tables j t) = t_pipelines t" "t_versions (checked_tables j t) = t_versions t"
  "t_resources (checked_tables j t) = t_resources t" "rows_of tb (checked_tables j t) = rows_of tb t"
  "t_jobs (checked_tables j t) = update_where (\<lambda>r. j_id r = jb_id j) (\<lambda>r. r\<lparr>j_max_in_flight_reached := False\<rparr>) (t_jobs t)"
  by (cases tb; simp add: checked_tables_def unreached_def allowed_tables_def regrouped_def rows_of_def)+

lemma keys_ok_checked: "keys_ok (checked_tables j t) = keys_ok t"
  by (simp add: keys_ok_def checked_frame update_where_def comp_def if_distrib cong: if_cong)

lemma length_filter_update:
  "(\<And>r. Q (f r) = Q r) \<Longrightarrow> length (filter Q (update_where P f rows)) = length (filter Q rows)"
  by (induction rows) (auto simp: update_where_def)

lemma read_rows_checked: "read_rows j tb (checked_tables j t) = read_rows j tb t"
  unfolding read_rows_def checked_frame map_replicate_const
  by (simp add: length_filter_update job_where_def)

lemma checked_job:
  assumes "keys_ok t" and "jr \<in> set (t_jobs t)" and "job_where j jr" and "j_inputs_determined jr"
  shows "\<exists>jr'. find (job_where j) (t_jobs (checked_tables j t)) = Some jr' \<and> j_inputs_determined jr'"
proof -
  let ?jr = "if j_id jr = jb_id j then jr\<lparr>j_max_in_flight_reached := False\<rparr> else jr"
  have "?jr \<in> set (t_jobs (checked_tables j t))" unfolding checked_frame in_update_where using assms(2) by blast
  moreover have "job_where j ?jr" using assms(3) by (simp add: job_where_def)
  ultimately have "find (job_where j) (t_jobs (checked_tables j t)) = Some ?jr"
    using assms(1) by (intro find_job) (simp_all add: keys_ok_checked)
  then show ?thesis using assms(4) by simp
qed

lemma scheduled_frame:
  "t_event_seqs (scheduled_tables i t) = t_event_seqs t" "t_pipelines (scheduled_tables i t) = t_pipelines t"
  "t_versions (scheduled_tables i t) = t_versions t" "t_resources (scheduled_tables i t) = t_resources t"
  "keys_ok (scheduled_tables i t) = keys_ok t"
  by (simp_all add: scheduled_tables_def keys_ok_def)

lemma scheduled_row: "b \<in> set (t_builds t) \<Longrightarrow> b\<lparr>b_scheduled := True\<rparr> \<in> set (t_builds (scheduled_tables (b_id b) t))"
  by (auto simp: scheduled_tables_def in_update_where)

lemma sure_Schedule:
  assumes "distinct (map b_id (t_builds t))" and "b \<in> set (t_builds t)" and "Q (Inr True) (scheduled_tables (b_id b) t)"
  shows "sure (build_Schedule (b_id b)) t Q"
  using assms(3) affected_one [OF assms(1,2)] unfolding build_Schedule_def scheduled_tables_def
  by (intro sure_bind sure_stmt) (auto intro: sure_return)

lemma sure_dbEngine_CreateBuild:
  assumes "c \<in> set (t_builds t)" and "b_id c = b_id b" and "b_status c = StatusPending" and "b_id b \<in> set (t_event_seqs t)"
    and "Q (Inr ()) (started_tables (b_id b) execEngineName plan t)"
  shows "sure (dbEngine_CreateBuild b plan) t Q"
  unfolding dbEngine_CreateBuild_def by (intro sure_bind sure_Start [OF assms(1-4)]) (simp add: sure_return assms(5))


lemma started_row:
  assumes "c \<in> set (t_builds t)" and "b_id c = i" and "b_status c = StatusPending"
  shows "\<exists>b'. b' \<in> set (t_builds (started_tables i engine plan t)) \<and> b_id b' = i \<and> b_status b' = StatusStarted \<and>
    b_engine b' = engine \<and> b_engine_metadata b' = Some plan"
  using assms by (intro exI [of _ "c\<lparr>b_status := StatusStarted, b_start_time := Some (t_now t), b_engine := engine,
      b_engine_metadata := Some plan, b_public_plan := Some (Plan_Public plan)\<rparr>"])
    (auto simp: started_tables_def in_update_where intro!: bexI [of _ c])

lemma sure_started:
  assumes "sure m t (\<lambda>r t'. r = Inr () \<and> Q (Inr True) t')"
  shows "sure (\<lambda>s. case m s of (Inl err, s') \<Rightarrow> (Inr False, s') | (Inr x, s') \<Rightarrow> (Inr True, s')) t Q"
  using assms unfolding sure_def by (fastforce split: prod.split sum.split)



section \<open>Witnesses\<close>

abbreviation sample_tables :: tables where
  "sample_tables \<equiv> db_tables (pipeline_db False (\<lambda>_. False))"

definition fresh_mapping :: InputMapping where
  "fresh_mapping = [(''repo'', \<lparr>iv_VersionID = 7, iv_FirstOccurrence = False\<rparr>)]"

lemma sample_keys: "keys_ok sample_tables" "unique_rows (t_next_inputs sample_tables)" "healthy (pipeline_db False (\<lambda>_. False))"
  by (simp_all add: keys_ok_def unique_rows_def healthy_def pipeline_db_def)

lemma sample_mapping_refers: "mapping_refers stored_job sample_tables fresh_mapping" "distinct (map fst fresh_mapping)"
  by (simp_all add: mapping_refers_def fresh_mapping_def pipeline_db_def stored_job_def)

definition sample_job_row :: job_row where
  "sample_job_row = \<lparr>j_id = 1, j_name = ''build'', j_pipeline_id = 1, j_paused = False, j_active = True, j_inputs_determined = True,
     j_max_in_flight_reached = False, j_build_number_seq = 1, j_config = sample_job, j_interruptible = False, j_first_logged_build_id = 0\<rparr>"

lemma sample_job_rows: "sample_job_row \<in> set (t_jobs sample_tables)" "j_id sample_job_row = jb_id stored_job"
    "job_where stored_job sample_job_row" "j_inputs_determined sample_job_row" "\<not> jb_paused stored_job"
  by (simp_all add: sample_job_row_def pipeline_db_def stored_job_def job_where_def)

theorem input_mapping_saved_witness:
  "\<exists>r s'. saveJobInputMapping stored_job NextBuildInputs fresh_mapping (pipeline_db False (\<lambda>_. False)) = (r, s') \<and>
     (\<forall>x. r = Inr x \<longrightarrow> (1, ''repo'', \<lparr>iv_VersionID = 7, iv_FirstOccurrence = False\<rparr>) \<in> set (t_next_inputs (db_tables s')))"
proof -
  obtain r s' where s': "saveJobInputMapping stored_job NextBuildInputs fresh_mapping (pipeline_db False (\<lambda>_. False)) = (r, s')" by fastforce
  have "unique_rows (rows_of NextBuildInputs sample_tables)" using sample_keys(2) by (simp add: rows_of_def)
  from input_mapping_saved [OF this sample_mapping_refers(2) s'] show ?thesis using s'
    by (auto simp: rows_of_def fresh_mapping_def stored_job_def)
qed

theorem build_uses_resolved_inputs_witness:
  "\<exists>s'. hand_over stored_job fresh_mapping (pending_row False) (pipeline_db False (\<lambda>_. False)) = (Inr (), s') \<and>
     (5, 7, ''repo'') \<in> set (t_build_inputs (db_tables s'))"
proof -
  have pl: "b_pipeline_id (pending_row False) = jb_pipelineID stored_job"
      "find (\<lambda>p. p_id p = jb_pipelineID stored_job) (t_pipelines sample_tables) = Some stored_pipeline_row"
    by (simp_all add: stored_pipeline_row_def pending_row_def stored_job_def pipeline_db_def)
  from build_uses_resolved_inputs [OF sample_keys sample_mapping_refers(2) sample_job_rows(1-3) sample_mapping_refers(1) pl]
  show ?thesis by (auto simp: fresh_mapping_def pending_row_def)
qed

lemma sample_may_start: "may_start stored_job (pending_row False) sample_tables"
  by (simp add: may_start_def stored_groups next_in_line_def running_with_def regrouped_def in_groups_def)
    (simp add: pipeline_db_def stored_job_def pending_row_def running_def stored_groups)


lemma sample_create_inputs: "read_inputs stored_job NextBuildInputs sample_tables = sample_inputs" "resourceConfigs (cfg_Resources sample_config) = cfg_Resources sample_config"
  by code_simp+


definition idle_db :: db where
  "idle_db = (pipeline_db False (\<lambda>_. False))\<lparr>db_tables := sample_tables\<lparr>t_builds := []\<rparr>\<rparr>"

lemma idle_ensure:
  "fst (ensurePendingBuildExists (load_versions 1 sample_tables) stored_job idle_db) = Inr ()"
  "fst (mapper_SaveNextInputMapping (load_versions 1 sample_tables) stored_job idle_db) =
     Inr [(''repo'', \<lparr>iv_VersionID = 7, iv_FirstOccurrence = True\<rparr>)]"
  "JobConfig_Inputs (jb_config stored_job) \<noteq> []" "ji_Trigger (hd (JobConfig_Inputs (jb_config stored_job)))"
  "ji_Name (hd (JobConfig_Inputs (jb_config stored_job))) = ''repo''"
  by code_simp+

theorem new_version_makes_build_witness:
  "\<exists>s'. ensurePendingBuildExists (load_versions 1 sample_tables) stored_job idle_db = (Inr (), s') \<and> has_pending stored_job (db_tables s')"
proof -
  obtain s' where s': "ensurePendingBuildExists (load_versions 1 sample_tables) stored_job idle_db = (Inr (), s')"
    using idle_ensure(1) by (metis prod.collapse)
  have "triggers stored_job [(''repo'', \<lparr>iv_VersionID = 7, iv_FirstOccurrence = True\<rparr>)]"
    unfolding triggers_def using idle_ensure(3-5)
    by (intro bexI [of _ "hd (JobConfig_Inputs (jb_config stored_job))"]) simp_all
  moreover have "\<not> has_pending stored_job (db_tables idle_db)" by (simp add: has_pending_def idle_db_def)
  ultimately show ?thesis using new_version_makes_build [OF s'] s' idle_ensure(2) by auto
qed

end
