(* ===== verification/Team_DB.thy ===== *)
theory Team_DB
  imports Job_DB
begin

text \<open>
  Teams, their pipelines and workers in the database: \<open>db/team_factory.go\<close>, \<open>db/team.go\<close>,
  \<open>db/pipeline.go\<close>, \<open>db/pipeline_factory.go\<close>, \<open>db/build_factory.go\<close> and \<open>db/worker.go\<close>, as far as the
  API handlers use them. Rows that refer to a deleted row go with it, as the foreign keys of the schema ask.

  \<open>strings.ToLower\<close> and PostgreSQL's \<open>lower\<close> are taken on ASCII letters, where they agree.
\<close>

section \<open>Constraints of the schema\<close>

definition lower_char :: "char \<Rightarrow> char" where
  "lower_char c = (let n = (of_char c :: nat) in if 65 \<le> n \<and> n \<le> 90 then char_of (n + 32) else c)"

definition strings_ToLower :: "string \<Rightarrow> string" where
  "strings_ToLower s = map lower_char s"

text \<open>A statement that a unique index refuses changes nothing.\<close>

definition exec_unique :: "(tables \<Rightarrow> bool) \<Rightarrow> (tables \<Rightarrow> tables) \<Rightarrow> unit dbm" where
  "exec_unique unique f =
     d_bind (stmt (\<lambda>t. if unique (f t) then (True, f t) else (False, t)))
       (\<lambda>ok. if ok then d_return () else d_fail UniqueViolation)"

definition unique_team_names :: "tables \<Rightarrow> bool" where
  "unique_team_names t \<longleftrightarrow> distinct (map (\<lambda>r. strings_ToLower (tm_name r)) (t_teams t))"

definition unique_pipeline_names :: "tables \<Rightarrow> bool" where
  "unique_pipeline_names t \<longleftrightarrow> distinct (map (\<lambda>p. (p_name p, p_team_id p)) (t_pipelines t))"

text \<open>Deletions with \<open>ON DELETE CASCADE\<close>.\<close>

definition drop_versions :: "(version_row \<Rightarrow> bool) \<Rightarrow> tables \<Rightarrow> tables" where
  "drop_versions P t =
     (let gone = (\<lambda>i. \<exists>v \<in> set (t_versions t). v_id v = i \<and> P v)
      in t\<lparr>t_versions := filter (\<lambda>v. \<not> P v) (t_versions t),
           t_next_inputs := filter (\<lambda>(_, _, iv). \<not> gone (iv_VersionID iv)) (t_next_inputs t),
           t_independent_inputs := filter (\<lambda>(_, _, iv). \<not> gone (iv_VersionID iv)) (t_independent_inputs t),
           t_build_inputs := filter (\<lambda>(_, v, _). \<not> gone v) (t_build_inputs t),
           t_build_outputs := filter (\<lambda>(_, v, _). \<not> gone v) (t_build_outputs t)\<rparr>)"

definition drop_resources :: "(resource_row \<Rightarrow> bool) \<Rightarrow> tables \<Rightarrow> tables" where
  "drop_resources P t =
     drop_versions (\<lambda>v. \<exists>r \<in> set (t_resources t). r_id r = v_resource_id v \<and> P r)
       (t\<lparr>t_resources := filter (\<lambda>r. \<not> P r) (t_resources t)\<rparr>)"

definition drop_jobs :: "(job_row \<Rightarrow> bool) \<Rightarrow> tables \<Rightarrow> tables" where
  "drop_jobs P t =
     (let gone = (\<lambda>i. \<exists>j \<in> set (t_jobs t). j_id j = i \<and> P j)
      in drop_builds (\<lambda>b. gone (b_job_id b))
          (t\<lparr>t_jobs := filter (\<lambda>j. \<not> P j) (t_jobs t),
             t_serial_groups := filter (\<lambda>(j, _). \<not> gone j) (t_serial_groups t),
             t_next_inputs := filter (\<lambda>(j, _, _). \<not> gone j) (t_next_inputs t),
             t_independent_inputs := filter (\<lambda>(j, _, _). \<not> gone j) (t_independent_inputs t),
             t_task_caches := filter (\<lambda>c. \<not> gone (tc_job_id c)) (t_task_caches t)\<rparr>))"

definition drop_pipelines :: "(pipeline_row \<Rightarrow> bool) \<Rightarrow> tables \<Rightarrow> tables" where
  "drop_pipelines P t =
     (let gone = (\<lambda>i. \<exists>p \<in> set (t_pipelines t). p_id p = i \<and> P p)
      in drop_jobs (\<lambda>j. gone (j_pipeline_id j))
          (drop_resources (\<lambda>r. gone (r_pipeline_id r))
            (drop_builds (\<lambda>b. gone (b_pipeline_id b))
              (t\<lparr>t_pipelines := filter (\<lambda>p. \<not> P p) (t_pipelines t),
                 t_resource_types := filter (\<lambda>y. \<not> gone (y_pipeline_id y)) (t_resource_types t)\<rparr>))))"

definition drop_workers :: "(worker_row \<Rightarrow> bool) \<Rightarrow> tables \<Rightarrow> tables" where
  "drop_workers P t =
     (let gone = (\<lambda>n. \<exists>w \<in> set (t_workers t). w_name w = n \<and> P w)
      in t\<lparr>t_workers := filter (\<lambda>w. \<not> P w) (t_workers t),
           t_task_caches := filter (\<lambda>c. \<not> gone (tc_worker_name c)) (t_task_caches t)\<rparr>)"

definition drop_teams :: "(team_row \<Rightarrow> bool) \<Rightarrow> tables \<Rightarrow> tables" where
  "drop_teams P t =
     (let gone = (\<lambda>i. \<exists>r \<in> set (t_teams t). tm_id r = i \<and> P r)
      in drop_pipelines (\<lambda>p. gone (p_team_id p))
          (drop_builds (\<lambda>b. gone (b_team_id b))
            (drop_workers (\<lambda>w. case w_team_id w of None \<Rightarrow> False | Some i \<Rightarrow> gone i)
              (t\<lparr>t_teams := filter (\<lambda>r. \<not> P r) (t_teams t)\<rparr>))))"

section \<open>Teams\<close>

definition FindTeam :: "string \<Rightarrow> team_row option dbm" where
  "FindTeam teamName = query (\<lambda>t. find (\<lambda>r. strings_ToLower (tm_name r) = strings_ToLower teamName) (t_teams t))"

definition GetTeams :: "team_row list dbm" where
  "GetTeams = query (\<lambda>t. sort_key tm_id (t_teams t))"

definition team_Delete :: "team_row \<Rightarrow> unit dbm" where
  "team_Delete tm =
     tx (committed
       (d_bind (stmt (\<lambda>t. (map b_id (filter (\<lambda>b. b_team_id b = tm_id tm \<and> b_pipeline_id b = 0) (t_builds t)),
                           drop_teams (\<lambda>r. tm_name r = tm_name tm) t)))
         (\<lambda>oneOffs. exec (\<lambda>t. t\<lparr>t_events := filter (\<lambda>(i, _). i \<notin> set oneOffs) (t_events t)\<rparr>))))"

definition team_Rename :: "team_row \<Rightarrow> string \<Rightarrow> unit dbm" where
  "team_Rename tm name =
     exec_unique unique_team_names
       (\<lambda>t. t\<lparr>t_teams := update_where (\<lambda>r. tm_id r = tm_id tm) (\<lambda>r. r\<lparr>tm_name := name\<rparr>) (t_teams t)\<rparr>)"

definition team_Pipeline :: "team_row \<Rightarrow> string \<Rightarrow> pipeline_row option dbm" where
  "team_Pipeline tm pipelineName = query (\<lambda>t. find (\<lambda>p. p_team_id p = tm_id tm \<and> p_name p = pipelineName) (t_pipelines t))"

definition team_Pipelines :: "team_row \<Rightarrow> pipeline_row list dbm" where
  "team_Pipelines tm = query (\<lambda>t. sort_key p_ordering (filter (\<lambda>p. p_team_id p = tm_id tm) (t_pipelines t)))"

definition team_PublicPipelines :: "team_row \<Rightarrow> pipeline_row list dbm" where
  "team_PublicPipelines tm =
     query (\<lambda>t. sort_key p_team_id (sort_key p_ordering (filter (\<lambda>p. p_team_id p = tm_id tm \<and> p_public p) (t_pipelines t))))"

definition team_VisiblePipelines :: "team_row \<Rightarrow> pipeline_row list dbm" where
  "team_VisiblePipelines tm =
     d_bind (query (\<lambda>t. sort_key p_team_id (sort_key p_ordering (filter (\<lambda>p. p_team_id p = tm_id tm) (t_pipelines t))))) (\<lambda>current.
     d_bind (query (\<lambda>t. sort_key p_team_id (sort_key p_ordering (filter (\<lambda>p. p_team_id p \<noteq> tm_id tm \<and> p_public p) (t_pipelines t))))) (\<lambda>others.
     d_return (current @ others)))"

definition team_OrderPipelines :: "team_row \<Rightarrow> string list \<Rightarrow> unit dbm" where
  "team_OrderPipelines tm pipelineNames =
     tx (committed (d_each (\<lambda>(i, name). exec (\<lambda>t. t\<lparr>t_pipelines :=
           update_where (\<lambda>p. p_name p = name \<and> p_team_id p = tm_id tm) (\<lambda>p. p\<lparr>p_ordering := int i\<rparr>) (t_pipelines t)\<rparr>))
        (enumerate 0 pipelineNames)))"

definition team_name_of :: "tables \<Rightarrow> int \<Rightarrow> string option" where
  "team_name_of t i = map_option tm_name (find (\<lambda>r. tm_id r = i) (t_teams t))"

definition PublicPipelines :: "pipeline_row list dbm" where
  "PublicPipelines = query (\<lambda>t.
     sort_key (\<lambda>p. case team_name_of t (p_team_id p) of None \<Rightarrow> [] | Some n \<Rightarrow> n) (sort_key p_ordering (filter p_public (t_pipelines t))))"

section \<open>Pipelines, jobs and versions\<close>

definition update_pipeline :: "int \<Rightarrow> (pipeline_row \<Rightarrow> pipeline_row) \<Rightarrow> tables \<Rightarrow> tables" where
  "update_pipeline i f t = t\<lparr>t_pipelines := update_where (\<lambda>p. p_id p = i) f (t_pipelines t)\<rparr>"

definition pipeline_Pause :: "pipeline_row \<Rightarrow> unit dbm" where
  "pipeline_Pause p = exec (update_pipeline (p_id p) (\<lambda>r. r\<lparr>p_paused := True\<rparr>))"

definition pipeline_Unpause :: "pipeline_row \<Rightarrow> unit dbm" where
  "pipeline_Unpause p = exec (update_pipeline (p_id p) (\<lambda>r. r\<lparr>p_paused := False\<rparr>))"

definition pipeline_Hide :: "pipeline_row \<Rightarrow> unit dbm" where
  "pipeline_Hide p = exec (update_pipeline (p_id p) (\<lambda>r. r\<lparr>p_public := False\<rparr>))"

definition pipeline_Expose :: "pipeline_row \<Rightarrow> unit dbm" where
  "pipeline_Expose p = exec (update_pipeline (p_id p) (\<lambda>r. r\<lparr>p_public := True\<rparr>))"

definition pipeline_Rename :: "pipeline_row \<Rightarrow> string \<Rightarrow> unit dbm" where
  "pipeline_Rename p name = exec_unique unique_pipeline_names (update_pipeline (p_id p) (\<lambda>r. r\<lparr>p_name := name\<rparr>))"

definition pipeline_Destroy :: "pipeline_row \<Rightarrow> unit dbm" where
  "pipeline_Destroy p =
     tx (committed
       (d_seq (exec (\<lambda>t. t\<lparr>t_events := filter (\<lambda>(i, _). \<not> (\<exists>b \<in> set (t_builds t). b_id b = i \<and> b_pipeline_id b = p_id p)) (t_events t)\<rparr>))
         (exec (drop_pipelines (\<lambda>r. p_id r = p_id p)))))"

definition pipeline_Job :: "pipeline_row \<Rightarrow> string \<Rightarrow> job option dbm" where
  "pipeline_Job p name = query (\<lambda>t.
     case find (\<lambda>j. j_name j = name \<and> j_active j \<and> j_pipeline_id j = p_id p) (t_jobs t) of
       None \<Rightarrow> None
     | Some j \<Rightarrow>
         map_option (\<lambda>pl. \<lparr>jb_id = j_id j, jb_name = j_name j, jb_paused = j_paused j, jb_pipelineID = j_pipeline_id j,
             jb_teamID = p_team_id pl, jb_config = j_config j, jb_firstLoggedBuildID = j_first_logged_build_id j\<rparr>)
           (find (\<lambda>pl. p_id pl = j_pipeline_id j) (t_pipelines t)))"

definition toggleVersionedResource :: "pipeline_row \<Rightarrow> int \<Rightarrow> bool \<Rightarrow> unit dbm" where
  "toggleVersionedResource p versionedResourceID enable =
     d_bind (stmt (\<lambda>t. (affected (\<lambda>v. v_id v = versionedResourceID) (t_versions t),
                        t\<lparr>t_versions := update_where (\<lambda>v. v_id v = versionedResourceID) (\<lambda>v. v\<lparr>v_enabled := enable\<rparr>) (t_versions t)\<rparr>)))
       (\<lambda>n. if n \<noteq> 1 then d_fail (NonOneRowAffected n) else d_return ())"

section \<open>Builds\<close>

text \<open>The build with the names of its team and of its job.\<close>

record api_build =
  ab_row :: build_row
  ab_teamName :: string
  ab_jobName :: string

definition buildFactory_Build :: "int \<Rightarrow> api_build option dbm" where
  "buildFactory_Build buildID =
     d_bind (query (\<lambda>t. map_option (\<lambda>b. (b, team_name_of t (b_team_id b),
               map_option j_name (find (\<lambda>j. j_id j = b_job_id b) (t_jobs t)))) (find (\<lambda>b. b_id b = buildID) (t_builds t))))
       (\<lambda>r. case r of
          None \<Rightarrow> d_return None
        | Some (b, None, _) \<Rightarrow> d_fail SqlError
        | Some (b, Some team, jobName) \<Rightarrow>
            d_return (Some \<lparr>ab_row = b, ab_teamName = team, ab_jobName = (case jobName of None \<Rightarrow> [] | Some n \<Rightarrow> n)\<rparr>))"

definition build_Pipeline :: "build_row \<Rightarrow> pipeline_row option dbm" where
  "build_Pipeline b =
     (if b_pipeline_id b = 0 then d_return None
      else query (\<lambda>t. find (\<lambda>p. p_id p = b_pipeline_id b) (t_pipelines t)))"

section \<open>Workers\<close>

record api_worker =
  aw_row :: worker_row
  aw_teamName :: string

definition GetWorker :: "string \<Rightarrow> api_worker option dbm" where
  "GetWorker name = query (\<lambda>t.
     map_option (\<lambda>w. \<lparr>aw_row = w, aw_teamName = (case w_team_id w of None \<Rightarrow> []
         | Some i \<Rightarrow> (case team_name_of t i of None \<Rightarrow> [] | Some n \<Rightarrow> n))\<rparr>)
       (find (\<lambda>w. w_name w = name) (t_workers t)))"

definition update_worker :: "string \<Rightarrow> (worker_row \<Rightarrow> worker_row) \<Rightarrow> unit dbm" where
  "update_worker name f =
     d_bind (stmt (\<lambda>t. (affected (\<lambda>w. w_name w = name) (t_workers t),
                        t\<lparr>t_workers := update_where (\<lambda>w. w_name w = name) f (t_workers t)\<rparr>)))
       (\<lambda>count. if count = 0 then d_fail ErrWorkerNotPresent else d_return ())"

definition worker_Land :: "worker_row \<Rightarrow> unit dbm" where
  "worker_Land w = update_worker (w_name w)
     (\<lambda>r. r\<lparr>w_state := (if w_state r = WorkerStateLanded then WorkerStateLanded else WorkerStateLanding)\<rparr>)"

definition worker_Retire :: "worker_row \<Rightarrow> unit dbm" where
  "worker_Retire w = update_worker (w_name w) (\<lambda>r. r\<lparr>w_state := WorkerStateRetiring\<rparr>)"

definition worker_Prune :: "worker_row \<Rightarrow> unit dbm" where
  "worker_Prune w =
     (let P = (\<lambda>r. w_name r = w_name w \<and> w_state r \<noteq> WorkerStateRunning)
      in d_bind (stmt (\<lambda>t. (affected P (t_workers t), drop_workers P t)))
          (\<lambda>n. if n \<noteq> 0 then d_return ()
               else d_bind (query (\<lambda>t. \<exists>r \<in> set (t_workers t). w_name r = w_name w))
                 (\<lambda>present. if present then d_fail ErrCannotPruneRunningWorker else d_fail ErrWorkerNotPresent)))"

definition worker_Delete :: "worker_row \<Rightarrow> unit dbm" where
  "worker_Delete w = exec (drop_workers (\<lambda>r. w_name r = w_name w))"

end
