(* ===== verification/Pipeline_DB.thy ===== *)
theory Pipeline_DB
  imports Team_DB Build_Lifecycle
begin

text \<open>
  Saving a pipeline's configuration and reading it back: \<open>SavePipeline\<close> of \<open>db/team.go\<close> with its helpers,
  \<open>removeUnusedWorkerTaskCaches\<close> of \<open>db/worker_task_cache_factory.go\<close>, and the queries of \<open>db/pipeline.go\<close>,
  \<open>db/resource.go\<close>, \<open>db/resource_type.go\<close> and \<open>db/job.go\<close> that return jobs, resources and resource type_rows.

  The rows hold the configurations themselves; in the program they hold their JSON texts, encrypted. The first
  section has the operations, the second what each of them does to the tables, the third what a saved
  configuration is read back as.
\<close>

section \<open>Operations\<close>

datatype PipelinePausedState = PipelinePaused | PipelineUnpaused | PipelineNoChange

fun paused_Bool :: "PipelinePausedState \<Rightarrow> bool option" where
  "paused_Bool PipelinePaused = Some True"
| "paused_Bool PipelineUnpaused = Some False"
| "paused_Bool PipelineNoChange = None"

definition unique_job_names :: "tables \<Rightarrow> bool" where
  "unique_job_names t \<longleftrightarrow> distinct (map (\<lambda>j. (j_pipeline_id j, j_name j)) (t_jobs t))"

definition unique_resource_names :: "tables \<Rightarrow> bool" where
  "unique_resource_names t \<longleftrightarrow> distinct (map (\<lambda>r. (r_pipeline_id r, r_name r)) (t_resources t))"

definition unique_type_names :: "tables \<Rightarrow> bool" where
  "unique_type_names t \<longleftrightarrow> distinct (map (\<lambda>y. (y_pipeline_id y, y_name y)) (t_resource_types t))"

definition checkIfRowsUpdated :: "(tables \<Rightarrow> nat \<times> tables) \<Rightarrow> bool dbm" where
  "checkIfRowsUpdated q = d_bind (stmt q) (\<lambda>rows. d_return (rows \<noteq> 0))"

definition swallowUniqueViolation :: "unit dbm \<Rightarrow> unit dbm" where
  "swallowUniqueViolation m = (\<lambda>s. case m s of (Inl UniqueViolation, s') \<Rightarrow> (Inr (), s') | r \<Rightarrow> r)"

definition new_resource :: "int \<Rightarrow> ResourceConfig \<Rightarrow> int \<Rightarrow> resource_row" where
  "new_resource i resource pipelineID =
     \<lparr>r_id = i, r_name = resource_Name resource, r_pipeline_id = pipelineID, r_config = resource,
      r_active = True, r_paused = False, r_check_error = None, r_last_checked = 0, r_resource_config_id = None\<rparr>"

definition saveResource :: "ResourceConfig \<Rightarrow> int \<Rightarrow> unit dbm" where
  "saveResource resource pipelineID =
     (let P = (\<lambda>r. r_name r = resource_Name resource \<and> r_pipeline_id r = pipelineID)
      in d_bind (checkIfRowsUpdated (\<lambda>t. (affected P (t_resources t),
             t\<lparr>t_resources := update_where P (\<lambda>r. r\<lparr>r_config := resource, r_active := True\<rparr>) (t_resources t)\<rparr>)))
          (\<lambda>updated.
             if updated then d_return ()
             else swallowUniqueViolation (exec_unique unique_resource_names (\<lambda>t.
               t\<lparr>t_resources := t_resources t @ [new_resource (t_next_resource_id t) resource pipelineID],
                 t_next_resource_id := t_next_resource_id t + 1\<rparr>))))"

definition new_resource_type :: "int \<Rightarrow> ResourceType \<Rightarrow> int \<Rightarrow> resource_type_row" where
  "new_resource_type i resourceType pipelineID =
     \<lparr>y_id = i, y_name = rt_Name resourceType, y_pipeline_id = pipelineID, y_type = rt_Type resourceType,
      y_config = resourceType, y_active = True, y_version = None, y_last_checked = 0, y_resource_config_id = None\<rparr>"

definition saveResourceType :: "ResourceType \<Rightarrow> int \<Rightarrow> unit dbm" where
  "saveResourceType resourceType pipelineID =
     (let P = (\<lambda>y. y_name y = rt_Name resourceType \<and> y_pipeline_id y = pipelineID)
      in d_bind (checkIfRowsUpdated (\<lambda>t. (affected P (t_resource_types t),
             t\<lparr>t_resource_types := update_where P
                 (\<lambda>y. y\<lparr>y_config := resourceType, y_type := rt_Type resourceType, y_active := True\<rparr>) (t_resource_types t)\<rparr>)))
          (\<lambda>updated.
             if updated then d_return ()
             else swallowUniqueViolation (exec_unique unique_type_names (\<lambda>t.
               t\<lparr>t_resource_types := t_resource_types t @ [new_resource_type (t_next_type_id t) resourceType pipelineID],
                 t_next_type_id := t_next_type_id t + 1\<rparr>))))"

definition new_job :: "int \<Rightarrow> JobConfig \<Rightarrow> int \<Rightarrow> job_row" where
  "new_job i job pipelineID =
     \<lparr>j_id = i, j_name = job_Name job, j_pipeline_id = pipelineID, j_paused = False, j_active = True,
      j_inputs_determined = False, j_max_in_flight_reached = False, j_build_number_seq = 0, j_config = job,
      j_interruptible = job_Interruptible job, j_first_logged_build_id = 0\<rparr>"

definition saveJob :: "JobConfig \<Rightarrow> int \<Rightarrow> unit dbm" where
  "saveJob job pipelineID =
     (let P = (\<lambda>j. j_name j = job_Name job \<and> j_pipeline_id j = pipelineID)
      in d_bind (checkIfRowsUpdated (\<lambda>t. (affected P (t_jobs t),
             t\<lparr>t_jobs := update_where P
                 (\<lambda>j. j\<lparr>j_config := job, j_interruptible := job_Interruptible job, j_active := True\<rparr>) (t_jobs t)\<rparr>)))
          (\<lambda>updated.
             if updated then d_return ()
             else swallowUniqueViolation (exec_unique unique_job_names (\<lambda>t.
               t\<lparr>t_jobs := t_jobs t @ [new_job (t_next_job_id t) job pipelineID], t_next_job_id := t_next_job_id t + 1\<rparr>))))"

text \<open>Without a job of that name the row inserted has no job, and no query returns it.\<close>

definition registerSerialGroup :: "string \<Rightarrow> string \<Rightarrow> int \<Rightarrow> unit dbm" where
  "registerSerialGroup jobName serialGroup pipelineID =
     swallowUniqueViolation (exec (\<lambda>t.
       case find (\<lambda>j. j_name j = jobName \<and> j_pipeline_id j = pipelineID \<and> (\<exists>p \<in> set (t_pipelines t). p_id p = j_pipeline_id j)) (t_jobs t) of
         None \<Rightarrow> t
       | Some j \<Rightarrow> t\<lparr>t_serial_groups := t_serial_groups t @ [(j_id j, serialGroup)]\<rparr>))"

text \<open>\<open>steps\<close>: the names of the task steps at the top of each job's plan, for the jobs that have one.\<close>

definition task_steps :: "JobConfig list \<Rightarrow> (string \<times> string list) list" where
  "task_steps jobConfigs =
     fold (\<lambda>jobConfig. fold (\<lambda>step m.
         if plan_Task step \<noteq> [] then AList.update (job_Name jobConfig)
           ((case map_of m (job_Name jobConfig) of None \<Rightarrow> [] | Some ss \<Rightarrow> ss) @ [plan_Task step]) m
         else m) (job_Plan jobConfig)) jobConfigs []"

definition unused_cache :: "int \<Rightarrow> (string \<times> string list) list \<Rightarrow> tables \<Rightarrow> task_cache_row \<Rightarrow> bool" where
  "unused_cache pipelineID steps t c \<longleftrightarrow>
     (\<exists>j \<in> set (t_jobs t). j_id j = tc_job_id c \<and>
        ((\<exists>(jobName, stepNames) \<in> set steps. j_name j = jobName \<and> tc_step_name c \<notin> set stepNames) \<or>
         j_pipeline_id j = pipelineID \<and> \<not> j_active j))"

definition removeUnusedWorkerTaskCaches :: "int \<Rightarrow> JobConfig list \<Rightarrow> unit dbm" where
  "removeUnusedWorkerTaskCaches pipelineID jobConfigs =
     exec (\<lambda>t. t\<lparr>t_task_caches := filter (\<lambda>c. \<not> unused_cache pipelineID (task_steps jobConfigs) t c) (t_task_caches t)\<rparr>)"

text \<open>A new pipeline; its team has to exist. The table for its build events and the indexes on it have no row here.\<close>

definition insert_pipeline :: "team_row \<Rightarrow> string \<Rightarrow> GroupConfig list \<Rightarrow> bool \<Rightarrow> tables \<Rightarrow> int option \<times> tables" where
  "insert_pipeline tm pipelineName groups paused t =
     (if \<exists>r \<in> set (t_teams t). tm_id r = tm_id tm
      then (Some (t_next_pipeline_id t),
            t\<lparr>t_pipelines := t_pipelines t @
                [\<lparr>p_id = t_next_pipeline_id t, p_name = pipelineName, p_team_id = tm_id tm, p_paused = paused, p_public = False,
                  p_ordering = t_next_pipeline_id t, p_groups = groups, p_version = t_config_version t + 1\<rparr>],
              t_next_pipeline_id := t_next_pipeline_id t + 1, t_config_version := t_config_version t + 1\<rparr>)
      else (None, t))"

definition create_pipeline :: "team_row \<Rightarrow> string \<Rightarrow> GroupConfig list \<Rightarrow> PipelinePausedState \<Rightarrow> int dbm" where
  "create_pipeline tm pipelineName groups pausedState =
     (let pausedState = (if pausedState = PipelineNoChange then PipelinePaused else pausedState)
      in d_bind (stmt (insert_pipeline tm pipelineName groups (paused_Bool pausedState = Some True))) (\<lambda>r.
           case r of
             None \<Rightarrow> d_fail SqlError
           | Some pipelineID \<Rightarrow> d_seq touch (d_seq touch (d_seq touch (d_return pipelineID)))))"

definition config_match :: "team_row \<Rightarrow> string \<Rightarrow> int \<Rightarrow> pipeline_row \<Rightarrow> bool" where
  "config_match tm pipelineName from p \<longleftrightarrow> p_name p = pipelineName \<and> p_version p = from \<and> p_team_id p = tm_id tm"

definition update_config :: "team_row \<Rightarrow> string \<Rightarrow> GroupConfig list \<Rightarrow> int \<Rightarrow> PipelinePausedState \<Rightarrow> tables \<Rightarrow> int option \<times> tables" where
  "update_config tm pipelineName groups from pausedState t =
     (case find (config_match tm pipelineName from) (t_pipelines t) of
        None \<Rightarrow> (None, t)
      | Some p \<Rightarrow>
          (Some (p_id p),
           t\<lparr>t_pipelines := update_where (config_match tm pipelineName from)
               (\<lambda>p. p\<lparr>p_groups := groups, p_version := t_config_version t + 1,
                       p_paused := (case paused_Bool pausedState of None \<Rightarrow> p_paused p | Some b \<Rightarrow> b)\<rparr>) (t_pipelines t),
             t_config_version := t_config_version t + 1\<rparr>))"

definition deactivate :: "int \<Rightarrow> unit dbm" where
  "deactivate pipelineID =
     d_seq (exec (\<lambda>t. t\<lparr>t_serial_groups := filter (\<lambda>(i, _). \<not> (\<exists>j \<in> set (t_jobs t). j_id j = i \<and> j_pipeline_id j = pipelineID)) (t_serial_groups t)\<rparr>))
    (d_seq (exec (\<lambda>t. t\<lparr>t_jobs := update_where (\<lambda>j. j_pipeline_id j = pipelineID) (\<lambda>j. j\<lparr>j_active := False\<rparr>) (t_jobs t)\<rparr>))
    (d_seq (exec (\<lambda>t. t\<lparr>t_resources := update_where (\<lambda>r. r_pipeline_id r = pipelineID) (\<lambda>r. r\<lparr>r_active := False\<rparr>) (t_resources t)\<rparr>))
       (exec (\<lambda>t. t\<lparr>t_resource_types := update_where (\<lambda>y. y_pipeline_id y = pipelineID) (\<lambda>y. y\<lparr>y_active := False\<rparr>) (t_resource_types t)\<rparr>))))"

definition replace_config :: "team_row \<Rightarrow> string \<Rightarrow> GroupConfig list \<Rightarrow> int \<Rightarrow> PipelinePausedState \<Rightarrow> int dbm" where
  "replace_config tm pipelineName groups from pausedState =
     d_bind (stmt (update_config tm pipelineName groups from pausedState)) (\<lambda>r.
       case r of
         None \<Rightarrow> d_fail ErrConfigComparisonFailed
       | Some pipelineID \<Rightarrow> d_seq (deactivate pipelineID) (d_return pipelineID))"

definition SavePipeline :: "team_row \<Rightarrow> string \<Rightarrow> Config \<Rightarrow> int \<Rightarrow> PipelinePausedState \<Rightarrow> (pipeline_row \<times> bool) dbm" where
  "SavePipeline tm pipelineName config from pausedState =
     tx (committed
       (d_bind (query (\<lambda>t. affected (\<lambda>p. p_name p = pipelineName \<and> p_team_id p = tm_id tm) (t_pipelines t))) (\<lambda>existingConfig.
        d_bind (if existingConfig = 0 then create_pipeline tm pipelineName (cfg_Groups config) pausedState
                else replace_config tm pipelineName (cfg_Groups config) from pausedState) (\<lambda>pipelineID.
        d_seq (d_each (\<lambda>resource. saveResource resource pipelineID) (cfg_Resources config))
       (d_seq (d_each (\<lambda>resourceType. saveResourceType resourceType pipelineID) (cfg_ResourceTypes config))
       (d_seq (d_each (\<lambda>job. d_seq (saveJob job pipelineID)
                 (d_each (\<lambda>sg. registerSerialGroup (job_Name job) sg pipelineID) (job_SerialGroups job))) (cfg_Jobs config))
       (d_seq (removeUnusedWorkerTaskCaches pipelineID (cfg_Jobs config))
       (d_bind (query_row (\<lambda>t. find (\<lambda>p. p_id p = pipelineID) (t_pipelines t))) (\<lambda>pipeline.
        d_return (pipeline, existingConfig = 0))))))))))"

subsection \<open>Reading\<close>

definition active_jobs :: "int \<Rightarrow> tables \<Rightarrow> job_row list" where
  "active_jobs pipelineID t = filter (\<lambda>j. j_pipeline_id j = pipelineID \<and> j_active j) (t_jobs t)"

definition pipeline_Jobs :: "pipeline_row \<Rightarrow> job_row list dbm" where
  "pipeline_Jobs p = query (\<lambda>t. sort_key j_id (active_jobs (p_id p) t))"

definition pipeline_Resource :: "pipeline_row \<Rightarrow> string \<Rightarrow> resource_row option dbm" where
  "pipeline_Resource p name = query (\<lambda>t. find (\<lambda>r. r_active r \<and> r_pipeline_id r = p_id p \<and> r_name r = name) (t_resources t))"

definition pipeline_Resources :: "pipeline_row \<Rightarrow> resource_row list dbm" where
  "pipeline_Resources p = query (\<lambda>t. filter (\<lambda>r. r_active r \<and> r_pipeline_id r = p_id p) (t_resources t))"

definition pipeline_ResourceTypes :: "pipeline_row \<Rightarrow> resource_type_row list dbm" where
  "pipeline_ResourceTypes p = query (\<lambda>t. filter (\<lambda>y. y_active y \<and> y_pipeline_id y = p_id p) (t_resource_types t))"

definition pipeline_ResourceType :: "pipeline_row \<Rightarrow> string \<Rightarrow> resource_type_row option dbm" where
  "pipeline_ResourceType p name =
     query (\<lambda>t. find (\<lambda>y. y_active y \<and> y_pipeline_id y = p_id p \<and> y_name y = name) (t_resource_types t))"

definition Jobs_Configs :: "job_row list \<Rightarrow> JobConfig list" where
  "Jobs_Configs jobs = map j_config jobs"

text \<open>\<open>scanResource\<close> reads all but the name from the stored configuration.\<close>

definition Resources_Configs :: "resource_row list \<Rightarrow> ResourceConfig list" where
  "Resources_Configs resources = map (\<lambda>r. (r_config r)\<lparr>resource_Name := r_name r\<rparr>) resources"

text \<open>The tags are not read; the type comes from its own column.\<close>

definition ResourceTypes_Configs :: "resource_type_row list \<Rightarrow> ResourceType list" where
  "ResourceTypes_Configs resourceTypes =
     map (\<lambda>y. (y_config y)\<lparr>rt_Name := y_name y, rt_Type := y_type y, rt_Tags := []\<rparr>) resourceTypes"

section \<open>Rows with a configuration\<close>

text \<open>
  Jobs, resources and resource types are stored alike: a row has a number, belongs to a pipeline, is found by
  its name there, is active or not, and holds a configuration. What saving the configurations of a pipeline
  does to such a table is shown once.
\<close>

lemma map_update_where: "(\<And>r. f (g r) = f r) \<Longrightarrow> map f (update_where P g rows) = map f rows"
  by (simp add: update_where_def)

lemma update_where_none: "\<not> (\<exists>r \<in> set rows. P r) \<Longrightarrow> update_where P g rows = rows"
  by (auto simp: update_where_def intro: map_idI)

lemma filter_update_where: "(\<And>r. P r \<Longrightarrow> \<not> Q r \<and> \<not> Q (g r)) \<Longrightarrow> filter Q (update_where P g rows) = filter Q rows"
  by (induction rows) (auto simp: update_where_def)

lemma update_where_kept: "r \<in> set rows \<Longrightarrow> (\<And>q. S q q \<and> S q (g q)) \<Longrightarrow> \<exists>r' \<in> set (update_where P g rows). S r r'"
  unfolding in_update_where Bex_def [of "set (update_where P g rows)"] by (intro exI [of _ "if P r then g r else r"]) auto

locale configured_rows =
  fixes row_id :: "'r \<Rightarrow> int" and row_pipeline :: "'r \<Rightarrow> int" and row_name :: "'r \<Rightarrow> string" and row_active :: "'r \<Rightarrow> bool"
    and row_config :: "'r \<Rightarrow> 'c" and row_rest :: "'r \<Rightarrow> 'k" and config_name :: "'c \<Rightarrow> string"
    and set_config :: "'c \<Rightarrow> 'r \<Rightarrow> 'r" and clear :: "'r \<Rightarrow> 'r" and make :: "int \<Rightarrow> 'c \<Rightarrow> int \<Rightarrow> 'r"
  assumes set_config: "row_id (set_config c r) = row_id r" "row_pipeline (set_config c r) = row_pipeline r"
      "row_name (set_config c r) = row_name r" "row_active (set_config c r)" "row_config (set_config c r) = c"
      "row_rest (set_config c r) = row_rest r"
    and clear: "row_id (clear r) = row_id r" "row_pipeline (clear r) = row_pipeline r" "row_name (clear r) = row_name r"
      "\<not> row_active (clear r)" "row_rest (clear r) = row_rest r"
    and make: "row_id (make i c p) = i" "row_pipeline (make i c p) = p" "row_name (make i c p) = config_name c"
      "row_active (make i c p)" "row_config (make i c p) = c"
begin

lemmas row_laws = set_config clear make

definition found :: "'c \<Rightarrow> int \<Rightarrow> 'r \<Rightarrow> bool" where
  "found c p r \<longleftrightarrow> row_name r = config_name c \<and> row_pipeline r = p"

definition saved :: "int \<Rightarrow> 'c \<Rightarrow> 'r list \<times> int \<Rightarrow> 'r list \<times> int" where
  "saved p c rn = (case rn of (rows, n) \<Rightarrow>
     if \<exists>r \<in> set rows. found c p r then (update_where (found c p) (set_config c) rows, n)
     else (rows @ [make n c p], n + 1))"

definition saved_all :: "int \<Rightarrow> 'c list \<Rightarrow> 'r list \<times> int \<Rightarrow> 'r list \<times> int" where
  "saved_all p cs rn = fold (saved p) cs rn"

definition cleared :: "int \<Rightarrow> 'r list \<Rightarrow> 'r list" where
  "cleared p rows = update_where (\<lambda>r. row_pipeline r = p) clear rows"

definition names_ok :: "'r list \<Rightarrow> bool" where
  "names_ok rows \<longleftrightarrow> distinct (map (\<lambda>r. (row_pipeline r, row_name r)) rows)"

definition ids_ok :: "'r list \<times> int \<Rightarrow> bool" where
  "ids_ok rn \<longleftrightarrow> distinct (map row_id (fst rn)) \<and> (\<forall>r \<in> set (fst rn). row_id r < snd rn)"

definition actives :: "int \<Rightarrow> 'r list \<Rightarrow> 'r list" where
  "actives p rows = filter (\<lambda>r. row_pipeline r = p \<and> row_active r) rows"

text \<open>A row keeps its number, its name and what the configuration does not set.\<close>

definition same_row :: "'r \<Rightarrow> 'r \<Rightarrow> bool" where
  "same_row r r' \<longleftrightarrow> row_id r' = row_id r \<and> row_pipeline r' = row_pipeline r \<and> row_name r' = row_name r \<and> row_rest r' = row_rest r"

lemma saved_all_snoc: "saved_all p (cs @ [c]) rn = saved p c (saved_all p cs rn)"
  by (simp add: saved_all_def)

lemma names_ok_saved: "names_ok (fst rn) \<Longrightarrow> names_ok (fst (saved p c rn))"
  by (auto simp: names_ok_def saved_def map_update_where row_laws found_def split: prod.splits)

lemma ids_ok_saved: "ids_ok rn \<Longrightarrow> ids_ok (saved p c rn)"
  by (fastforce simp: ids_ok_def saved_def map_update_where in_update_where row_laws split: prod.splits)

lemma cleared_keys: "map (\<lambda>r. (row_pipeline r, row_name r)) (cleared p rows) = map (\<lambda>r. (row_pipeline r, row_name r)) rows"
  "map row_id (cleared p rows) = map row_id rows"
  by (simp_all add: cleared_def update_where_def row_laws)

lemma names_ok_cleared: "names_ok (cleared p rows) = names_ok rows"
  by (simp add: names_ok_def cleared_keys)

lemma ids_ok_cleared: "ids_ok (cleared p rows, n) = ids_ok (rows, n)"
proof -
  have "row_id ` set (cleared p rows) = row_id ` set rows" by (metis cleared_keys(2) list.set_map)
  then have "(\<forall>r \<in> set (cleared p rows). row_id r < n) = (\<forall>r \<in> set rows. row_id r < n)" by (metis (no_types, lifting) imageE imageI)
  then show ?thesis by (simp add: ids_ok_def cleared_keys)
qed

lemma names_ok_saved_all: "names_ok (fst rn) \<Longrightarrow> names_ok (fst (saved_all p cs rn))"
  by (induction cs rule: rev_induct) (simp_all add: saved_all_snoc names_ok_saved, simp add: saved_all_def)

lemma ids_ok_saved_all: "ids_ok rn \<Longrightarrow> ids_ok (saved_all p cs rn)"
  by (induction cs rule: rev_induct) (simp_all add: saved_all_snoc ids_ok_saved, simp add: saved_all_def)

lemma saved_others: "filter (\<lambda>r. row_pipeline r \<noteq> p) (fst (saved p c rn)) = filter (\<lambda>r. row_pipeline r \<noteq> p) (fst rn)"
proof -
  have "filter (\<lambda>r. row_pipeline r \<noteq> p) (update_where (found c p) (set_config c) rows) = filter (\<lambda>r. row_pipeline r \<noteq> p) rows" for rows
    by (rule filter_update_where) (simp add: found_def row_laws)
  then show ?thesis by (simp add: saved_def row_laws split: prod.splits)
qed

lemma saved_all_others: "filter (\<lambda>r. row_pipeline r \<noteq> p) (fst (saved_all p cs rn)) = filter (\<lambda>r. row_pipeline r \<noteq> p) (fst rn)"
  by (induction cs rule: rev_induct) (simp_all add: saved_all_snoc saved_others, simp add: saved_all_def)

lemma cleared_others: "filter (\<lambda>r. row_pipeline r \<noteq> p) (cleared p rows) = filter (\<lambda>r. row_pipeline r \<noteq> p) rows"
  by (induction rows) (simp_all add: cleared_def update_where_def row_laws)

lemma saved_kept: "r \<in> set (fst rn) \<Longrightarrow> \<exists>r' \<in> set (fst (saved p c rn)). same_row r r'"
  by (auto simp: saved_def same_row_def row_laws split: prod.splits intro!: update_where_kept)

lemma saved_all_kept: "r \<in> set (fst rn) \<Longrightarrow> \<exists>r' \<in> set (fst (saved_all p cs rn)). same_row r r'"
proof (induction cs rule: rev_induct)
  case Nil
  then show ?case by (auto simp: saved_all_def same_row_def)
next
  case (snoc c cs)
  then obtain r1 where r1: "r1 \<in> set (fst (saved_all p cs rn))" "same_row r r1" by blast
  obtain r2 where "r2 \<in> set (fst (saved p c (saved_all p cs rn)))" "same_row r1 r2" using saved_kept [OF r1(1)] by blast
  with r1(2) show ?case by (auto simp: saved_all_snoc same_row_def)
qed

lemma cleared_kept: "r \<in> set rows \<Longrightarrow> \<exists>r' \<in> set (cleared p rows). same_row r r'"
  by (auto simp: cleared_def same_row_def row_laws intro!: update_where_kept)

lemma kept_through:
  assumes "r \<in> set rows" and "rn = (if b then (cleared p rows, n) else (rows, n))"
  shows "\<exists>r' \<in> set (fst (saved_all p cs rn)). same_row r r'"
proof -
  have "same_row r r" by (simp add: same_row_def)
  then have "\<exists>r1 \<in> set (fst rn). same_row r r1"
    using cleared_kept [OF assms(1)] assms by (cases b) auto
  then obtain r1 where r1: "r1 \<in> set (fst rn)" "same_row r r1" by blast
  from saved_all_kept [OF r1(1)] r1(2) show ?thesis unfolding same_row_def by metis
qed

text \<open>Each row found after saving was there before or is new.\<close>

lemma saved_origin:
  "r' \<in> set (fst (saved p c rn)) \<Longrightarrow> (\<exists>r \<in> set (fst rn). same_row r r') \<or> row_pipeline r' = p \<and> snd rn \<le> row_id r'"
  by (cases rn) (auto simp: saved_def in_update_where same_row_def row_laws split: if_splits)

lemma saved_next: "snd rn \<le> snd (saved p c rn)"
  by (auto simp: saved_def split: prod.splits)

lemma saved_all_next: "snd rn \<le> snd (saved_all p cs rn)"
proof (induction cs rule: rev_induct)
  case (snoc c cs)
  then show ?case unfolding saved_all_snoc using saved_next by (rule order_trans)
qed (simp add: saved_all_def)

lemma saved_all_ids: "row_id ` set (fst rn) \<subseteq> row_id ` set (fst (saved_all p cs rn))"
proof
  fix i assume "i \<in> row_id ` set (fst rn)"
  then obtain r where "r \<in> set (fst rn)" "i = row_id r" by blast
  then show "i \<in> row_id ` set (fst (saved_all p cs rn))" using saved_all_kept [of r rn p cs] by (metis imageI same_row_def)
qed

lemma saved_all_pipelines: "row_pipeline ` set (fst (saved_all p cs rn)) \<subseteq> insert p (row_pipeline ` set (fst rn))"
proof (induction cs rule: rev_induct)
  case (snoc c cs)
  have "row_pipeline ` set (fst (saved p c (saved_all p cs rn))) \<subseteq> insert p (row_pipeline ` set (fst (saved_all p cs rn)))"
    using saved_origin by (fastforce simp: same_row_def)
  with snoc show ?case unfolding saved_all_snoc by blast
qed (auto simp: saved_all_def)

lemma cleared_ids: "row_id ` set (cleared p rows) = row_id ` set rows" "row_pipeline ` set (cleared p rows) = row_pipeline ` set rows"
  by (metis cleared_keys(2) list.set_map)
    (metis (no_types, lifting) cleared_def clear(2) list.set_map map_update_where)

text \<open>The active rows of the pipeline hold exactly the configurations saved.\<close>

lemma saved_actives:
  assumes "row_config ` set (actives p (fst rn)) = set cs" and "config_name c \<notin> config_name ` set cs"
    and "\<And>r. r \<in> set (actives p (fst rn)) \<Longrightarrow> row_name r = config_name (row_config r)"
  shows "row_config ` set (actives p (fst (saved p c rn))) = set (cs @ [c])"
    and "r \<in> set (actives p (fst (saved p c rn))) \<Longrightarrow> row_name r = config_name (row_config r)"
proof -
  obtain rows n where rn: "rn = (rows, n)" by fastforce
  have no: "\<not> found c p r" if "r \<in> set rows" "row_pipeline r = p" "row_active r" for r
  proof
    have r: "r \<in> set (actives p (fst rn))" using that by (simp add: actives_def rn)
    assume "found c p r"
    then have "config_name (row_config r) = config_name c" using assms(3) [OF r] by (simp add: found_def)
    moreover have "row_config r \<in> set cs" using assms(1) r by blast
    ultimately show False using assms(2) by (metis imageI)
  qed
  have "set (actives p (fst (saved p c rn))) = set (actives p rows) \<union> {r \<in> set (fst (saved p c rn)). row_config r = c \<and> row_pipeline r = p \<and> row_active r \<and> row_name r = config_name c}" (is "_ = _ \<union> ?new")
  proof (cases "\<exists>r \<in> set rows. found c p r")
    case True
    then show ?thesis using no by (auto simp: actives_def saved_def rn in_update_where row_laws found_def split: if_splits)
  next
    case False
    then show ?thesis by (auto simp: actives_def saved_def rn row_laws)
  qed
  moreover have "?new \<noteq> {}"
  proof (cases "\<exists>r \<in> set rows. found c p r")
    case True
    then obtain r where "r \<in> set rows" "found c p r" by blast
    then have "set_config c r \<in> ?new" by (auto simp: saved_def rn in_update_where row_laws found_def)
    then show ?thesis by blast
  next
    case False
    then have "make n c p \<in> ?new" by (simp add: saved_def rn row_laws)
    then show ?thesis by blast
  qed
  ultimately show "row_config ` set (actives p (fst (saved p c rn))) = set (cs @ [c])"
    and "r \<in> set (actives p (fst (saved p c rn))) \<Longrightarrow> row_name r = config_name (row_config r)"
    using assms(1) assms(3) [of r] by (auto simp: rn)
qed

lemma saved_all_actives:
  assumes "actives p (fst rn) = []" and "distinct (map config_name cs)"
  shows "row_config ` set (actives p (fst (saved_all p cs rn))) = set cs \<and>
    (\<forall>r \<in> set (actives p (fst (saved_all p cs rn))). row_name r = config_name (row_config r))"
  using assms(2)
proof (induction cs rule: rev_induct)
  case Nil
  then show ?case using assms(1) by (simp add: saved_all_def)
next
  case (snoc c cs)
  let ?rn = "saved_all p cs rn"
  have d: "distinct (map config_name cs)" "config_name c \<notin> config_name ` set cs" using snoc.prems by simp_all
  note ih = snoc.IH [OF d(1)]
  note s = saved_actives [OF conjunct1 [OF ih] d(2) bspec [OF conjunct2 [OF ih]]]
  show ?case unfolding saved_all_snoc using s by blast
qed

lemma actives_cleared: "actives p (cleared p rows) = []"
  unfolding actives_def filter_empty_conv cleared_def by (simp add: ball_update_where row_laws)

lemma saved_all_mset:
  assumes "actives p (fst rn) = []" and "distinct (map config_name cs)" and "names_ok (fst rn)"
  shows "mset (map row_config (actives p (fst (saved_all p cs rn)))) = mset cs"
proof -
  let ?a = "actives p (fst (saved_all p cs rn))"
  have a: "row_config ` set ?a = set cs" "\<forall>r \<in> set ?a. row_name r = config_name (row_config r)"
    using saved_all_actives [OF assms(1,2)] by auto
  have "inj_on (\<lambda>r. (row_pipeline r, row_name r)) (set ?a)" "distinct ?a"
    using names_ok_saved_all [OF assms(3), of p cs] by (auto simp: names_ok_def actives_def distinct_map intro: inj_on_subset)
  then have "inj_on row_config (set ?a)" using a(2) by (auto simp: inj_on_def actives_def)
  then have "distinct (map row_config ?a)" using \<open>distinct ?a\<close> by (simp add: distinct_map)
  moreover have "distinct cs" using assms(2) by (simp add: distinct_map)
  ultimately show ?thesis by (metis a(1) list.set_map set_eq_iff_mset_eq_distinct)
qed

text \<open>In a new pipeline the rows follow the order of the configurations.\<close>

lemma saved_all_fresh:
  assumes "\<And>r. r \<in> set (fst rn) \<Longrightarrow> row_pipeline r \<noteq> p" and "distinct (map config_name cs)"
  shows "saved_all p cs rn = (fst rn @ map (\<lambda>(i, c). make (snd rn + int i) c p) (enumerate 0 cs), snd rn + int (length cs))"
  using assms(2)
proof (induction cs rule: rev_induct)
  case Nil
  then show ?case by (simp add: saved_all_def)
next
  case (snoc c cs)
  have d: "distinct (map config_name cs)" "config_name c \<notin> config_name ` set cs" using snoc.prems by simp_all
  note ih = snoc.IH [OF d(1)]
  have "\<not> found c p r" if "r \<in> set (fst (saved_all p cs rn))" for r
  proof -
    from that consider "r \<in> set (fst rn)" | i c' where "(i, c') \<in> set (enumerate 0 cs)" "r = make (snd rn + int i) c' p"
      unfolding ih by auto
    then show ?thesis
    proof cases
      case 1
      then show ?thesis using assms(1) by (simp add: found_def)
    next
      case 2
      then have "c' \<in> set cs" by (auto simp: enumerate_eq_zip dest: set_zip_rightD)
      then have "config_name c' \<noteq> config_name c" using d(2) by (metis imageI)
      then show ?thesis using 2(2) by (simp add: found_def row_laws)
    qed
  qed
  then have "saved p c (saved_all p cs rn) = (fst (saved_all p cs rn) @ [make (snd (saved_all p cs rn)) c p], snd (saved_all p cs rn) + 1)"
    by (auto simp: saved_def split: prod.splits)
  then show ?case unfolding saved_all_snoc ih by (simp add: enumerate_append_eq)
qed

end

section \<open>The tables\<close>

interpretation job_rows: configured_rows j_id j_pipeline_id j_name j_active j_config
    "\<lambda>j. (j_paused j, j_inputs_determined j, j_max_in_flight_reached j, j_build_number_seq j, j_first_logged_build_id j)"
    job_Name "\<lambda>c j. j\<lparr>j_config := c, j_interruptible := job_Interruptible c, j_active := True\<rparr>" "\<lambda>j. j\<lparr>j_active := False\<rparr>" new_job
  by unfold_locales (simp_all add: new_job_def)

interpretation resource_rows: configured_rows r_id r_pipeline_id r_name r_active r_config
    "\<lambda>r. (r_paused r, r_check_error r, r_last_checked r, r_resource_config_id r)"
    resource_Name "\<lambda>c r. r\<lparr>r_config := c, r_active := True\<rparr>" "\<lambda>r. r\<lparr>r_active := False\<rparr>" new_resource
  by unfold_locales (simp_all add: new_resource_def)

interpretation type_rows: configured_rows y_id y_pipeline_id y_name y_active y_config
    "\<lambda>y. (y_version y, y_last_checked y, y_resource_config_id y)"
    rt_Name "\<lambda>c y. y\<lparr>y_config := c, y_type := rt_Type c, y_active := True\<rparr>" "\<lambda>y. y\<lparr>y_active := False\<rparr>" new_resource_type
  by unfold_locales (simp_all add: new_resource_type_def)

definition with_jobs :: "job_row list \<times> int \<Rightarrow> tables \<Rightarrow> tables" where
  "with_jobs rn t = t\<lparr>t_jobs := fst rn, t_next_job_id := snd rn\<rparr>"

definition with_resources :: "resource_row list \<times> int \<Rightarrow> tables \<Rightarrow> tables" where
  "with_resources rn t = t\<lparr>t_resources := fst rn, t_next_resource_id := snd rn\<rparr>"

definition with_types :: "resource_type_row list \<times> int \<Rightarrow> tables \<Rightarrow> tables" where
  "with_types rn t = t\<lparr>t_resource_types := fst rn, t_next_type_id := snd rn\<rparr>"

abbreviation jobs_of :: "tables \<Rightarrow> job_row list \<times> int" where
  "jobs_of t \<equiv> (t_jobs t, t_next_job_id t)"

abbreviation resources_of :: "tables \<Rightarrow> resource_row list \<times> int" where
  "resources_of t \<equiv> (t_resources t, t_next_resource_id t)"

abbreviation types_of :: "tables \<Rightarrow> resource_type_row list \<times> int" where
  "types_of t \<equiv> (t_resource_types t, t_next_type_id t)"

lemmas with_defs = with_jobs_def with_resources_def with_types_def

lemma unique_names_iff:
  "unique_job_names t = job_rows.names_ok (t_jobs t)"
  "unique_resource_names t = resource_rows.names_ok (t_resources t)"
  "unique_type_names t = type_rows.names_ok (t_resource_types t)"
  by (simp_all add: unique_job_names_def job_rows.names_ok_def unique_resource_names_def resource_rows.names_ok_def
      unique_type_names_def type_rows.names_ok_def)

lemma post_exec_unique:
  "Q (Inl SqlError) t \<Longrightarrow> (unique (f t) \<Longrightarrow> Q (Inr ()) (f t)) \<Longrightarrow> (\<not> unique (f t) \<Longrightarrow> Q (Inl UniqueViolation) t) \<Longrightarrow>
   post (exec_unique unique f) t Q"
  unfolding exec_unique_def by (rule post_bind, rule post_stmt) (auto intro: post_return post_fail)

lemma post_swallow:
  "post m t (\<lambda>r. case r of Inl UniqueViolation \<Rightarrow> Q (Inr ()) | _ \<Rightarrow> Q r) \<Longrightarrow> post (swallowUniqueViolation m) t Q"
  unfolding post_def [of "swallowUniqueViolation m"]
proof (intro allI impI)
  fix s :: db assume p: "post m t (\<lambda>r. case r of Inl UniqueViolation \<Rightarrow> Q (Inr ()) | _ \<Rightarrow> Q r)" and s: "db_tables s = t"
  obtain r s' where m: "m s = (r, s')" by fastforce
  from postD [OF p m s] show "Q (fst (swallowUniqueViolation m s)) (db_tables (snd (swallowUniqueViolation m s)))"
    by (cases r; cases "projl r") (simp_all add: swallowUniqueViolation_def m)
qed

text \<open>
  An update of the rows of a name or, when there are none, an insertion: the unique index never refuses it.
\<close>

lemma post_upsert:
  assumes "(\<exists>r \<in> set (rows t). P r) \<Longrightarrow> Q (Inr ()) (upd t)"
    and "\<not> (\<exists>r \<in> set (rows t). P r) \<Longrightarrow> upd t = t"
    and "\<not> (\<exists>r \<in> set (rows t). P r) \<Longrightarrow> unique (ins t) \<and> Q (Inr ()) (ins t)"
    and "\<And>t'. Q (Inl SqlError) t'"
  shows "post (d_bind (checkIfRowsUpdated (\<lambda>t. (affected P (rows t), upd t)))
    (\<lambda>updated. if updated then d_return () else swallowUniqueViolation (exec_unique unique ins))) t Q"
  unfolding checkIfRowsUpdated_def
proof (intro post_bind post_stmt post_return, goal_cases)
  case 2
  show ?case
  proof (cases "\<exists>r \<in> set (rows t). P r")
    case True
    then have "affected P (rows t) \<noteq> 0" using affected_pos [of P "rows t"] by simp
    then show ?thesis using assms(1) [OF True] by (simp add: post_return)
  next
    case False
    then have "affected P (rows t) = 0" by (simp add: affected_def filter_empty_conv)
    moreover have "post (swallowUniqueViolation (exec_unique unique ins)) t Q"
      by (rule post_swallow, rule post_exec_unique) (simp_all add: assms(3) [OF False] assms(4))
    ultimately show ?thesis using assms(2) [OF False] by (simp add: post_return)
  qed
qed (simp_all add: assms(4))

lemma post_saveResource:
  assumes "unique_resource_names t"
  shows "post (saveResource c p) t (after (\<lambda>_ t'. t' = with_resources (resource_rows.saved p c (resources_of t)) t) (\<lambda>_ _. True))"
  unfolding saveResource_def Let_def
proof (rule post_upsert, goal_cases)
  case 2
  then show ?case by (simp add: update_where_none)
next
  case 3
  then have "with_resources (resource_rows.saved p c (resources_of t)) t =
      t\<lparr>t_resources := t_resources t @ [new_resource (t_next_resource_id t) c p], t_next_resource_id := t_next_resource_id t + 1\<rparr>"
    by (auto simp: with_resources_def resource_rows.saved_def resource_rows.found_def)
  moreover have "unique_resource_names (with_resources (resource_rows.saved p c (resources_of t)) t)"
    using assms resource_rows.names_ok_saved [of "resources_of t"] by (simp add: unique_names_iff with_resources_def)
  ultimately show ?case by simp
qed (auto simp: with_resources_def resource_rows.saved_def resource_rows.found_def [abs_def])

lemma post_saveResourceType:
  assumes "unique_type_names t"
  shows "post (saveResourceType c p) t (after (\<lambda>_ t'. t' = with_types (type_rows.saved p c (types_of t)) t) (\<lambda>_ _. True))"
  unfolding saveResourceType_def Let_def
proof (rule post_upsert, goal_cases)
  case 2
  then show ?case by (simp add: update_where_none)
next
  case 3
  then have "with_types (type_rows.saved p c (types_of t)) t =
      t\<lparr>t_resource_types := t_resource_types t @ [new_resource_type (t_next_type_id t) c p], t_next_type_id := t_next_type_id t + 1\<rparr>"
    by (auto simp: with_types_def type_rows.saved_def type_rows.found_def)
  moreover have "unique_type_names (with_types (type_rows.saved p c (types_of t)) t)"
    using assms type_rows.names_ok_saved [of "types_of t"] by (simp add: unique_names_iff with_types_def)
  ultimately show ?case by simp
qed (auto simp: with_types_def type_rows.saved_def type_rows.found_def [abs_def])

lemma post_saveJob:
  assumes "unique_job_names t"
  shows "post (saveJob c p) t (after (\<lambda>_ t'. t' = with_jobs (job_rows.saved p c (jobs_of t)) t) (\<lambda>_ _. True))"
  unfolding saveJob_def Let_def
proof (rule post_upsert, goal_cases)
  case 2
  then show ?case by (simp add: update_where_none)
next
  case 3
  then have "with_jobs (job_rows.saved p c (jobs_of t)) t =
      t\<lparr>t_jobs := t_jobs t @ [new_job (t_next_job_id t) c p], t_next_job_id := t_next_job_id t + 1\<rparr>"
    by (auto simp: with_jobs_def job_rows.saved_def job_rows.found_def)
  moreover have "unique_job_names (with_jobs (job_rows.saved p c (jobs_of t)) t)"
    using assms job_rows.names_ok_saved [of "jobs_of t"] by (simp add: unique_names_iff with_jobs_def)
  ultimately show ?case by simp
qed (auto simp: with_jobs_def job_rows.saved_def job_rows.found_def [abs_def])

text \<open>The loops over the configurations.\<close>

lemma post_saveResources:
  assumes "unique_resource_names t"
  shows "post (d_each (\<lambda>c. saveResource c p) cs) t
    (after (\<lambda>_ t'. t' = with_resources (resource_rows.saved_all p cs (resources_of t)) t) (\<lambda>_ _. True))"
proof (rule post_each [where I = "\<lambda>ds t'. t' = with_resources (resource_rows.saved_all p ds (resources_of t)) t"])
  fix c ds t' assume t': "t' = with_resources (resource_rows.saved_all p ds (resources_of t)) t"
  then have "unique_resource_names t'" using assms resource_rows.names_ok_saved_all [of "resources_of t"] by (simp add: unique_names_iff with_resources_def)
  then show "post (saveResource c p) t' (after (\<lambda>_ t''. t'' = with_resources (resource_rows.saved_all p (ds @ [c]) (resources_of t)) t)
      (\<lambda>e. after (\<lambda>_ t'. t' = with_resources (resource_rows.saved_all p cs (resources_of t)) t) (\<lambda>_ _. True) (Inl e)))"
    by (rule post_mono [OF post_saveResource]) (auto simp: after_def t' resource_rows.saved_all_snoc with_resources_def split: sum.splits)
qed (simp_all add: resource_rows.saved_all_def with_resources_def)

lemma post_saveResourceTypes:
  assumes "unique_type_names t"
  shows "post (d_each (\<lambda>c. saveResourceType c p) cs) t
    (after (\<lambda>_ t'. t' = with_types (type_rows.saved_all p cs (types_of t)) t) (\<lambda>_ _. True))"
proof (rule post_each [where I = "\<lambda>ds t'. t' = with_types (type_rows.saved_all p ds (types_of t)) t"])
  fix c ds t' assume t': "t' = with_types (type_rows.saved_all p ds (types_of t)) t"
  then have "unique_type_names t'" using assms type_rows.names_ok_saved_all [of "types_of t"] by (simp add: unique_names_iff with_types_def)
  then show "post (saveResourceType c p) t' (after (\<lambda>_ t''. t'' = with_types (type_rows.saved_all p (ds @ [c]) (types_of t)) t)
      (\<lambda>e. after (\<lambda>_ t'. t' = with_types (type_rows.saved_all p cs (types_of t)) t) (\<lambda>_ _. True) (Inl e)))"
    by (rule post_mono [OF post_saveResourceType]) (auto simp: after_def t' type_rows.saved_all_snoc with_types_def split: sum.splits)
qed (simp_all add: type_rows.saved_all_def with_types_def)

text \<open>A job is saved with its serial groups.\<close>

definition registered :: "int \<Rightarrow> string \<Rightarrow> string \<Rightarrow> tables \<Rightarrow> tables" where
  "registered p n g t =
     (case find (\<lambda>j. j_name j = n \<and> j_pipeline_id j = p \<and> (\<exists>q \<in> set (t_pipelines t). p_id q = j_pipeline_id j)) (t_jobs t) of
        None \<Rightarrow> t
      | Some j \<Rightarrow> t\<lparr>t_serial_groups := t_serial_groups t @ [(j_id j, g)]\<rparr>)"

definition job_saved :: "int \<Rightarrow> JobConfig \<Rightarrow> tables \<Rightarrow> tables" where
  "job_saved p c t = fold (registered p (job_Name c)) (job_SerialGroups c) (with_jobs (job_rows.saved p c (jobs_of t)) t)"

lemma registered_groups: "registered p n g t = t\<lparr>t_serial_groups := t_serial_groups (registered p n g t)\<rparr>"
  by (auto simp: registered_def split: option.splits)

lemma fold_registered_groups:
  "fold (registered p n) gs t = t\<lparr>t_serial_groups := t_serial_groups (fold (registered p n) gs t)\<rparr>"
proof (induction gs rule: rev_induct)
  case (snoc g gs)
  let ?t = "fold (registered p n) gs t"
  show ?case using registered_groups [of p n g ?t] snoc.IH by simp (metis tables.surjective tables.update_convs(3))
qed simp

lemma post_register: "post (registerSerialGroup n g p) t (after (\<lambda>_ t'. t' = registered p n g t) (\<lambda>_ _. True))"
  unfolding registerSerialGroup_def by (rule post_swallow, rule post_exec) (simp_all add: registered_def)

lemma post_register_all:
  "post (d_each (\<lambda>g. registerSerialGroup n g p) gs) t (after (\<lambda>_ t'. t' = fold (registered p n) gs t) (\<lambda>_ _. True))"
  by (rule post_each [where I = "\<lambda>ds t'. t' = fold (registered p n) ds t"], simp, rule post_mono [OF post_register])
    (auto simp: after_def split: sum.splits)

lemma unique_job_saved: "unique_job_names t \<Longrightarrow> unique_job_names (job_saved p c t)"
  using job_rows.names_ok_saved [of "jobs_of t" p c]
  unfolding job_saved_def by (subst fold_registered_groups) (simp add: unique_names_iff with_jobs_def)

lemma post_saveJobs:
  assumes "unique_job_names t"
  shows "post (d_each (\<lambda>c. d_seq (saveJob c p) (d_each (\<lambda>g. registerSerialGroup (job_Name c) g p) (job_SerialGroups c))) cs) t
    (after (\<lambda>_ t'. t' = fold (job_saved p) cs t) (\<lambda>_ _. True))"
proof (rule post_each [where I = "\<lambda>ds t'. t' = fold (job_saved p) ds t \<and> unique_job_names t'"])
  fix c ds t' assume t': "t' = fold (job_saved p) ds t \<and> unique_job_names t'"
  have "post (d_seq (saveJob c p) (d_each (\<lambda>g. registerSerialGroup (job_Name c) g p) (job_SerialGroups c))) t'
      (after (\<lambda>_ t''. t'' = job_saved p c t') (\<lambda>_ _. True))"
    using t' by (intro post_seq, elim conjE) (rule post_mono [OF post_saveJob], assumption,
        auto simp: after_def job_saved_def split: sum.splits intro!: post_mono [OF post_register_all])
  then show "post (d_seq (saveJob c p) (d_each (\<lambda>g. registerSerialGroup (job_Name c) g p) (job_SerialGroups c))) t'
      (after (\<lambda>_ t''. t'' = fold (job_saved p) (ds @ [c]) t \<and> unique_job_names t'')
        (\<lambda>e. after (\<lambda>_ t'. t' = fold (job_saved p) cs t) (\<lambda>_ _. True) (Inl e)))"
    by (rule post_mono) (use t' unique_job_saved in \<open>auto simp: after_def split: sum.splits\<close>)
qed (simp_all add: assms)

text \<open>What \<open>SavePipeline\<close> does to the tables, once it has the pipeline.\<close>

definition deactivated :: "int \<Rightarrow> tables \<Rightarrow> tables" where
  "deactivated p t =
     t\<lparr>t_jobs := job_rows.cleared p (t_jobs t), t_resources := resource_rows.cleared p (t_resources t),
       t_resource_types := type_rows.cleared p (t_resource_types t),
       t_serial_groups := filter (\<lambda>(i, _). \<not> (\<exists>j \<in> set (t_jobs t). j_id j = i \<and> j_pipeline_id j = p)) (t_serial_groups t)\<rparr>"

definition config_stored :: "int \<Rightarrow> Config \<Rightarrow> tables \<Rightarrow> tables" where
  "config_stored p config t =
     (let t1 = with_resources (resource_rows.saved_all p (cfg_Resources config) (resources_of t)) t;
          t2 = with_types (type_rows.saved_all p (cfg_ResourceTypes config) (types_of t)) t1;
          t3 = fold (job_saved p) (cfg_Jobs config) t2
      in t3\<lparr>t_task_caches := filter (\<lambda>c. \<not> unused_cache p (task_steps (cfg_Jobs config)) t3 c) (t_task_caches t3)\<rparr>)"

text \<open>The jobs are saved as the other rows are; only their serial groups are added to that.\<close>

lemma fold_job_saved:
  "fold (job_saved p) cs t = (with_jobs (job_rows.saved_all p cs (jobs_of t)) t)\<lparr>t_serial_groups := t_serial_groups (fold (job_saved p) cs t)\<rparr>"
proof (induction cs rule: rev_induct)
  case Nil
  then show ?case by (simp add: job_rows.saved_all_def with_jobs_def)
next
  case (snoc c cs)
  let ?t = "fold (job_saved p) cs t"
  have j: "jobs_of ?t = job_rows.saved_all p cs (jobs_of t)" by (subst (1 2) snoc.IH) (simp add: with_jobs_def)
  have "job_saved p c ?t = (with_jobs (job_rows.saved p c (jobs_of ?t)) ?t)\<lparr>t_serial_groups := t_serial_groups (job_saved p c ?t)\<rparr>"
    unfolding job_saved_def by (subst fold_registered_groups) simp
  then have "job_saved p c ?t = (with_jobs (job_rows.saved p c (jobs_of ?t)) (with_jobs (job_rows.saved_all p cs (jobs_of t)) t))
      \<lparr>t_serial_groups := t_serial_groups (job_saved p c ?t)\<rparr>"
    by (subst (asm) (3) snoc.IH) (simp add: with_jobs_def)
  then show ?case by (simp add: j job_rows.saved_all_snoc with_jobs_def)
qed

definition names_unique :: "tables \<Rightarrow> bool" where
  "names_unique t \<longleftrightarrow> unique_job_names t \<and> unique_resource_names t \<and> unique_type_names t"

definition pipeline_exists :: "team_row \<Rightarrow> string \<Rightarrow> tables \<Rightarrow> bool" where
  "pipeline_exists tm name t \<longleftrightarrow> (\<exists>p \<in> set (t_pipelines t). p_name p = name \<and> p_team_id p = tm_id tm)"

text \<open>The pipeline row that is inserted or updated, and the tables after that.\<close>

definition pipeline_stored :: "team_row \<Rightarrow> string \<Rightarrow> GroupConfig list \<Rightarrow> int \<Rightarrow> PipelinePausedState \<Rightarrow> tables \<Rightarrow> (int \<times> tables) option" where
  "pipeline_stored tm name groups from ps t =
     (if pipeline_exists tm name t
      then (case update_config tm name groups from ps t of
              (None, _) \<Rightarrow> None | (Some p, t') \<Rightarrow> Some (p, deactivated p t'))
      else (case insert_pipeline tm name groups (ps \<noteq> PipelineUnpaused) t of
              (None, _) \<Rightarrow> None | (Some p, t') \<Rightarrow> Some (p, t')))"

lemma post_deactivate: "post (deactivate p) t (after (\<lambda>_ t'. t' = deactivated p t) (\<lambda>_ _. True))"
  unfolding deactivate_def
  by (intro post_seq post_exec; simp)+ (simp add: deactivated_def job_rows.cleared_def resource_rows.cleared_def type_rows.cleared_def)

lemma touch_post: "post m t Q \<Longrightarrow> Q (Inl SqlError) t \<Longrightarrow> post (d_seq touch m) t Q"
  unfolding touch_def by (rule post_seq, rule post_query) simp_all

lemma post_create_pipeline:
  "\<not> pipeline_exists tm name t \<Longrightarrow>
   post (create_pipeline tm name groups ps) t (after (\<lambda>p t'. pipeline_stored tm name groups from ps t = Some (p, t')) (\<lambda>_ _. True))"
  unfolding create_pipeline_def Let_def
  by (rule post_bind, rule post_stmt)
    (cases ps; auto simp: pipeline_stored_def insert_pipeline_def intro!: post_return post_fail touch_post)+

lemma post_replace_config:
  "pipeline_exists tm name t \<Longrightarrow>
   post (replace_config tm name groups from ps) t (after (\<lambda>p t'. pipeline_stored tm name groups from ps t = Some (p, t')) (\<lambda>_ _. True))"
  unfolding replace_config_def
  by (rule post_bind, rule post_stmt)
    (auto simp: pipeline_stored_def update_config_def split: option.splits
      intro!: post_return post_fail post_seq post_mono [OF post_deactivate], auto simp: after_def post_return split: sum.splits)

lemma names_unique_stored:
  assumes "names_unique t" and "pipeline_stored tm name groups from ps t = Some (p, t')"
  shows "names_unique t'"
  using assms unfolding names_unique_def unique_names_iff
  by (auto simp: pipeline_stored_def update_config_def insert_pipeline_def deactivated_def job_rows.names_ok_cleared
      resource_rows.names_ok_cleared type_rows.names_ok_cleared split: option.splits if_splits)

lemma post_store_config:
  assumes "names_unique t"
    and "\<And>x. find (\<lambda>q. p_id q = p) (t_pipelines (config_stored p config t)) = Some x \<Longrightarrow> Q (Inr (x, b)) (config_stored p config t)"
    and "\<And>e t'. Q (Inl e) t'"
  shows "post (d_seq (d_each (\<lambda>resource. saveResource resource p) (cfg_Resources config))
       (d_seq (d_each (\<lambda>resourceType. saveResourceType resourceType p) (cfg_ResourceTypes config))
       (d_seq (d_each (\<lambda>job. d_seq (saveJob job p)
                 (d_each (\<lambda>sg. registerSerialGroup (job_Name job) sg p) (job_SerialGroups job))) (cfg_Jobs config))
       (d_seq (removeUnusedWorkerTaskCaches p (cfg_Jobs config))
       (d_bind (query_row (\<lambda>t. find (\<lambda>q. p_id q = p) (t_pipelines t))) (\<lambda>pipeline.
        d_return (pipeline, b))))))) t Q"
  using assms(1) unfolding names_unique_def
  apply (elim conjE)
  apply (rule post_seq, rule post_mono [OF post_saveResources], assumption)
  apply (simp add: after_def assms(3) split: sum.splits)
  apply (rule post_seq, rule post_mono [OF post_saveResourceTypes])
   apply (simp add: unique_type_names_def with_resources_def)
  apply (simp add: after_def assms(3) split: sum.splits)
  apply (rule post_seq, rule post_mono [OF post_saveJobs])
   apply (simp add: unique_job_names_def with_resources_def with_types_def)
  apply (simp add: after_def assms(3) split: sum.splits)
  apply (unfold removeUnusedWorkerTaskCaches_def)
  apply (intro post_seq post_exec)
   apply (simp add: assms(3))
  apply (simp only: after_simps)
  apply (intro post_bind post_query_row)
    apply (simp_all add: assms(3))
  apply (rule post_return)
  apply (use assms(2) in \<open>simp add: config_stored_def Let_def with_resources_def\<close>)
  done

lemma post_SavePipeline:
  assumes "names_unique t"
  shows "post (SavePipeline tm name config from ps) t (after
    (\<lambda>(pl, created) t'. created = (\<not> pipeline_exists tm name t) \<and>
       (\<exists>p t1. pipeline_stored tm name (cfg_Groups config) from ps t = Some (p, t1) \<and> t' = config_stored p config t1 \<and>
          find (\<lambda>q. p_id q = p) (t_pipelines t') = Some pl)) (\<lambda>_ t'. t' = t))"
proof -
  have a: "(affected (\<lambda>p. p_name p = name \<and> p_team_id p = tm_id tm) (t_pipelines t) = 0) = (\<not> pipeline_exists tm name t)"
    by (auto simp: pipeline_exists_def affected_def filter_empty_conv)
  let ?row = "if affected (\<lambda>p. p_name p = name \<and> p_team_id p = tm_id tm) (t_pipelines t) = 0
     then create_pipeline tm name (cfg_Groups config) ps else replace_config tm name (cfg_Groups config) from ps"
  have r: "post ?row t (after (\<lambda>p t'. pipeline_stored tm name (cfg_Groups config) from ps t = Some (p, t')) (\<lambda>_ _. True))"
    unfolding a using post_create_pipeline post_replace_config by simp
  show ?thesis
    unfolding SavePipeline_def
    apply (rule post_tx, simp, rule post_committed, rule post_bind, rule post_query, simp)
    apply (simp only: after_simps)
    apply (rule post_bind, rule post_mono [OF r])
    apply (case_tac r; simp)
    apply (rule post_store_config)
      apply (rule names_unique_stored [OF assms], assumption)
     apply (auto simp: a)
    done
qed

end
