(* ===== verification/Api_Auth.thy ===== *)
theory Api_Auth
  imports Pipeline_DB Validate
begin

text \<open>
  Authentication and authorization of API requests: \<open>api/auth\<close>. A handler answers a request and may run
  database operations; the handlers of this theory decide whether the handler they wrap is called.

  A request carries its method, headers, cookies, the pairs of its URL query (to which the router has added
  the path parameters), its body and its context. Only what the handlers read of it is represented. The
  parser and verifier of JSON web tokens is an argument.
\<close>

section \<open>Requests and replies\<close>

text \<open>
  A pipeline configuration as a request carries it: what the decoders of JSON and YAML and the library that
  fills the configuration from their result make of the text. A configuration comes with the keys that nothing
  was filled from; a text that cannot be parsed is missing. In a multipart body it is a part, beside a part that
  says whether the pipeline is paused; the flag says that the parts end in an error.
\<close>

datatype decoded = Undecodable | Decoded Config "string list"

datatype content = BadContentType | UnsupportedContent | JsonContent "decoded option" | YamlContent "decoded option" | MultipartContent "part list" bool
  and part = PausedPart "string option" | ConfigPart content

text \<open>
  The body as its content type and text make it: a form in the URL encoding, a multipart form, a JSON object
  with a name, a configuration, or something else.
\<close>

datatype body = FormBody "(string \<times> string) list" | MultipartBody "(string \<times> string) list" | NameBody string | ConfigBody content | OtherBody

text \<open>The values of the request's context, by key.\<close>

record req_context =
  cx_logger :: bool
  cx_CSRFRequired :: "bool option"
  cx_authenticated :: "bool option"
  cx_teamName :: "string option"
  cx_isAdmin :: "bool option"
  cx_system :: "bool option"
  cx_build :: "api_build option"
  cx_pipeline :: "pipeline_row option"

record request =
  rq_Method :: string
  rq_Header :: "(string \<times> string) list"
  rq_Cookies :: "(string \<times> string) list"
  rq_Query :: "(string \<times> string) list"
  rq_Body :: body
  rq_Context :: req_context

datatype payload =
    NoPayload
  | PipelineList "pipeline_row list"
  | SaveConfigResponse "string list" "Warning list"
  | FailedToSave dberror
  | ConfigResponse Config int

text \<open>An HTTP status with a payload, or a panic of the handler, which the HTTP server recovers from.\<close>

datatype reply = Reply nat payload | Crashed string

abbreviation Status :: "nat \<Rightarrow> reply" where
  "Status n \<equiv> Reply n NoPayload"

type_synonym handler = "request \<Rightarrow> db \<Rightarrow> reply \<times> db"

text \<open>\<open>url.Values.Get\<close> and \<open>http.Header.Get\<close>: the first value, or the empty string.\<close>

definition values_Get :: "(string \<times> string) list \<Rightarrow> string \<Rightarrow> string" where
  "values_Get kvs k = (case map_of kvs k of None \<Rightarrow> [] | Some v \<Rightarrow> v)"

definition Header_Get :: "request \<Rightarrow> string \<Rightarrow> string" where
  "Header_Get r k = values_Get (rq_Header r) k"

definition Query_Get :: "request \<Rightarrow> string \<Rightarrow> string" where
  "Query_Get r k = values_Get (rq_Query r) k"

text \<open>
  \<open>r.Form\<close>: for POST, PUT and PATCH the fields of a form in the body come before those of the URL query;
  the fields of a multipart form come last.
\<close>

definition body_fields :: "request \<Rightarrow> (string \<times> string) list" where
  "body_fields r =
     (if rq_Method r \<in> {''POST'', ''PUT'', ''PATCH''} then (case rq_Body r of FormBody fs \<Rightarrow> fs | _ \<Rightarrow> []) else [])"

definition multipart_fields :: "request \<Rightarrow> (string \<times> string) list" where
  "multipart_fields r = (case rq_Body r of MultipartBody fs \<Rightarrow> fs | _ \<Rightarrow> [])"

definition FormValue :: "request \<Rightarrow> string \<Rightarrow> string" where
  "FormValue r k = values_Get (body_fields r @ rq_Query r @ multipart_fields r) k"

definition with_context :: "(req_context \<Rightarrow> req_context) \<Rightarrow> request \<Rightarrow> request" where
  "with_context f r = r\<lparr>rq_Context := f (rq_Context r)\<rparr>"

text \<open>
  The two shapes of a handler's database calls: an error is answered with 500, a missing row with the given
  status.
\<close>

definition run_then :: "'a dbm \<Rightarrow> ('a \<Rightarrow> db \<Rightarrow> reply \<times> db) \<Rightarrow> db \<Rightarrow> reply \<times> db" where
  "run_then m k s = (case m s of (Inl _, s') \<Rightarrow> (Status 500, s') | (Inr x, s') \<Rightarrow> k x s')"

definition lookup_then :: "'a option dbm \<Rightarrow> nat \<Rightarrow> ('a \<Rightarrow> db \<Rightarrow> reply \<times> db) \<Rightarrow> db \<Rightarrow> reply \<times> db" where
  "lookup_then m missing k = run_then m (\<lambda>r s. case r of None \<Rightarrow> (Status missing, s) | Some x \<Rightarrow> k x s)"

definition answer :: "nat \<Rightarrow> db \<Rightarrow> reply \<times> db" where
  "answer n s = (Status n, s)"

definition Unauthorized :: "db \<Rightarrow> reply \<times> db" where
  "Unauthorized = answer 401"

definition Forbidden :: "db \<Rightarrow> reply \<times> db" where
  "Forbidden = answer 403"

section \<open>Tokens\<close>

datatype signing_method = SigningMethodRSA string | OtherMethod string

datatype claim = ClaimString string | ClaimBool bool | OtherClaim

record token =
  tk_Method :: signing_method
  tk_Claims :: "(string \<times> claim) list"
  tk_Valid :: bool

text \<open>\<open>jwt.Parse\<close>, given the text and the function that chooses the key, and the public key.\<close>

record 'k jwt =
  jw_Parse :: "string \<Rightarrow> (token \<Rightarrow> string + 'k) \<Rightarrow> string + token"
  jw_PublicKey :: 'k

definition choose_key :: "'k \<Rightarrow> token \<Rightarrow> string + 'k" where
  "choose_key publicKey tok =
     (case tk_Method tok of SigningMethodRSA _ \<Rightarrow> Inr publicKey | OtherMethod alg \<Rightarrow> Inl (''Unexpected signing method: '' @ alg))"

definition upper_char :: "char \<Rightarrow> char" where
  "upper_char c = (let n = (of_char c :: nat) in if 97 \<le> n \<and> n \<le> 122 then char_of (n - 32) else c)"

definition getJWT :: "'k jwt \<Rightarrow> request \<Rightarrow> string + token" where
  "getJWT j r =
     (let ah = Header_Get r ''Authorization''
      in if ah \<noteq> [] \<and> length ah > 6 \<and> map upper_char (take 6 ah) = ''BEARER''
         then jw_Parse j (drop 7 ah) (choose_key (jw_PublicKey j))
         else Inl ''unable to parse authorization header'')"

text \<open>A type assertion on a claim panics when the claim has another type.\<close>

definition as_string :: "claim \<Rightarrow> string + string" where
  "as_string c = (case c of ClaimString s \<Rightarrow> Inr s | _ \<Rightarrow> Inl ''interface conversion: not a string'')"

definition as_bool :: "claim \<Rightarrow> string + bool" where
  "as_bool c = (case c of ClaimBool b \<Rightarrow> Inr b | _ \<Rightarrow> Inl ''interface conversion: not a bool'')"

definition reader_GetTeam :: "'k jwt \<Rightarrow> request \<Rightarrow> string + (string \<times> bool) option" where
  "reader_GetTeam j r =
     (case getJWT j r of
        Inl _ \<Rightarrow> Inr None
      | Inr tok \<Rightarrow>
          (case (map_of (tk_Claims tok) ''teamName'', map_of (tk_Claims tok) ''isAdmin'') of
             (Some n, Some a) \<Rightarrow>
               (case as_string n of Inl e \<Rightarrow> Inl e
                | Inr teamName \<Rightarrow> (case as_bool a of Inl e \<Rightarrow> Inl e | Inr isAdmin \<Rightarrow> Inr (Some (teamName, isAdmin))))
           | _ \<Rightarrow> Inr None))"

definition reader_GetSystem :: "'k jwt \<Rightarrow> request \<Rightarrow> string + bool option" where
  "reader_GetSystem j r =
     (case getJWT j r of
        Inl _ \<Rightarrow> Inr None
      | Inr tok \<Rightarrow>
          (case map_of (tk_Claims tok) ''system'' of
             None \<Rightarrow> Inr None
           | Some c \<Rightarrow> (case as_bool c of Inl e \<Rightarrow> Inl e | Inr b \<Rightarrow> Inr (Some b))))"

definition reader_GetCSRFToken :: "'k jwt \<Rightarrow> request \<Rightarrow> string + string option" where
  "reader_GetCSRFToken j r =
     (case getJWT j r of
        Inl _ \<Rightarrow> Inr None
      | Inr tok \<Rightarrow>
          (case map_of (tk_Claims tok) ''csrf'' of
             None \<Rightarrow> Inr None
           | Some c \<Rightarrow> (case as_string c of Inl e \<Rightarrow> Inl e | Inr csrf \<Rightarrow> Inr (Some csrf))))"

definition validator_IsAuthenticated :: "'k jwt \<Rightarrow> request \<Rightarrow> bool" where
  "validator_IsAuthenticated j r = (case getJWT j r of Inl _ \<Rightarrow> False | Inr tok \<Rightarrow> tk_Valid tok)"

section \<open>What the context says\<close>

record auth_team =
  at_name :: string
  at_isAdmin :: bool

definition IsAdmin :: "request \<Rightarrow> bool" where
  "IsAdmin r \<longleftrightarrow> cx_isAdmin (rq_Context r) = Some True"

definition IsSystem :: "request \<Rightarrow> bool" where
  "IsSystem r \<longleftrightarrow> cx_system (rq_Context r) = Some True"

definition IsAuthenticated :: "request \<Rightarrow> bool" where
  "IsAuthenticated r \<longleftrightarrow> cx_authenticated (rq_Context r) = Some True"

definition GetTeam :: "request \<Rightarrow> auth_team option" where
  "GetTeam r =
     (case (cx_teamName (rq_Context r), cx_isAdmin (rq_Context r)) of
        (Some teamName, Some isAdmin) \<Rightarrow> Some \<lparr>at_name = teamName, at_isAdmin = isAdmin\<rparr>
      | _ \<Rightarrow> None)"

definition team_IsAuthorized :: "auth_team \<Rightarrow> string \<Rightarrow> bool" where
  "team_IsAuthorized at teamName \<longleftrightarrow> at_name at = teamName"

definition IsAuthorized :: "request \<Rightarrow> bool" where
  "IsAuthorized r \<longleftrightarrow> (case GetTeam r of None \<Rightarrow> False | Some at \<Rightarrow> team_IsAuthorized at (Query_Get r '':team_name''))"

section \<open>Handlers\<close>

definition CookieSetHandler :: "handler \<Rightarrow> handler" where
  "CookieSetHandler h r =
     (case map_of (rq_Cookies r) ''ATC-Authorization'' of
        None \<Rightarrow> h r
      | Some cookie \<Rightarrow>
          (let r1 = with_context (\<lambda>c. c\<lparr>cx_CSRFRequired := Some True\<rparr>) r
           in h (if Header_Get r1 ''Authorization'' = []
                 then r1\<lparr>rq_Header := AList.update ''Authorization'' cookie (rq_Header r1)\<rparr> else r1)))"

definition WrapHandler :: "'k jwt \<Rightarrow> handler \<Rightarrow> handler" where
  "WrapHandler j h r s =
     (let r1 = with_context (\<lambda>c. c\<lparr>cx_authenticated := Some (validator_IsAuthenticated j r)\<rparr>) r
      in case reader_GetTeam j r of
           Inl e \<Rightarrow> (Crashed e, s)
         | Inr team \<Rightarrow>
             (let r2 = (case team of None \<Rightarrow> r1
                        | Some (teamName, isAdmin) \<Rightarrow> with_context (\<lambda>c. c\<lparr>cx_teamName := Some teamName, cx_isAdmin := Some isAdmin\<rparr>) r1)
              in case reader_GetSystem j r of
                   Inl e \<Rightarrow> (Crashed e, s)
                 | Inr sys \<Rightarrow>
                     h (case sys of None \<Rightarrow> r2 | Some isSystem \<Rightarrow> with_context (\<lambda>c. c\<lparr>cx_system := Some isSystem\<rparr>) r2) s))"

definition CSRFValidationHandler :: "'k jwt \<Rightarrow> handler \<Rightarrow> handler" where
  "CSRFValidationHandler j h r s =
     (if \<not> cx_logger (rq_Context r) then (Crashed ''logger is not set in request context for csrf validation handler'', s)
      else if rq_Method r \<noteq> ''GET'' \<and> rq_Method r \<noteq> ''HEAD'' \<and> rq_Method r \<noteq> ''OPTIONS'' \<and>
              cx_CSRFRequired (rq_Context r) = Some True
      then (if Header_Get r ''X-Csrf-Token'' = [] then Unauthorized s
            else case reader_GetCSRFToken j r of
                   Inl e \<Rightarrow> (Crashed e, s)
                 | Inr None \<Rightarrow> Unauthorized s
                 | Inr (Some csrf) \<Rightarrow> if csrf \<noteq> Header_Get r ''X-Csrf-Token'' then Unauthorized s else h r s)
      else h r s)"

definition CheckAuthenticationHandler :: "handler \<Rightarrow> handler" where
  "CheckAuthenticationHandler h r s = (if IsAuthenticated r then h r s else Unauthorized s)"

definition CheckAdminHandler :: "handler \<Rightarrow> handler" where
  "CheckAdminHandler h r s = (if IsAuthenticated r then (if IsAdmin r then h r s else Forbidden s) else Unauthorized s)"

definition CheckAuthorizationHandler :: "handler \<Rightarrow> handler" where
  "CheckAuthorizationHandler h r s =
     (if \<not> IsAuthenticated r then Unauthorized s else if \<not> IsAuthorized r then Forbidden s else h r s)"

definition checkPipelineAccessHandler :: "handler \<Rightarrow> handler" where
  "checkPipelineAccessHandler h r =
     lookup_then (FindTeam (FormValue r '':team_name'')) 404 (\<lambda>team.
     lookup_then (team_Pipeline team (FormValue r '':pipeline_name'')) 404 (\<lambda>pipeline s.
       if IsAuthorized r \<or> p_public pipeline then h (with_context (\<lambda>c. c\<lparr>cx_pipeline := Some pipeline\<rparr>) r) s
       else if IsAuthenticated r then Forbidden s else Unauthorized s))"

text \<open>The rejection of a reader who is logged in, or not.\<close>

definition reject_reader :: "request \<Rightarrow> db \<Rightarrow> reply \<times> db" where
  "reject_reader r = (if IsAuthenticated r then Forbidden else Unauthorized)"

definition checkBuildReadAccessHandler :: "bool \<Rightarrow> handler \<Rightarrow> handler" where
  "checkBuildReadAccessHandler allowPrivateJob h r s =
     (case strconv_Atoi (FormValue r '':build_id'') of
        None \<Rightarrow> answer 400 s
      | Some buildID \<Rightarrow>
          lookup_then (buildFactory_Build buildID) 404 (\<lambda>build.
            let pass = h (with_context (\<lambda>c. c\<lparr>cx_build := Some build\<rparr>) r)
            in if \<not> IsAuthenticated r \<or> (case GetTeam r of None \<Rightarrow> False | Some at \<Rightarrow> \<not> team_IsAuthorized at (ab_teamName build))
               then lookup_then (build_Pipeline (ab_row build)) 401 (\<lambda>pipeline.
                 if \<not> p_public pipeline then reject_reader r
                 else if \<not> allowPrivateJob
                 then lookup_then (pipeline_Job pipeline (ab_jobName build)) 404
                        (\<lambda>job. if \<not> job_Public (jb_config job) then reject_reader r else pass)
                 else pass)
               else pass) s)"

definition checkBuildWriteAccessHandler :: "handler \<Rightarrow> handler" where
  "checkBuildWriteAccessHandler h r s =
     (if \<not> IsAuthenticated r then Unauthorized s
      else case strconv_Atoi (FormValue r '':build_id'') of
             None \<Rightarrow> answer 400 s
           | Some buildID \<Rightarrow>
               lookup_then (buildFactory_Build buildID) 404 (\<lambda>build s'.
                 if (case GetTeam r of None \<Rightarrow> False | Some at \<Rightarrow> \<not> team_IsAuthorized at (ab_teamName build)) then Forbidden s'
                 else h (with_context (\<lambda>c. c\<lparr>cx_build := Some build\<rparr>) r) s') s)"

definition checkWorkerTeamHandler :: "handler \<Rightarrow> handler" where
  "checkWorkerTeamHandler h r s =
     (if \<not> IsAuthenticated r then Unauthorized s
      else if IsSystem r then h r s
      else case GetTeam r of
             None \<Rightarrow> Unauthorized s
           | Some team \<Rightarrow>
               if at_isAdmin team then h r s
               else lookup_then (GetWorker (FormValue r '':worker_name'')) 404 (\<lambda>worker s'.
                 if aw_teamName worker \<noteq> at_name team then Forbidden s' else h r s') s)"

end
