(* ===== verification/Config_Server.thy ===== *)
theory Config_Server
  imports Api_Auth
begin

text \<open>
  The handlers that save and return the configuration of a pipeline: \<open>api/configserver\<close>. The libraries that
  parse and decode the request are not modelled: a request carries what they make of its body.
\<close>

section \<open>Decoding a request\<close>

datatype config_error =
    ErrStatusUnsupportedMediaType
  | ErrCannotParseContentType
  | ErrMalformedRequestPayload
  | ErrCouldNotDecode
  | ErrInvalidPausedValue
  | ExtraKeysError "string list"
  | PartError

text \<open>The structure decoded so far is the one argument the parts share; a later part replaces it.\<close>

fun requestToConfig :: "content \<Rightarrow> decoded \<Rightarrow> (config_error + PipelinePausedState) \<times> decoded"
  and multipart_loop :: "part list \<Rightarrow> bool \<Rightarrow> PipelinePausedState \<Rightarrow> decoded \<Rightarrow> (config_error + PipelinePausedState) \<times> decoded" where
  "requestToConfig BadContentType d = (Inl ErrCannotParseContentType, d)"
| "requestToConfig UnsupportedContent d = (Inl ErrStatusUnsupportedMediaType, d)"
| "requestToConfig (JsonContent x) d = (case x of None \<Rightarrow> (Inl ErrMalformedRequestPayload, d) | Some d' \<Rightarrow> (Inr PipelineNoChange, d'))"
| "requestToConfig (YamlContent x) d = (case x of None \<Rightarrow> (Inl ErrMalformedRequestPayload, d) | Some d' \<Rightarrow> (Inr PipelineNoChange, d'))"
| "requestToConfig (MultipartContent parts broken) d = multipart_loop parts broken PipelineNoChange d"
| "multipart_loop [] broken pausedState d = (if broken then Inl PartError else Inr pausedState, d)"
| "multipart_loop (PausedPart v # parts) broken pausedState d =
     (case v of
        None \<Rightarrow> (Inl PartError, d)
      | Some pausedValue \<Rightarrow>
          if pausedValue = ''true'' then multipart_loop parts broken PipelinePaused d
          else if pausedValue = ''false'' then multipart_loop parts broken PipelineUnpaused d
          else (Inl ErrInvalidPausedValue, d))"
| "multipart_loop (ConfigPart c # parts) broken pausedState d =
     (case requestToConfig c d of
        (Inl _, d') \<Rightarrow> (Inl ErrMalformedRequestPayload, d')
      | (Inr _, d') \<Rightarrow> multipart_loop parts broken pausedState d')"

definition zero_config :: Config where
  "zero_config = \<lparr>cfg_Groups = [], cfg_Resources = [], cfg_ResourceTypes = [], cfg_Jobs = []\<rparr>"

text \<open>Only keys below the top level that nothing was filled from are refused.\<close>

definition saveConfigRequestUnmarshaler :: "content \<Rightarrow> config_error + Config \<times> PipelinePausedState" where
  "saveConfigRequestUnmarshaler c =
     (case requestToConfig c (Decoded zero_config []) of
        (Inl e, _) \<Rightarrow> Inl e
      | (Inr pausedState, Undecodable) \<Rightarrow> Inl ErrCouldNotDecode
      | (Inr pausedState, Decoded config unused) \<Rightarrow>
          let nestedUnused = filter (\<lambda>k. CHR 0x2E \<in> set k) unused
          in if length nestedUnused \<noteq> 0 then Inl (ExtraKeysError nestedUnused) else Inr (config, pausedState))"

text \<open>A body that is no configuration: a form has an unsupported type, a JSON object with a name fills nothing.\<close>

definition body_content :: "body \<Rightarrow> content" where
  "body_content b =
     (case b of
        ConfigBody c \<Rightarrow> c
      | MultipartBody kvs \<Rightarrow> MultipartContent (map (\<lambda>(k, v). if k = ''paused'' then PausedPart (Some v) else ConfigPart UnsupportedContent) kvs) False
      | NameBody n \<Rightarrow> JsonContent (Some (Decoded zero_config [''name'']))
      | _ \<Rightarrow> UnsupportedContent)"

text \<open>\<open>fmt.Sscanf\<close> with \<open>%d\<close>: blanks, a sign and the digits up to the first other character.\<close>

definition Sscanf_d :: "string \<Rightarrow> string + int" where
  "Sscanf_d str =
     (let s = dropWhile (\<lambda>c. c = CHR '' '' \<or> c = CHR 0x09) str;
          sign = takeWhile (\<lambda>c. c = minus_char \<or> c = CHR 0x2B) (take 1 s);
          ds = takeWhile (\<lambda>c. of_char c \<in> {48..57 :: nat}) (drop (length sign) s)
      in if s = [] then Inl ''unexpected EOF''
         else if ds = [] then Inl ''expected integer''
         else (case strconv_Atoi (sign @ ds) of
                 None \<Rightarrow> Inl (''strconv.ParseInt: parsing '' @ quoted (sign @ ds) @ '': value out of range'')
               | Some i \<Rightarrow> Inr i))"

section \<open>Handlers\<close>

definition ConfigVersionHeader :: string where
  "ConfigVersionHeader = ''X-Concourse-Config-Version''"

definition handleBadRequest :: "string list \<Rightarrow> db \<Rightarrow> reply \<times> db" where
  "handleBadRequest errorMessages s = (Reply 400 (SaveConfigResponse errorMessages []), s)"

definition ExtraKeysError_Error :: "string list \<Rightarrow> string" where
  "ExtraKeysError_Error extraKeys = ''unknown/extra keys:'' @ newline @ concat (map (\<lambda>k. ''  - '' @ k @ newline) extraKeys)"

definition SaveConfig :: handler where
  "SaveConfig r s =
     (let configVersionStr = Header_Get r ConfigVersionHeader
      in case (if length configVersionStr \<noteq> 0 then Sscanf_d configVersionStr else Inr 0) of
           Inl e \<Rightarrow> handleBadRequest [''config version is malformed: '' @ e] s
         | Inr version \<Rightarrow>
             (case saveConfigRequestUnmarshaler (body_content (rq_Body r)) of
                Inl ErrStatusUnsupportedMediaType \<Rightarrow> answer 415 s
              | Inl ErrMalformedRequestPayload \<Rightarrow> handleBadRequest [''malformed config''] s
              | Inl ErrCouldNotDecode \<Rightarrow> handleBadRequest [''failed to decode config''] s
              | Inl ErrInvalidPausedValue \<Rightarrow> handleBadRequest [''invalid paused value''] s
              | Inl (ExtraKeysError ks) \<Rightarrow> handleBadRequest [ExtraKeysError_Error ks] s
              | Inl _ \<Rightarrow> answer 500 s
              | Inr (config, pausedState) \<Rightarrow>
                  (case Config_Validate config of
                     (warnings, errorMessages) \<Rightarrow>
                       if length errorMessages > 0 then handleBadRequest errorMessages s
                       else lookup_then (FindTeam (Query_Get r '':team_name'')) 500 (\<lambda>team s.
                         case SavePipeline team (Query_Get r '':pipeline_name'') config version pausedState s of
                           (Inl e, s') \<Rightarrow> (Reply 500 (FailedToSave e), s')
                         | (Inr (_, created), s') \<Rightarrow> (Reply (if created then 201 else 200) (SaveConfigResponse [] warnings), s')) s)))"

definition GetConfig :: handler where
  "GetConfig r =
     lookup_then (FindTeam (Query_Get r '':team_name'')) 404 (\<lambda>team.
     lookup_then (team_Pipeline team (Query_Get r '':pipeline_name'')) 404 (\<lambda>pipeline.
     run_then (pipeline_Jobs pipeline) (\<lambda>jobs.
     run_then (pipeline_Resources pipeline) (\<lambda>resources.
     run_then (pipeline_ResourceTypes pipeline) (\<lambda>resourceTypes s.
       (Reply 200 (ConfigResponse \<lparr>cfg_Groups = p_groups pipeline, cfg_Resources = Resources_Configs resources,
           cfg_ResourceTypes = ResourceTypes_Configs resourceTypes, cfg_Jobs = Jobs_Configs jobs\<rparr> (p_version pipeline)), s))))))"

end
