(* ===== verification/Api_Server.thy ===== *)
theory Api_Server
  imports Config_Server Db_Engine
begin

text \<open>
  The API: its routes (\<open>routes.go\<close>), the handlers that look up the pipeline, build or team a request is about
  (\<open>api/pipelineserver\<close>, \<open>api/buildserver\<close>, \<open>api/team_scoped_handler_factory.go\<close>), the handlers of pipelines,
  jobs, versions, workers and teams that change the database (those of configurations are in their own theory),
  the table of handlers (\<open>api/handler.go\<close>), the choice of the check each route gets
  (\<open>wrappa/api_auth_wrappa.go\<close>) and the handlers around it (\<open>atccmd/command.go\<close>). Handlers that are not
  modelled are arguments, by route: what is shown of the checks holds whatever they do.
\<close>

section \<open>Scoped handlers\<close>

definition pipeline_HandlerFor :: "(pipeline_row \<Rightarrow> handler) \<Rightarrow> handler" where
  "pipeline_HandlerFor h r =
     (case cx_pipeline (rq_Context r) of
        Some pipeline \<Rightarrow> h pipeline r
      | None \<Rightarrow>
          lookup_then (FindTeam (FormValue r '':team_name'')) 404 (\<lambda>team.
          lookup_then (team_Pipeline team (FormValue r '':pipeline_name'')) 404 (\<lambda>pipeline. h pipeline r)))"

definition build_HandlerFor :: "(api_build \<Rightarrow> handler) \<Rightarrow> handler" where
  "build_HandlerFor h r s = (case cx_build (rq_Context r) of None \<Rightarrow> answer 500 s | Some build \<Rightarrow> h build r s)"

definition team_HandlerFor :: "(team_row \<Rightarrow> handler) \<Rightarrow> handler" where
  "team_HandlerFor h r s =
     (case GetTeam r of
        None \<Rightarrow> answer 500 s
      | Some authTeam \<Rightarrow> lookup_then (FindTeam (at_name authTeam)) 404 (\<lambda>team. h team r) s)"

section \<open>Pipelines\<close>

definition PausePipeline :: "pipeline_row \<Rightarrow> handler" where
  "PausePipeline p r = run_then (pipeline_Pause p) (\<lambda>_. answer 200)"

definition UnpausePipeline :: "pipeline_row \<Rightarrow> handler" where
  "UnpausePipeline p r = run_then (pipeline_Unpause p) (\<lambda>_. answer 200)"

definition ExposePipeline :: "pipeline_row \<Rightarrow> handler" where
  "ExposePipeline p r = run_then (pipeline_Expose p) (\<lambda>_. answer 200)"

definition HidePipeline :: "pipeline_row \<Rightarrow> handler" where
  "HidePipeline p r = run_then (pipeline_Hide p) (\<lambda>_. answer 200)"

text \<open>The form has been read, so a body that is a form is gone when the name is decoded.\<close>

definition RenamePipeline :: "pipeline_row \<Rightarrow> handler" where
  "RenamePipeline p r s =
     (case rq_Body r of
        NameBody name \<Rightarrow> run_then (pipeline_Rename p name) (\<lambda>_. answer 204) s
      | _ \<Rightarrow> answer 500 s)"

definition DeletePipeline :: "pipeline_row \<Rightarrow> handler" where
  "DeletePipeline p r = run_then (pipeline_Destroy p) (\<lambda>_. answer 204)"

definition reply_pipelines :: "pipeline_row list \<Rightarrow> db \<Rightarrow> reply \<times> db" where
  "reply_pipelines ps s = (Reply 200 (PipelineList ps), s)"

definition ListPipelines :: handler where
  "ListPipelines r =
     (let requestTeamName = FormValue r '':team_name''
      in lookup_then (FindTeam requestTeamName) 404 (\<lambda>team.
           run_then (case GetTeam r of
               None \<Rightarrow> team_PublicPipelines team
             | Some authTeam \<Rightarrow> if team_IsAuthorized authTeam requestTeamName then team_Pipelines team else team_PublicPipelines team)
           reply_pipelines))"

definition ListAllPipelines :: handler where
  "ListAllPipelines r =
     (case GetTeam r of
        Some authTeam \<Rightarrow> lookup_then (FindTeam (at_name authTeam)) 404 (\<lambda>team. run_then (team_VisiblePipelines team) reply_pipelines)
      | None \<Rightarrow> run_then PublicPipelines reply_pipelines)"

section \<open>Jobs, versions and builds\<close>

definition PauseJob :: "pipeline_row \<Rightarrow> handler" where
  "PauseJob p r = lookup_then (pipeline_Job p (Query_Get r '':job_name'')) 404 (\<lambda>job. run_then (updatePausedJob job True) (\<lambda>_. answer 200))"

definition UnpauseJob :: "pipeline_row \<Rightarrow> handler" where
  "UnpauseJob p r = lookup_then (pipeline_Job p (Query_Get r '':job_name'')) 404 (\<lambda>job. run_then (updatePausedJob job False) (\<lambda>_. answer 200))"

definition EnableResourceVersion :: "pipeline_row \<Rightarrow> handler" where
  "EnableResourceVersion p r s =
     (case strconv_Atoi (Query_Get r '':resource_version_id'') of
        None \<Rightarrow> answer 400 s
      | Some versionedResourceID \<Rightarrow> run_then (toggleVersionedResource p versionedResourceID True) (\<lambda>_. answer 200) s)"

definition DisableResourceVersion :: "pipeline_row \<Rightarrow> handler" where
  "DisableResourceVersion p r s =
     (case strconv_Atoi (Query_Get r '':resource_version_id'') of
        None \<Rightarrow> answer 400 s
      | Some versionedResourceID \<Rightarrow> run_then (toggleVersionedResource p versionedResourceID False) (\<lambda>_. answer 200) s)"

definition AbortBuild :: "string list \<Rightarrow> lock_result \<Rightarrow> api_build \<Rightarrow> handler" where
  "AbortBuild engines lock build r = run_then (dbBuild_Abort engines lock (b_id (ab_row build))) (\<lambda>_. answer 204)"

section \<open>Workers\<close>

definition LandWorker :: handler where
  "LandWorker r = lookup_then (GetWorker (FormValue r '':worker_name'')) 404 (\<lambda>w. run_then (worker_Land (aw_row w)) (\<lambda>_. answer 200))"

definition RetireWorker :: handler where
  "RetireWorker r = lookup_then (GetWorker (FormValue r '':worker_name'')) 404 (\<lambda>w. run_then (worker_Retire (aw_row w)) (\<lambda>_. answer 200))"

definition PruneWorker :: handler where
  "PruneWorker r = lookup_then (GetWorker (FormValue r '':worker_name'')) 404 (\<lambda>w s.
     case worker_Prune (aw_row w) s of
       (Inl e, s') \<Rightarrow> answer (if e = ErrWorkerNotPresent then 404 else if e = ErrCannotPruneRunningWorker then 400 else 500) s'
     | (Inr _, s') \<Rightarrow> answer 200 s')"

definition DeleteWorker :: handler where
  "DeleteWorker r = run_then (GetWorker (FormValue r '':worker_name'')) (\<lambda>found.
     case found of
       None \<Rightarrow> answer 200
     | Some w \<Rightarrow> run_then (worker_Delete (aw_row w)) (\<lambda>_. answer 200))"

section \<open>Teams\<close>

definition RenameTeam :: handler where
  "RenameTeam r s =
     (case GetTeam r of
        None \<Rightarrow> answer 500 s
      | Some authTeam \<Rightarrow>
          (let teamName = FormValue r '':team_name''
           in if \<not> at_isAdmin authTeam \<and> \<not> team_IsAuthorized authTeam teamName then Forbidden s
              else case rq_Body r of
                     NameBody newName \<Rightarrow>
                       lookup_then (FindTeam teamName) 404 (\<lambda>team. run_then (team_Rename team newName) (\<lambda>_. answer 204)) s
                   | _ \<Rightarrow> answer 500 s))"

definition DestroyTeam :: handler where
  "DestroyTeam r s =
     (case GetTeam r of
        None \<Rightarrow> answer 500 s
      | Some authTeam \<Rightarrow>
          if \<not> at_isAdmin authTeam then Forbidden s
          else lookup_then (FindTeam (FormValue r '':team_name'')) 404 (\<lambda>team.
            let destroy = run_then (team_Delete team) (\<lambda>_. answer 204)
            in if tm_admin team
               then run_then GetTeams (\<lambda>allTeams. if length (filter tm_admin allTeams) = 1 then Forbidden else destroy)
               else destroy) s)"

section \<open>The table of handlers\<close>

text \<open>The handlers of the API, by the name of the route.\<close>

record servers =
  sv_plain :: "string \<Rightarrow> handler"
  sv_pipeline :: "string \<Rightarrow> pipeline_row \<Rightarrow> handler"
  sv_build :: "string \<Rightarrow> api_build \<Rightarrow> handler"
  sv_team :: "string \<Rightarrow> team_row \<Rightarrow> handler"

text \<open>The handlers defined above, and \<open>rest\<close> for the others.\<close>

definition atc_servers :: "string list \<Rightarrow> lock_result \<Rightarrow> servers \<Rightarrow> servers" where
  "atc_servers engines lock rest =
     \<lparr>sv_plain = (\<lambda>n. case map_of [(''GetConfig'', GetConfig), (''SaveConfig'', SaveConfig),
           (''ListPipelines'', ListPipelines), (''ListAllPipelines'', ListAllPipelines),
           (''LandWorker'', LandWorker), (''RetireWorker'', RetireWorker), (''PruneWorker'', PruneWorker),
           (''DeleteWorker'', DeleteWorker), (''RenameTeam'', RenameTeam), (''DestroyTeam'', DestroyTeam)] n of
         Some h \<Rightarrow> h | None \<Rightarrow> sv_plain rest n),
      sv_pipeline = (\<lambda>n. case map_of [(''PausePipeline'', PausePipeline), (''UnpausePipeline'', UnpausePipeline),
           (''ExposePipeline'', ExposePipeline), (''HidePipeline'', HidePipeline), (''RenamePipeline'', RenamePipeline),
           (''DeletePipeline'', DeletePipeline), (''PauseJob'', PauseJob), (''UnpauseJob'', UnpauseJob),
           (''EnableResourceVersion'', EnableResourceVersion), (''DisableResourceVersion'', DisableResourceVersion)] n of
         Some h \<Rightarrow> h | None \<Rightarrow> sv_pipeline rest n),
      sv_build = (\<lambda>n. if n = ''AbortBuild'' then AbortBuild engines lock else sv_build rest n),
      sv_team = sv_team rest\<rparr>"

datatype scope = Plain | PipelineScoped | BuildScoped | TeamScoped

definition handler_table :: "(scope \<times> string) list" where
  "handler_table = [
      (Plain, ''GetConfig''), (Plain, ''SaveConfig''), (Plain, ''ListBuilds''), (TeamScoped, ''CreateBuild''),
      (BuildScoped, ''GetBuild''), (BuildScoped, ''BuildResources''), (BuildScoped, ''AbortBuild''),
      (BuildScoped, ''GetBuildPlan''), (BuildScoped, ''GetBuildPreparation''), (BuildScoped, ''BuildEvents''),
      (PipelineScoped, ''ListJobs''), (PipelineScoped, ''GetJob''), (PipelineScoped, ''ListJobBuilds''),
      (PipelineScoped, ''ListJobInputs''), (PipelineScoped, ''GetJobBuild''), (PipelineScoped, ''CreateJobBuild''),
      (PipelineScoped, ''PauseJob''), (PipelineScoped, ''UnpauseJob''), (PipelineScoped, ''JobBadge''),
      (Plain, ''MainJobBadge''), (Plain, ''ListAllPipelines''), (Plain, ''ListPipelines''),
      (PipelineScoped, ''GetPipeline''), (PipelineScoped, ''DeletePipeline''), (Plain, ''OrderPipelines''),
      (PipelineScoped, ''PausePipeline''), (PipelineScoped, ''UnpausePipeline''), (PipelineScoped, ''ExposePipeline''),
      (PipelineScoped, ''HidePipeline''), (PipelineScoped, ''GetVersionsDB''), (PipelineScoped, ''RenamePipeline''),
      (PipelineScoped, ''CreatePipelineBuild''), (PipelineScoped, ''PipelineBadge''),
      (PipelineScoped, ''ListResources''), (PipelineScoped, ''GetResource''), (PipelineScoped, ''PauseResource''),
      (PipelineScoped, ''UnpauseResource''), (PipelineScoped, ''CheckResource''),
      (PipelineScoped, ''CheckResourceWebHook''), (PipelineScoped, ''ListResourceVersions''),
      (PipelineScoped, ''GetResourceVersion''), (PipelineScoped, ''EnableResourceVersion''),
      (PipelineScoped, ''DisableResourceVersion''), (PipelineScoped, ''ListBuildsWithVersionAsInput''),
      (PipelineScoped, ''ListBuildsWithVersionAsOutput''), (PipelineScoped, ''GetResourceCausality''),
      (Plain, ''CreatePipe''), (Plain, ''WritePipe''), (Plain, ''ReadPipe''), (TeamScoped, ''ListWorkers''),
      (Plain, ''RegisterWorker''), (Plain, ''LandWorker''), (Plain, ''RetireWorker''), (Plain, ''PruneWorker''),
      (Plain, ''HeartbeatWorker''), (Plain, ''DeleteWorker''), (Plain, ''SetLogLevel''), (Plain, ''GetLogLevel''),
      (Plain, ''DownloadCLI''), (Plain, ''Info''), (TeamScoped, ''ListContainers''), (TeamScoped, ''GetContainer''),
      (TeamScoped, ''HijackContainer''), (TeamScoped, ''ListVolumes''), (Plain, ''LegacyListAuthMethods''),
      (Plain, ''LegacyGetAuthToken''), (Plain, ''LegacyGetUser''), (Plain, ''ListTeams''), (Plain, ''SetTeam''),
      (Plain, ''RenameTeam''), (Plain, ''DestroyTeam'')]"

definition scoped_handler :: "servers \<Rightarrow> scope \<Rightarrow> string \<Rightarrow> handler" where
  "scoped_handler sv k name =
     (case k of
        Plain \<Rightarrow> sv_plain sv name
      | PipelineScoped \<Rightarrow> pipeline_HandlerFor (sv_pipeline sv name)
      | BuildScoped \<Rightarrow> build_HandlerFor (sv_build sv name)
      | TeamScoped \<Rightarrow> team_HandlerFor (sv_team sv name))"

definition api_handlers :: "servers \<Rightarrow> (string \<times> handler) list" where
  "api_handlers sv = map (\<lambda>(k, name). (name, scoped_handler sv k name)) handler_table"

definition Routes :: "(string \<times> string \<times> string) list" where
  "Routes = [
      (''/api/v1/teams/:team_name/pipelines/:pipeline_name/config'', ''PUT'', ''SaveConfig''),
      (''/api/v1/teams/:team_name/pipelines/:pipeline_name/config'', ''GET'', ''GetConfig''),
      (''/api/v1/builds'', ''POST'', ''CreateBuild''),
      (''/api/v1/builds'', ''GET'', ''ListBuilds''),
      (''/api/v1/builds/:build_id'', ''GET'', ''GetBuild''),
      (''/api/v1/builds/:build_id/plan'', ''GET'', ''GetBuildPlan''),
      (''/api/v1/builds/:build_id/events'', ''GET'', ''BuildEvents''),
      (''/api/v1/builds/:build_id/resources'', ''GET'', ''BuildResources''),
      (''/api/v1/builds/:build_id/abort'', ''PUT'', ''AbortBuild''),
      (''/api/v1/builds/:build_id/preparation'', ''GET'', ''GetBuildPreparation''),
      (''/api/v1/teams/:team_name/pipelines/:pipeline_name/jobs'', ''GET'', ''ListJobs''),
      (''/api/v1/teams/:team_name/pipelines/:pipeline_name/jobs/:job_name'', ''GET'', ''GetJob''),
      (''/api/v1/teams/:team_name/pipelines/:pipeline_name/jobs/:job_name/builds'', ''GET'', ''ListJobBuilds''),
      (''/api/v1/teams/:team_name/pipelines/:pipeline_name/jobs/:job_name/builds'', ''POST'', ''CreateJobBuild''),
      (''/api/v1/teams/:team_name/pipelines/:pipeline_name/jobs/:job_name/inputs'', ''GET'', ''ListJobInputs''),
      (''/api/v1/teams/:team_name/pipelines/:pipeline_name/jobs/:job_name/builds/:build_name'', ''GET'', ''GetJobBuild''),
      (''/api/v1/teams/:team_name/pipelines/:pipeline_name/jobs/:job_name/pause'', ''PUT'', ''PauseJob''),
      (''/api/v1/teams/:team_name/pipelines/:pipeline_name/jobs/:job_name/unpause'', ''PUT'', ''UnpauseJob''),
      (''/api/v1/teams/:team_name/pipelines/:pipeline_name/jobs/:job_name/badge'', ''GET'', ''JobBadge''),
      (''/api/v1/pipelines/:pipeline_name/jobs/:job_name/badge'', ''GET'', ''MainJobBadge''),
      (''/api/v1/pipelines'', ''GET'', ''ListAllPipelines''),
      (''/api/v1/teams/:team_name/pipelines'', ''GET'', ''ListPipelines''),
      (''/api/v1/teams/:team_name/pipelines/:pipeline_name'', ''GET'', ''GetPipeline''),
      (''/api/v1/teams/:team_name/pipelines/:pipeline_name'', ''DELETE'', ''DeletePipeline''),
      (''/api/v1/teams/:team_name/pipelines/ordering'', ''PUT'', ''OrderPipelines''),
      (''/api/v1/teams/:team_name/pipelines/:pipeline_name/pause'', ''PUT'', ''PausePipeline''),
      (''/api/v1/teams/:team_name/pipelines/:pipeline_name/unpause'', ''PUT'', ''UnpausePipeline''),
      (''/api/v1/teams/:team_name/pipelines/:pipeline_name/expose'', ''PUT'', ''ExposePipeline''),
      (''/api/v1/teams/:team_name/pipelines/:pipeline_name/hide'', ''PUT'', ''HidePipeline''),
      (''/api/v1/teams/:team_name/pipelines/:pipeline_name/versions-db'', ''GET'', ''GetVersionsDB''),
      (''/api/v1/teams/:team_name/pipelines/:pipeline_name/rename'', ''PUT'', ''RenamePipeline''),
      (''/api/v1/teams/:team_name/pipelines/:pipeline_name/builds'', ''POST'', ''CreatePipelineBuild''),
      (''/api/v1/teams/:team_name/pipelines/:pipeline_name/badge'', ''GET'', ''PipelineBadge''),
      (''/api/v1/teams/:team_name/pipelines/:pipeline_name/resources'', ''GET'', ''ListResources''),
      (''/api/v1/teams/:team_name/pipelines/:pipeline_name/resources/:resource_name'', ''GET'', ''GetResource''),
      (''/api/v1/teams/:team_name/pipelines/:pipeline_name/resources/:resource_name/pause'', ''PUT'', ''PauseResource''),
      (''/api/v1/teams/:team_name/pipelines/:pipeline_name/resources/:resource_name/unpause'', ''PUT'', ''UnpauseResource''),
      (''/api/v1/teams/:team_name/pipelines/:pipeline_name/resources/:resource_name/check'', ''POST'', ''CheckResource''),
      (''/api/v1/teams/:team_name/pipelines/:pipeline_name/resources/:resource_name/check/webhook'', ''POST'', ''CheckResourceWebHook''),
      (''/api/v1/teams/:team_name/pipelines/:pipeline_name/resources/:resource_name/versions'', ''GET'', ''ListResourceVersions''),
      (''/api/v1/teams/:team_name/pipelines/:pipeline_name/resources/:resource_name/versions/:resource_version_id'', ''GET'', ''GetResourceVersion''),
      (''/api/v1/teams/:team_name/pipelines/:pipeline_name/resources/:resource_name/versions/:resource_version_id/enable'', ''PUT'', ''EnableResourceVersion''),
      (''/api/v1/teams/:team_name/pipelines/:pipeline_name/resources/:resource_name/versions/:resource_version_id/disable'', ''PUT'', ''DisableResourceVersion''),
      (''/api/v1/teams/:team_name/pipelines/:pipeline_name/resources/:resource_name/versions/:resource_version_id/input_to'', ''GET'', ''ListBuildsWithVersionAsInput''),
      (''/api/v1/teams/:team_name/pipelines/:pipeline_name/resources/:resource_name/versions/:resource_version_id/output_of'', ''GET'', ''ListBuildsWithVersionAsOutput''),
      (''/api/v1/teams/:team_name/pipelines/:pipeline_name/resources/:resource_name/versions/:resource_version_id/causality'', ''GET'', ''GetResourceCausality''),
      (''/api/v1/pipes'', ''POST'', ''CreatePipe''),
      (''/api/v1/pipes/:pipe_id'', ''PUT'', ''WritePipe''),
      (''/api/v1/pipes/:pipe_id'', ''GET'', ''ReadPipe''),
      (''/api/v1/workers'', ''GET'', ''ListWorkers''),
      (''/api/v1/workers'', ''POST'', ''RegisterWorker''),
      (''/api/v1/workers/:worker_name/land'', ''PUT'', ''LandWorker''),
      (''/api/v1/workers/:worker_name/retire'', ''PUT'', ''RetireWorker''),
      (''/api/v1/workers/:worker_name/prune'', ''PUT'', ''PruneWorker''),
      (''/api/v1/workers/:worker_name/heartbeat'', ''PUT'', ''HeartbeatWorker''),
      (''/api/v1/workers/:worker_name'', ''DELETE'', ''DeleteWorker''),
      (''/api/v1/log-level'', ''GET'', ''GetLogLevel''),
      (''/api/v1/log-level'', ''PUT'', ''SetLogLevel''),
      (''/api/v1/cli'', ''GET'', ''DownloadCLI''),
      (''/api/v1/info'', ''GET'', ''Info''),
      (''/api/v1/containers'', ''GET'', ''ListContainers''),
      (''/api/v1/containers/:id'', ''GET'', ''GetContainer''),
      (''/api/v1/containers/:id/hijack'', ''GET'', ''HijackContainer''),
      (''/api/v1/volumes'', ''GET'', ''ListVolumes''),
      (''/api/v1/teams/:team_name/auth/methods'', ''GET'', ''LegacyListAuthMethods''),
      (''/api/v1/teams/:team_name/auth/token'', ''GET'', ''LegacyGetAuthToken''),
      (''/api/v1/user'', ''GET'', ''LegacyGetUser''),
      (''/api/v1/teams'', ''GET'', ''ListTeams''),
      (''/api/v1/teams/:team_name'', ''PUT'', ''SetTeam''),
      (''/api/v1/teams/:team_name/rename'', ''PUT'', ''RenameTeam''),
      (''/api/v1/teams/:team_name'', ''DELETE'', ''DestroyTeam'')]"

section \<open>The checks of the routes\<close>

definition open_routes :: "string list" where
  "open_routes = [
      ''DownloadCLI'', ''CheckResourceWebHook'', ''Info'', ''ListTeams'', ''ListAllPipelines'', ''ListPipelines'',
      ''ListBuilds'', ''LegacyListAuthMethods'', ''LegacyGetAuthToken'', ''LegacyGetUser'', ''MainJobBadge'']"

definition build_read_routes :: "string list" where
  "build_read_routes = [
      ''GetBuild'', ''BuildResources'', ''GetBuildPlan'']"

definition build_prepare_routes :: "string list" where
  "build_prepare_routes = [
      ''GetBuildPreparation'', ''BuildEvents'']"

definition build_write_routes :: "string list" where
  "build_write_routes = [
      ''AbortBuild'']"

definition worker_routes :: "string list" where
  "worker_routes = [
      ''PruneWorker'', ''LandWorker'', ''RetireWorker'']"

definition pipeline_read_routes :: "string list" where
  "pipeline_read_routes = [
      ''GetPipeline'', ''GetJobBuild'', ''PipelineBadge'', ''JobBadge'', ''ListJobs'', ''GetJob'', ''ListJobBuilds'',
      ''GetResource'', ''ListBuildsWithVersionAsInput'', ''ListBuildsWithVersionAsOutput'', ''GetResourceCausality'',
      ''GetResourceVersion'', ''ListResources'', ''ListResourceVersions'']"

definition authenticated_routes :: "string list" where
  "authenticated_routes = [
      ''CreateBuild'', ''CreatePipe'', ''GetContainer'', ''HijackContainer'', ''ListContainers'', ''ListWorkers'',
      ''ReadPipe'', ''RegisterWorker'', ''HeartbeatWorker'', ''DeleteWorker'', ''SetTeam'', ''RenameTeam'',
      ''DestroyTeam'', ''WritePipe'', ''ListVolumes'']"

definition admin_routes :: "string list" where
  "admin_routes = [
      ''GetLogLevel'', ''SetLogLevel'']"

definition team_routes :: "string list" where
  "team_routes = [
      ''CheckResource'', ''CreateJobBuild'', ''CreatePipelineBuild'', ''DeletePipeline'', ''DisableResourceVersion'',
      ''EnableResourceVersion'', ''GetConfig'', ''GetVersionsDB'', ''ListJobInputs'', ''OrderPipelines'',
      ''PauseJob'', ''PausePipeline'', ''PauseResource'', ''RenamePipeline'', ''UnpauseJob'', ''UnpausePipeline'',
      ''UnpauseResource'', ''ExposePipeline'', ''HidePipeline'', ''SaveConfig'']"

definition auth_switch :: "string \<Rightarrow> handler \<Rightarrow> handler option" where
  "auth_switch name h =
     (if name \<in> set open_routes then Some h
      else if name \<in> set build_read_routes then Some (checkBuildReadAccessHandler True h)
      else if name \<in> set build_prepare_routes then Some (checkBuildReadAccessHandler False h)
      else if name \<in> set build_write_routes then Some (checkBuildWriteAccessHandler h)
      else if name \<in> set worker_routes then Some (checkWorkerTeamHandler h)
      else if name \<in> set pipeline_read_routes then Some (checkPipelineAccessHandler h)
      else if name \<in> set authenticated_routes then Some (CheckAuthenticationHandler h)
      else if name \<in> set admin_routes then Some (CheckAdminHandler h)
      else if name \<in> set team_routes then Some (CheckAuthorizationHandler h)
      else None)"

text \<open>No result when the switch reaches its panic.\<close>

definition APIAuthWrappa_Wrap :: "'k jwt \<Rightarrow> (string \<times> handler) list \<Rightarrow> (string \<times> handler) list option" where
  "APIAuthWrappa_Wrap j handlers =
     those (map (\<lambda>(name, h). map_option (\<lambda>h'. (name, CSRFValidationHandler j (WrapHandler j h'))) (auth_switch name h)) handlers)"

definition LoggerHandler :: "handler \<Rightarrow> handler" where
  "LoggerHandler h r = h (with_context (\<lambda>c. c\<lparr>cx_logger := True\<rparr>) r)"

text \<open>The handlers in front of the router; the one that only sets headers of the response is left out.\<close>

definition constructHTTPHandler :: "handler \<Rightarrow> handler" where
  "constructHTTPHandler mux = LoggerHandler (CookieSetHandler mux)"

text \<open>A request enters with an empty context; the router has chosen the route.\<close>

definition no_context :: req_context where
  "no_context = \<lparr>cx_logger = False, cx_CSRFRequired = None, cx_authenticated = None, cx_teamName = None, cx_isAdmin = None,
     cx_system = None, cx_build = None, cx_pipeline = None\<rparr>"

definition serve :: "'k jwt \<Rightarrow> servers \<Rightarrow> string \<Rightarrow> handler" where
  "serve j sv name r s =
     (case APIAuthWrappa_Wrap j (api_handlers sv) of
        None \<Rightarrow> (Crashed ''you missed a spot'', s)
      | Some hs \<Rightarrow>
          (case map_of hs name of
             None \<Rightarrow> answer 404 s
           | Some h \<Rightarrow> constructHTTPHandler h (r\<lparr>rq_Context := no_context\<rparr>) s))"

end
