(* ===== verification/Api_Guards.thy ===== *)
theory Api_Guards
  imports Api_Server
begin

text \<open>
  How a request passes the handlers in front of a route: every route has a handler and a check; what the check
  sees of the token of a request; and a judgement for handlers that either refuse a request and leave the
  tables alone, or call the handler they wrap in a situation the judgement describes.
\<close>

section \<open>Serving a route\<close>

text \<open>The request as the checks see it: with a logger, and with the cookie taken for the authorization header.\<close>

definition entered :: "request \<Rightarrow> request" where
  "entered r =
     (let r1 = r\<lparr>rq_Context := no_context\<lparr>cx_logger := True\<rparr>\<rparr>
      in case map_of (rq_Cookies r) ''ATC-Authorization'' of
           None \<Rightarrow> r1
         | Some cookie \<Rightarrow>
             (let r2 = with_context (\<lambda>c. c\<lparr>cx_CSRFRequired := Some True\<rparr>) r1
              in if Header_Get r ''Authorization'' = []
                 then r2\<lparr>rq_Header := AList.update ''Authorization'' cookie (rq_Header r)\<rparr> else r2))"

lemma constructHTTPHandler_entered: "constructHTTPHandler h (r\<lparr>rq_Context := no_context\<rparr>) = h (entered r)"
  by (auto simp: constructHTTPHandler_def LoggerHandler_def CookieSetHandler_def entered_def with_context_def Header_Get_def
      Let_def split: option.split)

lemma entered_same [simp]:
  "rq_Method (entered r) = rq_Method r" "rq_Query (entered r) = rq_Query r" "rq_Body (entered r) = rq_Body r"
  by (auto simp: entered_def with_context_def Let_def split: option.split)

lemma entered_context:
  "rq_Context (entered r) = no_context\<lparr>cx_logger := True, cx_CSRFRequired :=
     (if map_of (rq_Cookies r) ''ATC-Authorization'' = None then None else Some True)\<rparr>"
  by (auto simp: entered_def with_context_def Let_def no_context_def split: option.split)

lemma those_map_Some: "(\<And>x. x \<in> set xs \<Longrightarrow> g x = Some (f x)) \<Longrightarrow> those (map g xs) = Some (map f xs)"
  by (induction xs) auto

lemma map_of_map_key: "map_of (map (\<lambda>(k, v). (k, f k v)) xs) k = map_option (f k) (map_of xs k)"
  by (induction xs) auto

lemma handler_names: "fst ` set (api_handlers sv) = snd ` set handler_table"
  by (force simp: api_handlers_def image_iff)

lemma distinct_handlers: "distinct (map snd handler_table)"
  by code_simp

lemma handler_of: "(k, n) \<in> set handler_table \<Longrightarrow> map_of (api_handlers sv) n = Some (scoped_handler sv k n)"
  using distinct_handlers
  by (intro map_of_is_SomeI) (force simp: api_handlers_def split_def o_def)+

lemma routes_checked: "list_all (\<lambda>n. n \<in> set (open_routes @ build_read_routes @ build_prepare_routes @ build_write_routes @
     worker_routes @ pipeline_read_routes @ authenticated_routes @ admin_routes @ team_routes)) (map snd handler_table)"
  by code_simp

lemma auth_switch_Some: "n \<in> fst ` set (api_handlers sv) \<Longrightarrow> \<exists>h'. auth_switch n h = Some h'"
  using routes_checked unfolding list_all_iff set_map handler_names by (auto simp: auth_switch_def)

lemma Wrap_Some:
  "APIAuthWrappa_Wrap j (api_handlers sv) =
     Some (map (\<lambda>(n, h). (n, CSRFValidationHandler j (WrapHandler j (the (auth_switch n h))))) (api_handlers sv))"
  unfolding APIAuthWrappa_Wrap_def using auth_switch_Some [of _ sv]
  by (intro those_map_Some) (force simp: image_iff split: prod.splits)

lemma serve_route:
  assumes "map_of (api_handlers sv) name = Some h" and "auth_switch name h = Some h'"
  shows "serve j sv name r s = CSRFValidationHandler j (WrapHandler j h') (entered r) s"
  using assms by (simp add: serve_def Wrap_Some map_of_map_key constructHTTPHandler_entered)

text \<open>The token of a request, the team it names and the CSRF token in it.\<close>

definition valid_token :: "'k jwt \<Rightarrow> request \<Rightarrow> token \<Rightarrow> bool" where
  "valid_token j r tok \<longleftrightarrow> getJWT j (entered r) = Inr tok \<and> tk_Valid tok"

definition token_team :: "token \<Rightarrow> (string \<times> bool) option" where
  "token_team tok =
     (case (map_of (tk_Claims tok) ''teamName'', map_of (tk_Claims tok) ''isAdmin'') of
        (Some (ClaimString n), Some (ClaimBool a)) \<Rightarrow> Some (n, a)
      | _ \<Rightarrow> None)"

definition csrf_matches :: "'k jwt \<Rightarrow> request \<Rightarrow> bool" where
  "csrf_matches j r \<longleftrightarrow>
     (case getJWT j (entered r) of
        Inl _ \<Rightarrow> False
      | Inr tok \<Rightarrow> Header_Get r ''X-Csrf-Token'' \<noteq> [] \<and> map_of (tk_Claims tok) ''csrf'' = Some (ClaimString (Header_Get r ''X-Csrf-Token'')))"

definition csrf_needed :: "request \<Rightarrow> bool" where
  "csrf_needed r \<longleftrightarrow> rq_Method r \<notin> {''GET'', ''HEAD'', ''OPTIONS''} \<and> map_of (rq_Cookies r) ''ATC-Authorization'' \<noteq> None"

text \<open>\<open>jwt.Parse\<close> returns a token without an error only when it has verified it.\<close>

definition parser_ok :: "'k jwt \<Rightarrow> bool" where
  "parser_ok j \<longleftrightarrow> (\<forall>text f tok. jw_Parse j text f = Inr tok \<longrightarrow> tk_Valid tok)"

lemma parsed_valid: "parser_ok j \<Longrightarrow> getJWT j r = Inr tok \<Longrightarrow> tk_Valid tok"
  by (auto simp: parser_ok_def getJWT_def Let_def split: if_splits)

text \<open>What a check sees of a request that was let through to it.\<close>

definition seen :: "'k jwt \<Rightarrow> request \<Rightarrow> request \<Rightarrow> bool" where
  "seen j r r' \<longleftrightarrow>
     rq_Method r' = rq_Method r \<and> rq_Query r' = rq_Query r \<and> rq_Body r' = rq_Body r \<and>
     cx_pipeline (rq_Context r') = None \<and> cx_build (rq_Context r') = None \<and>
     (IsAuthenticated r' \<longleftrightarrow> (\<exists>tok. valid_token j r tok)) \<and>
     GetTeam r' = (case getJWT j (entered r) of Inl _ \<Rightarrow> None
       | Inr tok \<Rightarrow> map_option (\<lambda>(n, a). \<lparr>at_name = n, at_isAdmin = a\<rparr>) (token_team tok))"

lemma entered_csrf_header: "Header_Get (entered r) ''X-Csrf-Token'' = Header_Get r ''X-Csrf-Token''"
  by (auto simp: entered_def with_context_def Let_def Header_Get_def values_Get_def split: option.split)

lemma reader_team: "reader_GetTeam j q = Inr t \<Longrightarrow> t = (case getJWT j q of Inl _ \<Rightarrow> None | Inr tok \<Rightarrow> token_team tok)"
  by (auto simp: reader_GetTeam_def token_team_def as_string_def as_bool_def split: sum.splits option.splits claim.splits)

lemma WrapHandler_outcome:
  assumes "WrapHandler j h (entered r) s = (rep, s')"
  shows "(s' = s \<and> (\<exists>e. rep = Crashed e)) \<or> (\<exists>r'. seen j r r' \<and> h r' s = (rep, s'))"
proof (cases "reader_GetTeam j (entered r)")
  case (Inl e)
  then show ?thesis using assms by (auto simp: WrapHandler_def)
next
  case (Inr team)
  note t = reader_team [OF this]
  show ?thesis
  proof (cases "reader_GetSystem j (entered r)")
    case (Inl e)
    then show ?thesis using assms Inr by (auto simp: WrapHandler_def Let_def)
  next
    case sys: (Inr system)
    show ?thesis using assms Inr sys unfolding t
      by (intro disjI2 exI [of _ "with_context (\<lambda>c. c\<lparr>cx_authenticated := Some (validator_IsAuthenticated j (entered r)),
            cx_teamName := map_option fst team, cx_isAdmin := map_option snd team, cx_system := system\<rparr>) (entered r)"])
        (auto simp: WrapHandler_def Let_def seen_def with_context_def entered_context no_context_def IsAuthenticated_def GetTeam_def
          validator_IsAuthenticated_def valid_token_def t split: option.splits sum.splits prod.splits)
  qed
qed

lemma checks_outcome:
  assumes "CSRFValidationHandler j (WrapHandler j h) (entered r) s = (rep, s')"
  obtains (rejected) "s' = s" "rep = Status 401 \<or> (\<exists>e. rep = Crashed e)"
  | (passed) r' where "csrf_needed r \<Longrightarrow> csrf_matches j r" "seen j r r'" "h r' s = (rep, s')"
proof -
  consider "s' = s" "rep = Status 401 \<or> (\<exists>e. rep = Crashed e)"
    | "csrf_needed r \<longrightarrow> csrf_matches j r" "WrapHandler j h (entered r) s = (rep, s')"
    using assms
    by (cases "csrf_needed r")
      (auto simp: CSRFValidationHandler_def entered_context entered_csrf_header reader_GetCSRFToken_def as_string_def csrf_needed_def
        csrf_matches_def Unauthorized_def answer_def no_context_def split: if_splits sum.splits option.splits claim.splits)
  then show ?thesis
  proof cases
    case 1
    then show ?thesis by (rule rejected)
  next
    case 2
    from WrapHandler_outcome [OF 2(2)] show ?thesis
    proof
      assume "s' = s \<and> (\<exists>e. rep = Crashed e)"
      then show ?thesis by (intro rejected) auto
    next
      assume "\<exists>r'. seen j r r' \<and> h r' s = (rep, s')"
      with 2(1) show ?thesis using passed by blast
    qed
  qed
qed

lemma checks_pass:
  assumes "csrf_needed r \<longrightarrow> csrf_matches j r" and "getJWT j (entered r) = Inr tok" and "token_team tok = Some team"
    and "map_of (tk_Claims tok) ''system'' \<in> {None, Some (ClaimBool True), Some (ClaimBool False)}"
  obtains r' where "seen j r r'" "CSRFValidationHandler j (WrapHandler j h) (entered r) s = h r' s"
proof -
  have t: "\<exists>t. reader_GetTeam j (entered r) = Inr t"
    using assms(2,3) by (auto simp: reader_GetTeam_def token_team_def as_string_def as_bool_def split: option.splits claim.splits)
  have y: "\<exists>y. reader_GetSystem j (entered r) = Inr y"
    using assms(2,4) by (auto simp: reader_GetSystem_def as_bool_def)
  have c: "CSRFValidationHandler j (WrapHandler j h) (entered r) s = WrapHandler j h (entered r) s"
    using assms(1,2)
    by (auto simp: CSRFValidationHandler_def entered_context entered_csrf_header reader_GetCSRFToken_def as_string_def csrf_needed_def
        csrf_matches_def no_context_def)
  from t y obtain r' where r': "\<And>g s. WrapHandler j g (entered r) s = g r' s"
    by (auto simp: WrapHandler_def Let_def)
  have "seen j r r'"
    using WrapHandler_outcome [of j "\<lambda>q s. (Reply 0 (if q = r' then NoPayload else PipelineList []), s\<lparr>db_ticks := Suc (db_ticks s)\<rparr>)" r s, OF r']
    by (auto split: if_splits)
  then show ?thesis using that c r' by simp
qed

section \<open>Refusals\<close>

text \<open>The answers of a request that was not served.\<close>

definition refused :: "reply \<Rightarrow> bool" where
  "refused rep \<longleftrightarrow> (\<exists>n \<in> {400, 401, 403, 404, 500}. rep = Status n) \<or> (\<exists>e. rep = Crashed e)"

lemma refused_simps [simp]: "refused (Status 400)" "refused (Status 401)" "refused (Status 403)" "refused (Status 404)" "refused (Status 500)"
    "refused (Crashed e)"
  by (simp_all add: refused_def)

lemmas answer_simps = answer_def Unauthorized_def Forbidden_def

text \<open>
  Started from the tables \<open>t\<close>, the handler refuses without changing the tables, or its result satisfies \<open>Q\<close>.
\<close>

definition guarded :: "(db \<Rightarrow> reply \<times> db) \<Rightarrow> tables \<Rightarrow> (reply \<times> db \<Rightarrow> bool) \<Rightarrow> bool" where
  "guarded f t Q \<longleftrightarrow> (\<forall>s. db_tables s = t \<longrightarrow> db_tables (snd (f s)) = t \<and> refused (fst (f s)) \<or> Q (f s))"

lemma guardedD: "guarded f (db_tables s) Q \<Longrightarrow> f s = (rep, s') \<Longrightarrow> db_tables s' = db_tables s \<and> refused rep \<or> Q (rep, s')"
  by (auto simp: guarded_def)

lemma guarded_mono: "guarded f t P \<Longrightarrow> (\<And>x. P x \<Longrightarrow> Q x) \<Longrightarrow> guarded f t Q"
  unfolding guarded_def by blast

lemma guarded_call: "(\<And>s. db_tables s = t \<Longrightarrow> Q (f s)) \<Longrightarrow> guarded f t Q"
  by (simp add: guarded_def)

lemma guarded_answer [simp]:
  "refused (Status n) \<Longrightarrow> guarded (answer n) t Q" "guarded Unauthorized t Q" "guarded Forbidden t Q"
  by (simp_all add: guarded_def answer_simps)

lemma guarded_if:
  assumes "b \<Longrightarrow> guarded f t Q" and "\<not> b \<Longrightarrow> guarded g t Q"
  shows "guarded (if b then f else g) t Q" "guarded (\<lambda>s. if b then f s else g s) t Q"
  using assms by (cases b; simp)+

lemma guarded_lookup:
  assumes "post m t (\<lambda>x t'. t' = t \<and> (\<forall>y. x = Inr (Some y) \<longrightarrow> guarded (k y) t Q))" and "refused (Status n)"
  shows "guarded (lookup_then m n k) t Q"
  unfolding guarded_def
proof (intro allI impI)
  fix s :: db assume s: "db_tables s = t"
  obtain x s1 where m: "m s = (x, s1)" by fastforce
  note p = postD [OF assms(1) m s]
  show "db_tables (snd (lookup_then m n k s)) = t \<and> refused (fst (lookup_then m n k s)) \<or> Q (lookup_then m n k s)"
    using p assms(2) by (cases x) (auto simp: lookup_then_def run_then_def m guarded_def split: option.splits)
qed

lemma guarded_query: "(\<And>x. f t = Some x \<Longrightarrow> guarded (k x) t Q) \<Longrightarrow> refused (Status n) \<Longrightarrow> guarded (lookup_then (query f) n k) t Q"
  by (intro guarded_lookup post_query) auto

lemma checks_guarded:
  assumes "\<And>r'. seen j r r' \<Longrightarrow> csrf_needed r \<longrightarrow> csrf_matches j r \<Longrightarrow> guarded (h r') t Q"
  shows "guarded (CSRFValidationHandler j (WrapHandler j h) (entered r)) t Q"
  unfolding guarded_def
proof (intro allI impI)
  fix s :: db assume s: "db_tables s = t"
  obtain rep s' where c: "CSRFValidationHandler j (WrapHandler j h) (entered r) s = (rep, s')" by fastforce
  then show "db_tables (snd (CSRFValidationHandler j (WrapHandler j h) (entered r) s)) = t \<and>
      refused (fst (CSRFValidationHandler j (WrapHandler j h) (entered r) s)) \<or> Q (CSRFValidationHandler j (WrapHandler j h) (entered r) s)"
  proof (cases rule: checks_outcome)
    case rejected
    then show ?thesis using s c by auto
  next
    case (passed r')
    with guardedD [OF assms [OF passed(2), unfolded s [symmetric]] passed(3)] show ?thesis using c s by auto
  qed
qed

section \<open>Pipelines and builds that requests name\<close>

lemma FormValue_query:
  assumes "k \<in> fst ` set (rq_Query r)" and "k \<notin> fst ` set (body_fields r)"
  shows "FormValue r k = Query_Get r k"
proof -
  obtain v where "map_of (rq_Query r) k = Some v" using assms(1) by (metis domD dom_map_of_conv_image_fst)
  moreover have "map_of (body_fields r) k = None" using assms(2) by (simp add: map_of_eq_None_iff)
  ultimately show ?thesis by (simp add: FormValue_def Query_Get_def values_Get_def map_add_def)
qed

lemma seen_FormValue: "seen j r r' \<Longrightarrow> FormValue r' k = FormValue r k"
proof -
  assume s: "seen j r r'"
  then have "body_fields r' = body_fields r" "multipart_fields r' = multipart_fields r"
    unfolding body_fields_def multipart_fields_def by (simp_all add: seen_def)
  with s show ?thesis by (simp add: FormValue_def seen_def)
qed

text \<open>The pipeline of that name of the team of that name.\<close>

definition named_pipeline :: "tables \<Rightarrow> string \<Rightarrow> string \<Rightarrow> team_row \<Rightarrow> pipeline_row \<Rightarrow> bool" where
  "named_pipeline t teamName pipelineName tm p \<longleftrightarrow>
     tm \<in> set (t_teams t) \<and> strings_ToLower (tm_name tm) = strings_ToLower teamName \<and>
     p \<in> set (t_pipelines t) \<and> p_team_id p = tm_id tm \<and> p_name p = pipelineName"

lemma guarded_pipeline:
  assumes "\<And>tm p. named_pipeline t teamName pipelineName tm p \<Longrightarrow> guarded (k p) t Q"
  shows "guarded (lookup_then (FindTeam teamName) 404 (\<lambda>tm. lookup_then (team_Pipeline tm pipelineName) 404 k)) t Q"
  unfolding FindTeam_def team_Pipeline_def
  by (intro guarded_query assms) (auto simp: named_pipeline_def dest: find_sat)

lemma lookup_pipeline_sure:
  assumes "healthy s" and "find (\<lambda>tm. strings_ToLower (tm_name tm) = strings_ToLower teamName) (t_teams (db_tables s)) = Some tm"
    and "find (\<lambda>p. p_team_id p = tm_id tm \<and> p_name p = pipelineName) (t_pipelines (db_tables s)) = Some p"
  shows "\<exists>s1. lookup_then (FindTeam teamName) 404 (\<lambda>tm. lookup_then (team_Pipeline tm pipelineName) 404 k) s = k p s1 \<and>
    db_tables s1 = db_tables s \<and> healthy s1"
  using assms by (auto simp: lookup_then_def run_then_def FindTeam_def team_Pipeline_def query_def stmt_def healthy_def Let_def)

text \<open>The build of that id, with the names of its team and job.\<close>

definition named_build :: "tables \<Rightarrow> int \<Rightarrow> api_build \<Rightarrow> bool" where
  "named_build t i build \<longleftrightarrow>
     ab_row build \<in> set (t_builds t) \<and> b_id (ab_row build) = i \<and> team_name_of t (b_team_id (ab_row build)) = Some (ab_teamName build) \<and>
     ab_jobName build = (case find (\<lambda>j. j_id j = b_job_id (ab_row build)) (t_jobs t) of None \<Rightarrow> [] | Some j \<Rightarrow> j_name j)"

lemma guarded_build:
  assumes "\<And>build. named_build t i build \<Longrightarrow> guarded (k build) t Q"
  shows "guarded (lookup_then (buildFactory_Build i) 404 k) t Q"
proof (rule guarded_lookup)
  show "post (buildFactory_Build i) t (\<lambda>x t'. t' = t \<and> (\<forall>y. x = Inr (Some y) \<longrightarrow> guarded (k y) t Q))"
    unfolding buildFactory_Build_def
    by (intro post_bind post_query)
      (auto simp: named_build_def intro!: post_return post_fail assms split: option.split dest: find_sat)
qed simp

end
