(* ===== verification/Api_Checks.thy ===== *)
theory Api_Checks
  imports Api_Guards
begin

text \<open>
  The contract the checks of \<open>api/auth\<close> share: a check refuses a request, or calls the handler with a request
  it allows. What it allows is described for each check; the locale carries the contract to the served route.
\<close>

section \<open>The contract\<close>

locale access_check =
  fixes check :: "handler \<Rightarrow> handler" and allows :: "tables \<Rightarrow> request \<Rightarrow> request \<Rightarrow> bool"
  assumes check_guarded: "(\<And>r' s. allows t r r' \<Longrightarrow> db_tables s = t \<Longrightarrow> Q (h r' s)) \<Longrightarrow> guarded (check h r) t Q"
begin

text \<open>
  A route with the check refuses a request without changing the tables, or calls its handler: with the CSRF
  token where one is needed, and with a request the check allows.
\<close>

lemma route:
  assumes "map_of (api_handlers sv) name = Some h" and "auth_switch name h = Some (check h)" and "serve j sv name r s = (rep, s')"
  obtains (refusal) "db_tables s' = db_tables s" "refused rep"
  | (call) r1 r2 s1 where "seen j r r1" "csrf_needed r \<longrightarrow> csrf_matches j r" "allows (db_tables s) r1 r2"
      "db_tables s1 = db_tables s" "h r2 s1 = (rep, s')"
proof -
  let ?Q = "\<lambda>x. \<exists>r1 r2 s1. seen j r r1 \<and> (csrf_needed r \<longrightarrow> csrf_matches j r) \<and> allows (db_tables s) r1 r2 \<and>
      db_tables s1 = db_tables s \<and> h r2 s1 = x"
  have "guarded (check h r1) (db_tables s) ?Q" if "seen j r r1" "csrf_needed r \<longrightarrow> csrf_matches j r" for r1
    using that by (intro check_guarded) blast
  from guardedD [OF checks_guarded [OF this]] have "db_tables s' = db_tables s \<and> refused rep \<or> ?Q (rep, s')"
    using assms(3) serve_route [OF assms(1,2), where j = j and r = r and s = s] by simp
  then show thesis using refusal call by blast
qed

end

section \<open>The checks\<close>

definition team_allows :: "tables \<Rightarrow> request \<Rightarrow> request \<Rightarrow> bool" where
  "team_allows t r r' \<longleftrightarrow> r' = r \<and> IsAuthenticated r \<and> IsAuthorized r"

definition pipeline_allows :: "tables \<Rightarrow> request \<Rightarrow> request \<Rightarrow> bool" where
  "pipeline_allows t r r' \<longleftrightarrow>
     (\<exists>tm p. named_pipeline t (FormValue r '':team_name'') (FormValue r '':pipeline_name'') tm p \<and> (IsAuthorized r \<or> p_public p) \<and>
        r' = with_context (\<lambda>c. c\<lparr>cx_pipeline := Some p\<rparr>) r)"

text \<open>A build of a public pipeline, and of a public job where that is asked for.\<close>

definition public_build :: "tables \<Rightarrow> bool \<Rightarrow> api_build \<Rightarrow> bool" where
  "public_build t anyJob build \<longleftrightarrow>
     (\<exists>p \<in> set (t_pipelines t). b_pipeline_id (ab_row build) \<noteq> 0 \<and> p_id p = b_pipeline_id (ab_row build) \<and> p_public p \<and>
        (anyJob \<or> (\<exists>j \<in> set (t_jobs t). j_name j = ab_jobName build \<and> j_pipeline_id j = p_id p \<and> job_Public (j_config j))))"

text \<open>A reader with a valid token, of the team of the build where the token names a team.\<close>

definition build_member :: "request \<Rightarrow> api_build \<Rightarrow> bool" where
  "build_member r build \<longleftrightarrow> IsAuthenticated r \<and> (case GetTeam r of None \<Rightarrow> True | Some at \<Rightarrow> at_name at = ab_teamName build)"

lemma reject_reader_guarded [simp]: "guarded (reject_reader r) t Q"
  by (simp add: reject_reader_def)

lemma job_read_guarded:
  assumes "p \<in> set (t_pipelines t)" "b_pipeline_id (ab_row build) \<noteq> 0" "p_id p = b_pipeline_id (ab_row build)" "p_public p"
    and "\<And>s. public_build t False build \<Longrightarrow> db_tables s = t \<Longrightarrow> Q (pass s)"
  shows "guarded (lookup_then (pipeline_Job p (ab_jobName build)) 404 (\<lambda>job. if \<not> job_Public (jb_config job) then reject_reader r else pass)) t Q"
  unfolding pipeline_Job_def
proof (intro guarded_query guarded_if(1) reject_reader_guarded guarded_call)
  fix job :: job and s :: db
  assume "(case find (\<lambda>j. j_name j = ab_jobName build \<and> j_active j \<and> j_pipeline_id j = p_id p) (t_jobs t) of None \<Rightarrow> None
     | Some j \<Rightarrow> map_option (\<lambda>pl. \<lparr>jb_id = j_id j, jb_name = j_name j, jb_paused = j_paused j, jb_pipelineID = j_pipeline_id j,
           jb_teamID = p_team_id pl, jb_config = j_config j, jb_firstLoggedBuildID = j_first_logged_build_id j\<rparr>) (find (\<lambda>pl. p_id pl = j_pipeline_id j) (t_pipelines t))) = Some job"
    and "\<not> \<not> job_Public (jb_config job)" "db_tables s = t"
  then obtain j where "j \<in> set (t_jobs t)" "j_name j = ab_jobName build" "j_pipeline_id j = p_id p" "job_Public (j_config j)"
    by (auto split: option.splits dest!: find_sat)
  then have "public_build t False build" unfolding public_build_def using assms(1-4) by blast
  then show "Q (pass s)" using \<open>db_tables s = t\<close> by (rule assms(5))
qed simp

text \<open>The check of a reader who is not a member.\<close>

lemma outsider_guarded:
  assumes "\<And>s. public_build t anyJob build \<Longrightarrow> db_tables s = t \<Longrightarrow> Q (pass s)"
  shows "guarded (lookup_then (build_Pipeline (ab_row build)) 401 (\<lambda>p. if \<not> p_public p then reject_reader r
      else if \<not> anyJob then lookup_then (pipeline_Job p (ab_jobName build)) 404
               (\<lambda>job. if \<not> job_Public (jb_config job) then reject_reader r else pass)
           else pass)) t Q"
proof -
  have "post (build_Pipeline (ab_row build)) t (\<lambda>x t'. t' = t \<and>
      (\<forall>p. x = Inr (Some p) \<longrightarrow> p \<in> set (t_pipelines t) \<and> b_pipeline_id (ab_row build) \<noteq> 0 \<and> p_id p = b_pipeline_id (ab_row build)))"
    by (auto simp: build_Pipeline_def intro!: post_return post_query dest: find_sat)
  moreover have "guarded (if \<not> p_public p then reject_reader r
      else if \<not> anyJob then lookup_then (pipeline_Job p (ab_jobName build)) 404
               (\<lambda>job. if \<not> job_Public (jb_config job) then reject_reader r else pass)
           else pass) t Q"
    if "p \<in> set (t_pipelines t)" "b_pipeline_id (ab_row build) \<noteq> 0" "p_id p = b_pipeline_id (ab_row build)" for p
  proof (intro guarded_if(1) reject_reader_guarded job_read_guarded [OF that])
    assume "\<not> \<not> p_public p" "\<not> \<not> anyJob"
    then show "guarded pass t Q" using that by (intro guarded_call assms) (auto simp: public_build_def)
  qed (use assms in \<open>auto simp: public_build_def\<close>)
  ultimately show ?thesis by (intro guarded_lookup, elim post_mono) simp_all
qed

lemma build_read_guarded:
  assumes "\<And>i build s. strconv_Atoi (FormValue r '':build_id'') = Some i \<Longrightarrow> named_build t i build \<Longrightarrow>
      build_member r build \<or> public_build t anyJob build \<Longrightarrow> db_tables s = t \<Longrightarrow>
      Q (h (with_context (\<lambda>c. c\<lparr>cx_build := Some build\<rparr>) r) s)"
  shows "guarded (checkBuildReadAccessHandler anyJob h r) t Q"
proof (cases "strconv_Atoi (FormValue r '':build_id'')")
  case None
  then have "checkBuildReadAccessHandler anyJob h r = answer 400" by (auto simp: checkBuildReadAccessHandler_def)
  then show ?thesis by simp
next
  case (Some i)
  let ?pass = "\<lambda>build. h (with_context (\<lambda>c. c\<lparr>cx_build := Some build\<rparr>) r)"
  have outside: "(\<not> IsAuthenticated r \<or> (case GetTeam r of None \<Rightarrow> False | Some at \<Rightarrow> \<not> team_IsAuthorized at (ab_teamName build))) \<longleftrightarrow>
      \<not> build_member r build" for build
    by (auto simp: build_member_def team_IsAuthorized_def split: option.splits)
  have "guarded (lookup_then (buildFactory_Build i) 404 (\<lambda>build.
      if \<not> build_member r build
      then lookup_then (build_Pipeline (ab_row build)) 401 (\<lambda>p.
             if \<not> p_public p then reject_reader r
             else if \<not> anyJob then lookup_then (pipeline_Job p (ab_jobName build)) 404
                 (\<lambda>job. if \<not> job_Public (jb_config job) then reject_reader r else ?pass build)
             else ?pass build)
      else ?pass build)) t Q"
    by (intro guarded_build guarded_if(1) outsider_guarded) (auto intro!: guarded_call assms [OF Some])
  then show ?thesis by (simp only: checkBuildReadAccessHandler_def [abs_def] Let_def outside Some option.case)
qed

definition build_allows :: "bool \<Rightarrow> tables \<Rightarrow> request \<Rightarrow> request \<Rightarrow> bool" where
  "build_allows anyJob t r r' \<longleftrightarrow>
     (\<exists>i build. strconv_Atoi (FormValue r '':build_id'') = Some i \<and> named_build t i build \<and>
        (build_member r build \<or> public_build t anyJob build) \<and> r' = with_context (\<lambda>c. c\<lparr>cx_build := Some build\<rparr>) r)"

definition build_write_allows :: "tables \<Rightarrow> request \<Rightarrow> request \<Rightarrow> bool" where
  "build_write_allows t r r' \<longleftrightarrow>
     (\<exists>i build. strconv_Atoi (FormValue r '':build_id'') = Some i \<and> named_build t i build \<and> build_member r build \<and>
        r' = with_context (\<lambda>c. c\<lparr>cx_build := Some build\<rparr>) r)"

text \<open>The system, an admin, or the team of the worker.\<close>

definition worker_allows :: "tables \<Rightarrow> request \<Rightarrow> request \<Rightarrow> bool" where
  "worker_allows t r r' \<longleftrightarrow> r' = r \<and> IsAuthenticated r \<and>
     (IsSystem r \<or> (\<exists>team. GetTeam r = Some team \<and>
        (at_isAdmin team \<or> (\<exists>w \<in> set (t_workers t). w_name w = FormValue r '':worker_name'' \<and>
           (case w_team_id w of None \<Rightarrow> [] | Some i \<Rightarrow> (case team_name_of t i of None \<Rightarrow> [] | Some n \<Rightarrow> n)) = at_name team))))"

interpretation authenticated_check: access_check CheckAuthenticationHandler "\<lambda>t r r'. r' = r \<and> IsAuthenticated r"
  by unfold_locales (auto simp: guarded_def CheckAuthenticationHandler_def answer_simps)

interpretation admin_check: access_check CheckAdminHandler "\<lambda>t r r'. r' = r \<and> IsAuthenticated r \<and> IsAdmin r"
  by unfold_locales (auto simp: guarded_def CheckAdminHandler_def answer_simps)

interpretation team_check: access_check CheckAuthorizationHandler team_allows
  by unfold_locales (auto simp: guarded_def CheckAuthorizationHandler_def team_allows_def answer_simps)

interpretation pipeline_check: access_check checkPipelineAccessHandler pipeline_allows
proof unfold_locales
  fix t r and h :: handler and Q :: "reply \<times> db \<Rightarrow> bool"
  assume q: "\<And>r' (s :: db). pipeline_allows t r r' \<Longrightarrow> db_tables s = t \<Longrightarrow> Q (h r' s)"
  show "guarded (checkPipelineAccessHandler h r) t Q" unfolding checkPipelineAccessHandler_def
  proof (intro guarded_pipeline guarded_if(2) guarded_answer)
    fix tm p
    assume "named_pipeline t (FormValue r '':team_name'') (FormValue r '':pipeline_name'') tm p" "IsAuthorized r \<or> p_public p"
    then have "pipeline_allows t r (with_context (\<lambda>c. c\<lparr>cx_pipeline := Some p\<rparr>) r)" unfolding pipeline_allows_def by blast
    with q show "guarded (h (with_context (\<lambda>c. c\<lparr>cx_pipeline := Some p\<rparr>) r)) t Q" by (intro guarded_call)
  qed
qed

interpretation build_read_check: access_check "checkBuildReadAccessHandler anyJob" "build_allows anyJob"
  for anyJob
  by unfold_locales (rule build_read_guarded, unfold build_allows_def, blast)

interpretation build_write_check: access_check checkBuildWriteAccessHandler build_write_allows
proof unfold_locales
  fix t r and h :: handler and Q :: "reply \<times> db \<Rightarrow> bool"
  assume q: "\<And>r' (s :: db). build_write_allows t r r' \<Longrightarrow> db_tables s = t \<Longrightarrow> Q (h r' s)"
  show "guarded (checkBuildWriteAccessHandler h r) t Q"
  proof (cases "strconv_Atoi (FormValue r '':build_id'')")
    case None
    then show ?thesis by (auto simp: checkBuildWriteAccessHandler_def [abs_def] intro!: guarded_if)
  next
    case (Some i)
    have "guarded (lookup_then (buildFactory_Build i) 404 (\<lambda>build s'.
        if (case GetTeam r of None \<Rightarrow> False | Some at \<Rightarrow> \<not> team_IsAuthorized at (ab_teamName build)) then Forbidden s'
        else h (with_context (\<lambda>c. c\<lparr>cx_build := Some build\<rparr>) r) s')) t Q" if "IsAuthenticated r"
    proof (intro guarded_build guarded_if(2) guarded_answer guarded_call q)
      fix build
      assume "named_build t i build" "\<not> (case GetTeam r of None \<Rightarrow> False | Some at \<Rightarrow> \<not> team_IsAuthorized at (ab_teamName build))"
      with that Some show "build_write_allows t r (with_context (\<lambda>c. c\<lparr>cx_build := Some build\<rparr>) r)"
        by (auto simp: build_write_allows_def build_member_def team_IsAuthorized_def split: option.splits)
    qed
    with Some show ?thesis by (cases "IsAuthenticated r") (simp_all add: checkBuildWriteAccessHandler_def [abs_def])
  qed
qed

interpretation worker_check: access_check checkWorkerTeamHandler worker_allows
proof unfold_locales
  fix t r and h :: handler and Q :: "reply \<times> db \<Rightarrow> bool"
  assume q: "\<And>r' (s :: db). worker_allows t r r' \<Longrightarrow> db_tables s = t \<Longrightarrow> Q (h r' s)"
  have pass: "guarded (h r) t Q" if "worker_allows t r r" using q that by (intro guarded_call)
  have worker: "guarded (lookup_then (GetWorker (FormValue r '':worker_name'')) 404 (\<lambda>worker s'.
      if aw_teamName worker \<noteq> at_name team then Forbidden s' else h r s')) t Q" if "IsAuthenticated r" "GetTeam r = Some team" for team
    unfolding GetWorker_def
    by (intro guarded_query guarded_if(2) guarded_answer pass)
      (use that in \<open>auto simp: worker_allows_def dest!: find_sat\<close>)
  show "guarded (checkWorkerTeamHandler h r) t Q"
  proof (cases "IsAuthenticated r \<and> (IsSystem r \<or> GetTeam r \<noteq> None)")
    case False
    then have "checkWorkerTeamHandler h r = Unauthorized" by (auto simp: checkWorkerTeamHandler_def)
    then show ?thesis by simp
  next
    case True
    then show ?thesis using pass worker
      by (cases "IsSystem r"; cases "GetTeam r"; cases "at_isAdmin (the (GetTeam r))")
        (simp_all add: checkWorkerTeamHandler_def [abs_def] worker_allows_def)
  qed
qed

end
