(* ===== verification/Api_Correct.thy ===== *)
theory Api_Correct
  imports Api_Checks
begin

text \<open>
  What the API lets through. A request that changes something is served only with a valid token, and with the
  CSRF token when the browser sent the cookie; what concerns a team is served to that team, and private
  pipelines and builds are shown to their team only. The exception is proved too: the fields of a form in the
  body choose another team than the one that was checked.
\<close>

section \<open>Routes that change something\<close>

lemma write_routes:
  "list_all (\<lambda>(_, m, n). m = ''GET'' \<or> n = ''CheckResourceWebHook'' \<or>
     n \<in> set (build_write_routes @ worker_routes @ authenticated_routes @ admin_routes @ team_routes)) Routes"
  by code_simp

lemma routes_disjoint:
  "list_all (\<lambda>n. n \<notin> set (open_routes @ build_read_routes @ build_prepare_routes @ pipeline_read_routes))
     (build_write_routes @ worker_routes @ authenticated_routes @ admin_routes @ team_routes)"
  by code_simp

lemma routes_have_handlers: "list_all (\<lambda>(_, _, n). n \<in> set (map snd handler_table)) Routes"
  by code_simp

lemma route_served:
  assumes "(path, m, name) \<in> set Routes"
  obtains h h' where "\<And>j r s. serve (j :: 'k jwt) sv name r s = CSRFValidationHandler j (WrapHandler j h') (entered r) s"
    "auth_switch name h = Some h'"
proof -
  have n: "name \<in> fst ` set (api_handlers sv)" using routes_have_handlers assms by (force simp: handler_names list_all_iff)
  then obtain h where "map_of (api_handlers sv) name = Some h" by (metis domD dom_map_of_conv_image_fst)
  with auth_switch_Some [OF n] that serve_route show ?thesis by metis
qed

lemma unauthenticated_rejected:
  assumes "n \<in> set (build_write_routes @ worker_routes @ authenticated_routes @ admin_routes @ team_routes)"
    and "auth_switch n h = Some h'" and "\<not> IsAuthenticated r"
  shows "h' r s = (Status 401, s)"
proof -
  have "n \<notin> set (open_routes @ build_read_routes @ build_prepare_routes @ pipeline_read_routes)"
    using routes_disjoint assms(1) by (simp add: list_all_iff)
  then show ?thesis using assms
    by (auto simp: auth_switch_def answer_simps checkBuildWriteAccessHandler_def checkWorkerTeamHandler_def CheckAuthenticationHandler_def
        CheckAdminHandler_def CheckAuthorizationHandler_def split: if_splits)
qed

text \<open>
  C35. Every route with a method other than GET, the resource webhook apart, needs a token: without a token
  that the parser accepts, the request is answered with 401 and no handler is called, whatever the handlers
  are. In particular every such route has a handler and a check.
\<close>

theorem writes_need_token:
  assumes "parser_ok j" and "(path, m, name) \<in> set Routes" and "m \<noteq> ''GET''" and "name \<noteq> ''CheckResourceWebHook''"
    and "\<not> (\<exists>tok. valid_token j r tok)"
  shows "serve j sv name r s = (Status 401, s)"
proof -
  have n: "name \<in> set (build_write_routes @ worker_routes @ authenticated_routes @ admin_routes @ team_routes)"
    using write_routes assms(2-4) by (fastforce simp: list_all_iff)
  obtain h h' where h: "serve j sv name r s = CSRFValidationHandler j (WrapHandler j h') (entered r) s" "auth_switch name h = Some h'"
    using route_served [OF assms(2)] by metis
  have "\<exists>e. getJWT j (entered r) = Inl e"
  proof (cases "getJWT j (entered r)")
    case (Inr tok)
    with parsed_valid [OF assms(1)] assms(5) show ?thesis by (simp add: valid_token_def)
  qed simp
  then obtain e where e: "getJWT j (entered r) = Inl e" by blast
  obtain rep s' where s': "CSRFValidationHandler j (WrapHandler j h') (entered r) s = (rep, s')" by fastforce
  have "(rep, s') = (Status 401, s)" using s'
  proof (cases rule: checks_outcome)
    case rejected
    moreover have "rep \<noteq> Crashed e'" for e' using s' e unauthenticated_rejected [OF n h(2)]
      by (auto simp: CSRFValidationHandler_def entered_context answer_simps reader_GetCSRFToken_def WrapHandler_def reader_GetTeam_def
          reader_GetSystem_def no_context_def IsAuthenticated_def with_context_def validator_IsAuthenticated_def Let_def split: if_splits)
    ultimately show ?thesis by auto
  next
    case (passed r')
    then have "\<not> IsAuthenticated r'" using assms(5) by (simp add: seen_def)
    with passed(3) unauthenticated_rejected [OF n h(2)] show ?thesis by simp
  qed
  then show ?thesis using s' h(1) by simp
qed

text \<open>
  C36. A request with the cookie of the browser and a method other than GET, HEAD and OPTIONS calls no handler
  and leaves the database alone unless it has a non-empty CSRF header that equals the CSRF token inside the
  authorization token; this holds of every route.
\<close>

theorem csrf_checked:
  assumes "(path, m, name) \<in> set Routes" and "csrf_needed r" and "\<not> csrf_matches j r" and "serve j sv name r s = (rep, s')"
  shows "s' = s \<and> (rep = Status 401 \<or> (\<exists>e. rep = Crashed e))"
proof -
  obtain h h' where "serve j sv name r s = CSRFValidationHandler j (WrapHandler j h') (entered r) s" "auth_switch name h = Some h'"
    using route_served [OF assms(1)] by metis
  with assms(4) have "CSRFValidationHandler j (WrapHandler j h') (entered r) s = (rep, s')" by simp
  then show ?thesis
  proof (cases rule: checks_outcome)
    case rejected
    then show ?thesis by simp
  next
    case (passed r')
    then show ?thesis using assms(2,3) by simp
  qed
qed

section \<open>Routes of a team\<close>

definition scoped_team_routes :: "string list" where
  "scoped_team_routes = filter (\<lambda>n. n \<notin> {''GetConfig'', ''SaveConfig'', ''OrderPipelines''}) team_routes"

lemma scoped_team_route:
  "n \<in> set scoped_team_routes \<Longrightarrow> map_of (api_handlers sv) n = Some (pipeline_HandlerFor (sv_pipeline sv n))"
proof -
  have "list_all (\<lambda>n. (PipelineScoped, n) \<in> set handler_table) scoped_team_routes" by code_simp
  then show "n \<in> set scoped_team_routes \<Longrightarrow> map_of (api_handlers sv) n = Some (pipeline_HandlerFor (sv_pipeline sv n))"
    using handler_of [of PipelineScoped] by (auto simp: list_all_iff scoped_handler_def)
qed

lemma scoped_team_switch:
  assumes "n \<in> set scoped_team_routes"
  shows "auth_switch n h = Some (CheckAuthorizationHandler h)"
proof -
  have "list_all (\<lambda>n. n \<notin> set (open_routes @ build_read_routes @ build_prepare_routes @ build_write_routes @ worker_routes @
      pipeline_read_routes @ authenticated_routes @ admin_routes) \<and> n \<in> set team_routes) scoped_team_routes" by code_simp
  then show ?thesis using assms by (simp add: list_all_iff auth_switch_def)
qed

text \<open>
  C37. On the routes that act on a pipeline of a team, a handler is called only for a request with a valid
  token of the team named in the URL, and with the CSRF token where one is needed; and the pipeline it is
  given is a pipeline of that team, provided the body of the request has no form field for the team.
  Otherwise the request is refused and the database unchanged. This holds for all handlers of these routes.
\<close>

theorem team_write_authorized:
  assumes "name \<in> set scoped_team_routes" and "'':team_name'' \<in> fst ` set (rq_Query r)"
    and "'':team_name'' \<notin> fst ` set (body_fields r)" and "serve j sv name r s = (rep, s')"
  shows "(db_tables s' = db_tables s \<and> refused rep) \<or>
    (\<exists>tok team admin tm p r' s1. valid_token j r tok \<and> token_team tok = Some (team, admin) \<and> team = Query_Get r '':team_name'' \<and>
       (csrf_needed r \<longrightarrow> csrf_matches j r) \<and>
       named_pipeline (db_tables s) team (FormValue r '':pipeline_name'') tm p \<and>
       db_tables s1 = db_tables s \<and> sv_pipeline sv name p r' s1 = (rep, s'))"
proof -
  let ?Q = "\<lambda>x. \<exists>tok team admin tm p r' s1. valid_token j r tok \<and> token_team tok = Some (team, admin) \<and> team = Query_Get r '':team_name'' \<and>
       (csrf_needed r \<longrightarrow> csrf_matches j r) \<and> named_pipeline (db_tables s) team (FormValue r '':pipeline_name'') tm p \<and>
       db_tables s1 = db_tables s \<and> sv_pipeline sv name p r' s1 = x"
  from scoped_team_route [OF assms(1)] scoped_team_switch [OF assms(1)] assms(4) show ?thesis
  proof (cases rule: team_check.route)
    case (call r1 r2 s1)
    then obtain tok where tok: "valid_token j r tok" by (auto simp: seen_def team_allows_def)
    then obtain team admin where team: "token_team tok = Some (team, admin)" "team = Query_Get r '':team_name''" using call
      by (auto simp: seen_def team_allows_def valid_token_def IsAuthorized_def team_IsAuthorized_def Query_Get_def split: option.splits)
    have f: "FormValue r1 '':team_name'' = team" "FormValue r1 '':pipeline_name'' = FormValue r '':pipeline_name''" "r2 = r1"
        "cx_pipeline (rq_Context r1) = None"
      using seen_FormValue [OF call(1)] FormValue_query [OF assms(2,3)] call(1,3) team by (simp_all add: seen_def team_allows_def)
    have "guarded (lookup_then (FindTeam team) 404 (\<lambda>tm. lookup_then (team_Pipeline tm (FormValue r '':pipeline_name'')) 404
        (\<lambda>p. sv_pipeline sv name p r1))) (db_tables s1) ?Q"
      unfolding call(4) by (rule guarded_pipeline, rule guarded_call) (use tok team call(2) in blast)
    then have "guarded (pipeline_HandlerFor (sv_pipeline sv name) r2) (db_tables s1) ?Q"
      using f by (simp add: pipeline_HandlerFor_def)
    from guardedD [OF this call(5)] show ?thesis unfolding call(4) .
  qed simp
qed

text \<open>
  C38. The check compares the team of the token with the URL, but the handlers look the pipeline up by
  \<open>FormValue\<close>, which prefers the fields of a form in the body. So a member of any team can pause any pipeline
  of any other team: a PUT to the route of their own team with a form that names the other team and its
  pipeline is let through, and pauses that pipeline.
\<close>

theorem form_reaches_other_team:
  assumes "healthy s" and "valid_token j r tok" and "token_team tok = Some (Query_Get r '':team_name'', admin)"
    and "map_of (tk_Claims tok) ''system'' = None" and "csrf_needed r \<longrightarrow> csrf_matches j r"
    and "rq_Method r = ''PUT''" and "rq_Body r = FormBody [('':team_name'', other), ('':pipeline_name'', victim)]"
    and "find (\<lambda>tm. strings_ToLower (tm_name tm) = strings_ToLower other) (t_teams (db_tables s)) = Some tm"
    and "find (\<lambda>p. p_team_id p = tm_id tm \<and> p_name p = victim) (t_pipelines (db_tables s)) = Some p"
  shows "\<exists>s'. serve j (atc_servers engines lock rest) ''PausePipeline'' r s = (Status 200, s') \<and>
    t_pipelines (db_tables s') = map (\<lambda>q. if p_id q = p_id p then q\<lparr>p_paused := True\<rparr> else q) (t_pipelines (db_tables s))"
proof -
  let ?sv = "atc_servers engines lock rest"
  have n: "''PausePipeline'' \<in> set scoped_team_routes" by code_simp
  have h: "sv_pipeline ?sv ''PausePipeline'' = PausePipeline" by (simp add: atc_servers_def)
  have sys: "map_of (tk_Claims tok) ''system'' \<in> {None, Some (ClaimBool True), Some (ClaimBool False)}" using assms(4) by simp
  have tok: "getJWT j (entered r) = Inr tok" using assms(2) by (simp add: valid_token_def)
  obtain r' where r': "seen j r r'" and eq: "serve j ?sv ''PausePipeline'' r s = CheckAuthorizationHandler (pipeline_HandlerFor PausePipeline) r' s"
    using checks_pass [OF assms(5) tok assms(3) sys] serve_route [OF scoped_team_route [OF n] scoped_team_switch [OF n]] h by metis
  have "IsAuthenticated r'" "IsAuthorized r'"
    using r' tok assms(2,3) by (auto simp: seen_def IsAuthorized_def team_IsAuthorized_def Query_Get_def)
  moreover have "FormValue r' '':team_name'' = other" "FormValue r' '':pipeline_name'' = victim"
    using seen_FormValue [OF r'] assms(6,7) by (simp_all add: FormValue_def body_fields_def values_Get_def)
  moreover have "cx_pipeline (rq_Context r') = None" using r' by (simp add: seen_def)
  ultimately have "serve j ?sv ''PausePipeline'' r s = lookup_then (FindTeam other) 404 (\<lambda>tm.
      lookup_then (team_Pipeline tm victim) 404 (\<lambda>p. PausePipeline p r')) s"
    using eq by (simp add: CheckAuthorizationHandler_def pipeline_HandlerFor_def)
  also obtain s2 where "\<dots> = PausePipeline p r' s2" and s2: "db_tables s2 = db_tables s" "healthy s2"
    using lookup_pipeline_sure [OF assms(1,8,9)] by blast
  note this(1)
  finally show ?thesis using s2
    by (auto simp: PausePipeline_def run_then_def pipeline_Pause_def exec_def stmt_def healthy_def Let_def answer_def
        update_pipeline_def update_where_def)
qed

section \<open>Private pipelines and builds\<close>

lemma pipeline_read_route:
  assumes "n \<in> set pipeline_read_routes"
  shows "map_of (api_handlers sv) n = Some (pipeline_HandlerFor (sv_pipeline sv n))" "auth_switch n h = Some (checkPipelineAccessHandler h)"
proof -
  have "list_all (\<lambda>n. (PipelineScoped, n) \<in> set handler_table \<and> n \<notin> set (open_routes @ build_read_routes @ build_prepare_routes @
      build_write_routes @ worker_routes)) pipeline_read_routes" by code_simp
  with assms handler_of [of PipelineScoped n] show "map_of (api_handlers sv) n = Some (pipeline_HandlerFor (sv_pipeline sv n))"
      "auth_switch n h = Some (checkPipelineAccessHandler h)"
    by (auto simp: list_all_iff scoped_handler_def auth_switch_def)
qed

text \<open>
  C39. What the API shows of a pipeline: on every route that reads a pipeline, a handler is called only for a
  public pipeline, or for a request with a valid token of the team of the URL, and the pipeline it is given is
  the one of that name in that team. Otherwise the request is refused.
\<close>

theorem private_pipeline_hidden:
  assumes "parser_ok j" and "name \<in> set pipeline_read_routes" and "rq_Method r = ''GET''"
    and "'':team_name'' \<in> fst ` set (rq_Query r)" and "serve j sv name r s = (rep, s')"
  shows "(db_tables s' = db_tables s \<and> refused rep) \<or>
    (\<exists>tm p r' s1. named_pipeline (db_tables s) (Query_Get r '':team_name'') (FormValue r '':pipeline_name'') tm p \<and>
       (p_public p \<or> (\<exists>tok admin. valid_token j r tok \<and> token_team tok = Some (Query_Get r '':team_name'', admin))) \<and>
       db_tables s1 = db_tables s \<and> sv_pipeline sv name p r' s1 = (rep, s'))"
proof -
  let ?team = "Query_Get r '':team_name''"
  from pipeline_read_route [OF assms(2)] assms(5) show ?thesis
  proof (cases rule: pipeline_check.route)
    case (call r1 r2 s1)
    have f: "FormValue r1 '':team_name'' = ?team" "FormValue r1 '':pipeline_name'' = FormValue r '':pipeline_name''"
      using seen_FormValue [OF call(1)] FormValue_query [OF assms(4)] assms(3) by (simp_all add: body_fields_def)
    obtain tm p where p: "named_pipeline (db_tables s) ?team (FormValue r '':pipeline_name'') tm p" "IsAuthorized r1 \<or> p_public p"
        "r2 = with_context (\<lambda>c. c\<lparr>cx_pipeline := Some p\<rparr>) r1"
      using call(3) f by (auto simp: pipeline_allows_def)
    have "\<exists>tok admin. valid_token j r tok \<and> token_team tok = Some (?team, admin)" if "IsAuthorized r1"
    proof -
      from that call(1) obtain tok admin where "getJWT j (entered r) = Inr tok" "token_team tok = Some (?team, admin)"
        by (auto simp: seen_def IsAuthorized_def team_IsAuthorized_def Query_Get_def split: option.splits sum.splits)
      then show ?thesis using parsed_valid [OF assms(1)] by (auto simp: valid_token_def)
    qed
    moreover have "sv_pipeline sv name p r2 s1 = (rep, s')" using call(5) p(3) by (simp add: pipeline_HandlerFor_def with_context_def)
    ultimately show ?thesis using p(1,2) call(4) by blast
  qed simp
qed

lemma build_read_route:
  assumes "n \<in> set (build_read_routes @ build_prepare_routes)"
  shows "map_of (api_handlers sv) n = Some (build_HandlerFor (sv_build sv n))"
    "auth_switch n h = Some (checkBuildReadAccessHandler (n \<in> set build_read_routes) h)"
proof -
  have "list_all (\<lambda>n. (BuildScoped, n) \<in> set handler_table \<and> n \<notin> set open_routes) (build_read_routes @ build_prepare_routes)" by code_simp
  with assms handler_of [of BuildScoped n] show "map_of (api_handlers sv) n = Some (build_HandlerFor (sv_build sv n))"
      "auth_switch n h = Some (checkBuildReadAccessHandler (n \<in> set build_read_routes) h)"
    by (auto simp: list_all_iff scoped_handler_def auth_switch_def)
qed

text \<open>
  C40. What the API shows of a build: a handler of the build routes is called only with a valid token of the
  build's team (or one that names no team, as the tokens of the system do), or for a build of a public
  pipeline; for the log and the preparation of a build its job has to be public too. The build it is given is
  the one with the id of the request. Otherwise the request is refused.
\<close>

theorem private_build_hidden:
  assumes "name \<in> set (build_read_routes @ build_prepare_routes)" and "serve j sv name r s = (rep, s')"
  shows "(db_tables s' = db_tables s \<and> refused rep) \<or>
    (\<exists>i build r' s1. strconv_Atoi (FormValue r '':build_id'') = Some i \<and> named_build (db_tables s) i build \<and>
       ((\<exists>tok. valid_token j r tok \<and> token_team tok \<in> {None, Some (ab_teamName build, True), Some (ab_teamName build, False)}) \<or>
        public_build (db_tables s) (name \<in> set build_read_routes) build) \<and>
       db_tables s1 = db_tables s \<and> sv_build sv name build r' s1 = (rep, s'))"
proof -
  from build_read_route [OF assms(1)] assms(2) show ?thesis
  proof (cases rule: build_read_check.route)
    case (call r1 r2 s1)
    obtain i build where b: "strconv_Atoi (FormValue r '':build_id'') = Some i" "named_build (db_tables s) i build"
        "build_member r1 build \<or> public_build (db_tables s) (name \<in> set build_read_routes) build"
        "r2 = with_context (\<lambda>c. c\<lparr>cx_build := Some build\<rparr>) r1"
      using call(3) seen_FormValue [OF call(1)] by (auto simp: build_allows_def)
    have "\<exists>tok. valid_token j r tok \<and> token_team tok \<in> {None, Some (ab_teamName build, True), Some (ab_teamName build, False)}"
      if "build_member r1 build"
    proof -
      from that call(1) obtain tok where tok: "valid_token j r tok" by (auto simp: build_member_def seen_def)
      with that call(1) have "token_team tok \<in> {None, Some (ab_teamName build, True), Some (ab_teamName build, False)}"
        by (auto simp: build_member_def seen_def valid_token_def split: option.splits)
      with tok show ?thesis by blast
    qed
    moreover have "sv_build sv name build r2 s1 = (rep, s')" using call(5) b(4) by (simp add: build_HandlerFor_def with_context_def)
    ultimately show ?thesis using b(1-3) call(4) by blast
  qed simp
qed

section \<open>Workers and teams\<close>

text \<open>A worker is landed, retired or pruned only by the system, an admin or its team.\<close>

lemma worker_write_allowed:
  assumes "name \<in> set worker_routes" and "serve j sv name r s = (rep, s')"
  shows "(db_tables s' = db_tables s \<and> refused rep) \<or>
    (\<exists>r1 r2 s1. seen j r r1 \<and> worker_allows (db_tables s) r1 r2 \<and> db_tables s1 = db_tables s \<and> sv_plain sv name r2 s1 = (rep, s'))"
proof -
  have "list_all (\<lambda>n. (Plain, n) \<in> set handler_table \<and>
      n \<notin> set (open_routes @ build_read_routes @ build_prepare_routes @ build_write_routes)) worker_routes" by code_simp
  with assms(1) handler_of [of Plain name] have "map_of (api_handlers sv) name = Some (sv_plain sv name)"
      "auth_switch name h = Some (checkWorkerTeamHandler h)" for h
    by (auto simp: list_all_iff scoped_handler_def auth_switch_def)
  from this assms(2) show ?thesis by (cases rule: worker_check.route) auto
qed

lemma drop_teams_teams: "t_teams (drop_teams P t) = filter (\<lambda>r. \<not> P r) (t_teams t)"
  by (simp add: drop_teams_def drop_pipelines_def drop_jobs_def drop_resources_def drop_versions_def drop_builds_def drop_workers_def Let_def)

lemma team_Delete_teams:
  "post (team_Delete tm) t (\<lambda>_ t'. t_teams t' = t_teams t \<or> t_teams t' = filter (\<lambda>r. tm_name r \<noteq> tm_name tm) (t_teams t))"
  unfolding team_Delete_def
  by (intro post_intros) (simp_all add: drop_teams_teams, auto simp: drop_teams_teams intro!: post_exec)

lemma two_admins:
  assumes "tm \<in> set xs" "tm_admin tm" "length (filter tm_admin xs) \<noteq> 1" "distinct (map tm_name xs)"
  shows "\<exists>a \<in> set xs. tm_admin a \<and> tm_name a \<noteq> tm_name tm"
proof (rule ccontr)
  assume c: "\<not> ?thesis"
  have d: "distinct (filter tm_admin xs)" using assms(4) by (simp add: distinct_map)
  have "set (filter tm_admin xs) = {tm}" using c assms by (auto simp: distinct_map dest: inj_onD)
  with d have "length (filter tm_admin xs) = card {tm}" by (metis distinct_card)
  with assms(3) show False by simp
qed

text \<open>A request to destroy a team never removes the last admin team.\<close>

lemma admin_team_remains:
  assumes "distinct (map tm_name (t_teams (db_tables s)))" and "\<exists>a \<in> set (t_teams (db_tables s)). tm_admin a" and "DestroyTeam r s = (rep, s')"
  shows "\<exists>a \<in> set (t_teams (db_tables s')). tm_admin a"
proof -
  let ?t = "db_tables s" and ?Q = "\<lambda>x. \<exists>a \<in> set (t_teams (db_tables (snd x))). tm_admin a"
  have destroy: "guarded (run_then (team_Delete tm) (\<lambda>_. answer 204)) ?t ?Q"
    if "\<exists>a \<in> set (t_teams ?t). tm_admin a \<and> tm_name a \<noteq> tm_name tm" for tm
  proof (rule guarded_call)
    fix s1 :: db assume s1: "db_tables s1 = ?t"
    obtain x s2 where d: "team_Delete tm s1 = (x, s2)" by fastforce
    show "?Q (run_then (team_Delete tm) (\<lambda>_. answer 204) s1)"
      using postD [OF team_Delete_teams d s1] that by (cases x) (auto simp: run_then_def d answer_def)
  qed
  have last: "guarded (run_then GetTeams (\<lambda>allTeams. if length (filter tm_admin allTeams) = 1 then Forbidden
      else run_then (team_Delete tm) (\<lambda>_. answer 204))) ?t ?Q" if "tm \<in> set (t_teams ?t)" "tm_admin tm" for tm
  proof -
    have "length (filter tm_admin (sort_key tm_id (t_teams ?t))) = length (filter tm_admin (t_teams ?t))"
      by (metis mset_filter mset_sort size_mset)
    then show ?thesis using that destroy two_admins [OF that _ assms(1)] assms(2)
      by (auto simp: guarded_def run_then_def GetTeams_def query_def stmt_def Let_def answer_simps split: if_splits)
  qed
  have "guarded (DestroyTeam r) ?t ?Q"
  proof (cases "\<exists>at. GetTeam r = Some at \<and> at_isAdmin at")
    case False
    then show ?thesis by (auto simp: guarded_def DestroyTeam_def answer_simps split: option.splits)
  next
    case True
    have "guarded (lookup_then (FindTeam (FormValue r '':team_name'')) 404 (\<lambda>team.
        if tm_admin team then run_then GetTeams (\<lambda>allTeams. if length (filter tm_admin allTeams) = 1 then Forbidden
            else run_then (team_Delete team) (\<lambda>_. answer 204))
        else run_then (team_Delete team) (\<lambda>_. answer 204))) ?t ?Q"
      unfolding FindTeam_def
    proof (intro guarded_query guarded_if(1) last destroy)
      fix tm assume f: "find (\<lambda>r'. strings_ToLower (tm_name r') = strings_ToLower (FormValue r '':team_name'')) (t_teams ?t) = Some tm"
      then show "tm \<in> set (t_teams ?t)" using find_sat by fast
      assume "\<not> tm_admin tm"
      then show "\<exists>a \<in> set (t_teams ?t). tm_admin a \<and> tm_name a \<noteq> tm_name tm"
        using assms(1,2) find_sat [OF f] by (metis distinct_map inj_onD)
    qed simp_all
    then show ?thesis using True by (auto simp: DestroyTeam_def [abs_def] Let_def)
  qed
  from guardedD [OF this assms(3)] assms(2) show ?thesis by auto
qed

section \<open>Witnesses\<close>

definition guest_token :: token where
  "guest_token = \<lparr>tk_Method = SigningMethodRSA ''RS256'', tk_Claims = [(''teamName'', ClaimString ''guests''), (''isAdmin'', ClaimBool False)],
     tk_Valid = True\<rparr>"

text \<open>A parser that knows one signed token.\<close>

definition sample_jwt :: "unit jwt" where
  "sample_jwt = \<lparr>jw_Parse = (\<lambda>text f. if text = ''guest-token''
        then (case f guest_token of Inl e \<Rightarrow> Inl e | Inr _ \<Rightarrow> Inr guest_token) else Inl ''signature is invalid''),
      jw_PublicKey = ()\<rparr>"

definition sample_servers :: servers where
  "sample_servers = atc_servers [execEngineName] Acquired
     \<lparr>sv_plain = (\<lambda>n r. answer 200), sv_pipeline = (\<lambda>n p r. answer 200), sv_build = (\<lambda>n b r. answer 200), sv_team = (\<lambda>n t r. answer 200)\<rparr>"

definition deploy_pipeline :: "bool \<Rightarrow> pipeline_row" where
  "deploy_pipeline paused = \<lparr>p_id = 1, p_name = ''deploy'', p_team_id = 1, p_paused = paused, p_public = False, p_ordering = 0, p_groups = [], p_version = 1\<rparr>"

definition site_pipeline :: "bool \<Rightarrow> pipeline_row" where
  "site_pipeline paused = \<lparr>p_id = 2, p_name = ''site'', p_team_id = 2, p_paused = paused, p_public = False, p_ordering = 0, p_groups = [], p_version = 1\<rparr>"

definition site_build :: build_row where
  "site_build = \<lparr>b_id = 7, b_name = ''1'', b_status = StatusSucceeded, b_scheduled = True, b_team_id = 2, b_pipeline_id = 2, b_job_id = 1,
     b_manually_triggered = False, b_engine = [], b_engine_metadata = None, b_public_plan = None, b_start_time = None, b_end_time = None,
     b_completed = True, b_reap_time = None\<rparr>"

definition teams_db :: db where
  "teams_db = \<lparr>db_tables =
     \<lparr>t_builds = [site_build], t_jobs = [], t_serial_groups = [], t_next_inputs = [], t_independent_inputs = [], t_build_inputs = [],
      t_build_outputs = [], t_resources = [], t_versions = [], t_pipelines = [deploy_pipeline False, site_pipeline False],
      t_teams = [\<lparr>tm_id = 1, tm_name = ''main'', tm_admin = True\<rparr>, \<lparr>tm_id = 2, tm_name = ''guests'', tm_admin = False\<rparr>],
      t_workers = [], t_events = [], t_event_seqs = [7], t_next_build_id = 8, t_next_version_id = 1, t_now = 10, t_resource_types = [], t_task_caches = [], t_next_pipeline_id = 10, t_next_job_id = 10,
      t_next_resource_id = 10, t_next_type_id = 10, t_config_version = 10\<rparr>,
      db_ticks = 0, db_fails = (\<lambda>_. False)\<rparr>"

definition sample_request :: "string \<Rightarrow> (string \<times> string) list \<Rightarrow> (string \<times> string) list \<Rightarrow> body \<Rightarrow> request" where
  "sample_request method header params b =
     \<lparr>rq_Method = method, rq_Header = header, rq_Cookies = [], rq_Query = params, rq_Body = b, rq_Context = no_context\<rparr>"

abbreviation guest_header :: "(string \<times> string) list" where
  "guest_header \<equiv> [(''Authorization'', ''Bearer guest-token'')]"

abbreviation site_params :: "(string \<times> string) list" where
  "site_params \<equiv> [('':pipeline_name'', ''site''), ('':team_name'', ''guests'')]"

lemma sample_parser: "parser_ok sample_jwt"
  by (auto simp: parser_ok_def sample_jwt_def guest_token_def split: sum.splits if_splits)

lemma sample_pause_route:
  "(''/api/v1/teams/:team_name/pipelines/:pipeline_name/pause'', ''PUT'', ''PausePipeline'') \<in> set Routes"
  by code_simp

lemma upper_bearer: "upper_char CHR ''B'' = CHR ''B''" "upper_char CHR ''e'' = CHR ''E''" "upper_char CHR ''a'' = CHR ''A''" "upper_char CHR ''r'' = CHR ''R''"
  by code_simp+

text \<open>The request of a guest has the token of the guests; a request without a header has none.\<close>

lemma guest_token_valid:
  "valid_token sample_jwt (sample_request m guest_header params b) guest_token" "token_team guest_token = Some (''guests'', False)"
  by (simp_all add: valid_token_def getJWT_def entered_def sample_request_def Header_Get_def values_Get_def sample_jwt_def choose_key_def
      guest_token_def upper_bearer token_team_def Let_def)

lemma anonymous_invalid: "\<not> valid_token sample_jwt (sample_request m [] params b) tok"
  by (simp add: valid_token_def getJWT_def entered_def sample_request_def Header_Get_def values_Get_def Let_def)

theorem writes_need_token_witness:
  "serve sample_jwt sample_servers ''PausePipeline'' (sample_request ''PUT'' [] site_params OtherBody) teams_db = (Status 401, teams_db)"
  using writes_need_token [OF sample_parser sample_pause_route] anonymous_invalid by simp

definition forged_request :: request where
  "forged_request = (sample_request ''PUT'' [] site_params OtherBody)\<lparr>rq_Cookies := [(''ATC-Authorization'', ''Bearer guest-token'')]\<rparr>"

theorem csrf_checked_witness:
  "\<exists>rep s'. serve sample_jwt sample_servers ''PausePipeline'' forged_request teams_db = (rep, s') \<and> s' = teams_db \<and>
     (rep = Status 401 \<or> (\<exists>e. rep = Crashed e))"
proof -
  obtain rep s' where s': "serve sample_jwt sample_servers ''PausePipeline'' forged_request teams_db = (rep, s')" by fastforce
  have "csrf_needed forged_request" "\<not> csrf_matches sample_jwt forged_request"
    by (auto simp: csrf_needed_def csrf_matches_def forged_request_def sample_request_def Header_Get_def values_Get_def split: sum.splits)
  from csrf_checked [OF sample_pause_route this s'] s' show ?thesis by blast
qed

text \<open>A guest pauses the pipeline of the guests.\<close>

abbreviation site_pause :: request where
  "site_pause \<equiv> sample_request ''PUT'' guest_header site_params OtherBody"

lemma site_pause_served: "fst (serve sample_jwt sample_servers ''PausePipeline'' site_pause teams_db) = Status 200"
  by code_simp

lemma served_not_refused: "\<not> refused (Reply 200 x)"
  by (simp add: refused_def)

theorem team_write_authorized_witness:
  "\<exists>s' tm p. serve sample_jwt sample_servers ''PausePipeline'' site_pause teams_db = (Status 200, s') \<and>
     named_pipeline (db_tables teams_db) ''guests'' ''site'' tm p"
proof -
  obtain s' where s': "serve sample_jwt sample_servers ''PausePipeline'' site_pause teams_db = (Status 200, s')"
    using site_pause_served by (metis prod.collapse)
  have n: "''PausePipeline'' \<in> set scoped_team_routes" by code_simp
  have p: "'':team_name'' \<in> fst ` set (rq_Query site_pause)" "'':team_name'' \<notin> fst ` set (body_fields site_pause)"
      "FormValue site_pause '':pipeline_name'' = ''site''" "Query_Get site_pause '':team_name'' = ''guests''"
    by (simp_all add: sample_request_def body_fields_def FormValue_def Query_Get_def values_Get_def)
  from team_write_authorized [OF n p(1,2) s'] show ?thesis using s' p(3,4) served_not_refused by auto
qed

text \<open>The same guest pauses the pipeline of the main team.\<close>

abbreviation deploy_pause :: request where
  "deploy_pause \<equiv> sample_request ''PUT'' guest_header site_params (FormBody [('':team_name'', ''main''), ('':pipeline_name'', ''deploy'')])"

theorem form_reaches_other_team_witness:
  "\<exists>s'. serve sample_jwt sample_servers ''PausePipeline'' deploy_pause teams_db = (Status 200, s') \<and>
     t_pipelines (db_tables s') = [deploy_pipeline True, site_pipeline False]"
proof -
  have h: "healthy teams_db" by (simp add: healthy_def teams_db_def)
  have team: "token_team guest_token = Some (Query_Get deploy_pause '':team_name'', False)"
    using guest_token_valid(2) by (simp add: Query_Get_def values_Get_def sample_request_def)
  have sys: "map_of (tk_Claims guest_token) ''system'' = None" by (simp add: guest_token_def)
  have req: "csrf_needed deploy_pause \<longrightarrow> csrf_matches sample_jwt deploy_pause" "rq_Method deploy_pause = ''PUT''"
      "rq_Body deploy_pause = FormBody [('':team_name'', ''main''), ('':pipeline_name'', ''deploy'')]"
    by (simp_all add: csrf_needed_def sample_request_def)
  have tm: "find (\<lambda>tm. strings_ToLower (tm_name tm) = strings_ToLower ''main'') (t_teams (db_tables teams_db)) =
      Some \<lparr>tm_id = 1, tm_name = ''main'', tm_admin = True\<rparr>" by (simp add: teams_db_def)
  have p: "find (\<lambda>p. p_team_id p = tm_id \<lparr>tm_id = 1, tm_name = ''main'', tm_admin = True\<rparr> \<and> p_name p = ''deploy'')
      (t_pipelines (db_tables teams_db)) = Some (deploy_pipeline False)"
    by (simp add: teams_db_def deploy_pipeline_def)
  from form_reaches_other_team [OF h guest_token_valid(1) team sys req tm p] show ?thesis
    by (auto simp: sample_servers_def teams_db_def deploy_pipeline_def site_pipeline_def)
qed

text \<open>A guest reads the pipeline and the build of the guests.\<close>

abbreviation site_read :: request where
  "site_read \<equiv> sample_request ''GET'' guest_header ([('':build_id'', ''7'')] @ site_params) OtherBody"

lemma site_read_served:
  "fst (serve sample_jwt sample_servers ''GetPipeline'' site_read teams_db) = Status 200"
  "fst (serve sample_jwt sample_servers ''BuildEvents'' site_read teams_db) = Status 200"
  by code_simp+

theorem private_pipeline_hidden_witness:
  "\<exists>s' tm p. serve sample_jwt sample_servers ''GetPipeline'' site_read teams_db = (Status 200, s') \<and>
     named_pipeline (db_tables teams_db) ''guests'' ''site'' tm p"
proof -
  obtain s' where s': "serve sample_jwt sample_servers ''GetPipeline'' site_read teams_db = (Status 200, s')"
    using site_read_served(1) by (metis prod.collapse)
  have n: "''GetPipeline'' \<in> set pipeline_read_routes" by code_simp
  have p: "rq_Method site_read = ''GET''" "'':team_name'' \<in> fst ` set (rq_Query site_read)"
      "FormValue site_read '':pipeline_name'' = ''site''" "Query_Get site_read '':team_name'' = ''guests''"
    by (simp_all add: sample_request_def body_fields_def FormValue_def Query_Get_def values_Get_def)
  from private_pipeline_hidden [OF sample_parser n p(1,2) s'] show ?thesis using s' p(3,4) served_not_refused by auto
qed

theorem private_build_hidden_witness:
  "\<exists>s' i build. serve sample_jwt sample_servers ''BuildEvents'' site_read teams_db = (Status 200, s') \<and>
     strconv_Atoi (FormValue site_read '':build_id'') = Some i \<and> named_build (db_tables teams_db) i build"
proof -
  obtain s' where s': "serve sample_jwt sample_servers ''BuildEvents'' site_read teams_db = (Status 200, s')"
    using site_read_served(2) by (metis prod.collapse)
  have n: "''BuildEvents'' \<in> set (build_read_routes @ build_prepare_routes)" by code_simp
  from private_build_hidden [OF n s'] show ?thesis using s' served_not_refused by blast
qed

end
