(* ===== verification/Schema.thy ===== *)
theory Schema
  imports Pipeline_DB
begin

text \<open>
  The constraints of the database schema, as an invariant of the tables: numbers and names are unique, numbers
  are below their sequence, and every row a row refers to exists. Deletions with their cascades keep it.
\<close>

section \<open>The invariant\<close>

definition ids_below :: "('r \<Rightarrow> int) \<Rightarrow> 'r list \<Rightarrow> int \<Rightarrow> bool" where
  "ids_below f rows n \<longleftrightarrow> distinct (map f rows) \<and> (\<forall>r \<in> set rows. f r < n)"

definition pipeline_keys_ok :: "tables \<Rightarrow> bool" where
  "pipeline_keys_ok t \<longleftrightarrow> ids_below p_id (t_pipelines t) (t_next_pipeline_id t) \<and> unique_pipeline_names t \<and>
     (\<forall>p \<in> set (t_pipelines t). p_version p \<le> t_config_version t)"

definition config_keys_ok :: "tables \<Rightarrow> bool" where
  "config_keys_ok t \<longleftrightarrow> names_unique t \<and> ids_below j_id (t_jobs t) (t_next_job_id t) \<and>
     ids_below r_id (t_resources t) (t_next_resource_id t) \<and> ids_below y_id (t_resource_types t) (t_next_type_id t)"

definition version_keys_ok :: "tables \<Rightarrow> bool" where
  "version_keys_ok t \<longleftrightarrow> ids_below v_id (t_versions t) (t_next_version_id t) \<and>
     distinct (map (\<lambda>v. (v_resource_id v, v_type v, v_version v)) (t_versions t))"

definition team_keys_ok :: "tables \<Rightarrow> bool" where
  "team_keys_ok t \<longleftrightarrow> distinct (map tm_id (t_teams t)) \<and> unique_team_names t \<and> distinct (map w_name (t_workers t))"

definition keys_ok :: "tables \<Rightarrow> bool" where
  "keys_ok t \<longleftrightarrow> team_keys_ok t \<and> pipeline_keys_ok t \<and> config_keys_ok t \<and> version_keys_ok t \<and>
     ids_below b_id (t_builds t) (t_next_build_id t)"

definition team_refs_ok :: "tables \<Rightarrow> bool" where
  "team_refs_ok t \<longleftrightarrow>
     (\<forall>p \<in> set (t_pipelines t). p_team_id p \<in> tm_id ` set (t_teams t)) \<and>
     (\<forall>b \<in> set (t_builds t). b_team_id b \<in> tm_id ` set (t_teams t)) \<and>
     (\<forall>w \<in> set (t_workers t). \<forall>i \<in> set_option (w_team_id w). i \<in> tm_id ` set (t_teams t))"

definition pipeline_refs_ok :: "tables \<Rightarrow> bool" where
  "pipeline_refs_ok t \<longleftrightarrow>
     (\<forall>j \<in> set (t_jobs t). j_pipeline_id j \<in> p_id ` set (t_pipelines t)) \<and>
     (\<forall>r \<in> set (t_resources t). r_pipeline_id r \<in> p_id ` set (t_pipelines t)) \<and>
     (\<forall>y \<in> set (t_resource_types t). y_pipeline_id y \<in> p_id ` set (t_pipelines t)) \<and>
     (\<forall>b \<in> set (t_builds t). b_pipeline_id b = 0 \<or> b_pipeline_id b \<in> p_id ` set (t_pipelines t))"

definition job_refs_ok :: "tables \<Rightarrow> bool" where
  "job_refs_ok t \<longleftrightarrow>
     (\<forall>b \<in> set (t_builds t). b_job_id b = 0 \<or> b_job_id b \<in> j_id ` set (t_jobs t)) \<and>
     (\<forall>(j, _) \<in> set (t_serial_groups t). j \<in> j_id ` set (t_jobs t)) \<and>
     (\<forall>(j, _) \<in> set (t_next_inputs t). j \<in> j_id ` set (t_jobs t)) \<and>
     (\<forall>(j, _) \<in> set (t_independent_inputs t). j \<in> j_id ` set (t_jobs t)) \<and>
     (\<forall>c \<in> set (t_task_caches t). tc_job_id c \<in> j_id ` set (t_jobs t))"

definition cache_refs_ok :: "tables \<Rightarrow> bool" where
  "cache_refs_ok t \<longleftrightarrow> (\<forall>c \<in> set (t_task_caches t). tc_worker_name c \<in> w_name ` set (t_workers t))"

definition version_refs_ok :: "tables \<Rightarrow> bool" where
  "version_refs_ok t \<longleftrightarrow>
     (\<forall>(_, _, iv) \<in> set (t_next_inputs t). iv_VersionID iv \<in> v_id ` set (t_versions t)) \<and>
     (\<forall>(_, _, iv) \<in> set (t_independent_inputs t). iv_VersionID iv \<in> v_id ` set (t_versions t)) \<and>
     (\<forall>(_, v, _) \<in> set (t_build_inputs t). v \<in> v_id ` set (t_versions t)) \<and>
     (\<forall>(_, v, _) \<in> set (t_build_outputs t). v \<in> v_id ` set (t_versions t))"

definition build_refs_ok :: "tables \<Rightarrow> bool" where
  "build_refs_ok t \<longleftrightarrow>
     (\<forall>(b, _) \<in> set (t_build_inputs t). b \<in> b_id ` set (t_builds t)) \<and>
     (\<forall>(b, _) \<in> set (t_build_outputs t). b \<in> b_id ` set (t_builds t))"

definition resource_refs_ok :: "tables \<Rightarrow> bool" where
  "resource_refs_ok t \<longleftrightarrow> (\<forall>v \<in> set (t_versions t). v_resource_id v \<in> r_id ` set (t_resources t))"

definition refs_ok :: "tables \<Rightarrow> bool" where
  "refs_ok t \<longleftrightarrow> team_refs_ok t \<and> pipeline_refs_ok t \<and> job_refs_ok t \<and> cache_refs_ok t \<and> version_refs_ok t \<and>
     build_refs_ok t \<and> resource_refs_ok t"

definition schema_ok :: "tables \<Rightarrow> bool" where
  "schema_ok t \<longleftrightarrow> keys_ok t \<and> refs_ok t"

lemmas key_defs = keys_ok_def team_keys_ok_def pipeline_keys_ok_def config_keys_ok_def version_keys_ok_def
  names_unique_def unique_job_names_def unique_resource_names_def unique_type_names_def unique_pipeline_names_def unique_team_names_def

lemmas ref_defs = refs_ok_def team_refs_ok_def pipeline_refs_ok_def job_refs_ok_def cache_refs_ok_def version_refs_ok_def
  build_refs_ok_def resource_refs_ok_def

section \<open>Deletions\<close>

lemma ids_below_filter: "ids_below f rows n \<Longrightarrow> ids_below f (filter P rows) n"
  by (auto simp: ids_below_def distinct_map_filter)

lemmas filter_keys = ids_below_filter distinct_map_filter

text \<open>The children of a row go first; the rows themselves are then referred to by none.\<close>

lemma drop_resources_eq:
  "drop_resources P t = (drop_versions (\<lambda>v. \<exists>r \<in> set (t_resources t). r_id r = v_resource_id v \<and> P r) t)\<lparr>t_resources := filter (\<lambda>r. \<not> P r) (t_resources t)\<rparr>"
  by (simp add: drop_resources_def drop_versions_def Let_def)

lemma drop_jobs_eq:
  "drop_jobs P t =
     (let gone = (\<lambda>i. \<exists>j \<in> set (t_jobs t). j_id j = i \<and> P j)
      in (drop_builds (\<lambda>b. gone (b_job_id b)) t)
          \<lparr>t_jobs := filter (\<lambda>j. \<not> P j) (t_jobs t),
             t_serial_groups := filter (\<lambda>(j, _). \<not> gone j) (t_serial_groups t),
             t_next_inputs := filter (\<lambda>(j, _, _). \<not> gone j) (t_next_inputs t),
             t_independent_inputs := filter (\<lambda>(j, _, _). \<not> gone j) (t_independent_inputs t),
             t_task_caches := filter (\<lambda>c. \<not> gone (tc_job_id c)) (t_task_caches t)\<rparr>)"
  by (simp add: drop_jobs_def drop_builds_def Let_def)

lemma keys_drop_versions: "keys_ok t \<Longrightarrow> keys_ok (drop_versions P t)"
  by (simp add: key_defs drop_versions_def Let_def filter_keys)

lemma keys_drop_builds: "keys_ok t \<Longrightarrow> keys_ok (drop_builds P t)"
  by (simp add: key_defs drop_builds_def Let_def filter_keys)

lemma refs_drop_versions: "refs_ok t \<Longrightarrow> refs_ok (drop_versions P t)"
  by (auto simp: ref_defs drop_versions_def Let_def)

lemma refs_drop_builds: "refs_ok t \<Longrightarrow> refs_ok (drop_builds P t)"
  by (auto simp: ref_defs drop_builds_def Let_def)

lemma schema_drop_versions: "schema_ok t \<Longrightarrow> schema_ok (drop_versions P t)"
  by (simp add: schema_ok_def keys_drop_versions refs_drop_versions)

lemma schema_drop_builds: "schema_ok t \<Longrightarrow> schema_ok (drop_builds P t)"
  by (simp add: schema_ok_def keys_drop_builds refs_drop_builds)

lemma drop_versions_fields:
  "t_resources (drop_versions P t) = t_resources t" "t_versions (drop_versions P t) = filter (\<lambda>v. \<not> P v) (t_versions t)"
  by (simp_all add: drop_versions_def Let_def)

lemma schema_drop_resources:
  assumes "schema_ok t"
  shows "schema_ok (drop_resources P t)"
proof -
  let ?Q = "\<lambda>v. \<exists>r \<in> set (t_resources t). r_id r = v_resource_id v \<and> P r"
  let ?t = "drop_versions ?Q t"
  have t: "schema_ok ?t" by (rule schema_drop_versions [OF assms])
  have "keys_ok (?t\<lparr>t_resources := filter (\<lambda>r. \<not> P r) (t_resources t)\<rparr>)"
    using t by (simp add: schema_ok_def key_defs drop_versions_fields filter_keys)
  moreover have "resource_refs_ok (?t\<lparr>t_resources := filter (\<lambda>r. \<not> P r) (t_resources t)\<rparr>)"
  proof -
    have "\<forall>v \<in> set (t_versions t). v_resource_id v \<in> r_id ` set (t_resources t)" using assms by (simp add: schema_ok_def ref_defs)
    then show ?thesis by (fastforce simp: resource_refs_ok_def drop_versions_fields)
  qed
  moreover have "refs_ok ?t" using t by (simp add: schema_ok_def)
  ultimately show ?thesis unfolding drop_resources_eq schema_ok_def by (simp add: ref_defs drop_versions_fields)
qed

lemma drop_builds_fields:
  "t_builds (drop_builds P t) = filter (\<lambda>b. \<not> P b) (t_builds t)" "t_jobs (drop_builds P t) = t_jobs t"
  "t_serial_groups (drop_builds P t) = t_serial_groups t" "t_next_inputs (drop_builds P t) = t_next_inputs t"
  "t_independent_inputs (drop_builds P t) = t_independent_inputs t" "t_task_caches (drop_builds P t) = t_task_caches t"
  "t_pipelines (drop_builds P t) = t_pipelines t" "t_resources (drop_builds P t) = t_resources t"
  "t_resource_types (drop_builds P t) = t_resource_types t" "t_teams (drop_builds P t) = t_teams t"
  "t_workers (drop_builds P t) = t_workers t"
  by (simp_all add: drop_builds_def Let_def)

lemma schema_drop_jobs:
  assumes "schema_ok t"
  shows "schema_ok (drop_jobs P t)"
proof -
  define gone where "gone i \<longleftrightarrow> (\<exists>j \<in> set (t_jobs t). j_id j = i \<and> P j)" for i
  let ?t = "drop_builds (\<lambda>b. gone (b_job_id b)) t"
  let ?t' = "?t\<lparr>t_jobs := filter (\<lambda>j. \<not> P j) (t_jobs t),
             t_serial_groups := filter (\<lambda>(j, _). \<not> gone j) (t_serial_groups t),
             t_next_inputs := filter (\<lambda>(j, _, _). \<not> gone j) (t_next_inputs t),
             t_independent_inputs := filter (\<lambda>(j, _, _). \<not> gone j) (t_independent_inputs t),
             t_task_caches := filter (\<lambda>c. \<not> gone (tc_job_id c)) (t_task_caches t)\<rparr>"
  have t: "keys_ok ?t" "refs_ok ?t" using schema_drop_builds [OF assms] by (simp_all add: schema_ok_def)
  define J where "J = j_id ` set (filter (\<lambda>j. \<not> P j) (t_jobs t))"
  have kept: "i \<in> j_id ` set (t_jobs t) \<Longrightarrow> \<not> gone i \<Longrightarrow> i \<in> J" for i by (auto simp: gone_def J_def)
  have k: "keys_ok ?t'" using t(1) by (simp add: key_defs drop_builds_fields filter_keys)
  have j: "job_refs_ok t" using assms by (simp add: schema_ok_def refs_ok_def)
  then have "(\<forall>b \<in> set (t_builds t). \<not> gone (b_job_id b) \<longrightarrow> b_job_id b = 0 \<or> b_job_id b \<in> J)"
    "(\<forall>(j, _) \<in> set (t_serial_groups t). \<not> gone j \<longrightarrow> j \<in> J)"
    "(\<forall>(j, _) \<in> set (t_next_inputs t). \<not> gone j \<longrightarrow> j \<in> J)"
    "(\<forall>(j, _) \<in> set (t_independent_inputs t). \<not> gone j \<longrightarrow> j \<in> J)"
    "(\<forall>c \<in> set (t_task_caches t). \<not> gone (tc_job_id c) \<longrightarrow> tc_job_id c \<in> J)"
    unfolding job_refs_ok_def using kept by blast+
  then have "job_refs_ok ?t'" unfolding job_refs_ok_def J_def by (auto simp: drop_builds_fields)
  moreover have "pipeline_refs_ok ?t'" "version_refs_ok ?t'" "cache_refs_ok ?t'"
    using t(2) by (auto simp: ref_defs drop_builds_fields)
  moreover have "team_refs_ok ?t'" "build_refs_ok ?t'" "resource_refs_ok ?t'" using t(2) by (simp_all add: ref_defs)
  ultimately show ?thesis using k unfolding drop_jobs_eq schema_ok_def refs_ok_def Let_def gone_def by blast
qed

text \<open>These deletions do not look at the tables of teams, pipelines and resource types.\<close>

lemma drop_builds_commutes:
  "drop_builds P (t\<lparr>t_teams := x\<rparr>) = (drop_builds P t)\<lparr>t_teams := x\<rparr>"
  "drop_builds P (t\<lparr>t_pipelines := ps\<rparr>) = (drop_builds P t)\<lparr>t_pipelines := ps\<rparr>"
  "drop_builds P (t\<lparr>t_resource_types := ys\<rparr>) = (drop_builds P t)\<lparr>t_resource_types := ys\<rparr>"
  by (simp_all add: drop_builds_def Let_def)

lemma drop_resources_commutes:
  "drop_resources P (t\<lparr>t_teams := x\<rparr>) = (drop_resources P t)\<lparr>t_teams := x\<rparr>"
  "drop_resources P (t\<lparr>t_pipelines := ps\<rparr>) = (drop_resources P t)\<lparr>t_pipelines := ps\<rparr>"
  "drop_resources P (t\<lparr>t_resource_types := ys\<rparr>) = (drop_resources P t)\<lparr>t_resource_types := ys\<rparr>"
  by (simp_all add: drop_resources_def drop_versions_def Let_def)

lemma drop_jobs_commutes:
  "drop_jobs P (t\<lparr>t_teams := x\<rparr>) = (drop_jobs P t)\<lparr>t_teams := x\<rparr>"
  "drop_jobs P (t\<lparr>t_pipelines := ps\<rparr>) = (drop_jobs P t)\<lparr>t_pipelines := ps\<rparr>"
  "drop_jobs P (t\<lparr>t_resource_types := ys\<rparr>) = (drop_jobs P t)\<lparr>t_resource_types := ys\<rparr>"
  by (simp_all add: drop_jobs_def drop_builds_def Let_def)

lemma drop_workers_commutes: "drop_workers P (t\<lparr>t_teams := x\<rparr>) = (drop_workers P t)\<lparr>t_teams := x\<rparr>"
  by (simp add: drop_workers_def Let_def)

lemmas drop_commutes = drop_builds_commutes drop_resources_commutes drop_jobs_commutes drop_workers_commutes

definition pipeline_gone :: "(pipeline_row \<Rightarrow> bool) \<Rightarrow> tables \<Rightarrow> int \<Rightarrow> bool" where
  "pipeline_gone P t i \<longleftrightarrow> (\<exists>p \<in> set (t_pipelines t). p_id p = i \<and> P p)"

definition drop_pipeline_rows :: "(int \<Rightarrow> bool) \<Rightarrow> tables \<Rightarrow> tables" where
  "drop_pipeline_rows gone t =
     drop_jobs (\<lambda>j. gone (j_pipeline_id j)) (drop_resources (\<lambda>r. gone (r_pipeline_id r)) (drop_builds (\<lambda>b. gone (b_pipeline_id b)) t))"

lemma drop_pipelines_eq:
  "drop_pipelines P t = (drop_pipeline_rows (pipeline_gone P t) t)
     \<lparr>t_pipelines := filter (\<lambda>p. \<not> P p) (t_pipelines t),
      t_resource_types := filter (\<lambda>y. \<not> pipeline_gone P t (y_pipeline_id y)) (t_resource_types t)\<rparr>"
  by (simp add: drop_pipelines_def drop_pipeline_rows_def pipeline_gone_def drop_commutes Let_def)

lemma drop_pipeline_rows_fields:
  "t_jobs (drop_pipeline_rows g t) = filter (\<lambda>j. \<not> g (j_pipeline_id j)) (t_jobs t)"
  "t_resources (drop_pipeline_rows g t) = filter (\<lambda>r. \<not> g (r_pipeline_id r)) (t_resources t)"
  "b \<in> set (t_builds (drop_pipeline_rows g t)) \<Longrightarrow> b \<in> set (t_builds t) \<and> \<not> g (b_pipeline_id b)"
  "t_pipelines (drop_pipeline_rows g t) = t_pipelines t" "t_resource_types (drop_pipeline_rows g t) = t_resource_types t"
  "t_teams (drop_pipeline_rows g t) = t_teams t" "t_workers (drop_pipeline_rows g t) = t_workers t"
  by (simp_all add: drop_pipeline_rows_def drop_jobs_def drop_resources_def drop_versions_def drop_builds_def Let_def)

lemma schema_drop_pipelines:
  assumes "schema_ok t"
  shows "schema_ok (drop_pipelines P t)"
proof -
  let ?g = "pipeline_gone P t" and ?t = "drop_pipeline_rows (pipeline_gone P t) t"
  let ?t' = "?t\<lparr>t_pipelines := filter (\<lambda>p. \<not> P p) (t_pipelines t),
      t_resource_types := filter (\<lambda>y. \<not> ?g (y_pipeline_id y)) (t_resource_types t)\<rparr>"
  have t: "keys_ok ?t" "refs_ok ?t"
    using schema_drop_jobs [OF schema_drop_resources [OF schema_drop_builds [OF assms]]]
    by (simp_all add: schema_ok_def drop_pipeline_rows_def)
  define J where "J = p_id ` set (filter (\<lambda>p. \<not> P p) (t_pipelines t))"
  have kept: "i \<in> p_id ` set (t_pipelines t) \<Longrightarrow> \<not> ?g i \<Longrightarrow> i \<in> J" for i by (auto simp: pipeline_gone_def J_def)
  have "pipeline_refs_ok t" using assms by (simp add: schema_ok_def refs_ok_def)
  then have
    "\<forall>j \<in> set (t_jobs t). \<not> ?g (j_pipeline_id j) \<longrightarrow> j_pipeline_id j \<in> J"
    "\<forall>r \<in> set (t_resources t). \<not> ?g (r_pipeline_id r) \<longrightarrow> r_pipeline_id r \<in> J"
    "\<forall>y \<in> set (t_resource_types t). \<not> ?g (y_pipeline_id y) \<longrightarrow> y_pipeline_id y \<in> J"
    "\<forall>b \<in> set (t_builds ?t). b_pipeline_id b = 0 \<or> b_pipeline_id b \<in> J"
    unfolding pipeline_refs_ok_def using kept drop_pipeline_rows_fields(3) by blast+
  then have "pipeline_refs_ok ?t'" unfolding pipeline_refs_ok_def J_def by (auto simp: drop_pipeline_rows_fields)
  moreover have "team_refs_ok ?t'" using t(2) by (auto simp: ref_defs drop_pipeline_rows_fields)
  moreover have "job_refs_ok ?t'" "version_refs_ok ?t'" "cache_refs_ok ?t'" "build_refs_ok ?t'" "resource_refs_ok ?t'"
    using t(2) by (simp_all add: ref_defs)
  moreover have "keys_ok ?t'" using t(1) by (simp add: key_defs drop_pipeline_rows_fields filter_keys)
  ultimately show ?thesis unfolding drop_pipelines_eq schema_ok_def refs_ok_def by blast
qed

lemma schema_drop_workers:
  assumes "schema_ok t"
  shows "schema_ok (drop_workers P t)"
proof -
  have "\<forall>c \<in> set (t_task_caches t). tc_worker_name c \<in> w_name ` set (t_workers t)" using assms by (simp add: schema_ok_def ref_defs)
  then have "cache_refs_ok (drop_workers P t)" by (fastforce simp: cache_refs_ok_def drop_workers_def Let_def)
  moreover have "keys_ok (drop_workers P t)" using assms by (simp add: schema_ok_def key_defs drop_workers_def Let_def filter_keys)
  moreover have "team_refs_ok (drop_workers P t)" "job_refs_ok (drop_workers P t)"
    using assms by (auto simp: schema_ok_def ref_defs drop_workers_def Let_def)
  moreover have "pipeline_refs_ok (drop_workers P t)" "version_refs_ok (drop_workers P t)" "build_refs_ok (drop_workers P t)"
    "resource_refs_ok (drop_workers P t)"
    using assms by (simp_all add: schema_ok_def ref_defs drop_workers_def Let_def)
  ultimately show ?thesis by (simp add: schema_ok_def refs_ok_def)
qed

definition team_gone :: "(team_row \<Rightarrow> bool) \<Rightarrow> tables \<Rightarrow> int \<Rightarrow> bool" where
  "team_gone P t i \<longleftrightarrow> (\<exists>r \<in> set (t_teams t). tm_id r = i \<and> P r)"

definition drop_team_rows :: "(int \<Rightarrow> bool) \<Rightarrow> tables \<Rightarrow> tables" where
  "drop_team_rows gone t =
     drop_pipelines (\<lambda>p. gone (p_team_id p)) (drop_builds (\<lambda>b. gone (b_team_id b))
       (drop_workers (\<lambda>w. case w_team_id w of None \<Rightarrow> False | Some i \<Rightarrow> gone i) t))"

lemma drop_keeps_teams:
  "drop_pipelines Q (t\<lparr>t_teams := x\<rparr>) = (drop_pipelines Q t)\<lparr>t_teams := x\<rparr>"
  by (simp add: drop_pipelines_def Let_def drop_commutes)

lemma drop_teams_eq:
  "drop_teams P t = (drop_team_rows (team_gone P t) t)\<lparr>t_teams := filter (\<lambda>r. \<not> P r) (t_teams t)\<rparr>"
  unfolding drop_teams_def drop_team_rows_def team_gone_def Let_def drop_commutes drop_keeps_teams ..

lemma drop_team_rows_fields:
  "t_pipelines (drop_team_rows g t) = filter (\<lambda>p. \<not> g (p_team_id p)) (t_pipelines t)"
  "b \<in> set (t_builds (drop_team_rows g t)) \<Longrightarrow> b \<in> set (t_builds t) \<and> \<not> g (b_team_id b)"
  "w \<in> set (t_workers (drop_team_rows g t)) \<Longrightarrow> w \<in> set (t_workers t) \<and> (\<forall>i \<in> set_option (w_team_id w). \<not> g i)"
  "t_teams (drop_team_rows g t) = t_teams t"
  by (auto simp: drop_team_rows_def drop_pipelines_def drop_jobs_def drop_resources_def drop_versions_def drop_builds_def
      drop_workers_def Let_def)

lemma schema_drop_teams:
  assumes "schema_ok t"
  shows "schema_ok (drop_teams P t)"
proof -
  let ?g = "team_gone P t" and ?t = "drop_team_rows (team_gone P t) t"
  let ?t' = "?t\<lparr>t_teams := filter (\<lambda>r. \<not> P r) (t_teams t)\<rparr>"
  have t: "keys_ok ?t" "refs_ok ?t"
    using schema_drop_pipelines [OF schema_drop_builds [OF schema_drop_workers [OF assms]]]
    by (simp_all add: schema_ok_def drop_team_rows_def)
  define J where "J = tm_id ` set (filter (\<lambda>r. \<not> P r) (t_teams t))"
  have kept: "i \<in> tm_id ` set (t_teams t) \<Longrightarrow> \<not> ?g i \<Longrightarrow> i \<in> J" for i by (auto simp: team_gone_def J_def)
  have "team_refs_ok t" using assms by (simp add: schema_ok_def refs_ok_def)
  then have
    "\<forall>p \<in> set (t_pipelines t). \<not> ?g (p_team_id p) \<longrightarrow> p_team_id p \<in> J"
    "\<forall>b \<in> set (t_builds ?t). b_team_id b \<in> J"
    "\<forall>w \<in> set (t_workers ?t). \<forall>i \<in> set_option (w_team_id w). i \<in> J"
    unfolding team_refs_ok_def using kept drop_team_rows_fields(2) [of _ ?g t] drop_team_rows_fields(3) [of _ ?g t] by blast+
  then have "team_refs_ok ?t'" unfolding team_refs_ok_def J_def by (simp add: drop_team_rows_fields(1))
  moreover have "pipeline_refs_ok ?t'" "job_refs_ok ?t'" "version_refs_ok ?t'" "cache_refs_ok ?t'" "build_refs_ok ?t'" "resource_refs_ok ?t'"
    using t(2) by (simp_all add: ref_defs)
  moreover have "keys_ok ?t'" using t(1) by (simp add: key_defs drop_team_rows_fields filter_keys)
  ultimately show ?thesis unfolding drop_teams_eq schema_ok_def refs_ok_def by blast
qed

section \<open>Saving a pipeline\<close>

lemma ids_below_iff:
  "job_rows.ids_ok (js, n) = ids_below j_id js n" "resource_rows.ids_ok (rs, n) = ids_below r_id rs n" "type_rows.ids_ok (ys, n) = ids_below y_id ys n"
  by (simp_all add: job_rows.ids_ok_def resource_rows.ids_ok_def type_rows.ids_ok_def ids_below_def)

lemma config_keys_iff:
  "config_keys_ok t \<longleftrightarrow> job_rows.names_ok (t_jobs t) \<and> resource_rows.names_ok (t_resources t) \<and> type_rows.names_ok (t_resource_types t) \<and>
     job_rows.ids_ok (jobs_of t) \<and> resource_rows.ids_ok (resources_of t) \<and> type_rows.ids_ok (types_of t)"
  by (auto simp: config_keys_ok_def names_unique_def unique_names_iff ids_below_iff)

text \<open>Rows of a table replaced by rows that keep the numbers and refer to existing pipelines.\<close>

lemma schema_with_jobs:
  assumes "schema_ok t" and "job_rows.names_ok (fst rn)" and "job_rows.ids_ok rn" and "j_id ` set (t_jobs t) \<subseteq> j_id ` set (fst rn)"
    and "j_pipeline_id ` set (fst rn) \<subseteq> p_id ` set (t_pipelines t)"
  shows "schema_ok (with_jobs rn t)"
proof -
  have "config_keys_ok (with_jobs rn t)" using assms(1-3) by (simp add: schema_ok_def keys_ok_def config_keys_iff with_jobs_def)
  then have "keys_ok (with_jobs rn t)" using assms(1) by (simp add: schema_ok_def keys_ok_def with_jobs_def team_keys_ok_def pipeline_keys_ok_def
      version_keys_ok_def unique_pipeline_names_def unique_team_names_def)
  moreover have "pipeline_refs_ok (with_jobs rn t)" using assms(1,5) by (simp add: schema_ok_def refs_ok_def pipeline_refs_ok_def with_jobs_def image_subset_iff)
  moreover have "job_refs_ok t" using assms(1) by (simp add: schema_ok_def refs_ok_def)
  then have "job_refs_ok (with_jobs rn t)" using assms(4) by (simp add: job_refs_ok_def with_jobs_def) blast
  ultimately show ?thesis using assms(1) unfolding schema_ok_def refs_ok_def
    by (simp add: team_refs_ok_def cache_refs_ok_def version_refs_ok_def build_refs_ok_def resource_refs_ok_def with_jobs_def)
qed

lemma schema_with_resources:
  assumes "schema_ok t" and "resource_rows.names_ok (fst rn)" and "resource_rows.ids_ok rn" and "r_id ` set (t_resources t) \<subseteq> r_id ` set (fst rn)"
    and "r_pipeline_id ` set (fst rn) \<subseteq> p_id ` set (t_pipelines t)"
  shows "schema_ok (with_resources rn t)"
proof -
  have "config_keys_ok (with_resources rn t)" using assms(1-3) by (simp add: schema_ok_def keys_ok_def config_keys_iff with_resources_def)
  then have "keys_ok (with_resources rn t)" using assms(1) by (simp add: schema_ok_def keys_ok_def with_resources_def team_keys_ok_def
      pipeline_keys_ok_def version_keys_ok_def unique_pipeline_names_def unique_team_names_def)
  moreover have "pipeline_refs_ok (with_resources rn t)" using assms(1,5)
    by (simp add: schema_ok_def refs_ok_def pipeline_refs_ok_def with_resources_def image_subset_iff)
  moreover have "resource_refs_ok (with_resources rn t)" using assms(1,4) by (auto simp: schema_ok_def refs_ok_def resource_refs_ok_def with_resources_def)
  ultimately show ?thesis using assms(1) unfolding schema_ok_def refs_ok_def
    by (simp add: team_refs_ok_def cache_refs_ok_def version_refs_ok_def build_refs_ok_def job_refs_ok_def with_resources_def)
qed

lemma schema_with_types:
  assumes "schema_ok t" and "type_rows.names_ok (fst rn)" and "type_rows.ids_ok rn"
    and "y_pipeline_id ` set (fst rn) \<subseteq> p_id ` set (t_pipelines t)"
  shows "schema_ok (with_types rn t)"
proof -
  have "config_keys_ok (with_types rn t)" using assms(1-3) by (simp add: schema_ok_def keys_ok_def config_keys_iff with_types_def)
  then have "keys_ok (with_types rn t)" using assms(1) by (simp add: schema_ok_def keys_ok_def with_types_def team_keys_ok_def pipeline_keys_ok_def
      version_keys_ok_def unique_pipeline_names_def unique_team_names_def)
  moreover have "pipeline_refs_ok (with_types rn t)" using assms(1,4)
    by (simp add: schema_ok_def refs_ok_def pipeline_refs_ok_def with_types_def image_subset_iff)
  ultimately show ?thesis using assms(1) unfolding schema_ok_def refs_ok_def
    by (simp add: team_refs_ok_def cache_refs_ok_def version_refs_ok_def build_refs_ok_def job_refs_ok_def resource_refs_ok_def with_types_def)
qed

lemma schema_groups:
  "schema_ok t \<Longrightarrow> (\<forall>(j, _) \<in> set gs. j \<in> j_id ` set (t_jobs t)) \<Longrightarrow> schema_ok (t\<lparr>t_serial_groups := gs\<rparr>)"
  by (simp add: schema_ok_def key_defs ref_defs)

lemma schema_caches: "schema_ok t \<Longrightarrow> schema_ok (t\<lparr>t_task_caches := filter P (t_task_caches t)\<rparr>)"
  by (simp add: schema_ok_def key_defs ref_defs)

lemma registered_refs:
  "(\<forall>(j, _) \<in> set (t_serial_groups t). j \<in> j_id ` set (t_jobs t)) \<Longrightarrow>
   (\<forall>(j, _) \<in> set (t_serial_groups (registered p n g t)). j \<in> j_id ` set (t_jobs (registered p n g t)))"
  by (auto simp: registered_def find_Some_iff split: option.splits)

lemma schema_registered: "schema_ok t \<Longrightarrow> schema_ok (fold (registered p n) gs t)"
proof (induction gs rule: rev_induct)
  case (snoc g gs)
  let ?t = "fold (registered p n) gs t"
  have t: "schema_ok ?t" using snoc by simp
  then have "\<forall>(j, _) \<in> set (t_serial_groups ?t). j \<in> j_id ` set (t_jobs ?t)" by (simp add: schema_ok_def refs_ok_def job_refs_ok_def)
  from registered_refs [OF this, of p n g] have "schema_ok (?t\<lparr>t_serial_groups := t_serial_groups (registered p n g ?t)\<rparr>)"
    by (intro schema_groups [OF t]) (subst (asm) (2) registered_groups, simp)
  then show ?case using registered_groups [of p n g ?t] by simp
qed simp

lemma insert_subset_trans: "A \<subseteq> insert p B \<Longrightarrow> B \<subseteq> C \<Longrightarrow> p \<in> C \<Longrightarrow> A \<subseteq> C"
  by blast

lemma schema_job_saved:
  assumes "schema_ok t" and "p \<in> p_id ` set (t_pipelines t)"
  shows "schema_ok (job_saved p c t)"
proof -
  have k: "job_rows.names_ok (t_jobs t)" "job_rows.ids_ok (jobs_of t)" and r: "j_pipeline_id ` set (t_jobs t) \<subseteq> p_id ` set (t_pipelines t)"
    using assms(1) by (auto simp: schema_ok_def keys_ok_def config_keys_iff refs_ok_def pipeline_refs_ok_def)
  have "j_pipeline_id ` set (fst (job_rows.saved_all p [c] (jobs_of t))) \<subseteq> p_id ` set (t_pipelines t)"
    by (rule insert_subset_trans [OF job_rows.saved_all_pipelines]) (simp_all add: r assms(2))
  then have "schema_ok (with_jobs (job_rows.saved_all p [c] (jobs_of t)) t)"
    using job_rows.saved_all_ids [of "jobs_of t" p "[c]"] job_rows.names_ok_saved_all [of "jobs_of t" p "[c]"] job_rows.ids_ok_saved_all [OF k(2)] k(1)
    by (intro schema_with_jobs [OF assms(1)]) simp_all
  then have "schema_ok (with_jobs (job_rows.saved p c (jobs_of t)) t)" by (simp add: job_rows.saved_all_def)
  then show ?thesis unfolding job_saved_def by (rule schema_registered)
qed

lemma job_saved_pipelines: "t_pipelines (job_saved p c t) = t_pipelines t"
  unfolding job_saved_def by (subst fold_registered_groups) (simp add: with_jobs_def)

lemma schema_jobs_saved:
  "schema_ok t \<Longrightarrow> p \<in> p_id ` set (t_pipelines t) \<Longrightarrow> schema_ok (fold (job_saved p) cs t)"
  by (induction cs arbitrary: t) (auto simp: schema_job_saved job_saved_pipelines)

lemma schema_config_stored:
  assumes "schema_ok t" and "p \<in> p_id ` set (t_pipelines t)"
  shows "schema_ok (config_stored p config t)"
proof -
  have k: "resource_rows.names_ok (t_resources t)" "resource_rows.ids_ok (resources_of t)" "type_rows.names_ok (t_resource_types t)"
      "type_rows.ids_ok (types_of t)"
    and r: "r_pipeline_id ` set (t_resources t) \<subseteq> p_id ` set (t_pipelines t)" "y_pipeline_id ` set (t_resource_types t) \<subseteq> p_id ` set (t_pipelines t)"
    using assms(1) by (auto simp: schema_ok_def keys_ok_def config_keys_iff refs_ok_def pipeline_refs_ok_def)
  let ?t1 = "with_resources (resource_rows.saved_all p (cfg_Resources config) (resources_of t)) t"
  let ?t2 = "with_types (type_rows.saved_all p (cfg_ResourceTypes config) (types_of t)) ?t1"
  have "r_pipeline_id ` set (fst (resource_rows.saved_all p (cfg_Resources config) (resources_of t))) \<subseteq> p_id ` set (t_pipelines t)"
    by (rule insert_subset_trans [OF resource_rows.saved_all_pipelines]) (simp_all add: r assms(2))
  then have 1: "schema_ok ?t1"
    using resource_rows.saved_all_ids [of "resources_of t" p "cfg_Resources config"]
      resource_rows.names_ok_saved_all [of "resources_of t" p "cfg_Resources config"] resource_rows.ids_ok_saved_all [OF k(2)] k(1)
    by (intro schema_with_resources [OF assms(1)]) simp_all
  have "y_pipeline_id ` set (fst (type_rows.saved_all p (cfg_ResourceTypes config) (types_of t))) \<subseteq> p_id ` set (t_pipelines t)"
    by (rule insert_subset_trans [OF type_rows.saved_all_pipelines]) (simp_all add: r assms(2))
  then have 2: "schema_ok ?t2"
    using type_rows.names_ok_saved_all [of "types_of t" p "cfg_ResourceTypes config"] type_rows.ids_ok_saved_all [OF k(4)] k(3)
    by (intro schema_with_types [OF 1]) (simp_all add: with_resources_def)
  have "schema_ok (fold (job_saved p) (cfg_Jobs config) ?t2)"
    using assms(2) by (intro schema_jobs_saved [OF 2]) (simp add: with_types_def with_resources_def)
  then show ?thesis unfolding config_stored_def Let_def by (rule schema_caches)
qed

lemma schema_pipelines:
  "schema_ok t \<Longrightarrow> pipeline_keys_ok (t\<lparr>t_pipelines := ps, t_next_pipeline_id := n, t_config_version := v\<rparr>) \<Longrightarrow>
   p_id ` set (t_pipelines t) \<subseteq> p_id ` set ps \<Longrightarrow> p_team_id ` set ps \<subseteq> tm_id ` set (t_teams t) \<Longrightarrow>
   schema_ok (t\<lparr>t_pipelines := ps, t_next_pipeline_id := n, t_config_version := v\<rparr>)"
  unfolding schema_ok_def keys_ok_def refs_ok_def
  by (auto simp: team_keys_ok_def config_keys_ok_def version_keys_ok_def names_unique_def unique_job_names_def unique_resource_names_def
      unique_type_names_def unique_team_names_def ref_defs image_subset_iff)

text \<open>An update of pipelines that leaves numbers, names and teams alone.\<close>

lemma schema_update_pipelines:
  assumes "schema_ok t" and "\<And>p. p_id (f p) = p_id p \<and> p_name (f p) = p_name p \<and> p_team_id (f p) = p_team_id p"
    and "\<And>p. p \<in> set (t_pipelines t) \<Longrightarrow> P p \<Longrightarrow> p_version (f p) \<le> v" and "t_config_version t \<le> v"
  shows "schema_ok (t\<lparr>t_pipelines := update_where P f (t_pipelines t), t_config_version := v\<rparr>)"
proof -
  let ?ps = "update_where P f (t_pipelines t)"
  have k: "pipeline_keys_ok t" and r: "p_team_id ` set (t_pipelines t) \<subseteq> tm_id ` set (t_teams t)"
    using assms(1) by (auto simp: schema_ok_def keys_ok_def refs_ok_def team_refs_ok_def)
  have m: "map p_id ?ps = map p_id (t_pipelines t)" "map p_team_id ?ps = map p_team_id (t_pipelines t)"
    "map (\<lambda>p. (p_name p, p_team_id p)) ?ps = map (\<lambda>p. (p_name p, p_team_id p)) (t_pipelines t)"
    by (intro map_update_where; simp add: assms(2))+
  have "\<forall>p \<in> set ?ps. p_id p < t_next_pipeline_id t" "\<forall>p \<in> set ?ps. p_version p \<le> v"
    using k assms(2-4) by (auto simp: pipeline_keys_ok_def ids_below_def ball_update_where intro: order_trans)
  then have "pipeline_keys_ok (t\<lparr>t_pipelines := ?ps, t_next_pipeline_id := t_next_pipeline_id t, t_config_version := v\<rparr>)"
    using k m by (simp add: pipeline_keys_ok_def ids_below_def unique_pipeline_names_def)
  moreover have "set (map p_id ?ps) = set (map p_id (t_pipelines t))" "set (map p_team_id ?ps) = set (map p_team_id (t_pipelines t))"
    by (simp_all only: m)
  ultimately have "schema_ok (t\<lparr>t_pipelines := ?ps, t_next_pipeline_id := t_next_pipeline_id t, t_config_version := v\<rparr>)"
    using assms(1) r by (intro schema_pipelines) simp_all
  then show ?thesis by simp
qed

lemma schema_insert_pipeline:
  assumes "schema_ok t" and "\<not> pipeline_exists tm name t" and "insert_pipeline tm name groups b t = (Some p, t')"
  shows "schema_ok t' \<and> p \<in> p_id ` set (t_pipelines t')"
proof -
  have k: "pipeline_keys_ok t" and r: "p_team_id ` set (t_pipelines t) \<subseteq> tm_id ` set (t_teams t)"
    using assms(1) by (auto simp: schema_ok_def keys_ok_def refs_ok_def team_refs_ok_def)
  have t': "t' = t\<lparr>t_pipelines := t_pipelines t @ [\<lparr>p_id = t_next_pipeline_id t, p_name = name, p_team_id = tm_id tm, p_paused = b,
      p_public = False, p_ordering = t_next_pipeline_id t, p_groups = groups, p_version = t_config_version t + 1\<rparr>],
      t_next_pipeline_id := t_next_pipeline_id t + 1, t_config_version := t_config_version t + 1\<rparr>" and p: "p = t_next_pipeline_id t"
    and tm: "tm_id tm \<in> tm_id ` set (t_teams t)"
    using assms(3) by (auto simp: insert_pipeline_def image_iff split: if_splits) (metis)
  have "schema_ok t'"
    unfolding t' using assms(1,2) k r tm
    by (intro schema_pipelines) (auto simp: pipeline_keys_ok_def ids_below_def unique_pipeline_names_def pipeline_exists_def)
  then show ?thesis by (simp add: t' p)
qed

lemma schema_deactivated:
  assumes "schema_ok t"
  shows "schema_ok (deactivated p t)"
proof -
  let ?js = "(job_rows.cleared p (t_jobs t), t_next_job_id t)" and ?rs = "(resource_rows.cleared p (t_resources t), t_next_resource_id t)"
  let ?ys = "(type_rows.cleared p (t_resource_types t), t_next_type_id t)"
  have k: "config_keys_ok t" and r: "pipeline_refs_ok t" using assms by (simp_all add: schema_ok_def keys_ok_def refs_ok_def)
  have 1: "schema_ok (with_jobs ?js t)"
    using k r by (intro schema_with_jobs [OF assms])
      (auto simp: config_keys_iff job_rows.names_ok_cleared job_rows.ids_ok_cleared job_rows.cleared_ids pipeline_refs_ok_def)
  have 2: "schema_ok (with_resources ?rs (with_jobs ?js t))"
    using k r by (intro schema_with_resources [OF 1])
      (auto simp: config_keys_iff resource_rows.names_ok_cleared resource_rows.ids_ok_cleared resource_rows.cleared_ids pipeline_refs_ok_def with_jobs_def)
  have 3: "schema_ok (with_types ?ys (with_resources ?rs (with_jobs ?js t)))"
    using k r by (intro schema_with_types [OF 2])
      (auto simp: config_keys_iff type_rows.names_ok_cleared type_rows.ids_ok_cleared type_rows.cleared_ids pipeline_refs_ok_def with_jobs_def with_resources_def)
  have "\<forall>(j, _) \<in> set (t_serial_groups t). j \<in> j_id ` set (t_jobs t)" using assms by (simp add: schema_ok_def refs_ok_def job_refs_ok_def)
  then have "schema_ok ((with_types ?ys (with_resources ?rs (with_jobs ?js t)))\<lparr>t_serial_groups := filter (\<lambda>(i, _). \<not> (\<exists>j \<in> set (t_jobs t). j_id j = i \<and> j_pipeline_id j = p)) (t_serial_groups t)\<rparr>)"
    by (intro schema_groups [OF 3]) (auto simp: with_defs job_rows.cleared_ids)
  then show ?thesis by (simp add: deactivated_def with_defs)
qed

lemma schema_pipeline_stored:
  assumes "schema_ok t" and "pipeline_stored tm name groups from ps t = Some (p, t')"
  shows "schema_ok t' \<and> p \<in> p_id ` set (t_pipelines t')"
proof (cases "pipeline_exists tm name t")
  case False
  then show ?thesis using assms(2) schema_insert_pipeline [OF assms(1) False]
    by (auto simp: pipeline_stored_def split: prod.splits option.splits)
next
  case True
  then obtain q t1 where q: "q \<in> set (t_pipelines t)" "p = p_id q" and t': "t' = deactivated p t1"
    and t1: "t1 = t\<lparr>t_pipelines := update_where (config_match tm name from)
               (\<lambda>p. p\<lparr>p_groups := groups, p_version := t_config_version t + 1,
                       p_paused := (case paused_Bool ps of None \<Rightarrow> p_paused p | Some b \<Rightarrow> b)\<rparr>) (t_pipelines t),
             t_config_version := t_config_version t + 1\<rparr>"
    using assms(2) by (auto simp: pipeline_stored_def update_config_def split: option.splits dest: find_sat)
  have "schema_ok t1" unfolding t1 by (rule schema_update_pipelines [OF assms(1)]) simp_all
  moreover have "p \<in> set (map p_id (t_pipelines t1))" using q by (simp add: t1 map_update_where del: set_map) force
  ultimately show ?thesis by (simp add: t' schema_deactivated) (simp add: deactivated_def)
qed

lemma keeps_SavePipeline: "keeps schema_ok (SavePipeline tm name config from ps)"
proof (rule keeps_post)
  fix t assume t: "schema_ok t"
  then have "names_unique t" by (simp add: schema_ok_def keys_ok_def config_keys_ok_def)
  from post_SavePipeline [OF this, of tm name config "from" ps] show "post (SavePipeline tm name config from ps) t (\<lambda>_. schema_ok)"
    by (rule post_mono)
      (auto simp: after_def t split: sum.splits dest!: schema_pipeline_stored [OF t] intro: schema_config_stored)
qed

section \<open>A small database\<close>

text \<open>A pipeline with one job, one resource and the version the job has run with.\<close>

definition web_get :: PlanConfig where
  "web_get = PlanConfig [] None None ''repo'' [] True [] [] [] False [] None [] [] [] [] [] [] None None None None None [] [] 0 None"

definition web_job :: "string \<Rightarrow> JobConfig" where
  "web_job name =
     \<lparr>job_Name = name, job_Public = False, job_DisableManualTrigger = False, job_Serial = False, job_Interruptible = False,
      job_SerialGroups = [], job_RawMaxInFlight = 0, job_BuildLogsToRetain = 0, job_Plan = [web_get], job_Abort = None,
      job_Failure = None, job_Ensure = None, job_Success = None\<rparr>"

definition web_resource :: ResourceConfig where
  "web_resource = \<lparr>resource_Name = ''repo'', resource_WebhookToken = [], resource_Type = ''git'', resource_Source = [],
     resource_CheckEvery = [], resource_Tags = []\<rparr>"

definition web_config :: Config where
  "web_config = \<lparr>cfg_Groups = [], cfg_Resources = [web_resource], cfg_ResourceTypes = [], cfg_Jobs = [web_job ''unit'', web_job ''lint'']\<rparr>"

definition web_resource_row :: resource_row where
  "web_resource_row = \<lparr>r_id = 1, r_name = ''repo'', r_pipeline_id = 1, r_config = web_resource, r_active = True, r_paused = False,
     r_check_error = None, r_last_checked = 0, r_resource_config_id = None\<rparr>"

definition web_pipeline :: pipeline_row where
  "web_pipeline = \<lparr>p_id = 1, p_name = ''web'', p_team_id = 1, p_paused = False, p_public = False, p_ordering = 1, p_groups = [], p_version = 3\<rparr>"

definition web_team :: team_row where
  "web_team = \<lparr>tm_id = 1, tm_name = ''main'', tm_admin = True\<rparr>"

definition web_tables :: tables where
  "web_tables =
     \<lparr>t_builds = [\<lparr>b_id = 1, b_name = ''1'', b_status = StatusSucceeded, b_scheduled = True, b_team_id = 1, b_pipeline_id = 1, b_job_id = 1,
         b_manually_triggered = False, b_engine = [], b_engine_metadata = None, b_public_plan = None, b_start_time = Some 1,
         b_end_time = Some 2, b_completed = True, b_reap_time = None\<rparr>],
      t_jobs = [\<lparr>j_id = 1, j_name = ''unit'', j_pipeline_id = 1, j_paused = False, j_active = True, j_inputs_determined = True,
         j_max_in_flight_reached = False, j_build_number_seq = 1, j_config = web_job ''unit'', j_interruptible = False, j_first_logged_build_id = 0\<rparr>],
      t_serial_groups = [], t_next_inputs = [(1, ''repo'', \<lparr>iv_VersionID = 1, iv_FirstOccurrence = False\<rparr>)],
      t_independent_inputs = [], t_build_inputs = [(1, 1, ''repo'')], t_build_outputs = [], t_resources = [web_resource_row],
      t_versions = [\<lparr>v_id = 1, v_resource_id = 1, v_type = ''git'', v_version = Some [(''ref'', ''a'')], v_metadata = [], v_enabled = True,
         v_check_order = 1\<rparr>],
      t_pipelines = [web_pipeline], t_teams = [web_team], t_workers = [], t_events = [], t_event_seqs = [], t_next_build_id = 2,
      t_next_version_id = 2, t_now = 10, t_resource_types = [], t_task_caches = [], t_next_pipeline_id = 2, t_next_job_id = 2,
      t_next_resource_id = 2, t_next_type_id = 1, t_config_version = 3\<rparr>"

definition web_db :: db where
  "web_db = \<lparr>db_tables = web_tables, db_ticks = 0, db_fails = \<lambda>_. False\<rparr>"

lemma web_schema_ok: "schema_ok (db_tables web_db)"
  unfolding schema_ok_def
proof
  show "keys_ok (db_tables web_db)"
    by (simp add: key_defs ids_below_def web_db_def web_tables_def web_pipeline_def web_team_def web_resource_row_def)
  show "refs_ok (db_tables web_db)"
    by (simp add: ref_defs web_db_def web_tables_def web_pipeline_def web_team_def web_resource_row_def)
qed

lemma web_healthy: "healthy web_db"
  by (simp add: healthy_def web_db_def)

end
