(* ===== verification/Pipeline_Correct.thy ===== *)
theory Pipeline_Correct
  imports Schema
begin

text \<open>
  Saving a pipeline's configuration: it is read back as it was saved, rows keep their identity, other pipelines
  are untouched, and a save from an old version changes nothing.
\<close>

section \<open>The configuration a pipeline has\<close>

definition active_resources :: "int \<Rightarrow> tables \<Rightarrow> resource_row list" where
  "active_resources p t = filter (\<lambda>r. r_active r \<and> r_pipeline_id r = p) (t_resources t)"

definition active_types :: "int \<Rightarrow> tables \<Rightarrow> resource_type_row list" where
  "active_types p t = filter (\<lambda>y. y_active y \<and> y_pipeline_id y = p) (t_resource_types t)"

definition untagged :: "ResourceType \<Rightarrow> ResourceType" where
  "untagged y = y\<lparr>rt_Tags := []\<rparr>"

text \<open>The jobs, resources and resource types of the pipeline are those of the configuration, in some order.\<close>

definition has_config :: "int \<Rightarrow> Config \<Rightarrow> tables \<Rightarrow> bool" where
  "has_config p config t \<longleftrightarrow>
     mset (Jobs_Configs (active_jobs p t)) = mset (cfg_Jobs config) \<and>
     mset (Resources_Configs (active_resources p t)) = mset (cfg_Resources config) \<and>
     mset (ResourceTypes_Configs (active_types p t)) = mset (map untagged (cfg_ResourceTypes config))"

definition config_names_distinct :: "Config \<Rightarrow> bool" where
  "config_names_distinct config \<longleftrightarrow> distinct (map job_Name (cfg_Jobs config)) \<and> distinct (map resource_Name (cfg_Resources config)) \<and>
     distinct (map rt_Name (cfg_ResourceTypes config))"

text \<open>Every row of the pipeline is still there, with its number and all that its configuration does not say.\<close>

definition rows_kept :: "int \<Rightarrow> tables \<Rightarrow> tables \<Rightarrow> bool" where
  "rows_kept p t t' \<longleftrightarrow>
     (\<forall>j \<in> set (t_jobs t). \<exists>j' \<in> set (t_jobs t'). job_rows.same_row j j') \<and>
     (\<forall>r \<in> set (t_resources t). \<exists>r' \<in> set (t_resources t'). resource_rows.same_row r r') \<and>
     (\<forall>y \<in> set (t_resource_types t). \<exists>y' \<in> set (t_resource_types t'). type_rows.same_row y y')"

definition others_untouched :: "int \<Rightarrow> tables \<Rightarrow> tables \<Rightarrow> bool" where
  "others_untouched p t t' \<longleftrightarrow>
     filter (\<lambda>q. p_id q \<noteq> p) (t_pipelines t') = filter (\<lambda>q. p_id q \<noteq> p) (t_pipelines t) \<and>
     filter (\<lambda>j. j_pipeline_id j \<noteq> p) (t_jobs t') = filter (\<lambda>j. j_pipeline_id j \<noteq> p) (t_jobs t) \<and>
     filter (\<lambda>r. r_pipeline_id r \<noteq> p) (t_resources t') = filter (\<lambda>r. r_pipeline_id r \<noteq> p) (t_resources t) \<and>
     filter (\<lambda>y. y_pipeline_id y \<noteq> p) (t_resource_types t') = filter (\<lambda>y. y_pipeline_id y \<noteq> p) (t_resource_types t) \<and>
     t_builds t' = t_builds t \<and> t_versions t' = t_versions t \<and> t_build_inputs t' = t_build_inputs t \<and> t_build_outputs t' = t_build_outputs t \<and>
     t_next_inputs t' = t_next_inputs t \<and> t_independent_inputs t' = t_independent_inputs t \<and>
     t_teams t' = t_teams t \<and> t_workers t' = t_workers t \<and> t_events t' = t_events t"

section \<open>The tables after saving\<close>

lemma config_stored_jobs: "jobs_of (config_stored p config t) = job_rows.saved_all p (cfg_Jobs config) (jobs_of t)"
  unfolding config_stored_def Let_def by (subst (1 2) fold_job_saved) (simp add: with_defs)

lemma config_stored_fields:
  "resources_of (config_stored p config t) = resource_rows.saved_all p (cfg_Resources config) (resources_of t)"
  "types_of (config_stored p config t) = type_rows.saved_all p (cfg_ResourceTypes config) (types_of t)"
  "t_pipelines (config_stored p config t) = t_pipelines t" "t_teams (config_stored p config t) = t_teams t"
  "t_builds (config_stored p config t) = t_builds t" "t_versions (config_stored p config t) = t_versions t"
  "t_build_inputs (config_stored p config t) = t_build_inputs t" "t_build_outputs (config_stored p config t) = t_build_outputs t"
  "t_next_inputs (config_stored p config t) = t_next_inputs t" "t_independent_inputs (config_stored p config t) = t_independent_inputs t"
  "t_workers (config_stored p config t) = t_workers t" "t_events (config_stored p config t) = t_events t"
  "t_config_version (config_stored p config t) = t_config_version t"
  unfolding config_stored_def Let_def by (subst fold_job_saved, simp add: with_defs)+

lemma mset_map_cong: "mset (map f xs) = mset cs \<Longrightarrow> (\<And>x. x \<in> set xs \<Longrightarrow> g x = h (f x)) \<Longrightarrow> mset (map g xs) = mset (map h cs)"
proof -
  assume m: "mset (map f xs) = mset cs" and g: "\<And>x. x \<in> set xs \<Longrightarrow> g x = h (f x)"
  have "map g xs = map h (map f xs)" using g by simp
  then show ?thesis by (metis m mset_map)
qed

text \<open>A pipeline with no active rows gets the configuration.\<close>

definition no_actives :: "int \<Rightarrow> tables \<Rightarrow> bool" where
  "no_actives p t \<longleftrightarrow> job_rows.actives p (t_jobs t) = [] \<and> resource_rows.actives p (t_resources t) = [] \<and> type_rows.actives p (t_resource_types t) = []"

text \<open>The columns for the type of a resource type and for its configuration agree.\<close>

lemma type_rows_type:
  assumes "\<And>y. y \<in> set (fst rn) \<Longrightarrow> y_active y \<Longrightarrow> y_pipeline_id y = p \<Longrightarrow> y_type y = rt_Type (y_config y)"
    and "y \<in> set (fst (type_rows.saved_all p cs rn))" "y_active y" "y_pipeline_id y = p"
  shows "y_type y = rt_Type (y_config y)"
  using assms(2-4)
proof (induction cs arbitrary: y rule: rev_induct)
  case Nil
  then show ?case using assms(1) by (simp add: type_rows.saved_all_def)
next
  case (snoc c cs)
  obtain rows n where rn: "type_rows.saved_all p cs rn = (rows, n)" by fastforce
  have ih: "y_type y = rt_Type (y_config y)" if "y \<in> set rows" "y_active y" "y_pipeline_id y = p" for y using snoc.IH that rn by simp
  show ?case
  proof (cases "\<exists>r \<in> set rows. type_rows.found c p r")
    case True
    then have "y \<in> set (update_where (type_rows.found c p) (\<lambda>y. y\<lparr>y_config := c, y_type := rt_Type c, y_active := True\<rparr>) rows)"
      using snoc.prems(1) by (simp add: type_rows.saved_all_snoc rn type_rows.saved_def)
    then obtain q where "q \<in> set rows" "y = (if type_rows.found c p q then q\<lparr>y_config := c, y_type := rt_Type c, y_active := True\<rparr> else q)"
      unfolding in_update_where by blast
    then show ?thesis using ih snoc.prems(2,3) by (simp split: if_splits)
  next
    case False
    then have "y \<in> set (rows @ [new_resource_type n c p])"
      using snoc.prems(1) by (simp add: type_rows.saved_all_snoc rn type_rows.saved_def)
    then consider "y \<in> set rows" | "y = new_resource_type n c p" by auto
    then show ?thesis using ih snoc.prems(2,3) by cases (simp_all add: new_resource_type_def)
  qed
qed

lemma has_config_stored:
  assumes "names_unique t" and "no_actives p t" and "config_names_distinct config"
  shows "has_config p config (config_stored p config t)"
proof -
  let ?t = "config_stored p config t"
  have j: "t_jobs ?t = fst (job_rows.saved_all p (cfg_Jobs config) (jobs_of t))"
    and r: "t_resources ?t = fst (resource_rows.saved_all p (cfg_Resources config) (resources_of t))"
    and y: "t_resource_types ?t = fst (type_rows.saved_all p (cfg_ResourceTypes config) (types_of t))"
    using config_stored_jobs [of p config t] config_stored_fields(1,2) [of p config t] by (simp_all add: prod_eq_iff)
  have aj: "active_jobs p ?t = job_rows.actives p (t_jobs ?t)" by (simp add: active_jobs_def job_rows.actives_def)
  have ar: "active_resources p ?t = resource_rows.actives p (t_resources ?t)"
    and ay: "active_types p ?t = type_rows.actives p (t_resource_types ?t)"
    by (simp_all add: active_resources_def resource_rows.actives_def active_types_def type_rows.actives_def conj_commute)
  have n: "job_rows.names_ok (t_jobs t)" "resource_rows.names_ok (t_resources t)" "type_rows.names_ok (t_resource_types t)"
    using assms(1) by (simp_all add: names_unique_def unique_names_iff)
  have d: "distinct (map job_Name (cfg_Jobs config))" "distinct (map resource_Name (cfg_Resources config))" "distinct (map rt_Name (cfg_ResourceTypes config))"
    and a: "job_rows.actives p (t_jobs t) = []" "resource_rows.actives p (t_resources t) = []" "type_rows.actives p (t_resource_types t) = []"
    using assms(2,3) by (simp_all add: config_names_distinct_def no_actives_def)
  have "mset (Jobs_Configs (active_jobs p ?t)) = mset (cfg_Jobs config)"
    unfolding Jobs_Configs_def aj j using a(1) d(1) n(1) by (intro job_rows.saved_all_mset) simp_all
  moreover have "mset (Resources_Configs (active_resources p ?t)) = mset (map (\<lambda>c. c) (cfg_Resources config))"
    unfolding Resources_Configs_def ar r
  proof (rule mset_map_cong [OF resource_rows.saved_all_mset])
    fix q assume "q \<in> set (resource_rows.actives p (fst (resource_rows.saved_all p (cfg_Resources config) (resources_of t))))"
    then show "(r_config q)\<lparr>resource_Name := r_name q\<rparr> = r_config q"
      using resource_rows.saved_all_actives [of p "resources_of t" "cfg_Resources config"] a(2) d(2) by simp
  qed (simp_all add: a d n)
  moreover have "mset (ResourceTypes_Configs (active_types p ?t)) = mset (map untagged (cfg_ResourceTypes config))"
    unfolding ResourceTypes_Configs_def ay y
  proof (rule mset_map_cong [OF type_rows.saved_all_mset])
    fix q assume q: "q \<in> set (type_rows.actives p (fst (type_rows.saved_all p (cfg_ResourceTypes config) (types_of t))))"
    then have "y_name q = rt_Name (y_config q)"
      using type_rows.saved_all_actives [of p "types_of t" "cfg_ResourceTypes config"] a(3) d(3) by simp
    moreover have "y_type q = rt_Type (y_config q)"
      using q a(3) by (intro type_rows_type [of "types_of t" p q "cfg_ResourceTypes config"]) (auto simp: type_rows.actives_def filter_empty_conv)
    ultimately show "(y_config q)\<lparr>rt_Name := y_name q, rt_Type := y_type q, rt_Tags := []\<rparr> = untagged (y_config q)" by (simp add: untagged_def)
  qed (simp_all add: a d n)
  ultimately show ?thesis by (simp add: has_config_def)
qed

text \<open>What storing the pipeline's own row does: an update of the row of the expected version, or a new row.\<close>

definition row_updated :: "GroupConfig list \<Rightarrow> int \<Rightarrow> PipelinePausedState \<Rightarrow> pipeline_row \<Rightarrow> pipeline_row" where
  "row_updated groups v ps p = p\<lparr>p_groups := groups, p_version := v, p_paused := (case paused_Bool ps of None \<Rightarrow> p_paused p | Some b \<Rightarrow> b)\<rparr>"

lemma pipeline_stored_cases:
  assumes "pipeline_stored tm name groups from ps t = Some (p, t1)"
  obtains (updated) q where "pipeline_exists tm name t" "find (config_match tm name from) (t_pipelines t) = Some q" "p = p_id q"
      "t1 = deactivated p (t\<lparr>t_pipelines := update_where (config_match tm name from) (row_updated groups (t_config_version t + 1) ps) (t_pipelines t),
             t_config_version := t_config_version t + 1\<rparr>)"
  | (inserted) "\<not> pipeline_exists tm name t" "p = t_next_pipeline_id t"
      "t1 = t\<lparr>t_pipelines := t_pipelines t @ [\<lparr>p_id = p, p_name = name, p_team_id = tm_id tm, p_paused = (ps \<noteq> PipelineUnpaused), p_public = False,
               p_ordering = p, p_groups = groups, p_version = t_config_version t + 1\<rparr>],
             t_next_pipeline_id := t_next_pipeline_id t + 1, t_config_version := t_config_version t + 1\<rparr>"
  using assms by (cases "pipeline_exists tm name t")
    (auto simp: pipeline_stored_def update_config_def insert_pipeline_def row_updated_def [abs_def] split: option.splits if_splits)

lemma pipeline_stored_jobs:
  assumes "pipeline_stored tm name groups from ps t = Some (p, t1)"
  shows "jobs_of t1 = (if pipeline_exists tm name t then (job_rows.cleared p (t_jobs t), t_next_job_id t) else jobs_of t)"
    and "resources_of t1 = (if pipeline_exists tm name t then (resource_rows.cleared p (t_resources t), t_next_resource_id t) else resources_of t)"
    and "types_of t1 = (if pipeline_exists tm name t then (type_rows.cleared p (t_resource_types t), t_next_type_id t) else types_of t)"
    and "t_config_version t1 = t_config_version t + 1"
  using assms by (cases rule: pipeline_stored_cases; simp add: deactivated_def)+

lemma pipeline_stored_others:
  assumes "pipeline_stored tm name groups from ps t = Some (p, t1)"
  shows "t_teams t1 = t_teams t \<and> t_builds t1 = t_builds t \<and> t_versions t1 = t_versions t \<and> t_build_inputs t1 = t_build_inputs t \<and>
    t_build_outputs t1 = t_build_outputs t \<and> t_next_inputs t1 = t_next_inputs t \<and> t_independent_inputs t1 = t_independent_inputs t \<and>
    t_workers t1 = t_workers t \<and> t_events t1 = t_events t"
  using assms by (cases rule: pipeline_stored_cases) (simp_all add: deactivated_def)

lemma pipeline_stored_actives:
  assumes "schema_ok t" and "pipeline_stored tm name groups from ps t = Some (p, t1)"
  shows "no_actives p t1"
  using assms(2)
proof (cases rule: pipeline_stored_cases)
  case updated
  then show ?thesis by (simp add: deactivated_def no_actives_def job_rows.actives_cleared resource_rows.actives_cleared type_rows.actives_cleared)
next
  case inserted
  have "p \<notin> p_id ` set (t_pipelines t)" using assms(1) inserted(2) by (auto simp: schema_ok_def key_defs ids_below_def)
  moreover have "pipeline_refs_ok t" using assms(1) by (simp add: schema_ok_def refs_ok_def)
  ultimately show ?thesis using inserted(3)
    unfolding no_actives_def pipeline_refs_ok_def job_rows.actives_def resource_rows.actives_def type_rows.actives_def filter_empty_conv by auto
qed

lemma matched_row:
  assumes "schema_ok t" and "find (config_match tm name from) (t_pipelines t) = Some q" and "x \<in> set (t_pipelines t)"
  shows "config_match tm name from x \<longleftrightarrow> p_id x = p_id q"
proof -
  have ids: "inj_on p_id (set (t_pipelines t))" and un: "inj_on (\<lambda>p. (p_name p, p_team_id p)) (set (t_pipelines t))"
    using assms(1) by (simp_all add: schema_ok_def key_defs ids_below_def distinct_map)
  have q: "q \<in> set (t_pipelines t)" "config_match tm name from q" using assms(2) by (auto dest: find_sat)
  show ?thesis
  proof
    assume "config_match tm name from x"
    then have "(p_name x, p_team_id x) = (p_name q, p_team_id q)" using q(2) by (simp add: config_match_def)
    then show "p_id x = p_id q" using inj_onD [OF un _ assms(3) q(1)] by metis
  next
    assume "p_id x = p_id q"
    then have "x = q" using inj_onD [OF ids _ assms(3) q(1)] by metis
    then show "config_match tm name from x" using q(2) by simp
  qed
qed

lemma pipeline_stored_pipelines:
  assumes "schema_ok t" and "pipeline_stored tm name groups from ps t = Some (p, t1)"
  obtains (updated) "t_pipelines t1 = update_where (\<lambda>x. p_id x = p) (row_updated groups (t_config_version t + 1) ps) (t_pipelines t)"
      "pipeline_exists tm name t" "\<exists>q \<in> set (t_pipelines t). p_id q = p" "\<And>q. q \<in> set (t_pipelines t) \<Longrightarrow> p_id q = p \<Longrightarrow> config_match tm name from q"
  | (inserted) "t_pipelines t1 = t_pipelines t @ [\<lparr>p_id = p, p_name = name, p_team_id = tm_id tm, p_paused = (ps \<noteq> PipelineUnpaused), p_public = False,
               p_ordering = p, p_groups = groups, p_version = t_config_version t + 1\<rparr>]"
      "\<not> pipeline_exists tm name t" "p \<notin> p_id ` set (t_pipelines t)"
  using assms(2)
proof (cases rule: pipeline_stored_cases)
  case (updated q)
  note m = matched_row [OF assms(1) updated(2)]
  have "t_pipelines t1 = update_where (\<lambda>x. p_id x = p) (row_updated groups (t_config_version t + 1) ps) (t_pipelines t)"
    unfolding updated(4) deactivated_def by (simp add: update_where_def m updated(3))
  then show ?thesis using that(1) updated(1,3) m find_sat [OF updated(2)] by blast
next
  case inserted
  have "p \<notin> p_id ` set (t_pipelines t)" using assms(1) inserted(2) by (auto simp: schema_ok_def key_defs ids_below_def)
  then show ?thesis using that(2) inserted(1,3) by simp
qed

lemma pipeline_stored_row:
  assumes "schema_ok t" and "pipeline_stored tm name groups from ps t = Some (p, t1)" and "find (\<lambda>q. p_id q = p) (t_pipelines t1) = Some pl"
  shows "p_id pl = p \<and> p_name pl = name \<and> p_team_id pl = tm_id tm \<and> p_groups pl = groups \<and> p_version pl = t_config_version t + 1"
  using assms(1,2)
proof (cases rule: pipeline_stored_pipelines)
  case updated
  have pl: "pl \<in> set (t_pipelines t1)" "p_id pl = p" using find_sat [OF assms(3)] by simp_all
  then obtain x where x: "x \<in> set (t_pipelines t)" "pl = (if p_id x = p then row_updated groups (t_config_version t + 1) ps x else x)"
    unfolding updated(1) in_update_where by blast
  then have "p_id x = p" using pl(2) by (simp add: row_updated_def split: if_splits)
  then show ?thesis using x updated(4) [OF x(1)] by (simp add: row_updated_def config_match_def)
next
  case inserted
  have pl: "pl \<in> set (t_pipelines t1)" "p_id pl = p" using find_sat [OF assms(3)] by simp_all
  then have "pl \<notin> set (t_pipelines t)" using inserted(3) by auto
  with pl(1) have "pl = \<lparr>p_id = p, p_name = name, p_team_id = tm_id tm, p_paused = (ps \<noteq> PipelineUnpaused), p_public = False,
      p_ordering = p, p_groups = groups, p_version = t_config_version t + 1\<rparr>" unfolding inserted(1) by simp
  then show ?thesis by simp
qed

lemma pipeline_stored_other_rows:
  assumes "schema_ok t" and "pipeline_stored tm name groups from ps t = Some (p, t1)"
  shows "filter (\<lambda>q. p_id q \<noteq> p) (t_pipelines t1) = filter (\<lambda>q. p_id q \<noteq> p) (t_pipelines t)"
  using assms
proof (cases rule: pipeline_stored_pipelines)
  case updated
  show ?thesis unfolding updated(1) by (rule filter_update_where) (simp add: row_updated_def)
next
  case inserted
  then show ?thesis by simp
qed

lemma rows_kept_stored:
  assumes "pipeline_stored tm name groups from ps t = Some (p, t1)"
  shows "rows_kept p t (config_stored p config t1)"
proof -
  let ?t = "config_stored p config t1"
  have tb: "t_jobs ?t = fst (job_rows.saved_all p (cfg_Jobs config) (jobs_of t1))"
    "t_resources ?t = fst (resource_rows.saved_all p (cfg_Resources config) (resources_of t1))"
    "t_resource_types ?t = fst (type_rows.saved_all p (cfg_ResourceTypes config) (types_of t1))"
    using config_stored_jobs [of p config t1] config_stored_fields(1,2) [of p config t1] by (simp_all add: prod_eq_iff)
  note t1 = pipeline_stored_jobs [OF assms]
  show ?thesis
    unfolding rows_kept_def tb
    using job_rows.kept_through [OF _ t1(1)] resource_rows.kept_through [OF _ t1(2)] type_rows.kept_through [OF _ t1(3)] by blast
qed

lemma others_untouched_stored:
  assumes "schema_ok t" and "pipeline_stored tm name groups from ps t = Some (p, t1)"
  shows "others_untouched p t (config_stored p config t1)"
proof -
  let ?t = "config_stored p config t1"
  have tb: "t_jobs ?t = fst (job_rows.saved_all p (cfg_Jobs config) (jobs_of t1))"
    "t_resources ?t = fst (resource_rows.saved_all p (cfg_Resources config) (resources_of t1))"
    "t_resource_types ?t = fst (type_rows.saved_all p (cfg_ResourceTypes config) (types_of t1))"
    using config_stored_jobs [of p config t1] config_stored_fields(1,2) [of p config t1] by (simp_all add: prod_eq_iff)
  have "filter (\<lambda>j. j_pipeline_id j \<noteq> p) (t_jobs ?t) = filter (\<lambda>j. j_pipeline_id j \<noteq> p) (t_jobs t)"
    "filter (\<lambda>r. r_pipeline_id r \<noteq> p) (t_resources ?t) = filter (\<lambda>r. r_pipeline_id r \<noteq> p) (t_resources t)"
    "filter (\<lambda>y. y_pipeline_id y \<noteq> p) (t_resource_types ?t) = filter (\<lambda>y. y_pipeline_id y \<noteq> p) (t_resource_types t)"
    unfolding tb job_rows.saved_all_others resource_rows.saved_all_others type_rows.saved_all_others pipeline_stored_jobs [OF assms(2)]
    by (simp_all add: job_rows.cleared_others resource_rows.cleared_others type_rows.cleared_others)
  then show ?thesis
    using pipeline_stored_others [OF assms(2)] pipeline_stored_other_rows [OF assms]
    by (simp add: others_untouched_def config_stored_fields(3-12))
qed

text \<open>No version of a configuration that was ever handed out is above the sequence.\<close>

lemma stale_version:
  assumes "schema_ok t" and "pl \<in> set (t_pipelines t)" "p_name pl = name" "p_team_id pl = tm_id tm" and "v \<noteq> p_version pl"
  shows "pipeline_stored tm name groups v ps t = None"
proof -
  have "pipeline_exists tm name t" using assms(2-4) by (auto simp: pipeline_exists_def)
  moreover have un: "inj_on (\<lambda>p. (p_name p, p_team_id p)) (set (t_pipelines t))" using assms(1) by (simp add: schema_ok_def key_defs distinct_map)
  have "find (config_match tm name v) (t_pipelines t) = None"
    unfolding find_None_iff
  proof
    assume "\<exists>x. x \<in> set (t_pipelines t) \<and> config_match tm name v x"
    then obtain x where x: "x \<in> set (t_pipelines t)" "config_match tm name v x" by blast
    then have "x = pl" using inj_onD [OF un _ x(1) assms(2)] assms(3,4) by (simp add: config_match_def)
    then show False using x(2) assms(5) by (simp add: config_match_def)
  qed
  ultimately show ?thesis by (simp add: pipeline_stored_def update_config_def)
qed

lemma SavePipeline_outcome:
  fixes s :: db
  assumes "schema_ok (db_tables s)" and "config_names_distinct config" and "SavePipeline tm name config from ps s = (r, s')"
  shows "case r of
      Inl _ \<Rightarrow> db_tables s' = db_tables s
    | Inr (pl, created) \<Rightarrow>
        created = (\<not> pipeline_exists tm name (db_tables s)) \<and> pl \<in> set (t_pipelines (db_tables s')) \<and>
        p_name pl = name \<and> p_team_id pl = tm_id tm \<and> p_groups pl = cfg_Groups config \<and> p_version pl = t_config_version (db_tables s) + 1 \<and>
        (\<not> created \<longrightarrow> (\<exists>q \<in> set (t_pipelines (db_tables s)). p_id q = p_id pl \<and> config_match tm name from q)) \<and>
        has_config (p_id pl) config (db_tables s') \<and> rows_kept (p_id pl) (db_tables s) (db_tables s') \<and>
        others_untouched (p_id pl) (db_tables s) (db_tables s')"
proof -
  let ?t = "db_tables s" and ?t' = "db_tables s'"
  have nu: "names_unique ?t" using assms(1) by (simp add: schema_ok_def key_defs)
  note p = postD [OF post_SavePipeline [OF nu] assms(3) refl]
  show ?thesis
  proof (cases r)
    case (Inl e)
    then show ?thesis using p by simp
  next
    case (Inr x)
    obtain pl created where x: "x = (pl, created)" by fastforce
    from p obtain q t1 where c: "created = (\<not> pipeline_exists tm name ?t)"
      and st: "pipeline_stored tm name (cfg_Groups config) from ps ?t = Some (q, t1)" and t': "?t' = config_stored q config t1"
      and f: "find (\<lambda>q'. p_id q' = q) (t_pipelines t1) = Some pl"
      by (auto simp: Inr x config_stored_fields(3))
    note row = pipeline_stored_row [OF assms(1) st f]
    have pl: "pl \<in> set (t_pipelines ?t')" using find_sat [OF f] by (simp add: t' config_stored_fields(3))
    have "\<not> created \<longrightarrow> (\<exists>q \<in> set (t_pipelines ?t). p_id q = p_id pl \<and> config_match tm name from q)"
      using assms(1) st by (cases rule: pipeline_stored_pipelines) (use c row in auto)
    moreover have "has_config (p_id pl) config ?t'"
      unfolding t' using row has_config_stored [OF names_unique_stored [OF nu st] pipeline_stored_actives [OF assms(1) st] assms(2)] by simp
    moreover have "rows_kept (p_id pl) ?t ?t'" "others_untouched (p_id pl) ?t ?t'"
      unfolding t' using row rows_kept_stored [OF st] others_untouched_stored [OF assms(1) st] by simp_all
    ultimately show ?thesis using c pl row by (simp add: Inr x)
  qed
qed

text \<open>Of two saves from the same version only the first can succeed.\<close>

lemma second_save_fails:
  fixes s :: db
  assumes "schema_ok (db_tables s)" and "pl \<in> set (t_pipelines (db_tables s))" "p_name pl = name" "p_team_id pl = tm_id tm"
    and "v < p_version pl" and "SavePipeline tm name config v ps s = (r, s')"
  shows "isl r \<and> db_tables s' = db_tables s"
proof -
  have "pipeline_stored tm name (cfg_Groups config) v ps (db_tables s) = None"
    using assms(5) by (intro stale_version [OF assms(1-4)]) simp
  moreover have "names_unique (db_tables s)" using assms(1) by (simp add: schema_ok_def key_defs)
  ultimately show ?thesis using postD [OF post_SavePipeline assms(6) refl] by (cases r) (auto simp: after_def)
qed


lemma web_saved: "\<not> isl (fst (SavePipeline web_team ''web'' web_config 3 PipelineNoChange web_db))"
  by code_simp


end
