(* ===== verification/Config_Correct.thy ===== *)
theory Config_Correct
  imports Config_Server Pipeline_Correct
begin

text \<open>
  Saving a configuration through the API and reading it back.
\<close>

section \<open>Looking up what was saved\<close>

lemma healthy_query: "healthy s \<Longrightarrow> query f s = (Inr (f (db_tables s)), s\<lparr>db_ticks := Suc (db_ticks s)\<rparr>)"
  by (simp add: healthy_def query_def stmt_def Let_def)

lemma healthy_ticks [simp]: "healthy (s\<lparr>db_ticks := n\<rparr>) = healthy s"
  by (simp add: healthy_def)

lemma run_then_query:
  "healthy s \<Longrightarrow> run_then (query f) k s = k (f (db_tables s)) (s\<lparr>db_ticks := Suc (db_ticks s)\<rparr>)"
  by (simp add: run_then_def healthy_query)

text \<open>What \<open>GetConfig\<close> answers when no statement fails.\<close>

definition read_config :: "pipeline_row \<Rightarrow> tables \<Rightarrow> Config" where
  "read_config pl t =
     \<lparr>cfg_Groups = p_groups pl, cfg_Resources = Resources_Configs (active_resources (p_id pl) t),
      cfg_ResourceTypes = ResourceTypes_Configs (active_types (p_id pl) t), cfg_Jobs = Jobs_Configs (sort_key j_id (active_jobs (p_id pl) t))\<rparr>"

lemma GetConfig_answer:
  assumes "healthy s"
    and "find (\<lambda>x. strings_ToLower (tm_name x) = strings_ToLower (Query_Get r '':team_name'')) (t_teams (db_tables s)) = Some tm"
    and "find (\<lambda>p. p_team_id p = tm_id tm \<and> p_name p = Query_Get r '':pipeline_name'') (t_pipelines (db_tables s)) = Some pl"
  shows "\<exists>s'. GetConfig r s = (Reply 200 (ConfigResponse (read_config pl (db_tables s)) (p_version pl)), s')"
  using assms
  by (simp add: GetConfig_def lookup_then_def FindTeam_def team_Pipeline_def pipeline_Jobs_def pipeline_Resources_def
      pipeline_ResourceTypes_def run_then_query read_config_def active_resources_def active_types_def)

section \<open>Round trip\<close>

text \<open>The same configuration, except for the order of jobs, resources and resource types and for the tags of the latter.\<close>

definition same_config :: "Config \<Rightarrow> Config \<Rightarrow> bool" where
  "same_config c config \<longleftrightarrow>
     cfg_Groups c = cfg_Groups config \<and> mset (cfg_Jobs c) = mset (cfg_Jobs config) \<and> mset (cfg_Resources c) = mset (cfg_Resources config) \<and>
     mset (cfg_ResourceTypes c) = mset (map untagged (cfg_ResourceTypes config))"

lemma read_config_same:
  "has_config (p_id pl) config t \<Longrightarrow> p_groups pl = cfg_Groups config \<Longrightarrow> same_config (read_config pl t) config"
  by (simp add: same_config_def read_config_def has_config_def Jobs_Configs_def)

lemma find_the_pipeline:
  assumes "schema_ok t" and "pl \<in> set (t_pipelines t)"
  shows "find (\<lambda>p. p_team_id p = p_team_id pl \<and> p_name p = p_name pl) (t_pipelines t) = Some pl"
proof -
  have "find (\<lambda>p. p_team_id p = p_team_id pl \<and> p_name p = p_name pl) (t_pipelines t) \<noteq> None" using assms(2) by (auto simp: find_None_iff)
  then obtain q where q: "find (\<lambda>p. p_team_id p = p_team_id pl \<and> p_name p = p_name pl) (t_pipelines t) = Some q" by auto
  have "inj_on (\<lambda>p. (p_name p, p_team_id p)) (set (t_pipelines t))" using assms(1) by (simp add: schema_ok_def key_defs distinct_map)
  then have "q = pl" using find_sat [OF q] assms(2) by (auto dest: inj_onD)
  then show ?thesis using q by simp
qed

lemma lookup_FindTeam:
  assumes "lookup_then (FindTeam n) 500 k s = (reply, s')"
  obtains (missing) "reply = Status 500" "db_tables s' = db_tables s"
  | (found) tm s1 where "find (\<lambda>r. strings_ToLower (tm_name r) = strings_ToLower n) (t_teams (db_tables s)) = Some tm"
      "db_tables s1 = db_tables s" "k tm s1 = (reply, s')"
proof (cases "db_fails s (db_ticks s)")
  case True
  then show thesis using assms by (intro missing) (auto simp: lookup_then_def run_then_def FindTeam_def query_def stmt_def Let_def)
next
  case False
  then have r: "(case find (\<lambda>r. strings_ToLower (tm_name r) = strings_ToLower n) (t_teams (db_tables s)) of
      None \<Rightarrow> (Status 500, s\<lparr>db_ticks := Suc (db_ticks s)\<rparr>) | Some x \<Rightarrow> k x (s\<lparr>db_ticks := Suc (db_ticks s)\<rparr>)) = (reply, s')"
    using assms by (simp add: lookup_then_def run_then_def FindTeam_def query_def stmt_def Let_def)
  show thesis
  proof (cases "find (\<lambda>r. strings_ToLower (tm_name r) = strings_ToLower n) (t_teams (db_tables s))")
    case None
    then show thesis using r by (intro missing) auto
  next
    case (Some tm)
    show thesis by (rule found [OF Some, of "s\<lparr>db_ticks := Suc (db_ticks s)\<rparr>"]) (use r Some in simp_all)
  qed
qed

text \<open>What the handler does once the request is decoded.\<close>

lemma SaveConfig_cases:
  assumes "SaveConfig r s = (reply, s')"
  obtains (refused) "\<forall>st payload. reply = Reply st payload \<longrightarrow> st \<noteq> 200 \<and> st \<noteq> 201" "db_tables s' = db_tables s"
  | (saved) config ps version warnings tm s1 pl created where
      "saveConfigRequestUnmarshaler (body_content (rq_Body r)) = Inr (config, ps)" "snd (Config_Validate config) = []"
      "find (\<lambda>x. strings_ToLower (tm_name x) = strings_ToLower (Query_Get r '':team_name'')) (t_teams (db_tables s)) = Some tm"
      "db_tables s1 = db_tables s" "SavePipeline tm (Query_Get r '':pipeline_name'') config version ps s1 = (Inr (pl, created), s')"
      "reply = Reply (if created then 201 else 200) (SaveConfigResponse [] warnings)"
proof -
  let ?n = "Query_Get r '':pipeline_name''"
  let ?save = "\<lambda>config version ps warnings team s. case SavePipeline team ?n config version ps s of
      (Inl e, s') \<Rightarrow> (Reply 500 (FailedToSave e), s')
    | (Inr (_, created), s') \<Rightarrow> (Reply (if created then 201 else 200) (SaveConfigResponse [] warnings), s')"
  have bad: thesis if "(\<exists>es. (reply, s') = handleBadRequest es s) \<or> (reply, s') = answer 415 s \<or> (reply, s') = answer 500 s"
    using that by (intro refused) (auto simp: handleBadRequest_def answer_def)
  have main: thesis if u: "saveConfigRequestUnmarshaler (body_content (rq_Body r)) = Inr (config, ps)" and v: "Config_Validate config = (warnings, [])"
    and l: "lookup_then (FindTeam (Query_Get r '':team_name'')) 500 (?save config version ps warnings) s = (reply, s')" for config ps version warnings
    using l
  proof (cases rule: lookup_FindTeam)
    case missing
    then show ?thesis by (intro refused) simp_all
  next
    case (found tm s1)
    show ?thesis
    proof (cases "SavePipeline tm ?n config version ps s1")
      case (Pair x s2)
      show ?thesis
      proof (cases x)
        case (Inl e)
        have "atomic (SavePipeline tm ?n config version ps)" unfolding SavePipeline_def by simp
        then have "db_tables s2 = db_tables s1" using Pair Inl by (auto simp: atomic_def)
        then show ?thesis using found(3) Pair Inl found(2) by (intro refused) auto
      next
        case (Inr y)
        obtain pl created where y: "y = (pl, created)" by fastforce
        show ?thesis using saved [OF u _ found(1,2), of version pl created warnings] found(3) Pair Inr y v by simp
      qed
    qed
  qed
  let ?version = "if length (Header_Get r ConfigVersionHeader) \<noteq> 0 then Sscanf_d (Header_Get r ConfigVersionHeader) else Inr 0"
  note a = assms [symmetric, unfolded SaveConfig_def Let_def]
  show thesis
  proof (cases ?version)
    case (Inl e)
    then show thesis using a by (intro bad) auto
  next
    case (Inr version)
    note version = Inr
    show thesis
    proof (cases "saveConfigRequestUnmarshaler (body_content (rq_Body r))")
      case (Inl e)
      then show thesis using a version by (cases e) (auto intro!: bad)
    next
      case (Inr x)
      obtain config ps where x: "x = (config, ps)" by fastforce
      obtain warnings es where v: "Config_Validate config = (warnings, es)" by fastforce
      show thesis
      proof (cases es)
        case Nil
        show thesis by (rule main [OF Inr [unfolded x] v [unfolded Nil], of version]) (use a version Inr x v Nil in simp)
      next
        case (Cons e es')
        then show thesis using a version Inr x v by (intro bad) auto
      qed
    qed
  qed
qed


definition web_request :: request where
  "web_request = \<lparr>rq_Method = ''PUT'', rq_Header = [(ConfigVersionHeader, ''3'')], rq_Cookies = [],
     rq_Query = [('':team_name'', ''main''), ('':pipeline_name'', ''web'')],
     rq_Body = ConfigBody (YamlContent (Some (Decoded web_config []))),
     rq_Context = \<lparr>cx_logger = False, cx_CSRFRequired = None, cx_authenticated = Some True, cx_teamName = Some ''main'', cx_isAdmin = Some True,
       cx_system = None, cx_build = None, cx_pipeline = None\<rparr>\<rparr>"

lemma web_accepted: "fst (SaveConfig web_request web_db) = Reply 200 (SaveConfigResponse [] [])"
  by code_simp


end
