(* ===== verification/Resource_DB.thy ===== *)
theory Resource_DB
  imports Pipeline_DB Db_Engine
begin

text \<open>
  Resources, their versions and resource types in the database, as the checking of resources uses them:
  \<open>db/pipeline.go\<close>, \<open>db/resource.go\<close>, \<open>db/resource_type.go\<close> and \<open>db/pipeline_locks.go\<close>. What the lock factory
  answers is an argument.
\<close>

section \<open>Versions\<close>

definition SaveResourceVersions :: "int \<Rightarrow> string \<Rightarrow> string \<Rightarrow> AtcVersion list \<Rightarrow> unit dbm" where
  "SaveResourceVersions pipelineID name type versions =
     tx (committed (d_each (\<lambda>version.
       d_bind (find_resource pipelineID name) (\<lambda>resourceID.
       d_seq (saveVersionedResource resourceID \<lparr>vr_Resource = name, vr_Type = type, vr_Version = version, vr_Metadata = []\<rparr>)
         (incrementCheckOrderWhenNewerVersion resourceID type version))) versions))"

text \<open>The versions of a resource, as the queries join them: by the number of the resource.\<close>

definition resource_versions :: "int \<Rightarrow> string \<Rightarrow> tables \<Rightarrow> version_row list" where
  "resource_versions pipelineID name t =
     filter (\<lambda>v. \<exists>r \<in> set (t_resources t). r_id r = v_resource_id v \<and> r_name r = name \<and> r_pipeline_id r = pipelineID) (t_versions t)"

text \<open>\<open>ORDER BY check_order DESC LIMIT 1\<close>\<close>

definition GetLatestVersionedResource :: "int \<Rightarrow> string \<Rightarrow> version_row option dbm" where
  "GetLatestVersionedResource pipelineID name =
     query (\<lambda>t. case sort_key (\<lambda>v. - v_check_order v) (resource_versions pipelineID name t) of [] \<Rightarrow> None | v # _ \<Rightarrow> Some v)"

section \<open>Resources and resource types\<close>

definition update_resource :: "(resource_row \<Rightarrow> bool) \<Rightarrow> (resource_row \<Rightarrow> resource_row) \<Rightarrow> unit dbm" where
  "update_resource P f = exec (\<lambda>t. t\<lparr>t_resources := update_where P f (t_resources t)\<rparr>)"

definition SetResourceCheckError :: "resource_row \<Rightarrow> string option \<Rightarrow> unit dbm" where
  "SetResourceCheckError resource cause = update_resource (\<lambda>r. r_id r = r_id resource) (\<lambda>r. r\<lparr>r_check_error := cause\<rparr>)"

definition resource_Pause :: "resource_row \<Rightarrow> unit dbm" where
  "resource_Pause resource = update_resource (\<lambda>r. r_id r = r_id resource) (\<lambda>r. r\<lparr>r_paused := True\<rparr>)"

definition resource_Unpause :: "resource_row \<Rightarrow> unit dbm" where
  "resource_Unpause resource = update_resource (\<lambda>r. r_id r = r_id resource) (\<lambda>r. r\<lparr>r_paused := False\<rparr>)"

definition resource_SetResourceConfig :: "resource_row \<Rightarrow> int \<Rightarrow> unit dbm" where
  "resource_SetResourceConfig resource resourceConfigID =
     update_resource (\<lambda>r. r_id r = r_id resource \<and> (r_resource_config_id r = None \<or> r_resource_config_id r \<noteq> Some resourceConfigID))
       (\<lambda>r. r\<lparr>r_resource_config_id := Some resourceConfigID\<rparr>)"

definition resourceType_SaveVersion :: "resource_type_row \<Rightarrow> AtcVersion \<Rightarrow> unit dbm" where
  "resourceType_SaveVersion rt version =
     d_bind (stmt (\<lambda>t. (affected (\<lambda>y. y_id y = y_id rt) (t_resource_types t),
         t\<lparr>t_resource_types := update_where (\<lambda>y. y_id y = y_id rt) (\<lambda>y. y\<lparr>y_version := version\<rparr>) (t_resource_types t)\<rparr>)))
       (\<lambda>num. if num = 0 then d_fail (ResourceTypeNotFoundError (y_name rt)) else d_return ())"

definition resourceType_SetResourceConfig :: "resource_type_row \<Rightarrow> int \<Rightarrow> unit dbm" where
  "resourceType_SetResourceConfig rt resourceConfigID =
     exec (\<lambda>t. t\<lparr>t_resource_types := update_where (\<lambda>y. y_id y = y_id rt) (\<lambda>y. y\<lparr>y_resource_config_id := Some resourceConfigID\<rparr>) (t_resource_types t)\<rparr>)"

text \<open>\<open>Deserialize\<close>: the tags are left out.\<close>

definition ResourceTypes_Deserialize :: "resource_type_row list \<Rightarrow> VersionedResourceType list" where
  "ResourceTypes_Deserialize resourceTypes =
     map (\<lambda>y. \<lparr>rt_Name = y_name y, rt_Type = y_type y, rt_Source = rt_Source (y_config y), rt_Privileged = rt_Privileged (y_config y),
               rt_Tags = [], rt_Params = rt_Params (y_config y), vrt_Version = y_version y\<rparr>) resourceTypes"

definition pipeline_Reload :: "pipeline_row \<Rightarrow> bool dbm" where
  "pipeline_Reload p = query (\<lambda>t. \<exists>q \<in> set (t_pipelines t). p_id q = p_id p)"

section \<open>Checking locks\<close>

text \<open>An interval is a duration in nanoseconds.\<close>

definition interval_passed :: "int \<Rightarrow> int \<Rightarrow> int \<Rightarrow> bool" where
  "interval_passed now last_checked interval \<longleftrightarrow> (now - last_checked) * 1000000000 > interval"

definition checkIfResourceIntervalUpdated :: "pipeline_row \<Rightarrow> string \<Rightarrow> int \<Rightarrow> bool \<Rightarrow> bool dbm" where
  "checkIfResourceIntervalUpdated p resourceName interval immediate =
     tx (d_bind (checkIfRowsUpdated (\<lambda>t.
           let P = (\<lambda>r. r_name r = resourceName \<and> r_pipeline_id r = p_id p \<and> (immediate \<or> interval_passed (t_now t) (r_last_checked r) interval))
           in (affected P (t_resources t), t\<lparr>t_resources := update_where P (\<lambda>r. r\<lparr>r_last_checked := t_now t\<rparr>) (t_resources t)\<rparr>)))
         (\<lambda>updated. d_return (updated, updated)))"

definition checkIfResourceTypeIntervalUpdated :: "pipeline_row \<Rightarrow> string \<Rightarrow> int \<Rightarrow> bool \<Rightarrow> bool dbm" where
  "checkIfResourceTypeIntervalUpdated p resourceTypeName interval immediate =
     tx (d_bind (checkIfRowsUpdated (\<lambda>t.
           let P = (\<lambda>y. y_name y = resourceTypeName \<and> y_pipeline_id y = p_id p \<and> (immediate \<or> interval_passed (t_now t) (y_last_checked y) interval))
           in (affected P (t_resource_types t), t\<lparr>t_resource_types := update_where P (\<lambda>y. y\<lparr>y_last_checked := t_now t\<rparr>) (t_resource_types t)\<rparr>)))
         (\<lambda>updated. d_return (updated, updated)))"

text \<open>
  The result of an attempt, and whether the lock is held after it. The resources' variant releases the lock
  when the interval cannot be updated; the resource types' variant does not.
\<close>

definition AcquireResourceCheckingLockWithIntervalCheck ::
    "pipeline_row \<Rightarrow> string \<Rightarrow> lock_result \<Rightarrow> int \<Rightarrow> bool \<Rightarrow> db \<Rightarrow> ((dberror + bool) \<times> bool) \<times> db" where
  "AcquireResourceCheckingLockWithIntervalCheck p resourceName lock interval immediate s =
     (case lock of
        LockFailed \<Rightarrow> ((Inl LockError, False), s)
      | NotAcquired \<Rightarrow> ((Inr False, False), s)
      | Acquired \<Rightarrow>
          (case checkIfResourceIntervalUpdated p resourceName interval immediate s of
             (Inl e, s') \<Rightarrow> ((Inl e, False), s')
           | (Inr intervalUpdated, s') \<Rightarrow> if \<not> intervalUpdated then ((Inr False, False), s') else ((Inr True, True), s')))"

definition AcquireResourceTypeCheckingLockWithIntervalCheck ::
    "pipeline_row \<Rightarrow> string \<Rightarrow> lock_result \<Rightarrow> int \<Rightarrow> bool \<Rightarrow> db \<Rightarrow> ((dberror + bool) \<times> bool) \<times> db" where
  "AcquireResourceTypeCheckingLockWithIntervalCheck p resourceTypeName lock interval immediate s =
     (case lock of
        LockFailed \<Rightarrow> ((Inl LockError, False), s)
      | NotAcquired \<Rightarrow> ((Inr False, False), s)
      | Acquired \<Rightarrow>
          (case checkIfResourceTypeIntervalUpdated p resourceTypeName interval immediate s of
             (Inl e, s') \<Rightarrow> ((Inl e, True), s')
           | (Inr intervalUpdated, s') \<Rightarrow> if \<not> intervalUpdated then ((Inr False, False), s') else ((Inr True, True), s')))"

end
