(* ===== verification/Radar.thy ===== *)
theory Radar
  imports Resource_DB Go_Duration
begin

text \<open>
  The checking of resources and resource types: \<open>radar/resource_scanner.go\<close>, \<open>radar/resource_type_scanner.go\<close>,
  \<open>radar/interval_runner.go\<close> and \<open>radar/runner.go\<close>.

  Code outside the model is an argument: the evaluation of credentials, the sessions of checks, the container
  a check runs in and the check script itself, and what the lock factory answers at each attempt. A scan that
  must complete tries the lock until it gets it; a scan whose attempts are used up has not returned.
\<close>

section \<open>Environment\<close>

record scan_env =
  se_defaultInterval :: int
  se_Evaluate :: "Source \<Rightarrow> dberror + Source"
  se_FindOrCreateSession :: "string \<Rightarrow> Source \<Rightarrow> VersionedResourceType list \<Rightarrow> dberror + int"
  se_NewResource :: "string \<Rightarrow> VersionedResourceType list \<Rightarrow> dberror + unit"
  se_Check :: "Source \<Rightarrow> AtcVersion \<Rightarrow> dberror + AtcVersion list"
  se_attempts :: "string \<Rightarrow> lock_result list"
  se_Error :: "dberror \<Rightarrow> string"

text \<open>The interval and the error a scan returns; nothing while it has not returned.\<close>

type_synonym scanned = "(int \<times> dberror option) option"

definition failed :: "int \<Rightarrow> dberror \<Rightarrow> scanned dbm" where
  "failed interval e = d_return (Some (interval, Some e))"

text \<open>A call whose error the scanner handles.\<close>

definition d_try :: "'a dbm \<Rightarrow> (dberror \<Rightarrow> 'b dbm) \<Rightarrow> ('a \<Rightarrow> 'b dbm) \<Rightarrow> 'b dbm" where
  "d_try m h k = (\<lambda>s. case m s of (Inl e, s') \<Rightarrow> h e s' | (Inr x, s') \<Rightarrow> k x s')"

section \<open>Resources\<close>

definition setResourceCheckError :: "scan_env \<Rightarrow> resource_row \<Rightarrow> dberror option \<Rightarrow> unit dbm" where
  "setResourceCheckError env savedResource err =
     d_try (SetResourceCheckError savedResource (map_option (se_Error env) err)) (\<lambda>_. d_return ()) (\<lambda>_. d_return ())"

definition checkInterval :: "scan_env \<Rightarrow> string \<Rightarrow> dberror + int" where
  "checkInterval env checkEvery =
     (if checkEvery \<noteq> [] then (case ParseDuration checkEvery of Inl e \<Rightarrow> Inl (ScanError e) | Inr d \<Rightarrow> Inr d)
      else Inr (se_defaultInterval env))"

text \<open>\<open>swallowErrResourceScriptFailed\<close>\<close>

definition swallowErrResourceScriptFailed :: "dberror option \<Rightarrow> dberror option" where
  "swallowErrResourceScriptFailed err = (case err of Some (ErrResourceScriptFailed _) \<Rightarrow> None | _ \<Rightarrow> err)"

definition scanner_check ::
    "scan_env \<Rightarrow> pipeline_row \<Rightarrow> resource_row \<Rightarrow> AtcVersion \<Rightarrow> VersionedResourceType list \<Rightarrow> Source \<Rightarrow> dberror option dbm" where
  "scanner_check env p savedResource fromVersion resourceTypes source =
     d_try (CheckPaused (p_id p)) (\<lambda>e. d_return (Some e)) (\<lambda>pipelinePaused.
     if pipelinePaused then d_return None
     else if r_paused savedResource then d_return None
     else d_try (pipeline_Reload p) (\<lambda>e. d_return (Some e)) (\<lambda>found.
     if \<not> found then d_return (Some PipelineRemoved)
     else case se_NewResource env (resource_Type (r_config savedResource)) resourceTypes of
       Inl e \<Rightarrow> d_seq (setResourceCheckError env savedResource (Some e)) (d_return (Some e))
     | Inr _ \<Rightarrow>
        (case se_Check env source fromVersion of
           Inl e \<Rightarrow> d_seq (setResourceCheckError env savedResource (Some e)) (d_return (Some e))
         | Inr newVersions \<Rightarrow>
             d_seq (setResourceCheckError env savedResource None)
               (if newVersions = [] \<or> newVersions = [fromVersion] then d_return None
                else d_try (SaveResourceVersions (p_id p) (r_name savedResource) (resource_Type (r_config savedResource)) newVersions)
                  (\<lambda>_. d_return None) (\<lambda>_. d_return None)))))"

text \<open>The loop over the lock: whether it was acquired, or nothing while the loop goes on.\<close>

fun acquire_loop :: "(lock_result \<Rightarrow> db \<Rightarrow> ((dberror + bool) \<times> bool) \<times> db) \<Rightarrow> bool \<Rightarrow> lock_result list \<Rightarrow> bool option dbm" where
  "acquire_loop acquire mustComplete [] s = (Inr None, s)"
| "acquire_loop acquire mustComplete (lock # locks) s =
     (case acquire lock s of
        ((Inl e, _), s') \<Rightarrow> (Inr (Some False), s')
      | ((Inr acquired, _), s') \<Rightarrow>
          if acquired then (Inr (Some True), s')
          else if mustComplete then acquire_loop acquire mustComplete locks s'
          else (Inr (Some False), s'))"

text \<open>The resource types without a version that the checked one is built on are scanned first.\<close>

fun scan_parents :: "(string \<Rightarrow> scanned dbm) \<Rightarrow> string list \<Rightarrow> scanned dbm \<Rightarrow> scanned dbm" where
  "scan_parents typeScan [] k = k"
| "scan_parents typeScan (n # ns) k =
     d_bind (typeScan n) (\<lambda>r. case r of
       None \<Rightarrow> d_return None
     | Some (_, Some e) \<Rightarrow> failed 0 e
     | Some (_, None) \<Rightarrow> scan_parents typeScan ns k)"

text \<open>With the lock: the version to check from, and the check.\<close>

definition scan_locked ::
    "scan_env \<Rightarrow> pipeline_row \<Rightarrow> resource_row \<Rightarrow> string \<Rightarrow> AtcVersion \<Rightarrow> int \<Rightarrow> VersionedResourceType list \<Rightarrow> Source \<Rightarrow> scanned dbm" where
  "scan_locked env p savedResource resourceName fromVersion interval versionedResourceTypes source =
     d_try (if fromVersion = None
            then d_bind (GetLatestVersionedResource (p_id p) resourceName) (\<lambda>vr. d_return (case vr of None \<Rightarrow> None | Some v \<Rightarrow> v_version v))
            else d_return fromVersion) (failed interval) (\<lambda>fromVersion.
     d_bind (scanner_check env p savedResource fromVersion versionedResourceTypes source) (\<lambda>err.
     d_return (Some (interval, err))))"

definition scan :: "scan_env \<Rightarrow> (string \<Rightarrow> scanned dbm) \<Rightarrow> pipeline_row \<Rightarrow> string \<Rightarrow> AtcVersion \<Rightarrow> bool \<Rightarrow> scanned dbm" where
  "scan env typeScan p resourceName fromVersion mustComplete =
     d_try (pipeline_Resource p resourceName) (failed 0) (\<lambda>found.
     case found of None \<Rightarrow> failed 0 (ResourceNotFoundError resourceName) | Some savedResource \<Rightarrow>
     case checkInterval env (resource_CheckEvery (r_config savedResource)) of
       Inl e \<Rightarrow> d_seq (setResourceCheckError env savedResource (Some e)) (failed 0 e)
     | Inr interval \<Rightarrow>
     d_try (pipeline_ResourceTypes p) (failed 0) (\<lambda>resourceTypes.
     scan_parents typeScan (map y_name (filter (\<lambda>y. y_name y = resource_Type (r_config savedResource) \<and> y_version y = None) resourceTypes))
    (d_try (pipeline_ResourceTypes p) (failed 0) (\<lambda>resourceTypes.
     let versionedResourceTypes = ResourceTypes_Deserialize resourceTypes in
     case se_Evaluate env (resource_Source (r_config savedResource)) of
       Inl e \<Rightarrow> d_seq (setResourceCheckError env savedResource (Some e)) (failed 0 e)
     | Inr source \<Rightarrow>
     case se_FindOrCreateSession env (resource_Type (r_config savedResource)) source versionedResourceTypes of
       Inl e \<Rightarrow> d_seq (setResourceCheckError env savedResource (Some e)) (failed 0 e)
     | Inr resourceConfigID \<Rightarrow>
     d_try (resource_SetResourceConfig savedResource resourceConfigID)
       (\<lambda>e. d_seq (setResourceCheckError env savedResource (Some e)) (failed 0 e)) (\<lambda>_.
     d_bind (acquire_loop (\<lambda>lock. AcquireResourceCheckingLockWithIntervalCheck p (r_name savedResource) lock interval mustComplete)
               mustComplete (se_attempts env resourceName)) (\<lambda>acquired.
     case acquired of
       None \<Rightarrow> d_return None
     | Some False \<Rightarrow> failed interval ErrFailedToAcquireLock
     | Some True \<Rightarrow> scan_locked env p savedResource resourceName fromVersion interval versionedResourceTypes source))))))"

section \<open>Resource types\<close>

definition type_check ::
    "scan_env \<Rightarrow> pipeline_row \<Rightarrow> resource_type_row \<Rightarrow> AtcVersion \<Rightarrow> VersionedResourceType list \<Rightarrow> Source \<Rightarrow> dberror option dbm" where
  "type_check env p savedResourceType fromVersion versionedResourceTypes source =
     d_try (CheckPaused (p_id p)) (\<lambda>e. d_return (Some e)) (\<lambda>pipelinePaused.
     if pipelinePaused then d_return None
     else case se_NewResource env (y_type savedResourceType) (VersionedResourceTypes_Without versionedResourceTypes (y_name savedResourceType)) of
       Inl e \<Rightarrow> d_return (Some e)
     | Inr _ \<Rightarrow>
        (case se_Check env source fromVersion of
           Inl (ErrResourceScriptFailed _) \<Rightarrow> d_return None
         | Inl e \<Rightarrow> d_return (Some e)
         | Inr newVersions \<Rightarrow>
             if newVersions = [] \<or> newVersions = [fromVersion] then d_return None
             else d_try (resourceType_SaveVersion savedResourceType (last newVersions)) (\<lambda>e. d_return (Some e)) (\<lambda>_. d_return None)))"

definition type_scan_with :: "scan_env \<Rightarrow> (string \<Rightarrow> scanned dbm) \<Rightarrow> pipeline_row \<Rightarrow> string \<Rightarrow> bool \<Rightarrow> scanned dbm" where
  "type_scan_with env parentScan p resourceTypeName mustComplete =
     d_try (pipeline_ResourceType p resourceTypeName) (failed 0) (\<lambda>found.
     case found of None \<Rightarrow> failed 0 (ResourceTypeNotFoundError resourceTypeName) | Some savedResourceType \<Rightarrow>
     let interval = se_defaultInterval env in
     d_try (pipeline_ResourceTypes p) (failed 0) (\<lambda>resourceTypes.
     scan_parents parentScan
       (map y_name (filter (\<lambda>y. y_name y \<noteq> y_name savedResourceType \<and> y_name y = y_type savedResourceType \<and> y_version y = None) resourceTypes))
    (d_try (pipeline_ResourceTypes p) (failed 0) (\<lambda>resourceTypes.
     let versionedResourceTypes = ResourceTypes_Deserialize resourceTypes in
     case se_Evaluate env (rt_Source (y_config savedResourceType)) of
       Inl e \<Rightarrow> failed 0 e
     | Inr source \<Rightarrow>
     case se_FindOrCreateSession env (y_type savedResourceType) source
         (VersionedResourceTypes_Without versionedResourceTypes (y_name savedResourceType)) of
       Inl e \<Rightarrow> failed 0 e
     | Inr resourceConfigID \<Rightarrow>
     d_try (resourceType_SetResourceConfig savedResourceType resourceConfigID) (failed 0) (\<lambda>_.
     d_bind (acquire_loop (\<lambda>lock. AcquireResourceTypeCheckingLockWithIntervalCheck p (y_name savedResourceType) lock interval mustComplete)
               mustComplete (se_attempts env resourceTypeName)) (\<lambda>acquired.
     case acquired of
       None \<Rightarrow> d_return None
     | Some False \<Rightarrow> failed interval ErrFailedToAcquireLock
     | Some True \<Rightarrow>
         d_bind (type_check env p savedResourceType (y_version savedResourceType) versionedResourceTypes source) (\<lambda>err.
         d_return (Some (interval, err)))))))))"

text \<open>The scanner of resource types calls itself for the parent; the number bounds the depth of the calls.\<close>

fun type_scan :: "nat \<Rightarrow> scan_env \<Rightarrow> pipeline_row \<Rightarrow> string \<Rightarrow> bool \<Rightarrow> scanned dbm" where
  "type_scan 0 env p resourceTypeName mustComplete = d_return None"
| "type_scan (Suc n) env p resourceTypeName mustComplete =
     type_scan_with env (\<lambda>parent. type_scan n env p parent True) p resourceTypeName mustComplete"

section \<open>Scanners and runners\<close>

definition resourceScanner_Run :: "nat \<Rightarrow> scan_env \<Rightarrow> pipeline_row \<Rightarrow> string \<Rightarrow> scanned dbm" where
  "resourceScanner_Run n env p resourceName =
     d_bind (scan env (\<lambda>parent. type_scan n env p parent True) p resourceName None False) (\<lambda>r.
     d_return (map_option (\<lambda>(interval, err). (interval, swallowErrResourceScriptFailed err)) r))"

definition resourceScanner_Scan :: "nat \<Rightarrow> scan_env \<Rightarrow> pipeline_row \<Rightarrow> string \<Rightarrow> dberror option option dbm" where
  "resourceScanner_Scan n env p resourceName =
     d_bind (scan env (\<lambda>parent. type_scan n env p parent True) p resourceName None True) (\<lambda>r.
     d_return (map_option (\<lambda>(_, err). swallowErrResourceScriptFailed err) r))"

definition resourceScanner_ScanFromVersion :: "nat \<Rightarrow> scan_env \<Rightarrow> pipeline_row \<Rightarrow> string \<Rightarrow> AtcVersion \<Rightarrow> dberror option option dbm" where
  "resourceScanner_ScanFromVersion n env p resourceName fromVersion =
     d_bind (scan env (\<lambda>parent. type_scan n env p parent True) p resourceName fromVersion True) (\<lambda>r.
     d_return (map_option snd r))"

text \<open>
  The runner of one scanner, given what the scans return: how long it waits before each scan, and the error it
  ends with; with no error it ends when its context does.
\<close>

fun intervalRunner_Run :: "int \<Rightarrow> (int \<times> dberror option) list \<Rightarrow> int list \<times> dberror option" where
  "intervalRunner_Run interval [] = ([interval], None)"
| "intervalRunner_Run interval ((interval', err) # rest) =
     (if err = None \<or> err = Some ErrFailedToAcquireLock
      then (case intervalRunner_Run interval' rest of (waits, e) \<Rightarrow> (interval # waits, e))
      else ([interval], err))"

text \<open>\<open>tick\<close>: the scopes a goroutine is started for, given those that are being scanned.\<close>

definition ScopedName :: "pipeline_row \<Rightarrow> string \<Rightarrow> string" where
  "ScopedName p n = p_name p @ '':'' @ n"

definition Runner_tick :: "pipeline_row \<Rightarrow> string list \<Rightarrow> string list dbm" where
  "Runner_tick p scanning =
     d_bind (pipeline_ResourceTypes p) (\<lambda>resourceTypes.
     d_bind (pipeline_Resources p) (\<lambda>resources.
     d_return (filter (\<lambda>n. n \<notin> set scanning)
       (map (\<lambda>c. ScopedName p (''resource-type:'' @ rt_Name c)) (ResourceTypes_Configs resourceTypes) @
        map (\<lambda>c. ScopedName p (''resource:'' @ resource_Name c)) (Resources_Configs resources)))))"

end
