(* ===== verification/Radar_Correct.thy ===== *)
theory Radar_Correct
  imports Radar Schema
begin

text \<open>
  What a check does to the versions of a resource. The abstract view of the versions of a resource and a type
  is their history, oldest first; saving a version makes it the newest. A scan asks for the versions after the
  latest one and appends what it gets.
\<close>

section \<open>Rules for handled errors\<close>

lemma post_try:
  assumes "post m t (after (\<lambda>x t'. post (k x) t' Q) (\<lambda>e t'. post (h e) t' Q))"
  shows "post (d_try m h k) t Q"
  unfolding post_def [of "d_try m h k"]
proof (intro allI impI)
  fix s :: db assume s: "db_tables s = t"
  obtain r s' where m: "m s = (r, s')" by fastforce
  from postD [OF assms m s] show "Q (fst (d_try m h k s)) (db_tables (snd (d_try m h k s)))"
    by (cases r) (simp_all add: d_try_def m post_def)
qed

lemma sure_try:
  assumes "sure m t (after (\<lambda>x t'. sure (k x) t' Q) (\<lambda>e t'. sure (h e) t' Q))"
  shows "sure (d_try m h k) t Q"
  unfolding sure_def [of "d_try m h k"]
proof (intro allI impI)
  fix s :: db assume s: "db_tables s = t" "healthy s"
  obtain r s' where m: "m s = (r, s')" by fastforce
  from sureD [OF assms m s] show "Q (fst (d_try m h k s)) (db_tables (snd (d_try m h k s))) \<and> healthy (snd (d_try m h k s))"
    by (cases r) (simp_all add: d_try_def m sure_def)
qed

section \<open>Histories\<close>

definition typed_rows :: "int \<Rightarrow> string \<Rightarrow> tables \<Rightarrow> version_row list" where
  "typed_rows r type t = filter (\<lambda>v. v_resource_id v = r \<and> v_type v = type) (t_versions t)"

definition history :: "int \<Rightarrow> string \<Rightarrow> tables \<Rightarrow> AtcVersion list" where
  "history r type t = map v_version (sort_key v_check_order (typed_rows r type t))"

definition newest :: "AtcVersion \<Rightarrow> AtcVersion list \<Rightarrow> AtcVersion list" where
  "newest v h = removeAll v h @ [v]"

lemma insort_key_append_less: "\<forall>a \<in> set xs. f a < f x \<Longrightarrow> insort_key f x (xs @ ys) = xs @ insort_key f x ys"
  by (induction xs) (auto simp: not_le)

lemma insort_key_append_ge: "\<forall>b \<in> set ys. f x \<le> f b \<Longrightarrow> insort_key f x (xs @ ys) = insort_key f x xs @ ys"
  by (induction xs) (auto intro: insort_is_Cons)

text \<open>Rows that get a key above all others go to the end.\<close>

lemma sort_key_raised:
  assumes "\<forall>r \<in> set rows. P r \<longrightarrow> f (g r) = K" and "\<forall>r \<in> set rows. \<not> P r \<longrightarrow> f r < K"
  shows "sort_key f (update_where P g rows) = sort_key f (filter (\<lambda>r. \<not> P r) rows) @ map g (filter P rows)"
  using assms
proof (induction rows)
  case (Cons x xs)
  then have ih: "sort_key f (update_where P g xs) = sort_key f (filter (\<lambda>r. \<not> P r) xs) @ map g (filter P xs)" by simp
  show ?case
  proof (cases "P x")
    case True
    then have "insort_key f (g x) (sort_key f (filter (\<lambda>r. \<not> P r) xs) @ map g (filter P xs)) =
        sort_key f (filter (\<lambda>r. \<not> P r) xs) @ insort_key f (g x) (map g (filter P xs))"
      using Cons.prems by (intro insort_key_append_less) auto
    also have "insort_key f (g x) (map g (filter P xs)) = g x # map g (filter P xs)"
      using Cons.prems True by (intro insort_is_Cons) auto
    finally show ?thesis using True ih by (simp add: update_where_def)
  next
    case False
    then have "insort_key f x (sort_key f (filter (\<lambda>r. \<not> P r) xs) @ map g (filter P xs)) =
        insort_key f x (sort_key f (filter (\<lambda>r. \<not> P r) xs)) @ map g (filter P xs)"
      using Cons.prems by (intro insort_key_append_ge) (auto intro: less_imp_le)
    then show ?thesis using False ih by (simp add: update_where_def)
  qed
qed (simp add: update_where_def)

lemma filter_update_where_within: "(\<And>r. P r \<Longrightarrow> Q r \<and> Q (g r)) \<Longrightarrow> filter Q (update_where P g rows) = update_where P g (filter Q rows)"
  by (induction rows) (auto simp: update_where_def)

lemma map_filter_distinct: "distinct (map f xs) \<Longrightarrow> x \<in> set xs \<Longrightarrow> filter (\<lambda>y. f y = f x) xs = [x]"
  by (induction xs) (auto simp: filter_empty_conv image_iff)

section \<open>Saving versions\<close>

text \<open>The three statements that save one version.\<close>

definition version_inserted :: "int \<Rightarrow> string \<Rightarrow> AtcVersion \<Rightarrow> tables \<Rightarrow> tables" where
  "version_inserted r type v t =
     (if \<exists>row \<in> set (t_versions t). same_version r type v row then t
      else t\<lparr>t_versions := t_versions t @ [\<lparr>v_id = t_next_version_id t, v_resource_id = r, v_type = type, v_version = v,
               v_metadata = [], v_enabled = True, v_check_order = 0\<rparr>], t_next_version_id := t_next_version_id t + 1\<rparr>)"

definition version_raised :: "int \<Rightarrow> string \<Rightarrow> AtcVersion \<Rightarrow> tables \<Rightarrow> tables" where
  "version_raised r type v t =
     (let co = Max (v_check_order ` set (typed_rows r type t))
      in t\<lparr>t_versions := update_where (same_version r type v) (\<lambda>row. row\<lparr>v_check_order := co + 1\<rparr>) (t_versions t)\<rparr>)"

definition version_saved :: "int \<Rightarrow> string \<Rightarrow> AtcVersion \<Rightarrow> tables \<Rightarrow> tables" where
  "version_saved r type v t = version_raised r type v (version_inserted r type v t)"

lemma same_version_typed: "{row \<in> set (t_versions t). same_version r type v row} = {row \<in> set (typed_rows r type t). v_version row = v}"
  by (auto simp: typed_rows_def same_version_def)

lemma post_increment:
  assumes "\<exists>row \<in> set (t_versions t). same_version r type v row" and "Q (Inl SqlError) t" and "Q (Inr ()) (version_raised r type v t)"
  shows "post (incrementCheckOrderWhenNewerVersion r type v) t Q"
proof -
  let ?rows = "filter (\<lambda>row. v_resource_id row = r \<and> v_type row = type) (t_versions t)"
  have "?rows \<noteq> []" using assms(1) by (auto simp: filter_empty_conv same_version_def)
  moreover have "update_where (\<lambda>row. same_version r type v row \<and> v_check_order row \<le> Max (v_check_order ` set ?rows)) g (t_versions t) =
      update_where (same_version r type v) g (t_versions t)" for g
    unfolding update_where_def by (intro map_cong refl if_cong) (auto simp: same_version_def)
  ultimately show ?thesis
    unfolding incrementCheckOrderWhenNewerVersion_def using assms(2,3)
    by (intro post_exec) (simp_all add: version_raised_def typed_rows_def Let_def)
qed

lemma inserted_same: "\<exists>row \<in> set (t_versions (version_inserted r type v t)). same_version r type v row"
  by (auto simp: version_inserted_def same_version_def)

lemma post_saveVersionedResource:
  assumes "Q (Inl SqlError) t" and "Q (Inl SqlError) (version_inserted r type v t)" and "\<And>x. Q (Inr x) (version_inserted r type v t)"
  shows "post (saveVersionedResource r \<lparr>vr_Resource = n, vr_Type = type, vr_Version = v, vr_Metadata = []\<rparr>) t Q"
proof -
  let ?same = "same_version r type v"
  let ?ins = "\<lambda>t. if \<exists>row \<in> set (t_versions t). ?same row then (0 :: nat, t)
      else (1, t\<lparr>t_versions := t_versions t @ [\<lparr>v_id = t_next_version_id t, v_resource_id = r, v_type = type, v_version = v,
               v_metadata = [], v_enabled = True, v_check_order = 0\<rparr>], t_next_version_id := t_next_version_id t + 1\<rparr>)"
  have i: "?ins = (\<lambda>t. (fst (?ins t), version_inserted r type v t))" by (auto simp: version_inserted_def fun_eq_iff)
  have "find ?same (t_versions (version_inserted r type v t)) \<noteq> None" using inserted_same [of r type v t] by (auto simp: find_None_iff)
  then show ?thesis
    unfolding saveVersionedResource_def Let_def VersionedResource.simps
    by (subst i, intro post_bind post_stmt)
      (simp_all only: fst_conv snd_conv after_simps assms(1) list.size not_less_zero if_False less_irrefl, intro post_bind post_query_row,
        auto simp: assms intro!: post_return)
qed

definition resource_id :: "int \<Rightarrow> string \<Rightarrow> tables \<Rightarrow> int option" where
  "resource_id p n t = map_option r_id (find (\<lambda>r. r_name r = n \<and> r_pipeline_id r = p) (t_resources t))"

lemma version_saved_resources: "t_resources (version_saved r type v t) = t_resources t"
  by (simp add: version_saved_def version_raised_def version_inserted_def Let_def)

lemma post_SaveResourceVersions:
  "post (SaveResourceVersions p n type vs) t
     (after (\<lambda>_ t'. vs = [] \<and> t' = t \<or> (\<exists>r. resource_id p n t = Some r \<and> t' = fold (version_saved r type) vs t)) (\<lambda>_ t'. t' = t))"
  (is "post _ t ?Q")
proof -
  let ?save = "\<lambda>v. d_bind (find_resource p n) (\<lambda>r. d_seq (saveVersionedResource r \<lparr>vr_Resource = n, vr_Type = type, vr_Version = v, vr_Metadata = []\<rparr>)
      (incrementCheckOrderWhenNewerVersion r type v))"
  let ?I = "\<lambda>ds t'. t_resources t' = t_resources t \<and> (ds = [] \<and> t' = t \<or> (\<exists>r. resource_id p n t = Some r \<and> t' = fold (version_saved r type) ds t))"
  have step: "post (?save v) t' (after (\<lambda>_ t''. ?I (ds @ [v]) t'') (\<lambda>_ _. True))" if "?I ds t'" for v ds t'
    unfolding find_resource_def
  proof (intro post_bind post_query_row post_seq post_saveVersionedResource post_increment, goal_cases)
    case (3 r)
    then have r: "resource_id p n t = Some r" using that by (simp add: resource_id_def)
    show ?case
      unfolding after_simps
    proof (intro post_seq post_saveVersionedResource, goal_cases)
      case (3 x)
      show ?case unfolding after_simps
      proof (rule post_increment [OF inserted_same], goal_cases)
        case 2
        have "t' = fold (version_saved r type) ds t" using that r by auto
        then show ?case using that r version_saved_resources [of r type v t'] by (simp add: version_saved_def)
      qed simp
    qed simp_all
  qed simp_all
  show ?thesis
    unfolding SaveResourceVersions_def
  proof (rule post_tx, simp, rule post_committed, rule post_each [where I = ?I])
    fix v ds t' assume "?I ds t'"
    from step [OF this] show "post (?save v) t' (after (\<lambda>_ t''. ?I (ds @ [v]) t'')
      (\<lambda>e. after (\<lambda>x t'. after (\<lambda>(commit, x) t'. if commit then ?Q (Inr x) t' else ?Q (Inr x) t) (\<lambda>e _. ?Q (Inl e) t) (Inr (True, x)) t')
          (\<lambda>e. after (\<lambda>(commit, x) t'. if commit then ?Q (Inr x) t' else ?Q (Inr x) t) (\<lambda>e _. ?Q (Inl e) t) (Inl e)) (Inl e)))"
      by (rule post_mono) (auto simp: after_def split: sum.splits)
  qed auto
qed

subsection \<open>The history after saving\<close>

lemma typed_rows_distinct: "version_keys_ok t \<Longrightarrow> distinct (map v_version (typed_rows r type t))"
  unfolding version_keys_ok_def typed_rows_def distinct_map
  by (auto simp: inj_on_def)

lemma typed_rows_inserted:
  "typed_rows r type (version_inserted r type v t) =
     (if \<exists>row \<in> set (t_versions t). same_version r type v row then typed_rows r type t
      else typed_rows r type t @ [\<lparr>v_id = t_next_version_id t, v_resource_id = r, v_type = type, v_version = v,
               v_metadata = [], v_enabled = True, v_check_order = 0\<rparr>])"
  by (simp add: version_inserted_def typed_rows_def)

lemma typed_rows_raised:
  "typed_rows r type (version_raised r type v t) =
     update_where (\<lambda>row. v_version row = v) (\<lambda>row. row\<lparr>v_check_order := Max (v_check_order ` set (typed_rows r type t)) + 1\<rparr>) (typed_rows r type t)"
proof -
  let ?g = "\<lambda>row. row\<lparr>v_check_order := Max (v_check_order ` set (typed_rows r type t)) + 1\<rparr>"
  have "filter (\<lambda>v. v_resource_id v = r \<and> v_type v = type) (update_where (same_version r type v) ?g (t_versions t)) =
      update_where (same_version r type v) ?g (filter (\<lambda>v. v_resource_id v = r \<and> v_type v = type) (t_versions t))"
    by (rule filter_update_where_within) (simp add: same_version_def)
  then have "typed_rows r type (version_raised r type v t) = update_where (same_version r type v) ?g (typed_rows r type t)"
    by (simp add: version_raised_def Let_def typed_rows_def)
  also have "\<dots> = update_where (\<lambda>row. v_version row = v) ?g (typed_rows r type t)"
    unfolding update_where_def by (rule map_cong [OF refl]) (auto simp: same_version_def typed_rows_def)
  finally show ?thesis .
qed

lemma history_raised:
  assumes "distinct (map v_version (typed_rows r type t))" and "row \<in> set (typed_rows r type t)" "v_version row = v"
  shows "history r type (version_raised r type v t) = newest v (history r type t)"
proof -
  let ?rows = "typed_rows r type t" and ?P = "\<lambda>row. v_version row = v"
  let ?K = "Max (v_check_order ` set (typed_rows r type t)) + 1"
  have "\<forall>q \<in> set ?rows. \<not> ?P q \<longrightarrow> v_check_order q < ?K" by (simp add: zle_add1_eq_le)
  then have "sort_key v_check_order (update_where ?P (\<lambda>row. row\<lparr>v_check_order := ?K\<rparr>) ?rows) =
      sort_key v_check_order (filter (\<lambda>q. \<not> ?P q) ?rows) @ map (\<lambda>row. row\<lparr>v_check_order := ?K\<rparr>) (filter ?P ?rows)"
    by (intro sort_key_raised [where K = ?K]) simp_all
  moreover have "filter ?P ?rows = [row]" using map_filter_distinct [OF assms(1,2)] assms(3) by simp
  moreover have "map v_version (sort_key v_check_order (filter (\<lambda>q. \<not> ?P q) ?rows)) = removeAll v (history r type t)"
    by (simp add: history_def removeAll_filter_not_eq filter_map comp_def filter_sort [symmetric] eq_commute [of v])
  ultimately show ?thesis by (simp add: history_def typed_rows_raised newest_def assms(3))
qed

lemma history_saved:
  assumes "version_keys_ok t"
  shows "history r type (version_saved r type v t) = newest v (history r type t)"
proof -
  let ?t = "version_inserted r type v t"
  obtain row where row: "row \<in> set (t_versions ?t)" "same_version r type v row" using inserted_same by blast
  have d: "distinct (map v_version (typed_rows r type ?t))"
    using typed_rows_distinct [OF assms, of r type] by (auto simp: typed_rows_inserted) (auto simp: typed_rows_def same_version_def)
  have "history r type (version_saved r type v t) = newest v (history r type ?t)"
    unfolding version_saved_def using row by (intro history_raised [OF d]) (auto simp: typed_rows_def same_version_def)
  also have "\<dots> = newest v (history r type t)"
  proof (cases "\<exists>row \<in> set (t_versions t). same_version r type v row")
    case False
    then have "filter (\<lambda>q. v_version q \<noteq> v) (typed_rows r type t) = typed_rows r type t"
      by (intro filter_True) (auto simp: typed_rows_def same_version_def)
    then show ?thesis using False
      by (simp add: newest_def history_def typed_rows_inserted removeAll_filter_not_eq filter_map comp_def filter_sort eq_commute [of v])
  qed (simp add: history_def typed_rows_inserted)
  finally show ?thesis .
qed

lemma version_keys_inserted: "version_keys_ok t \<Longrightarrow> version_keys_ok (version_inserted r type v t)"
  by (auto simp: version_keys_ok_def version_inserted_def ids_below_def same_version_def)

lemma version_keys_raised: "version_keys_ok (version_raised r type v t) = version_keys_ok t"
  by (simp add: version_keys_ok_def version_raised_def ids_below_def map_update_where ball_update_where Let_def)

lemma version_keys_saved: "version_keys_ok t \<Longrightarrow> version_keys_ok (version_saved r type v t)"
  by (simp add: version_saved_def version_keys_raised version_keys_inserted)

lemma history_saved_other:
  assumes "(r', type') \<noteq> (r, type)"
  shows "history r' type' (version_saved r type v t) = history r' type' t"
proof -
  have "typed_rows r' type' (version_raised r type v t1) = typed_rows r' type' t1" for t1
    unfolding typed_rows_def version_raised_def Let_def using assms by (simp, intro filter_update_where) (auto simp: same_version_def)
  moreover have "typed_rows r' type' (version_inserted r type v t) = typed_rows r' type' t"
    using assms by (auto simp: typed_rows_def version_inserted_def)
  ultimately show ?thesis by (simp add: history_def version_saved_def)
qed

lemma history_saved_all:
  assumes "version_keys_ok t"
  shows "history r type (fold (version_saved r type) vs t) = fold newest vs (history r type t)"
    and "(r', type') \<noteq> (r, type) \<Longrightarrow> history r' type' (fold (version_saved r type) vs t) = history r' type' t"
  using assms by (induction vs arbitrary: t) (simp_all add: history_saved version_keys_saved history_saved_other)

text \<open>Distinct versions end up at the end of the history, in their order.\<close>

lemma fold_newest: "distinct vs \<Longrightarrow> fold newest vs h = filter (\<lambda>v. v \<notin> set vs) h @ vs"
proof (induction vs arbitrary: h)
  case (Cons v vs)
  have "filter (\<lambda>x. v \<noteq> x \<and> x \<notin> set vs) h = filter (\<lambda>x. x \<noteq> v \<and> x \<notin> set vs) h" by (rule filter_cong) auto
  then show ?case using Cons by (simp add: newest_def removeAll_filter_not_eq)
qed simp

subsection \<open>The latest version\<close>

definition latest_row :: "int \<Rightarrow> string \<Rightarrow> tables \<Rightarrow> version_row option" where
  "latest_row p n t = (case sort_key (\<lambda>v. - v_check_order v) (resource_versions p n t) of [] \<Rightarrow> None | v # _ \<Rightarrow> Some v)"

definition latest_version :: "int \<Rightarrow> string \<Rightarrow> tables \<Rightarrow> AtcVersion" where
  "latest_version p n t = (case latest_row p n t of None \<Rightarrow> None | Some v \<Rightarrow> v_version v)"

lemma sort_key_hd:
  fixes f :: "'a \<Rightarrow> 'b :: linorder"
  assumes "x \<in> set xs" and "\<And>y. y \<in> set xs \<Longrightarrow> y \<noteq> x \<Longrightarrow> f x < f y"
  shows "\<exists>ys. sort_key f xs = x # ys"
proof (cases "sort_key f xs")
  case Nil
  then show ?thesis using assms(1) by (metis set_sort empty_iff list.set(1))
next
  case (Cons h ys)
  have "sorted (map f (h # ys))" by (metis Cons sorted_sort_key)
  moreover have "set (h # ys) = set xs" by (metis Cons set_sort)
  ultimately have "h \<in> set xs" "f h \<le> f x" using assms(1) by auto
  then have "h = x" using assms(2) [of h] by fastforce
  then show ?thesis using Cons by simp
qed

lemma raised_order:
  assumes "row \<in> set (typed_rows r type (version_raised r type v t))" "q \<in> set (typed_rows r type (version_raised r type v t))"
    and "v_version row = v" "v_version q \<noteq> v"
  shows "v_check_order q < v_check_order row"
proof -
  let ?rows = "typed_rows r type t"
  have "v_check_order row = Max (v_check_order ` set ?rows) + 1"
  proof -
    obtain q where "q \<in> set ?rows" "row = (if v_version q = v then q\<lparr>v_check_order := Max (v_check_order ` set ?rows) + 1\<rparr> else q)"
      using assms(1) unfolding typed_rows_raised in_update_where by blast
    then show ?thesis using assms(3) by (simp split: if_splits)
  qed
  moreover have "q \<in> set ?rows" using assms(2,4) unfolding typed_rows_raised in_update_where by auto
  then have "v_check_order q \<le> Max (v_check_order ` set ?rows)" by simp
  ultimately show ?thesis by simp
qed

text \<open>The version saved last is the latest, when all versions of the resource are of one type.\<close>

lemma latest_saved:
  assumes "version_keys_ok t" and "resource_versions p n (version_saved r type v t) = typed_rows r type (version_saved r type v t)"
  shows "latest_version p n (version_saved r type v t) = v"
proof -
  let ?t = "version_saved r type v t"
  have d: "distinct (map v_version (typed_rows r type ?t))" by (rule typed_rows_distinct [OF version_keys_saved [OF assms(1)]])
  have "v \<in> set (history r type ?t)" by (simp add: history_saved [OF assms(1)] newest_def)
  then obtain row where row: "row \<in> set (typed_rows r type ?t)" "v_version row = v" by (auto simp: history_def)
  have "- v_check_order row < - v_check_order q" if "q \<in> set (typed_rows r type ?t)" "q \<noteq> row" for q
  proof -
    have "v_version q \<noteq> v" using d row that by (auto simp: distinct_map dest: inj_onD)
    then show ?thesis using raised_order [of row r type v _ q] row that(1) by (simp add: version_saved_def)
  qed
  then obtain ys where "sort_key (\<lambda>v. - v_check_order v) (typed_rows r type ?t) = row # ys"
    using sort_key_hd [of row "typed_rows r type ?t" "\<lambda>v. - v_check_order v"] row(1) by blast
  then show ?thesis by (simp add: latest_version_def latest_row_def assms(2) row(2))
qed

section \<open>Scans\<close>

text \<open>
  What a scan does besides saving versions: it sets the check error, the time of the last check and the resource
  configuration of resources, and columns of resource types.
\<close>

definition scan_core :: "resource_row \<Rightarrow> resource_row" where
  "scan_core r = r\<lparr>r_check_error := None, r_last_checked := 0, r_resource_config_id := None\<rparr>"

definition quiet :: "tables \<Rightarrow> tables \<Rightarrow> bool" where
  "quiet t t' \<longleftrightarrow> t_versions t' = t_versions t \<and> t_next_version_id t' = t_next_version_id t \<and> t_pipelines t' = t_pipelines t \<and>
     map scan_core (t_resources t') = map scan_core (t_resources t)"

lemma quiet_scan_refl [simp]: "quiet t t"
  by (simp add: quiet_def)

lemma keeps_try: "keeps P m \<Longrightarrow> (\<And>e. keeps P (h e)) \<Longrightarrow> (\<And>x. keeps P (k x)) \<Longrightarrow> keeps P (d_try m h k)"
  unfolding keeps_def d_try_def by (auto simp: split_def split: sum.split)

lemma keeps_option: "(x = None \<Longrightarrow> keeps P m) \<Longrightarrow> (\<And>y. x = Some y \<Longrightarrow> keeps P (f y)) \<Longrightarrow> keeps P (case x of None \<Rightarrow> m | Some y \<Rightarrow> f y)"
  by (cases x) auto

lemma quiet_resources: "(\<And>r. scan_core (f r) = scan_core r) \<Longrightarrow> quiet t t' \<Longrightarrow> quiet t (t'\<lparr>t_resources := update_where P f (t_resources t')\<rparr>)"
  by (simp add: quiet_def map_update_where)

lemma quiet_types: "quiet t t' \<Longrightarrow> quiet t (t'\<lparr>t_resource_types := ys\<rparr>)"
  by (simp add: quiet_def)

lemma keeps_update_resource: "(\<And>r. scan_core (f r) = scan_core r) \<Longrightarrow> keeps (quiet t) (update_resource P f)"
  unfolding update_resource_def by (intro keeps_exec quiet_resources)

lemma keeps_setError: "keeps (quiet t) (setResourceCheckError env r err)"
  unfolding setResourceCheckError_def SetResourceCheckError_def
  by (intro keeps_try keeps_update_resource) (simp_all add: scan_core_def)

lemma keeps_SetResourceConfig: "keeps (quiet t) (resource_SetResourceConfig r i)" "keeps (quiet t) (resourceType_SetResourceConfig y i)"
  unfolding resource_SetResourceConfig_def resourceType_SetResourceConfig_def
  by (intro keeps_update_resource, simp add: scan_core_def) (intro keeps_exec quiet_types)

lemma keeps_intervals:
  "keeps (quiet t) (checkIfResourceIntervalUpdated p n i b)" "keeps (quiet t) (checkIfResourceTypeIntervalUpdated p n i b)"
  unfolding checkIfResourceIntervalUpdated_def checkIfResourceTypeIntervalUpdated_def checkIfRowsUpdated_def Let_def
  by (intro keeps_tx keeps_bind keeps_stmt; simp add: quiet_resources quiet_types scan_core_def)+

lemma keeps_acquire_loop:
  assumes "\<And>l s. P (db_tables s) \<Longrightarrow> P (db_tables (snd (acquire l s)))"
  shows "keeps P (acquire_loop acquire b ls)"
  unfolding keeps_def
proof (intro allI impI)
  fix s :: db assume "P (db_tables s)"
  then show "P (db_tables (snd (acquire_loop acquire b ls s)))"
  proof (induction ls arbitrary: s)
    case (Cons l ls)
    obtain r h s' where a: "acquire l s = ((r, h), s')" by (metis surj_pair)
    have "P (db_tables s')" using assms [OF Cons.prems, of l] a by simp
    then show ?case using Cons.IH a by (cases r) auto
  qed simp
qed

lemma acquire_quiet:
  fixes s :: db
  assumes "quiet t (db_tables s)"
  shows "quiet t (db_tables (snd (AcquireResourceCheckingLockWithIntervalCheck p n l i b s)))"
    and "quiet t (db_tables (snd (AcquireResourceTypeCheckingLockWithIntervalCheck p n l i b s)))"
proof -
  obtain r s' where "checkIfResourceIntervalUpdated p n i b s = (r, s')" by fastforce
  then show "quiet t (db_tables (snd (AcquireResourceCheckingLockWithIntervalCheck p n l i b s)))"
    using keepsD [OF keeps_intervals(1) assms, of p n i b] assms
    by (auto simp: AcquireResourceCheckingLockWithIntervalCheck_def split: lock_result.splits sum.splits)
  obtain r s' where "checkIfResourceTypeIntervalUpdated p n i b s = (r, s')" by fastforce
  then show "quiet t (db_tables (snd (AcquireResourceTypeCheckingLockWithIntervalCheck p n l i b s)))"
    using keepsD [OF keeps_intervals(2) assms, of p n i b] assms
    by (auto simp: AcquireResourceTypeCheckingLockWithIntervalCheck_def split: lock_result.splits sum.splits)
qed

lemma keeps_parents: "(\<And>n. keeps P (ts n)) \<Longrightarrow> keeps P k \<Longrightarrow> keeps P (scan_parents ts ns k)"
  by (induction ns) (auto simp: failed_def intro!: keeps_bind split: option.split prod.split)

lemma keeps_type_check: "keeps (quiet t) (type_check env p y v ts src)"
  unfolding type_check_def CheckPaused_def resourceType_SaveVersion_def
  by (auto intro!: keeps_try keeps_bind keeps_stmt quiet_types split: sum.split dberror.split)

lemma keeps_type_scan_with: "(\<And>n. keeps (quiet t) (ts n)) \<Longrightarrow> keeps (quiet t) (type_scan_with env ts p n b)"
  unfolding type_scan_with_def pipeline_ResourceType_def pipeline_ResourceTypes_def failed_def Let_def
  by (auto intro!: keeps_try keeps_bind keeps_parents keeps_option keeps_SetResourceConfig keeps_acquire_loop acquire_quiet keeps_type_check
      split: sum.split bool.split)

lemma keeps_type_scan: "keeps (quiet t) (type_scan n env p name b)"
  by (induction n arbitrary: name b) (simp_all add: keeps_type_scan_with)

lemma post_bind_keeps:
  "keeps P m \<Longrightarrow> P t \<Longrightarrow> (\<And>e t'. P t' \<Longrightarrow> Q (Inl e) t') \<Longrightarrow> (\<And>x t'. P t' \<Longrightarrow> post (f x) t' Q) \<Longrightarrow> post (d_bind m f) t Q"
  by (rule post_bind, rule post_mono [OF post_keeps [where P = P]]) (auto simp: after_def split: sum.splits)

lemma post_seq_keeps:
  "keeps P m \<Longrightarrow> P t \<Longrightarrow> (\<And>e t'. P t' \<Longrightarrow> Q (Inl e) t') \<Longrightarrow> (\<And>t'. P t' \<Longrightarrow> post f t' Q) \<Longrightarrow> post (d_seq m f) t Q"
  unfolding d_seq_def by (rule post_bind_keeps)

lemma post_try_keeps:
  "keeps P m \<Longrightarrow> P t \<Longrightarrow> (\<And>e t'. P t' \<Longrightarrow> post (h e) t' Q) \<Longrightarrow> (\<And>x t'. P t' \<Longrightarrow> post (k x) t' Q) \<Longrightarrow> post (d_try m h k) t Q"
  by (rule post_try, rule post_mono [OF post_keeps [where P = P]]) (auto simp: after_def split: sum.splits)

lemma post_parents:
  assumes "\<And>n. keeps P (ts n)" and "P t" and "\<And>r t'. P t' \<Longrightarrow> Q r t'" and "\<And>t'. P t' \<Longrightarrow> post k t' Q"
  shows "post (scan_parents ts ns k) t Q"
  using assms(2)
proof (induction ns arbitrary: t)
  case (Cons n ns)
  show ?case unfolding scan_parents.simps
    by (rule post_bind_keeps [where P = P, OF assms(1) Cons.prems])
      (auto simp: failed_def assms(3) Cons.IH split: option.split prod.split intro!: post_return)
qed (simp add: assms(4))

lemma find_core: "map f xs = map f ys \<Longrightarrow> (\<And>x. P (f x) = P x) \<Longrightarrow> map_option f (find P xs) = map_option f (find P ys)"
proof (induction xs arbitrary: ys)
  case (Cons x xs)
  then obtain y zs where ys: "ys = y # zs" "f x = f y" "map f xs = map f zs" by (cases ys) auto
  then have "P x = P y" using Cons.prems(2) by metis
  then show ?case using ys Cons.IH [OF ys(3) Cons.prems(2)] by simp
qed simp

lemma scan_core_sel [simp]: "r_id (scan_core r) = r_id r" "r_name (scan_core r) = r_name r" "r_pipeline_id (scan_core r) = r_pipeline_id r"
  by (simp_all add: scan_core_def)

lemma quiet_resource_id: "quiet t t' \<Longrightarrow> resource_id p n t' = resource_id p n t"
proof -
  assume "quiet t t'"
  then have "map_option scan_core (find (\<lambda>r. r_name r = n \<and> r_pipeline_id r = p) (t_resources t')) =
      map_option scan_core (find (\<lambda>r. r_name r = n \<and> r_pipeline_id r = p) (t_resources t))"
    by (intro find_core) (simp_all add: quiet_def)
  then have "map_option (r_id \<circ> scan_core) (find (\<lambda>r. r_name r = n \<and> r_pipeline_id r = p) (t_resources t')) =
      map_option (r_id \<circ> scan_core) (find (\<lambda>r. r_name r = n \<and> r_pipeline_id r = p) (t_resources t))"
    by (metis option.map_comp)
  then show ?thesis by (simp add: resource_id_def comp_def)
qed

lemma quiet_latest: "quiet t t' \<Longrightarrow> latest_version p n t' = latest_version p n t" "quiet t t' \<Longrightarrow> latest_row p n t' = latest_row p n t"
proof -
  assume q: "quiet t t'"
  have "scan_core ` set (t_resources t') = scan_core ` set (t_resources t)" using q by (metis list.set_map quiet_def)
  then have "(\<exists>r \<in> scan_core ` set (t_resources t'). r_id r = i \<and> r_name r = n \<and> r_pipeline_id r = p) =
      (\<exists>r \<in> scan_core ` set (t_resources t). r_id r = i \<and> r_name r = n \<and> r_pipeline_id r = p)" for i by simp
  then have "resource_versions p n t' = resource_versions p n t" using q by (simp add: resource_versions_def quiet_def)
  then show "latest_version p n t' = latest_version p n t" "latest_row p n t' = latest_row p n t"
    by (simp_all add: latest_version_def latest_row_def)
qed

text \<open>A scan saves what the check returned from the latest version, or from the version it was given, or nothing.\<close>

definition versions_found ::
    "scan_env \<Rightarrow> pipeline_row \<Rightarrow> resource_row \<Rightarrow> Source \<Rightarrow> AtcVersion \<Rightarrow> tables \<Rightarrow> tables \<Rightarrow> bool" where
  "versions_found env p saved src from t t' \<longleftrightarrow>
     \<not> r_paused saved \<and> (\<exists>pl \<in> set (t_pipelines t). p_id pl = p_id p \<and> \<not> p_paused pl) \<and>
     (\<exists>vs r t1. se_Check env src from = Inr vs \<and> vs \<noteq> [] \<and> quiet t t1 \<and> resource_id (p_id p) (r_name saved) t = Some r \<and>
        t' = fold (version_saved r (resource_Type (r_config saved))) vs t1)"

lemma post_scanner_check:
  assumes "quiet t t1"
  shows "post (scanner_check env p saved from ts src) t1 (\<lambda>_ t'. quiet t t' \<or> versions_found env p saved src from t t')"
  unfolding scanner_check_def CheckPaused_def
proof (rule post_try, rule post_query_row, goal_cases)
  case (3 paused)
  show ?case
  proof (cases "paused \<or> r_paused saved")
    case False
    then have ok: "\<not> r_paused saved" "\<exists>pl \<in> set (t_pipelines t). p_id pl = p_id p \<and> \<not> p_paused pl"
      using 3 assms by (auto simp: quiet_def dest: find_sat)
    have save: "post (d_try (SaveResourceVersions (p_id p) (r_name saved) (resource_Type (r_config saved)) vs) (\<lambda>_. d_return None) (\<lambda>_. d_return None)) t2
        (\<lambda>_ t'. quiet t t' \<or> versions_found env p saved src from t t')" if "se_Check env src from = Inr vs" "vs \<noteq> []" "quiet t t2" for vs t2
      by (rule post_try, rule post_mono [OF post_SaveResourceVersions])
        (use that ok in \<open>auto simp: after_def versions_found_def quiet_resource_id split: sum.splits intro!: post_return\<close>)
    show ?thesis
      unfolding after_simps using False assms
      by (auto simp: pipeline_Reload_def assms split: sum.split
          intro!: post_try_keeps [where P = "quiet t"] post_seq_keeps [where P = "quiet t"] post_return keeps_setError save)
  qed (auto simp: assms intro!: post_return)
qed (auto simp: assms intro!: post_return)

lemma post_scan_shell:
  assumes ts: "\<And>n. keeps (quiet t) (ts n)" and q: "\<And>r t'. quiet t t' \<Longrightarrow> Q r t'"
    and locked: "\<And>saved src t1 vts i. find (\<lambda>r. r_active r \<and> r_pipeline_id r = p_id p \<and> r_name r = name) (t_resources t) = Some saved \<Longrightarrow>
      se_Evaluate env (resource_Source (r_config saved)) = Inr src \<Longrightarrow> quiet t t1 \<Longrightarrow> post (scan_locked env p saved name from i vts src) t1 Q"
  shows "post (scan env ts p name from b) t Q"
  unfolding scan_def pipeline_Resource_def
proof (rule post_try, rule post_query, goal_cases)
  case 2
  show ?case
  proof (cases "find (\<lambda>r. r_active r \<and> r_pipeline_id r = p_id p \<and> r_name r = name) (t_resources t)")
    case (Some saved)
    then have n: "r_name saved = name" by (auto dest: find_sat)
    show ?thesis
      unfolding after_simps Some
      by (auto simp: failed_def n q pipeline_ResourceTypes_def Let_def split: sum.split option.split bool.split
          intro!: post_try_keeps [where P = "quiet t"] post_seq_keeps [where P = "quiet t"] post_bind_keeps [where P = "quiet t"] post_return
            post_parents [where P = "quiet t"] ts keeps_setError keeps_SetResourceConfig keeps_acquire_loop acquire_quiet locked [OF Some])
  qed (auto simp: failed_def q intro!: post_return)
qed (auto simp: failed_def q intro!: post_return)

lemma post_scan_locked:
  assumes "quiet t t1"
  shows "post (scan_locked env p saved name from i vts src) t1
    (\<lambda>_ t'. quiet t t' \<or> versions_found env p saved src (if from = None then latest_version (p_id p) name t else from) t t')" (is "post _ _ ?Q")
proof -
  let ?check = "\<lambda>fv. d_bind (scanner_check env p saved fv vts src) (\<lambda>err. d_return (Some (i, err)))"
  have check: "post (?check fv) t1 (\<lambda>_ t'. quiet t t' \<or> versions_found env p saved src fv t t')" for fv
    by (rule post_bind, rule post_mono [OF post_scanner_check [OF assms]]) (auto simp: after_def split: sum.splits intro!: post_return)
  show ?thesis
  proof (cases "from = None")
    case True
    have "(case latest_row (p_id p) name t1 of None \<Rightarrow> None | Some v \<Rightarrow> v_version v) = latest_version (p_id p) name t"
      using quiet_latest(1) [OF assms] by (simp add: latest_version_def)
    then show ?thesis using True check [of "latest_version (p_id p) name t"] assms
      by (simp add: scan_locked_def GetLatestVersionedResource_def latest_row_def [symmetric])
        (intro post_try post_bind post_query; auto simp: failed_def intro!: post_return)
  next
    case False
    then show ?thesis unfolding scan_locked_def using check [of "from"]
      by (simp only: if_False) (intro post_try post_return, simp only: after_simps)
  qed
qed

lemma post_scan:
  assumes "\<And>n. keeps (quiet t) (ts n)"
  shows "post (scan env ts p name from b) t (\<lambda>_ t'. quiet t t' \<or>
     (\<exists>saved src. find (\<lambda>r. r_active r \<and> r_pipeline_id r = p_id p \<and> r_name r = name) (t_resources t) = Some saved \<and>
        se_Evaluate env (resource_Source (r_config saved)) = Inr src \<and>
        versions_found env p saved src (if from = None then latest_version (p_id p) name t else from) t t'))"
  by (rule post_scan_shell [OF assms], simp, rule post_mono [OF post_scan_locked]) auto

section \<open>Scans that complete\<close>

lemma sure_try_val: "sure m t (\<lambda>r t'. r = Inr x \<and> P t') \<Longrightarrow> (\<And>t'. P t' \<Longrightarrow> sure (k x) t' Q) \<Longrightarrow> sure (d_try m h k) t Q"
  by (rule sure_try, erule sure_mono) (auto simp: after_def)

lemma sure_bind_val: "sure m t (\<lambda>r t'. r = Inr x \<and> P t') \<Longrightarrow> (\<And>t'. P t' \<Longrightarrow> sure (k x) t' Q) \<Longrightarrow> sure (d_bind m k) t Q"
  by (rule sure_bind, erule sure_mono) (auto simp: after_def)

lemma sure_keeps: "keeps P m \<Longrightarrow> P t \<Longrightarrow> sure m t (\<lambda>r t'. r = Inr x) \<Longrightarrow> sure m t (\<lambda>r t'. r = Inr x \<and> P t')"
  by (rule sure_mono [OF post_sure [OF post_keeps [where P = P]]]) auto

lemma sure_saveVersionedResource_row:
  "sure (saveVersionedResource r \<lparr>vr_Resource = n, vr_Type = type, vr_Version = v, vr_Metadata = []\<rparr>) t
     (\<lambda>x t'. \<not> isl x \<and> t' = version_inserted r type v t)"
proof -
  let ?same = "same_version r type v"
  let ?ins = "\<lambda>t. if \<exists>row \<in> set (t_versions t). ?same row then (0 :: nat, t)
      else (1, t\<lparr>t_versions := t_versions t @ [\<lparr>v_id = t_next_version_id t, v_resource_id = r, v_type = type, v_version = v,
               v_metadata = [], v_enabled = True, v_check_order = 0\<rparr>], t_next_version_id := t_next_version_id t + 1\<rparr>)"
  have i: "?ins = (\<lambda>t. (fst (?ins t), version_inserted r type v t))" by (auto simp: version_inserted_def fun_eq_iff)
  have "find ?same (t_versions (version_inserted r type v t)) \<noteq> None" using inserted_same [of r type v t] by (auto simp: find_None_iff)
  then show ?thesis
    unfolding saveVersionedResource_def Let_def VersionedResource.simps
    by (subst i, intro sure_bind sure_stmt)
      (simp only: fst_conv snd_conv after_simps list.size not_less_zero if_False less_irrefl, intro sure_bind sure_query_row, auto intro!: sure_return)
qed

lemma sure_increment: "sure (incrementCheckOrderWhenNewerVersion r type v) t (\<lambda>x t'. x = Inr () \<and> t_resources t' = t_resources t)"
  unfolding incrementCheckOrderWhenNewerVersion_def by (intro sure_exec) (simp add: Let_def)

lemma sure_SaveResourceVersions:
  assumes "resource_id p n t = Some r"
  shows "sure (SaveResourceVersions p n type vs) t (\<lambda>x t'. x = Inr () \<and> t' = fold (version_saved r type) vs t)"
proof -
  have "sure (SaveResourceVersions p n type vs) t (\<lambda>x _. x = Inr ())"
    unfolding SaveResourceVersions_def find_resource_def
  proof (intro sure_tx sure_committed, rule sure_each [where I = "\<lambda>ds t'. t_resources t' = t_resources t"])
    fix v ds and t' :: tables assume t': "t_resources t' = t_resources t"
    have "map_option r_id (find (\<lambda>r. r_name r = n \<and> r_pipeline_id r = p) (t_resources t')) = Some r"
      using assms t' by (simp add: resource_id_def)
    moreover have "t_resources (version_inserted r type v t') = t_resources t" using t' by (simp add: version_inserted_def)
    ultimately show "sure (d_bind (query_row (\<lambda>t. map_option r_id (find (\<lambda>r. r_name r = n \<and> r_pipeline_id r = p) (t_resources t)))) (\<lambda>r.
          d_seq (saveVersionedResource r \<lparr>vr_Resource = n, vr_Type = type, vr_Version = v, vr_Metadata = []\<rparr>)
            (incrementCheckOrderWhenNewerVersion r type v))) t' (\<lambda>x t''. x = Inr () \<and> t_resources t'' = t_resources t)"
      by (intro sure_bind sure_query_row sure_seq)
        (auto simp: after_def split: sum.splits intro!: sure_seq sure_mono [OF sure_saveVersionedResource_row] sure_mono [OF sure_increment])
  qed simp_all
  with post_SaveResourceVersions [of p n type vs t] show ?thesis
    by (rule sure_mono [OF post_sure]) (use assms in auto)
qed

lemma sure_setError: "sure (setResourceCheckError env r err) t (\<lambda>x _. x = Inr ())"
  unfolding setResourceCheckError_def SetResourceCheckError_def update_resource_def
  by (intro sure_try sure_exec) (simp add: sure_return)

lemma sure_acquire:
  assumes "\<exists>r \<in> set (t_resources t). r_name r = n \<and> r_pipeline_id r = p_id p"
  shows "sure (acquire_loop (\<lambda>lock. AcquireResourceCheckingLockWithIntervalCheck p n lock i True) True (Acquired # ls)) t (\<lambda>x _. x = Inr (Some True))"
proof -
  let ?P = "\<lambda>r. r_name r = n \<and> r_pipeline_id r = p_id p"
  have "affected ?P (t_resources t) \<noteq> 0" using assms affected_pos [of ?P "t_resources t"] by simp
  then have c: "sure (checkIfResourceIntervalUpdated p n i True) t (\<lambda>x _. x = Inr True)"
    unfolding checkIfResourceIntervalUpdated_def checkIfRowsUpdated_def Let_def
    by (intro sure_tx sure_bind sure_stmt) (simp add: sure_return)
  show ?thesis unfolding sure_def
  proof (intro allI impI)
    fix s :: db assume s: "db_tables s = t" "healthy s"
    obtain x s' where r: "checkIfResourceIntervalUpdated p n i True s = (x, s')" by fastforce
    from sureD [OF c r s] r show "fst (acquire_loop (\<lambda>lock. AcquireResourceCheckingLockWithIntervalCheck p n lock i True) True (Acquired # ls) s) = Inr (Some True) \<and>
        healthy (snd (acquire_loop (\<lambda>lock. AcquireResourceCheckingLockWithIntervalCheck p n lock i True) True (Acquired # ls) s))"
      by (simp add: AcquireResourceCheckingLockWithIntervalCheck_def)
  qed
qed

text \<open>
  What a scan needs to get to the check: the resource is known and not paused, its interval, source and session
  are in order, no resource type has to be scanned first, the pipeline is not paused and the lock is free.
\<close>

definition scan_ready :: "scan_env \<Rightarrow> pipeline_row \<Rightarrow> string \<Rightarrow> resource_row \<Rightarrow> Source \<Rightarrow> int \<Rightarrow> tables \<Rightarrow> bool" where
  "scan_ready env p name saved src interval t \<longleftrightarrow>
     (let types = filter (\<lambda>y. y_active y \<and> y_pipeline_id y = p_id p) (t_resource_types t);
          type = resource_Type (r_config saved)
      in find (\<lambda>r. r_active r \<and> r_pipeline_id r = p_id p \<and> r_name r = name) (t_resources t) = Some saved \<and> \<not> r_paused saved \<and>
         checkInterval env (resource_CheckEvery (r_config saved)) = Inr interval \<and>
         (\<forall>y \<in> set types. y_name y = type \<longrightarrow> y_version y \<noteq> None) \<and>
         se_Evaluate env (resource_Source (r_config saved)) = Inr src \<and>
         \<not> isl (se_FindOrCreateSession env type src (ResourceTypes_Deserialize types)) \<and>
         \<not> isl (se_NewResource env type (ResourceTypes_Deserialize types)) \<and>
         (\<exists>locks. se_attempts env name = Acquired # locks) \<and>
         map_option p_paused (find (\<lambda>q. p_id q = p_id p) (t_pipelines t)) = Some False)"

lemma sure_scanner_check:
  assumes q: "quiet t t1" and np: "\<not> r_paused saved" and pl: "map_option p_paused (find (\<lambda>q. p_id q = p_id p) (t_pipelines t)) = Some False"
    and nr: "\<not> isl (se_NewResource env (resource_Type (r_config saved)) vts)" and c: "se_Check env src v = Inr vs"
    and r: "resource_id (p_id p) (r_name saved) t = Some r"
  shows "sure (scanner_check env p saved v vts src) t1 (\<lambda>x t'. x = Inr None \<and> (\<exists>t2. quiet t t2 \<and>
    t' = (if vs = [v] then t2 else fold (version_saved r (resource_Type (r_config saved))) vs t2)))"
proof -
  have 1: "sure (query_row (\<lambda>t. map_option p_paused (find (\<lambda>q. p_id q = p_id p) (t_pipelines t)))) t1 (\<lambda>x t'. x = Inr False \<and> t' = t1)"
    using q pl by (intro sure_query_row) (auto simp: quiet_def)
  have "\<exists>q \<in> set (t_pipelines t1). p_id q = p_id p" using q pl by (auto simp: quiet_def dest: find_sat)
  then have 2: "sure (pipeline_Reload p) t1 (\<lambda>x t'. x = Inr True \<and> t' = t1)" unfolding pipeline_Reload_def by (intro sure_query) simp
  have 3: "sure (setResourceCheckError env saved None) t1 (\<lambda>x t'. x = Inr () \<and> quiet t t')" by (rule sure_keeps [OF keeps_setError q sure_setError])
  obtain u where u: "se_NewResource env (resource_Type (r_config saved)) vts = Inr u" using nr by (cases "se_NewResource env (resource_Type (r_config saved)) vts") auto
  have 4: "sure (SaveResourceVersions (p_id p) (r_name saved) (resource_Type (r_config saved)) vs) t2
      (\<lambda>x t'. x = Inr () \<and> t' = fold (version_saved r (resource_Type (r_config saved))) vs t2)" if "quiet t t2" for t2
    using r that by (intro sure_SaveResourceVersions) (simp add: quiet_resource_id)
  show ?thesis
    unfolding scanner_check_def CheckPaused_def d_seq_def
    apply (rule sure_try_val [OF 1])
    apply (simp add: np)
    apply (rule sure_try_val [OF 2])
    apply (simp add: u c)
    apply (auto intro!: sure_return sure_bind_val [OF 3] sure_try_val [OF 4])
    done
qed

lemma sure_scan:
  assumes ready: "scan_ready env p name saved src interval t" and c: "se_Check env src (latest_version (p_id p) name t) = Inr vs"
    and r: "resource_id (p_id p) name t = Some r"
  shows "sure (scan env ts p name None True) t (\<lambda>x t'. x = Inr (Some (interval, None)) \<and> (\<exists>t2. quiet t t2 \<and>
    t' = (if vs = [latest_version (p_id p) name t] then t2 else fold (version_saved r (resource_Type (r_config saved))) vs t2)))"
proof -
  define types where "types = filter (\<lambda>y. y_active y \<and> y_pipeline_id y = p_id p) (t_resource_types t)"
  note R = ready [unfolded scan_ready_def Let_def, folded types_def]
  have n: "r_name saved = name" and ex: "\<exists>r \<in> set (t_resources t). r_name r = name \<and> r_pipeline_id r = p_id p" using R by (auto dest: find_sat)
  obtain rc where rc: "se_FindOrCreateSession env (resource_Type (r_config saved)) src (ResourceTypes_Deserialize types) = Inr rc"
    using R by (cases "se_FindOrCreateSession env (resource_Type (r_config saved)) src (ResourceTypes_Deserialize types)") auto
  obtain ls where ls: "se_attempts env name = Acquired # ls" using R by auto
  have no: "filter (\<lambda>y. y_name y = resource_Type (r_config saved) \<and> y_version y = None) types = []" using R by (auto simp: filter_empty_conv)
  have t: "sure (pipeline_ResourceTypes p) t (\<lambda>x t'. x = Inr types \<and> t' = t)" unfolding pipeline_ResourceTypes_def types_def by (intro sure_query) simp
  have s: "sure (resource_SetResourceConfig saved rc) t (\<lambda>x t'. x = Inr () \<and> quiet t t')"
    by (rule sure_keeps [OF keeps_SetResourceConfig(1)]) (simp_all add: resource_SetResourceConfig_def update_resource_def sure_exec)
  have a: "sure (acquire_loop (\<lambda>lock. AcquireResourceCheckingLockWithIntervalCheck p name lock interval True) True (Acquired # ls)) t1
      (\<lambda>x t'. x = Inr (Some True) \<and> quiet t t')" if q: "quiet t t1" for t1
  proof (rule sure_keeps [OF keeps_acquire_loop [where P = "quiet t", OF acquire_quiet(1)] q sure_acquire])
    have "r_id saved \<in> r_id ` set (t_resources t)" using R by (auto dest: find_sat)
    have "resource_id (p_id p) name t1 = Some r" using r q by (simp add: quiet_resource_id)
    then show "\<exists>r \<in> set (t_resources t1). r_name r = name \<and> r_pipeline_id r = p_id p" by (auto simp: resource_id_def dest: find_sat)
  qed
  have l: "sure (scan_locked env p saved name None interval (ResourceTypes_Deserialize types) src) t1 (\<lambda>x t'. x = Inr (Some (interval, None)) \<and> (\<exists>t2. quiet t t2 \<and>
    t' = (if vs = [latest_version (p_id p) name t] then t2 else fold (version_saved r (resource_Type (r_config saved))) vs t2)))" if q: "quiet t t1" for t1
  proof -
    have v: "(case latest_row (p_id p) name t1 of None \<Rightarrow> None | Some v \<Rightarrow> v_version v) = latest_version (p_id p) name t"
      using quiet_latest(1) [OF q] by (simp add: latest_version_def)
    have "sure (d_bind (GetLatestVersionedResource (p_id p) name) (\<lambda>vr. d_return (case vr of None \<Rightarrow> None | Some v \<Rightarrow> v_version v))) t1
        (\<lambda>x t'. x = Inr (latest_version (p_id p) name t) \<and> t' = t1)"
      unfolding GetLatestVersionedResource_def latest_row_def [symmetric] by (intro sure_bind sure_query) (simp add: v sure_return)
    note g = this
    show ?thesis
      unfolding scan_locked_def if_P [OF refl]
      by (rule sure_try_val [OF g], hypsubst, rule sure_bind, rule sure_mono [OF sure_scanner_check [OF q _ _ _ c]])
        (use R r n in \<open>auto simp: after_def intro!: sure_return\<close>)
  qed
  show ?thesis
    unfolding scan_def pipeline_Resource_def
    apply (rule sure_try_val [where x = "Some saved" and P = "\<lambda>t'. t' = t"], intro sure_query, use R in simp)
    apply (use R in \<open>simp add: no rc ls n Let_def\<close>)
    apply (rule sure_try_val [OF t])
    apply (simp add: no)
    apply (rule sure_try_val [OF t])
    apply (use R in \<open>simp add: rc ls n\<close>)
    apply (rule sure_try_val [OF s])
    apply (rule sure_bind_val [OF a], assumption)
    apply (simp only: option.case bool.case)
    apply (rule sure_mono [OF l], assumption, auto)
    done
qed

section \<open>The histories after a scan\<close>

lemma quiet_history: "quiet t t' \<Longrightarrow> history r type t' = history r type t" "quiet t t' \<Longrightarrow> version_keys_ok t' = version_keys_ok t"
  by (simp_all add: quiet_def history_def typed_rows_def version_keys_ok_def)

lemma saved_resource_id:
  assumes "schema_ok t" and "find (\<lambda>r. r_active r \<and> r_pipeline_id r = p \<and> r_name r = n) (t_resources t) = Some saved"
  shows "resource_id p n t = Some (r_id saved)"
    and "r \<in> set (t_resources t) \<Longrightarrow> r_name r = n \<Longrightarrow> r_pipeline_id r = p \<Longrightarrow> r = saved"
proof -
  have s: "saved \<in> set (t_resources t)" "r_pipeline_id saved = p" "r_name saved = n" using assms(2) by (auto dest: find_sat)
  have d: "distinct (map (\<lambda>r. (r_pipeline_id r, r_name r)) (t_resources t))" using assms(1) by (simp add: schema_ok_def key_defs)
  then have u: "r = saved" if "r \<in> set (t_resources t)" "r_name r = n" "r_pipeline_id r = p" for r
    using that s by (auto simp: distinct_map dest: inj_onD)
  then show "r \<in> set (t_resources t) \<Longrightarrow> r_name r = n \<Longrightarrow> r_pipeline_id r = p \<Longrightarrow> r = saved" .
  have "find (\<lambda>r. r_name r = n \<and> r_pipeline_id r = p) (t_resources t) \<noteq> None" using s by (auto simp: find_None_iff)
  then obtain r where "find (\<lambda>r. r_name r = n \<and> r_pipeline_id r = p) (t_resources t) = Some r" by auto
  moreover from this have "r = saved" using u by (auto dest: find_sat)
  ultimately show "resource_id p n t = Some (r_id saved)" by (simp add: resource_id_def)
qed

text \<open>All versions of a resource have one type.\<close>

definition one_type :: "int \<Rightarrow> string \<Rightarrow> tables \<Rightarrow> bool" where
  "one_type r type t \<longleftrightarrow> (\<forall>v \<in> set (t_versions t). v_resource_id v = r \<longrightarrow> v_type v = type)"

lemma one_type_saved: "one_type r type t \<Longrightarrow> one_type r type (version_saved r type v t)"
  by (auto simp: one_type_def version_saved_def version_raised_def version_inserted_def Let_def ball_update_where)

lemma one_type_fold: "one_type r type t \<Longrightarrow> one_type r type (fold (version_saved r type) vs t)"
  by (induction vs arbitrary: t) (simp_all add: one_type_saved)

lemma fold_version_saved_resources: "t_resources (fold (version_saved r type) vs t) = t_resources t"
  by (induction vs arbitrary: t) (simp_all add: version_saved_resources)

lemma fold_version_keys: "version_keys_ok t \<Longrightarrow> version_keys_ok (fold (version_saved r type) vs t)"
  by (induction vs arbitrary: t) (simp_all add: version_keys_saved)

lemma latest_after:
  assumes "version_keys_ok t" and "one_type r type t" and "vs \<noteq> []"
    and "\<And>i. (\<exists>q \<in> set (t_resources t). r_id q = i \<and> r_name q = n \<and> r_pipeline_id q = p) = (i = r)"
  shows "latest_version p n (fold (version_saved r type) vs t) = last vs"
proof -
  obtain us v where vs: "vs = us @ [v]" using assms(3) by (metis rev_exhaust)
  let ?u = "fold (version_saved r type) us t"
  have o: "one_type r type (version_saved r type v ?u)" by (intro one_type_saved one_type_fold assms(2))
  have "resource_versions p n (version_saved r type v ?u) = typed_rows r type (version_saved r type v ?u)"
    unfolding resource_versions_def typed_rows_def version_saved_resources fold_version_saved_resources assms(4)
    using o by (intro filter_cong) (auto simp: one_type_def)
  then show ?thesis using latest_saved [OF fold_version_keys [OF assms(1)]] by (simp add: vs)
qed

lemma quiet_resource_ids:
  assumes "quiet t t'"
  shows "(\<exists>q \<in> set (t_resources t'). r_id q = i \<and> r_name q = n \<and> r_pipeline_id q = p) = (\<exists>q \<in> set (t_resources t). r_id q = i \<and> r_name q = n \<and> r_pipeline_id q = p)"
proof -
  have "scan_core ` set (t_resources t') = scan_core ` set (t_resources t)" using assms by (metis list.set_map quiet_def)
  then have "(\<exists>q \<in> scan_core ` set (t_resources t'). r_id q = i \<and> r_name q = n \<and> r_pipeline_id q = p) =
      (\<exists>q \<in> scan_core ` set (t_resources t). r_id q = i \<and> r_name q = n \<and> r_pipeline_id q = p)" by simp
  then show ?thesis by simp
qed


text \<open>The check of the resource of the small database finds the version it started from and a new one.\<close>

definition web_env :: scan_env where
  "web_env = \<lparr>se_defaultInterval = 60, se_Evaluate = Inr, se_FindOrCreateSession = (\<lambda>_ _ _. Inr 1), se_NewResource = (\<lambda>_ _. Inr ()),
     se_Check = (\<lambda>_ v. Inr [v, Some [(''ref'', ''b'')]]), se_attempts = (\<lambda>_. [Acquired]), se_Error = (\<lambda>_. ''error'')\<rparr>"

lemmas web_defs = web_db_def web_tables_def web_pipeline_def web_team_def web_resource_row_def web_resource_def

lemma web_scan_ready: "scan_ready web_env web_pipeline ''repo'' web_resource_row [] 60 (db_tables web_db)"
  by (simp add: scan_ready_def Let_def web_env_def checkInterval_def web_defs)

lemma web_latest: "latest_version (p_id web_pipeline) ''repo'' (db_tables web_db) = Some [(''ref'', ''a'')]"
  by code_simp

lemma web_history: "history 1 ''git'' (db_tables web_db) = [Some [(''ref'', ''a'')]]"
  by (simp add: history_def typed_rows_def web_defs)


text \<open>Whatever fails, a scan changes no history except by appending what the check returned from the latest version.\<close>

theorem scan_history:
  fixes s :: db
  assumes "schema_ok (db_tables s)" and "scan env (\<lambda>parent. type_scan n env p parent True) p name from mustComplete s = (x, s')"
  shows "(\<forall>r type. history r type (db_tables s') = history r type (db_tables s)) \<or>
    (\<exists>saved src vs. saved \<in> set (t_resources (db_tables s)) \<and> r_name saved = name \<and> r_pipeline_id saved = p_id p \<and> r_active saved \<and> \<not> r_paused saved \<and>
       (\<exists>pl \<in> set (t_pipelines (db_tables s)). p_id pl = p_id p \<and> \<not> p_paused pl) \<and>
       se_Evaluate env (resource_Source (r_config saved)) = Inr src \<and>
       se_Check env src (if from = None then latest_version (p_id p) name (db_tables s) else from) = Inr vs \<and>
       (\<forall>r type. history r type (db_tables s') =
          (if r = r_id saved \<and> type = resource_Type (r_config saved) then fold newest vs else (\<lambda>h. h)) (history r type (db_tables s))))"
proof -
  let ?t = "db_tables s"
  have "quiet ?t (db_tables s') \<or> (\<exists>saved src. find (\<lambda>r. r_active r \<and> r_pipeline_id r = p_id p \<and> r_name r = name) (t_resources ?t) = Some saved \<and>
        se_Evaluate env (resource_Source (r_config saved)) = Inr src \<and>
        versions_found env p saved src (if from = None then latest_version (p_id p) name ?t else from) ?t (db_tables s'))"
    using postD [OF post_scan [OF keeps_type_scan] assms(2) refl] by simp
  then show ?thesis
  proof (elim disjE exE conjE)
    assume "quiet ?t (db_tables s')"
    then show ?thesis by (simp add: quiet_history)
  next
    fix saved src
    assume f: "find (\<lambda>r. r_active r \<and> r_pipeline_id r = p_id p \<and> r_name r = name) (t_resources ?t) = Some saved"
      and e: "se_Evaluate env (resource_Source (r_config saved)) = Inr src"
      and v: "versions_found env p saved src (if from = None then latest_version (p_id p) name ?t else from) ?t (db_tables s')"
    have sv: "saved \<in> set (t_resources ?t)" "r_name saved = name" "r_pipeline_id saved = p_id p" "r_active saved" using f by (auto dest: find_sat)
    obtain vs t1 where c: "se_Check env src (if from = None then latest_version (p_id p) name ?t else from) = Inr vs" and q: "quiet ?t t1"
      and t': "db_tables s' = fold (version_saved (r_id saved) (resource_Type (r_config saved))) vs t1"
      using v saved_resource_id(1) [OF assms(1) f] sv(2) by (auto simp: versions_found_def)
    have k: "version_keys_ok t1" using assms(1) quiet_history(2) [OF q] by (simp add: schema_ok_def keys_ok_def)
    have "history r type (db_tables s') = (if r = r_id saved \<and> type = resource_Type (r_config saved) then fold newest vs else (\<lambda>h. h)) (history r type ?t)" for r type
      using history_saved_all [OF k] quiet_history(1) [OF q] by (auto simp: t')
    then show ?thesis using sv e c v unfolding versions_found_def by blast
  qed
qed

section \<open>Where the code does less than it means to\<close>

text \<open>
  The check order of a new version is raised above those of its own type only, while the latest version is
  sought among all types: after the type of a resource has changed, a version of the old type stays the latest.
\<close>

lemma type_change_hides_versions:
  assumes "\<And>i. (\<exists>q \<in> set (t_resources t). r_id q = i \<and> r_name q = n \<and> r_pipeline_id q = p) = (i = r)"
    and "q \<in> set (t_versions t)" "v_resource_id q = r" "v_type q \<noteq> type"
    and above: "\<And>row. row \<in> set (typed_rows r type (version_inserted r type v t)) \<Longrightarrow> v_check_order row + 1 < v_check_order q"
  shows "\<exists>row. latest_row p n (version_saved r type v t) = Some row \<and> v_type row \<noteq> type"
proof -
  let ?t = "version_saved r type v t" and ?u = "version_inserted r type v t"
  have rv: "resource_versions p n ?t = filter (\<lambda>v. v_resource_id v = r) (t_versions ?t)"
    by (simp add: resource_versions_def version_saved_resources assms(1))
  have "q \<in> set (t_versions ?u)" "\<not> same_version r type v q" using assms(2,4) by (auto simp: version_inserted_def same_version_def)
  then have "q \<in> set (t_versions ?t)"
    unfolding version_saved_def version_raised_def Let_def by (simp add: in_update_where) (intro bexI [of _ q]; simp)
  then have q: "q \<in> set (resource_versions p n ?t)" using assms(3) by (simp add: rv)
  obtain row rest where s: "sort_key (\<lambda>v. - v_check_order v) (resource_versions p n ?t) = row # rest"
    using q by (metis empty_iff list.exhaust list.set(1) set_sort)
  have "sorted (map (\<lambda>v. - v_check_order v) (row # rest))" by (metis s sorted_sort_key)
  moreover have rs: "set (row # rest) = set (resource_versions p n ?t)" by (metis s set_sort)
  ultimately have le: "v_check_order q \<le> v_check_order row" using q by auto
  have "v_type row \<noteq> type"
  proof
    assume "v_type row = type"
    then have "row \<in> set (typed_rows r type ?t)" using rs by (auto simp: rv typed_rows_def)
    then obtain w where w: "w \<in> set (typed_rows r type ?u)"
      and row: "row = (if v_version w = v then w\<lparr>v_check_order := Max (v_check_order ` set (typed_rows r type ?u)) + 1\<rparr> else w)"
      unfolding version_saved_def typed_rows_raised in_update_where by blast
    have "Max (v_check_order ` set (typed_rows r type ?u)) \<in> v_check_order ` set (typed_rows r type ?u)" using w by (intro Max_in) auto
    then have "Max (v_check_order ` set (typed_rows r type ?u)) + 1 < v_check_order q" using above by auto
    then show False using le above [OF w] row by (simp split: if_splits)
  qed
  then show ?thesis using s by (simp add: latest_row_def)
qed

text \<open>
  An error while the interval of a resource type is updated leaves its lock held, and no one has a handle to
  release it; the variant for resources holds the lock exactly when it returns it.
\<close>

lemma resource_lock_held:
  assumes "AcquireResourceCheckingLockWithIntervalCheck p n l i b s = ((x, held), s')"
  shows "held \<longleftrightarrow> x = Inr True"
  using assms by (auto simp: AcquireResourceCheckingLockWithIntervalCheck_def split: lock_result.splits prod.splits sum.splits if_splits)

lemma type_lock_leaked:
  assumes "db_fails s (db_ticks s)"
  shows "\<exists>s'. AcquireResourceTypeCheckingLockWithIntervalCheck p n Acquired i b s = ((Inl SqlError, True), s')"
proof -
  have "fst (checkIfResourceTypeIntervalUpdated p n i b s) = Inl SqlError"
    using assms by (simp add: checkIfResourceTypeIntervalUpdated_def tx_def d_bind_def query_def stmt_def Let_def)
  then show ?thesis by (auto simp: AcquireResourceTypeCheckingLockWithIntervalCheck_def split: prod.splits)
qed

text \<open>Two resource types without a version that are of each other's type are scanned for ever.\<close>

lemma type_scan_cycle:
  assumes "filter (\<lambda>y. y_active y \<and> y_pipeline_id y = p_id p) (t_resource_types t) = [a, b]" and "y_name a \<noteq> y_name b"
    and "y_type a = y_name b" "y_type b = y_name a" and "y_version a = None" "y_version b = None"
    and "name = y_name a \<or> name = y_name b"
  shows "sure (type_scan n env p name must) t (\<lambda>x t'. x = Inr None \<and> t' = t)"
  using assms(7)
proof (induction n arbitrary: name must)
  case 0
  then show ?case by (simp add: sure_return)
next
  case (Suc n)
  let ?act = "\<lambda>y. y_active y \<and> y_pipeline_id y = p_id p"
  have find_filter: "find (\<lambda>y. y_active y \<and> y_pipeline_id y = p_id p \<and> y_name y = name) ys = find (\<lambda>y. y_name y = name) (filter ?act ys)" for ys
    by (induction ys) auto
  have r: "sure (pipeline_ResourceType p name) t (\<lambda>x t'. x = Inr (find (\<lambda>y. y_name y = name) [a, b]) \<and> t' = t)"
    unfolding pipeline_ResourceType_def find_filter by (intro sure_query) (simp add: assms(1))
  have t: "sure (pipeline_ResourceTypes p) t (\<lambda>x t'. x = Inr [a, b] \<and> t' = t)"
    unfolding pipeline_ResourceTypes_def by (intro sure_query) (simp add: assms(1))
  have ih: "sure (type_scan n env p parent True) t (\<lambda>x t'. x = Inr None \<and> t' = t)" if "parent = y_name a \<or> parent = y_name b" for parent
    using Suc.IH that by blast
  from Suc.prems assms(2-6) show ?case
    unfolding type_scan.simps type_scan_with_def Let_def
    by (elim disjE) (rule sure_try_val [OF r], simp, rule sure_try_val [OF t], simp, rule sure_bind_val [OF ih], simp, simp add: sure_return)+
qed

end
