(* ===== verification/Spec2Isabelle.thy ===== *)
theory Spec2Isabelle
  imports Every_Version Delegate_Correct Scheduler_Inputs Api_Correct Config_Correct Radar_Correct
begin

text \<open>
  Verification of the ATC, the scheduling and build component of Concourse (Go, under \<open>src/\<close>).

  \<^bold>\<open>The program.\<close> A pipeline is a configuration of resources and jobs (\<open>config.go\<close>, \<open>job_config.go\<close>,
  \<open>validate.go\<close>). For each pipeline a runner ticks (\<open>scheduler/runner.go\<close>): it resolves the versions of the
  inputs of each job (\<open>db/algorithm\<close>), stores them, makes a pending build when a triggering input has a new
  version, and tries to start the pending builds of each job within the limit of builds in flight. To start
  a build, its job is turned into a plan (\<open>scheduler/factory\<close>, \<open>plan.go\<close>), the plan is stored with the build
  (\<open>engine/db_engine.go\<close>, \<open>db/build.go\<close>), and a goroutine resumes it: the plan becomes a tree of steps
  (\<open>engine/build_step.go\<close>) that run their actions (\<open>exec\<close>), report to a delegate that saves events, inputs
  and outputs, and end in a status (\<open>engine/exec_engine.go\<close>). Several ATCs share one database; locks in it
  keep them apart (\<open>db/lock\<close>). Users and workers reach the program by an HTTP API whose routes are guarded by
  checks of the token of the request (\<open>routes.go\<close>, \<open>wrappa\<close>, \<open>api\<close>).

  \<^bold>\<open>Shared theories.\<close> \<open>Prelude\<close> has Go's maps and sets as association lists and distinct lists, and
  \<open>sort.Search\<close>; \<open>Go_Strings\<close> the functions of \<open>strings\<close> and \<open>strconv\<close> in use; \<open>Go_Duration\<close>
  \<open>time.ParseDuration\<close> with its 64-bit overflow checks and exact fractions.

  \<^bold>\<open>Version resolution.\<close> \<open>Int_Sets\<close> (\<open>build_set.go\<close>, \<open>job_set.go\<close>), \<open>Versions\<close> (\<open>version.go\<close>,
  \<open>version_candidates.go\<close>, \<open>constraint.go\<close>), \<open>Versions_DB\<close> (\<open>db.go\<close>, \<open>existing_build_resolver.go\<close>), \<open>Resolver\<close>
  (\<open>input_candidates.go\<close>, \<open>input_configs.go\<close>). The search \<open>Reduce\<close> recurses with a fuel of the number of
  inputs plus one; \<open>Reduce_total\<close> shows that this is always enough, since each call fixes one more input.
  \<open>Resolver_Correct\<close> shows that the search returns the first consistent choice in the order of the
  candidates, and \<open>Input_Resolution\<close> and \<open>Every_Version\<close> what that means for the pipeline: soundness,
  completeness, newest versions, totality, first occurrences, no skipped versions, and a case in which a
  pinned input escapes its constraints (C1 to C7).

  \<^bold>\<open>Configuration.\<close> \<open>Task_Config\<close> (\<open>task.go\<close>: merge and validation of tasks, C8, C9), \<open>Config_Data\<close>
  (\<open>config.go\<close>, \<open>job_config.go\<close>: the version config survives being stored, C10), \<open>Validate\<close> (\<open>validate.go\<close>:
  the accepted pipelines, C11).

  \<^bold>\<open>Plans.\<close> \<open>Plan_Data\<close> (\<open>plan.go\<close>, \<open>plan_factory.go\<close>, \<open>public_plan.go\<close>: the public view is redacted, C12),
  \<open>Build_Factory\<close> (\<open>scheduler/factory/build_factory.go\<close>) and \<open>Build_Factory_Correct\<close> (a plan for every job of
  a valid pipeline, unique ids, the inputs fetched, puts before the gets that depend on them, C13 to C16).

  \<^bold>\<open>Steps and engine.\<close> \<open>Exec_Steps\<close> has one definition per \<open>Run\<close> method of \<open>exec\<close>; what an action returns,
  which timers fire and which steps get a signal are fields of an environment. \<open>Exec_Correct\<close> relates a run
  to a verdict defined by recursion on the description of the build, excludes panics, and has a case in
  which an abort is lost (C17 to C19). \<open>Engine\<close> (\<open>engine/build_step.go\<close>, \<open>engine/exec_engine.go\<close>) builds steps
  from plans, \<open>Delegate\<close> (\<open>engine/exec_engine_build_delegate.go\<close>, \<open>engine/build_step_delegate.go\<close>) saves what
  they report; \<open>Engine_Correct\<close> and \<open>Delegate_Correct\<close> compose the whole way from a valid job to the saved
  status and implicit outputs (C20, C21).

  \<^bold>\<open>Locks.\<close> \<open>Locks\<close> (\<open>db/lock/lock.go\<close>) with the CRC of names, the registry of an ATC and the advisory locks
  of the database, once as sequential operations and once as a transition system with one client per
  attempt; \<open>Locks_Correct\<close>: mutual exclusion, acquire and release, unique keys (C22 to C24).

  \<^bold>\<open>Database.\<close> \<open>Database\<close> has the tables as records of rows and an operation as a state transformer that
  returns a value or an error. Every statement may fail: which ones do is a function of the number of
  statements run before, and a transaction that fails or is not committed restores the tables. Three
  judgements carry the proofs: an operation keeps an invariant (\<open>keeps\<close>), satisfies a postcondition whatever
  fails (\<open>post\<close>), and has an outcome when nothing fails (\<open>sure\<close>). \<open>Build_DB\<close> and \<open>Job_DB\<close> translate \<open>db/build.go\<close>,
  \<open>db/job.go\<close> and parts of \<open>db/pipeline.go\<close>; \<open>Build_Lifecycle\<close> has their postconditions and the invariant of
  the builds. \<open>Db_Engine\<close> (\<open>engine/db_engine.go\<close>, \<open>builds/tracker.go\<close>) works over them through the locales
  \<open>build_closing\<close> and \<open>build_store\<close>, interpreted for three invariants; \<open>Db_Engine_Correct\<close>: a build ends once,
  a pending build can be aborted, a started one that nobody tracks is lost by an abort, and the status of a
  finished one is overwritten (C25 to C28).

  \<^bold>\<open>Scheduler.\<close> \<open>Scheduler\<close> translates \<open>scheduler/\<close>; \<open>Scheduler_Correct\<close>: the limit of builds in flight under
  every order of complete operations, and the build that blocks its group (C29, C30); \<open>Scheduler_Inputs\<close>: the
  way of the inputs from the resolver to the build, builds for new versions, and progress (C31 to C34).

  \<^bold>\<open>API.\<close> \<open>Team_DB\<close> has the teams, pipelines and workers of the database with the deletions the schema
  cascades. \<open>Api_Auth\<close> (\<open>api/auth\<close>) has requests, tokens and every check; a request keeps the URL query and the
  fields of a form in the body apart, because the code reads them in different places. \<open>Api_Server\<close> has the
  table of routes and handlers, the choice of the check of each route, and the handlers that change pipelines,
  jobs, versions, workers and teams; the other handlers are arguments. \<open>Api_Guards\<close> shows how a request passes
  the handlers in front of a route, and has the judgement \<open>guarded\<close>: refuse and change nothing, or call the
  handler in a described situation. \<open>Api_Checks\<close> states it as the contract of a check, the locale
  \<open>access_check\<close>, interpreted for each of the checks; the properties rest on its rule for a served route.
  \<open>Api_Correct\<close>: tokens and CSRF tokens are needed, pipelines are changed by
  their team and private pipelines and builds shown to it only, and a form in the body reaches pipelines of
  other teams (C35 to C40); further lemmas show who changes workers and that an admin team remains.

  \<^bold>\<open>Conventions.\<close> Go values are copied, so structs are records and updates are functional. A map that may be
  nil is an option. A panic is a value of the model, never an unspecified term. Iteration over a Go map is
  over the list of its keys in the order of insertion; the theorems hold for every such order because the
  lists are arbitrary. SQL statements are modelled by what they select and change; the uniqueness and
  reference constraints of the schema appear as named hypotheses where a theorem needs them.

  \<^bold>\<open>Not modelled.\<close> The presentation of replies as JSON, response headers and the handlers of the API that are
  arguments here; the parser of JSON web tokens and the router (third party); the command line and the web
  assets; resource checking and garbage collection; the worker transport, containers and volumes (Garden and Baggageclaim
  clients); credential managers, metrics and logging; the SQL text, migrations, encryption and the
  notification bus; the interleaving of single statements of different operations, for which the code relies
  on locks; counterfeiter fakes and vendored code.
\<close>

end
